(* ===== verification/Prelude.thy ===== *)
theory Prelude
  imports "HOL-Library.Word" "HOL-Library.Product_Lexorder"
begin

section \<open>Shared vocabulary of the AVBox model\<close>

text \<open>
  What every component theory uses: the Python exceptions the analyzers raise and the
  result type that carries them, bytes and text, Python slicing and \<open>struct\<close>/\<open>int.from_bytes\<close>
  decoding, decimal and hexadecimal formatting, and the generic lemmas (collected in
  \<open>py_simps\<close> and \<open>safe_intros\<close>) that let the component proofs run on \<open>simp\<close> and \<open>auto\<close>.
\<close>

named_theorems py_simps \<open>evaluation rules for the Python primitives\<close>
named_theorems safe_intros \<open>rules showing that a computation raises only expected exceptions\<close>

subsection \<open>Exceptions and results\<close>

text \<open>
  One constructor per exception class the modelled code raises or lets escape; a message is
  kept where the code reads it again. \<open>OutOfFuel\<close> is no Python exception: it is what a loop of
  the model gives when its fuel runs out, and is proved unreachable. \<open>ExternalError\<close> (class name and
  message) is an exception of code outside the repository, and \<open>error_code\<close> is the enum that
  \<open>RABProtocolError\<close> carries. A fallible operation returns \<open>py_exn + 'a\<close>.
\<close>

datatype error_code =
    INVALID_REQUEST | UNSUPPORTED_PROTOCOL_VERSION | AUTHENTICATION_REQUIRED | FORBIDDEN
  | OBJECT_HASH_MISMATCH | OBJECT_TOO_LARGE | UNSUPPORTED_PROFILE | IDEMPOTENCY_CONFLICT
  | QUEUE_FULL | ANALYZER_UNAVAILABLE | ANALYSIS_FAILED | STORAGE_UNAVAILABLE | INTERNAL_ERROR
  | NOT_FOUND

datatype py_exn =
    StructError
  | IndexError
  | ZeroDivisionError
  | RecursionError
  | OSError
  | UnicodeDecodeError
  | PartitionTableError string
  | DiskImageError string
  | ExecutableError string
  | DocumentError string
  | ValueError string
  | RuntimeError string
  | RegistryError string
  | PermissionError string
  | TypeError string
  | NotImplementedError string
  | ValidationError
  | JSONDecodeError
  | KeyError string
  | ExternalError string string
  | RABProtocolError nat error_code string
  | IntegrityError
  | OutOfFuel

type_synonym 'a res = "py_exn + 'a"

definition bindE :: "'e + 'a \<Rightarrow> ('a \<Rightarrow> 'e + 'b) \<Rightarrow> 'e + 'b" where
  "bindE m f = (case m of Inl e \<Rightarrow> Inl e | Inr v \<Rightarrow> f v)"

lemma bindE_simps [simp]:
  "bindE (Inl e) f = Inl e"
  "bindE (Inr v) f = f v"
  by (simp_all add: bindE_def)

lemma bindE_cong [fundef_cong]:
  assumes "m = m'" and "\<And>v. m' = Inr v \<Longrightarrow> f v = g v"
  shows "bindE m f = bindE m' g"
  using assms by (cases m') auto

lemma bindE_eq_Inr [simp]: "bindE m f = Inr y \<longleftrightarrow> (\<exists>v. m = Inr v \<and> f v = Inr y)"
  by (cases m) auto

lemma bindE_eq_Inl: "bindE m f = Inl e \<longleftrightarrow> m = Inl e \<or> (\<exists>v. m = Inr v \<and> f v = Inl e)"
  by (cases m) auto

lemma bindE_assoc: "bindE (bindE m f) g = bindE m (\<lambda>v. bindE (f v) g)"
  by (cases m) auto

text \<open>A Python loop whose body may raise: the state is threaded, the first error ends it.\<close>

fun foldE :: "('a \<Rightarrow> 's \<Rightarrow> 'e + 's) \<Rightarrow> 'a list \<Rightarrow> 's \<Rightarrow> 'e + 's" where
  "foldE f [] s = Inr s"
| "foldE f (x # xs) s = bindE (f x s) (foldE f xs)"

fun mapE :: "('a \<Rightarrow> 'e + 'b) \<Rightarrow> 'a list \<Rightarrow> 'e + 'b list" where
  "mapE f [] = Inr []"
| "mapE f (x # xs) = bindE (f x) (\<lambda>y. bindE (mapE f xs) (\<lambda>ys. Inr (y # ys)))"

lemma foldE_append: "foldE f (xs @ ys) s = bindE (foldE f xs s) (foldE f ys)"
  by (induction xs arbitrary: s) (simp_all add: bindE_assoc bindE_def split: sum.split)

lemma foldE_invariant:
  assumes "foldE f xs s = Inr t" and "P s"
    and "\<And>x s t. x \<in> set xs \<Longrightarrow> P s \<Longrightarrow> f x s = Inr t \<Longrightarrow> P t"
  shows "P t"
  using assms by (induction xs arbitrary: s) auto

text \<open>
  \<open>raises_only P m\<close>: if \<open>m\<close> raises, the exception satisfies \<open>P\<close>. It composes along
  \<open>bindE\<close>, so a safety proof follows the code.
\<close>

definition raises_only :: "('e \<Rightarrow> bool) \<Rightarrow> 'e + 'a \<Rightarrow> bool" where
  "raises_only P m \<longleftrightarrow> (case m of Inl e \<Rightarrow> P e | Inr _ \<Rightarrow> True)"

lemma raises_only_simps [simp]:
  "raises_only P (Inl e) = P e"
  "raises_only P (Inr v)"
  by (simp_all add: raises_only_def)

lemma raises_only_bindE [safe_intros]:
  assumes "raises_only P m" and "\<And>v. m = Inr v \<Longrightarrow> raises_only P (f v)"
  shows "raises_only P (bindE m f)"
  using assms by (cases m) auto

lemma raises_only_if [safe_intros]:
  assumes "b \<Longrightarrow> raises_only P x" and "\<not> b \<Longrightarrow> raises_only P y"
  shows "raises_only P (if b then x else y)"
  using assms by simp

lemma raises_only_foldE:
  assumes "I s" and "\<And>x s. x \<in> set xs \<Longrightarrow> I s \<Longrightarrow> raises_only P (f x s)"
    and "\<And>x s t. x \<in> set xs \<Longrightarrow> I s \<Longrightarrow> f x s = Inr t \<Longrightarrow> I t"
  shows "raises_only P (foldE f xs s)"
  using assms
proof (induction xs arbitrary: s)
  case (Cons x xs)
  show ?case unfolding foldE.simps
  proof (rule raises_only_bindE)
    fix t assume "f x s = Inr t"
    with Cons.prems have "I t" by (meson list.set_intros(1))
    then show "raises_only P (foldE f xs t)"
      using Cons.prems(2,3) by (rule Cons.IH) simp_all
  qed (use Cons.prems in simp)
qed simp

lemma raises_only_mono: "raises_only P m \<Longrightarrow> (\<And>e. P e \<Longrightarrow> Q e) \<Longrightarrow> raises_only Q m"
  by (cases m) auto

lemma raises_onlyD: "raises_only P m \<Longrightarrow> m = Inl e \<Longrightarrow> P e"
  by simp

text \<open>\<open>ensures Q m\<close>: if \<open>m\<close> returns, the value satisfies \<open>Q\<close>; the dual of \<open>raises_only\<close>.\<close>

definition ensures :: "('a \<Rightarrow> bool) \<Rightarrow> 'e + 'a \<Rightarrow> bool" where
  "ensures Q m \<longleftrightarrow> (case m of Inl _ \<Rightarrow> True | Inr v \<Rightarrow> Q v)"

lemma ensures_simps [simp]:
  "ensures Q (Inl e)"
  "ensures Q (Inr v) = Q v"
  by (simp_all add: ensures_def)

lemma ensures_bindE: "(\<And>v. m = Inr v \<Longrightarrow> ensures Q (f v)) \<Longrightarrow> ensures Q (bindE m f)"
  by (cases m) auto

lemma ensures_if: "(b \<Longrightarrow> ensures Q x) \<Longrightarrow> (\<not> b \<Longrightarrow> ensures Q y) \<Longrightarrow> ensures Q (if b then x else y)"
  by simp

lemma ensuresD: "ensures Q m \<Longrightarrow> m = Inr v \<Longrightarrow> Q v"
  by simp

subsection \<open>Bytes, text and slicing\<close>

text \<open>
  \<open>bytes\<close> are lists of 8-bit words; decoded text is a list of code points. \<open>string\<close> is kept
  for the program's own ASCII literals (messages, identifiers, dictionary keys).
\<close>

type_synonym byte = "8 word"
type_synonym bytes = "byte list"
type_synonym pystr = "nat list"

definition asc :: "string \<Rightarrow> pystr" where
  "asc s = map of_char s"

definition ascb :: "string \<Rightarrow> bytes" where
  "ascb s = map of_char s"

definition latin1 :: "bytes \<Rightarrow> pystr" where
  "latin1 bs = map unat bs"

text \<open>\<open>xs[a:b]\<close> for non-negative bounds.\<close>

definition pyslice :: "'a list \<Rightarrow> nat \<Rightarrow> nat \<Rightarrow> 'a list" where
  "pyslice xs a b = take (b - a) (drop a xs)"

lemma length_pyslice [simp]: "length (pyslice xs a b) = min (b - a) (length xs - a)"
  by (simp add: pyslice_def)

lemma pyslice_nth: "i < b - a \<Longrightarrow> a + i < length xs \<Longrightarrow> pyslice xs a b ! i = xs ! (a + i)"
  by (simp add: pyslice_def)

lemma pyslice_append:
  assumes "a \<le> b" and "b \<le> c"
  shows "pyslice xs a b @ pyslice xs b c = pyslice xs a c"
proof -
  obtain k m where "b = a + k" and "c = a + k + m"
    using assms by (metis le_Suc_ex)
  then show ?thesis by (simp add: pyslice_def take_add add.commute)
qed

lemma pyslice_empty [simp]: "b \<le> a \<Longrightarrow> pyslice xs a b = []"
  by (simp add: pyslice_def)

lemma set_pyslice: "set (pyslice xs a b) \<subseteq> set xs"
  unfolding pyslice_def by (meson order_trans set_drop_subset set_take_subset)

subsection \<open>Integer decoding\<close>

text \<open>\<open>int.from_bytes(bs, "little")\<close> and \<open>int.from_bytes(bs, "big")\<close>.\<close>

fun le_int :: "bytes \<Rightarrow> nat" where
  "le_int [] = 0"
| "le_int (b # bs) = unat b + 256 * le_int bs"

definition be_int :: "bytes \<Rightarrow> nat" where
  "be_int bs = le_int (rev bs)"

lemma le_int_bound: "le_int bs < 256 ^ length bs"
proof (induction bs)
  case (Cons b bs)
  have "unat b < 256" using unsigned_less [of b] by simp
  with Cons show ?case by simp
qed simp

lemma be_int_bound: "be_int bs < 256 ^ length bs"
  using le_int_bound [of "rev bs"] by (simp add: be_int_def)

lemma le_int_bound_le: "length bs \<le> n \<Longrightarrow> le_int bs < 256 ^ n"
  by (meson le_int_bound less_le_trans one_le_numeral power_increasing)

lemma be_int_bound_le: "length bs \<le> n \<Longrightarrow> be_int bs < 256 ^ n"
  by (simp add: be_int_def le_int_bound_le)

text \<open>Two's complement reading of an unsigned value of the given width.\<close>

definition signed_of :: "nat \<Rightarrow> nat \<Rightarrow> int" where
  "signed_of bits v = (if v < 2 ^ (bits - 1) then int v else int v - 2 ^ bits)"

text \<open>\<open>int.from_bytes(data[off:off+n], ...)\<close>: total, a short slice reads fewer bytes.\<close>

definition le_at :: "nat \<Rightarrow> bytes \<Rightarrow> nat \<Rightarrow> nat" where
  "le_at n data off = le_int (pyslice data off (off + n))"

definition be_at :: "nat \<Rightarrow> bytes \<Rightarrow> nat \<Rightarrow> nat" where
  "be_at n data off = be_int (pyslice data off (off + n))"

text \<open>\<open>struct.unpack_from\<close> of one unsigned field: \<open>struct.error\<close> when the buffer is too short.\<close>

definition unpack_le :: "nat \<Rightarrow> bytes \<Rightarrow> nat \<Rightarrow> nat res" where
  "unpack_le n data off = (if off + n \<le> length data then Inr (le_at n data off) else Inl StructError)"

definition unpack_be :: "nat \<Rightarrow> bytes \<Rightarrow> nat \<Rightarrow> nat res" where
  "unpack_be n data off = (if off + n \<le> length data then Inr (be_at n data off) else Inl StructError)"

text \<open>\<open>struct.unpack_from(f">{count}I", data, cursor)\<close>.\<close>

definition be_words :: "nat \<Rightarrow> bytes \<Rightarrow> nat \<Rightarrow> nat list" where
  "be_words count data cursor = map (\<lambda>i. be_at 4 data (cursor + 4 * i)) [0..<count]"

text \<open>\<open>data[i]\<close> on a bytes object.\<close>

definition byte_at :: "bytes \<Rightarrow> nat \<Rightarrow> nat res" where
  "byte_at data i = (if i < length data then Inr (unat (data ! i)) else Inl IndexError)"

text \<open>\<open>xs[i]\<close> on a list, for a non-negative index.\<close>

definition item_at :: "'a list \<Rightarrow> nat \<Rightarrow> 'a res" where
  "item_at xs i = (if i < length xs then Inr (xs ! i) else Inl IndexError)"

lemma item_in_range [simp]: "i < length xs \<Longrightarrow> item_at xs i = Inr (xs ! i)"
  by (simp add: item_at_def)

lemma read_Inr:
  "unpack_le n data off = Inr v \<longleftrightarrow> off + n \<le> length data \<and> v = le_at n data off"
  "unpack_be n data off = Inr v \<longleftrightarrow> off + n \<le> length data \<and> v = be_at n data off"
  "byte_at data i = Inr v \<longleftrightarrow> i < length data \<and> v = unat (data ! i)"
  "item_at xs i = Inr x \<longleftrightarrow> i < length xs \<and> x = xs ! i"
  by (auto simp: unpack_le_def unpack_be_def byte_at_def item_at_def)

lemma unpack_in_range [simp]:
  "off + n \<le> length data \<Longrightarrow> unpack_le n data off = Inr (le_at n data off)"
  "off + n \<le> length data \<Longrightarrow> unpack_be n data off = Inr (be_at n data off)"
  "i < length data \<Longrightarrow> byte_at data i = Inr (unat (data ! i))"
  by (simp_all add: unpack_le_def unpack_be_def byte_at_def)

lemma le_at_bound: "le_at n data off < 256 ^ n"
  by (simp add: le_at_def le_int_bound_le)

lemma be_at_bound: "be_at n data off < 256 ^ n"
  by (simp add: be_at_def be_int_bound_le)

subsection \<open>Formatting\<close>

fun digits_rev :: "nat \<Rightarrow> nat \<Rightarrow> nat list" where
  "digits_rev base n = (if base \<le> 1 \<or> n < base then [n] else n mod base # digits_rev base (n div base))"

declare digits_rev.simps [simp del]

definition digit_char :: "nat \<Rightarrow> char" where
  "digit_char d = (if d < 10 then char_of (48 + d) else char_of (87 + d))"

definition digit_char_upper :: "nat \<Rightarrow> char" where
  "digit_char_upper d = (if d < 10 then char_of (48 + d) else char_of (55 + d))"

text \<open>\<open>str(n)\<close>.\<close>

definition show_nat :: "nat \<Rightarrow> string" where
  "show_nat n = map digit_char (rev (digits_rev 10 n))"

text \<open>\<open>f"{n:0wx}"\<close> and \<open>f"{n:0wX}"\<close>.\<close>

definition pad_left :: "nat \<Rightarrow> char \<Rightarrow> string \<Rightarrow> string" where
  "pad_left w c s = replicate (w - length s) c @ s"

definition hex_lower :: "nat \<Rightarrow> nat \<Rightarrow> string" where
  "hex_lower w n = pad_left w (CHR ''0'') (map digit_char (rev (digits_rev 16 n)))"

definition hex_upper :: "nat \<Rightarrow> nat \<Rightarrow> string" where
  "hex_upper w n = pad_left w (CHR ''0'') (map digit_char_upper (rev (digits_rev 16 n)))"

text \<open>\<open>bs.hex()\<close>.\<close>

definition bytes_hex :: "bytes \<Rightarrow> string" where
  "bytes_hex bs = concat (map (\<lambda>b. hex_lower 2 (unat b)) bs)"

text \<open>\<open>prefix in s\<close>, \<open>s.startswith(prefix)\<close> and ASCII \<open>lower()\<close>.\<close>

definition starts_with :: "'a list \<Rightarrow> 'a list \<Rightarrow> bool" where
  "starts_with p s \<longleftrightarrow> take (length p) s = p"

fun substring :: "'a list \<Rightarrow> 'a list \<Rightarrow> bool" where
  "substring p [] \<longleftrightarrow> p = []"
| "substring p (x # xs) \<longleftrightarrow> starts_with p (x # xs) \<or> substring p xs"

definition lower_char :: "char \<Rightarrow> char" where
  "lower_char c = (let n = of_char c :: nat in if 65 \<le> n \<and> n \<le> 90 then char_of (n + 32) else c)"

definition lower :: "string \<Rightarrow> string" where
  "lower s = map lower_char s"

lemma substring_append: "substring p t \<Longrightarrow> substring p (s @ t)"
  by (induction s) auto

lemma starts_with_append: "starts_with p s \<Longrightarrow> starts_with p (s @ t)"
  unfolding starts_with_def by (metis append_Nil2 append_take_drop_id diff_is_0_eq' length_take
      min.cobounded1 take0 take_append)

text \<open>\<open>str.isspace\<close>, \<open>str.rstrip\<close> and \<open>str.strip\<close>.\<close>

definition is_space :: "nat \<Rightarrow> bool" where
  "is_space c \<longleftrightarrow> c \<in> {9, 10, 11, 12, 13, 28, 29, 30, 31, 32, 0x85, 0xA0, 0x1680, 0x2028, 0x2029,
     0x202F, 0x205F, 0x3000} \<or> 0x2000 \<le> c \<and> c \<le> 0x200A"

definition rstrip_by :: "(nat \<Rightarrow> bool) \<Rightarrow> pystr \<Rightarrow> pystr" where
  "rstrip_by p s = rev (dropWhile p (rev s))"

definition strip_space :: "pystr \<Rightarrow> pystr" where
  "strip_space s = rstrip_by is_space (dropWhile is_space s)"

subsection \<open>Evaluation of concrete images\<close>

text \<open>
  Witnesses evaluate the model on concrete byte lists by \<open>simp\<close>; these rules let slices of
  \<open>replicate\<close> blocks, index ranges and digits compute without unary numbers.
\<close>

lemma upt_numeral [py_simps]:
  "[0..<numeral n] = 0 # [Suc 0..<numeral n]"
  "[Suc 0..<numeral n] = (if numeral n = (1::nat) then [] else Suc 0 # [2..<numeral n])"
  by (simp_all add: upt_rec numeral_2_eq_2)

lemma le_int_replicate_0 [py_simps]: "le_int (replicate n 0) = 0"
  by (induction n) auto

lemma replicate_eq_Cons [py_simps]:
  "replicate n x = y # ys \<longleftrightarrow> 0 < n \<and> x = y \<and> ys = replicate (n - 1) x"
  by (cases n) auto

lemma digits_rev_simps [py_simps]:
  "1 < base \<Longrightarrow> n < base \<Longrightarrow> digits_rev base n = [n]"
  "1 < base \<Longrightarrow> base \<le> n \<Longrightarrow> digits_rev base n = n mod base # digits_rev base (n div base)"
  by (simp_all add: digits_rev.simps [of base n])

lemmas bytes_eval = le_at_def be_at_def be_int_def pyslice_def ascb_def py_simps

lemma total_iff: "raises_only (\<lambda>_. False) m \<longleftrightarrow> (\<exists>v. m = Inr v)"
  by (cases m) auto

lemma take_pyslice: "take n (pyslice xs a b) = pyslice xs a (min b (a + n))"
proof -
  have "min n (b - a) = min b (a + n) - a" by linarith
  then show ?thesis by (simp add: pyslice_def)
qed

lemma drop_pyslice: "drop n (pyslice xs a b) = pyslice xs (a + n) b"
  by (simp add: pyslice_def drop_take add.commute)

lemma sorted_wrt_take: "sorted_wrt R xs \<Longrightarrow> sorted_wrt R (take n xs)"
  by (metis append_take_drop_id sorted_wrt_append)

subsection \<open>Dynamically typed values\<close>

text \<open>
  The values the program stores in \<open>dict[str, object]\<close> and in \<open>Observation.value\<close>; the keys of a
  \<open>PDict\<close> are the program's own, those of a \<open>PMap\<close> come from its input; a float is its binary64 encoding.
\<close>

type_synonym double = "64 word"

datatype pyval =
    PNone
  | PBool bool
  | PInt int
  | PStr pystr
  | PList "pyval list"
  | PDict "(string \<times> pyval) list"
  | PMap "(pystr \<times> pyval) list"
  | PFloat double

abbreviation PNat :: "nat \<Rightarrow> pyval" where
  "PNat n \<equiv> PInt (int n)"

abbreviation PAsc :: "string \<Rightarrow> pyval" where
  "PAsc s \<equiv> PStr (asc s)"

end
