(* ===== verification/Partitions.thy ===== *)
theory Partitions
  imports Prelude "HOL-Library.Multiset"
begin

unbundle bit_operations_syntax

section \<open>Partition tables: \<open>analyzers/partitions.py\<close>\<close>

text \<open>
  The bounded range reader, the MBR and Amiga RDB parsers, the overlap report and the range
  hash. A file is its byte list; reading at an offset past the end gives fewer bytes, as a
  Python stream does. Sizes and offsets are \<open>nat\<close>: every subtraction below is behind the
  comparison that makes it non-negative, as in the code.
\<close>

subsection \<open>The bounded range reader\<close>

text \<open>
  \<open>BoundedRangeReader\<close> takes any Python integers, so its fields are \<open>int\<close>. The file position
  of the underlying stream is not part of the state: every physical read seeks first.
\<close>

record range_reader =
  rr_stream :: bytes
  rr_start :: int
  rr_length :: int
  rr_root_size :: int
  rr_position :: int

definition range_reader_init :: "bytes \<Rightarrow> int \<Rightarrow> int \<Rightarrow> int \<Rightarrow> range_reader res" where
  "range_reader_init stream start len root_size =
     (if start < 0 \<or> len < 0 \<or> start > root_size \<or> len > root_size - start
      then Inl (PartitionTableError ''byte range lies outside root object'')
      else Inr \<lparr>rr_stream = stream, rr_start = start, rr_length = len,
                rr_root_size = root_size, rr_position = 0\<rparr>)"

definition rr_seek :: "int \<Rightarrow> int \<Rightarrow> range_reader \<Rightarrow> (int \<times> range_reader) res" where
  "rr_seek offset whence r =
     (let target = (if whence = 0 then offset
                    else if whence = 1 then rr_position r + offset
                    else rr_length r + offset)
      in if target < 0 \<or> target > rr_length r
         then Inl (PartitionTableError ''seek lies outside bounded byte range'')
         else Inr (target, r\<lparr>rr_position := target\<rparr>))"

definition rr_tell :: "range_reader \<Rightarrow> int" where
  "rr_tell r = rr_position r"

text \<open>\<open>stream.seek(off); stream.read(n)\<close> on the root file; a negative offset is an \<open>OSError\<close>.\<close>

definition stream_read :: "bytes \<Rightarrow> int \<Rightarrow> int \<Rightarrow> bytes res" where
  "stream_read data off n =
     (if off < 0 then Inl OSError
      else Inr (if n < 0 then drop (nat off) data else take (nat n) (drop (nat off) data)))"

definition rr_read :: "int \<Rightarrow> range_reader \<Rightarrow> (bytes \<times> range_reader) res" where
  "rr_read size0 r =
     (let size1 = (if size0 < 0 then rr_length r - rr_position r else size0)
      in if size1 < 0 then Inl (PartitionTableError ''negative read size'')
         else let size2 = min size1 (rr_length r - rr_position r);
                  end = rr_position r + size2
              in bindE (stream_read (rr_stream r) (rr_start r + rr_position r) size2) (\<lambda>value.
                 if int (length value) \<noteq> size2
                 then Inl (PartitionTableError ''root object was truncated during range read'')
                 else Inr (value, r\<lparr>rr_position := end\<rparr>)))"

text \<open>
  The generator \<open>chunks\<close>, drained: \<open>None\<close> is a generator that never ends (a chunk size of 0).
\<close>

partial_function (option) rr_drain :: "int \<Rightarrow> range_reader \<Rightarrow> (bytes list res) option" where
  "rr_drain chunk_size r =
     (if rr_tell r < rr_length r
      then (case rr_read (min chunk_size (rr_length r - rr_tell r)) r of
              Inl e \<Rightarrow> Some (Inl e)
            | Inr (c, r') \<Rightarrow>
                Option.bind (rr_drain chunk_size r') (\<lambda>rest.
                  Some (bindE rest (\<lambda>cs. Inr (c # cs)))))
      else Some (Inr []))"

definition rr_chunks :: "int \<Rightarrow> range_reader \<Rightarrow> (bytes list res) option" where
  "rr_chunks chunk_size r =
     (case rr_seek 0 0 r of Inl e \<Rightarrow> Some (Inl e) | Inr (_, r') \<Rightarrow> rr_drain chunk_size r')"

subsection \<open>Tables\<close>

record partition_entry =
  part_index :: nat
  part_start :: nat
  part_length :: nat
  part_type :: string
  part_scheme :: string
  part_name :: "pystr option"
  part_metadata :: "(string \<times> pyval) list"

record partition_table =
  table_scheme :: string
  table_partitions :: "partition_entry list"
  table_metadata :: "(string \<times> pyval) list"
  table_errors :: "string list"

definition overlap_message :: "partition_entry \<Rightarrow> partition_entry \<Rightarrow> string" where
  "overlap_message l r =
     ''OVERLAPPING_PARTITIONS: '' @ show_nat (part_index l) @ '' and '' @ show_nat (part_index r)"

text \<open>\<open>_mark_overlaps\<close> appends to the error list it is given.\<close>

definition mark_overlaps :: "partition_entry list \<Rightarrow> string list \<Rightarrow> string list" where
  "mark_overlaps partitions errors =
     (let ordered = sort_key (\<lambda>p. (part_start p, part_length p)) partitions
      in errors @ map (\<lambda>(l, r). overlap_message l r)
           (filter (\<lambda>(l, r). part_start r < part_start l + part_length l)
             (zip ordered (drop 1 ordered))))"

subsection \<open>MBR\<close>

text \<open>A row is 16 bytes: a slice of the 512-byte sector, so constant indexes are in range.\<close>

definition mbr_rows :: "bytes \<Rightarrow> bytes list" where
  "mbr_rows sector = map (\<lambda>i. pyslice sector (446 + i * 16) (462 + i * 16)) [0..<4]"

definition mbr_populated :: "bytes \<Rightarrow> bool" where
  "mbr_populated row \<longleftrightarrow> row ! 4 \<noteq> 0 \<or> (\<exists>b \<in> set (pyslice row 8 16). b \<noteq> 0)"

definition mbr_plausible :: "bytes \<Rightarrow> bool" where
  "mbr_plausible row \<longleftrightarrow> (row ! 0 = 0 \<or> row ! 0 = 0x80) \<and> row ! 4 \<noteq> 0 \<and> le_at 4 row 12 \<noteq> 0"

definition mbr_partition :: "nat \<Rightarrow> bytes \<Rightarrow> partition_entry" where
  "mbr_partition index row =
     (let boot = unat (row ! 0); type_code = unat (row ! 4);
          lba_start = le_at 4 row 8; sectors = le_at 4 row 12;
          start = lba_start * 512; len = sectors * 512;
          ty = ''0x'' @ hex_upper 2 type_code
      in \<lparr>part_index = index, part_start = start, part_length = len, part_type = ty,
          part_scheme = ''MBR'', part_name = None,
          part_metadata =
            [(''partition.scheme'', PAsc ''MBR''),
             (''partition.index'', PNat index),
             (''partition.start_bytes'', PNat start),
             (''partition.length_bytes'', PNat len),
             (''partition.type'', PAsc ty),
             (''mbr.type_code'', PNat type_code),
             (''mbr.bootable'', PBool (boot = 0x80)),
             (''mbr.lba_start'', PNat lba_start),
             (''mbr.sector_count'', PNat sectors)]\<rparr>)"

text \<open>
  One iteration of the loop over \<open>enumerate(rows)\<close>: a \<open>continue\<close>, a reported row or a partition.
\<close>

datatype mbr_outcome = Row_Skip | Row_Error string | Row_Partition partition_entry

definition mbr_row :: "nat \<Rightarrow> nat \<Rightarrow> bytes \<Rightarrow> mbr_outcome" where
  "mbr_row image_size index row =
     (let boot = unat (row ! 0); type_code = unat (row ! 4);
          lba_start = le_at 4 row 8; sectors = le_at 4 row 12;
          start = lba_start * 512; len = sectors * 512
      in if type_code = 0 \<and> lba_start = 0 \<and> sectors = 0 then Row_Skip
         else if boot \<noteq> 0 \<and> boot \<noteq> 0x80
         then Row_Error (''MBR partition '' @ show_nat index @ '' has invalid boot flag 0x''
                         @ hex_lower 2 boot)
         else if type_code = 0x05 \<or> type_code = 0x0F \<or> type_code = 0x85
         then Row_Error (''MBR extended partition '' @ show_nat index @ '' is deferred'')
         else if sectors = 0 \<or> start < 512 \<or> start > image_size \<or> len > image_size - start
         then Row_Error (''MBR partition '' @ show_nat index @ '' lies outside image'')
         else Row_Partition (mbr_partition index row))"

fun mbr_loop :: "nat \<Rightarrow> nat \<Rightarrow> bytes list \<Rightarrow> partition_entry list \<Rightarrow> string list \<Rightarrow>
    partition_entry list \<times> string list" where
  "mbr_loop image_size index [] partitions errors = (partitions, errors)"
| "mbr_loop image_size index (row # rows) partitions errors =
     (case mbr_row image_size index row of
        Row_Skip \<Rightarrow> mbr_loop image_size (Suc index) rows partitions errors
      | Row_Error msg \<Rightarrow> mbr_loop image_size (Suc index) rows partitions (errors @ [msg])
      | Row_Partition p \<Rightarrow> mbr_loop image_size (Suc index) rows (partitions @ [p]) errors)"

definition parse_mbr :: "bytes \<Rightarrow> nat \<Rightarrow> partition_table option res" where
  "parse_mbr data max_partitions =
     (let image_size = length data in
      if image_size < 512 then Inr None
      else
        let sector = take 512 data;
            rows = mbr_rows sector;
            populated = filter mbr_populated rows
        in if populated = [] then Inr None
           else if filter mbr_plausible populated = [] then Inr None
           else if pyslice sector 510 512 \<noteq> [0x55, 0xAA]
           then Inl (PartitionTableError ''MBR signature 0x55AA is absent'')
           else
             let (partitions0, errors0) = mbr_loop image_size 0 rows [] [];
                 over = length partitions0 > max_partitions;
                 errors1 = (if over then errors0 @ [''partition count exceeds server maximum''] else errors0);
                 partitions1 = (if over then take max_partitions partitions0 else partitions0)
             in Inr (Some \<lparr>table_scheme = ''MBR'', table_partitions = partitions1,
                  table_metadata = [(''mbr.signature'', PAsc ''55AA''), (''sector_size'', PNat 512)],
                  table_errors = mark_overlaps partitions1 errors1\<rparr>))"

subsection \<open>Amiga RDB\<close>

definition be32 :: "bytes \<Rightarrow> nat \<Rightarrow> nat res" where
  "be32 value offset = unpack_be 4 value offset"

text \<open>\<open>sum(struct.unpack(f">{count}I", block[:count*4]))\<close>.\<close>

definition be32_words :: "nat \<Rightarrow> bytes \<Rightarrow> nat list" where
  "be32_words n block = map (\<lambda>i. be_at 4 block (4 * i)) [0..<n]"

definition valid_rdb_checksum :: "bytes \<Rightarrow> bool res" where
  "valid_rdb_checksum block =
     (if length block < 24 then Inr False
      else bindE (be32 block 4) (\<lambda>n.
        if n < 6 \<or> n > length block div 4 then Inr False
        else Inr (sum_list (be32_words n block) mod 2 ^ 32 = 0)))"

text \<open>The probe over the first \<open>min(16, size // 512)\<close> blocks: the first one that starts with \<open>RDSK\<close>.\<close>

fun find_rdsk :: "bytes \<Rightarrow> nat list \<Rightarrow> (bytes \<times> nat) option" where
  "find_rdsk data [] = None"
| "find_rdsk data (index # rest) =
     (let candidate = take 512 (drop (index * 512) data)
      in if take 4 candidate = ascb ''RDSK'' then Some (candidate, index)
         else find_rdsk data rest)"

definition rdb_partition :: "nat \<Rightarrow> nat \<Rightarrow> nat \<Rightarrow> nat \<Rightarrow> nat \<Rightarrow> nat \<Rightarrow> nat \<Rightarrow> nat \<Rightarrow>
    string \<Rightarrow> pystr option \<Rightarrow> int \<Rightarrow> partition_entry" where
  "rdb_partition index start len low high block_size surfaces bpt text_type name boot_priority =
     \<lparr>part_index = index, part_start = start, part_length = len, part_type = text_type,
      part_scheme = ''RDB'', part_name = name,
      part_metadata =
        [(''partition.scheme'', PAsc ''RDB''),
         (''partition.index'', PNat index),
         (''partition.start_bytes'', PNat start),
         (''partition.length_bytes'', PNat len),
         (''partition.type'', PAsc text_type),
         (''partition.name'', (case name of None \<Rightarrow> PNone | Some n \<Rightarrow> PStr n)),
         (''rdb.dostype'', PAsc text_type),
         (''rdb.low_cylinder'', PNat low),
         (''rdb.high_cylinder'', PNat high),
         (''rdb.block_size'', PNat block_size),
         (''rdb.surfaces'', PNat surfaces),
         (''rdb.blocks_per_track'', PNat bpt),
         (''rdb.boot_priority'', PInt boot_priority)]\<rparr>"

text \<open>\<open>"DOS\\" + str(dostype[3]) if dostype[:3] == b"DOS" else dostype.hex().upper()\<close>.\<close>

definition rdb_text_type :: "bytes \<Rightarrow> string res" where
  "rdb_text_type dostype =
     (if take 3 dostype = ascb ''DOS''
      then bindE (byte_at dostype 3) (\<lambda>b. Inr (''DOS'' @ [CHR 0x5C] @ show_nat b))
      else Inr (concat (map (\<lambda>b. hex_upper 2 (unat b)) dostype)))"

text \<open>The geometry test and the partition it admits: an error message or a partition.\<close>

definition rdb_geometry :: "nat \<Rightarrow> nat \<Rightarrow> nat \<Rightarrow> pystr option \<Rightarrow> nat \<Rightarrow> nat \<Rightarrow> nat \<Rightarrow> nat \<Rightarrow> bytes \<Rightarrow> int \<Rightarrow>
    (string + partition_entry) res" where
  "rdb_geometry image_size block_size index name surfaces blocks_per_track low high dostype boot_priority =
     (if surfaces = 0 \<or> blocks_per_track = 0 \<or> high < low
      then Inr (Inl (''RDB partition '' @ show_nat index @ '' has invalid geometry''))
      else
        let cylinder_bytes = surfaces * blocks_per_track * block_size;
            start = low * cylinder_bytes;
            len = (high - low + 1) * cylinder_bytes
        in if start > image_size \<or> len > image_size - start
           then Inr (Inl (''RDB partition '' @ show_nat index @ '' lies outside image''))
           else bindE (rdb_text_type dostype)
                  (\<lambda>text_type. Inr (Inr (rdb_partition index start len low high block_size
                     surfaces blocks_per_track text_type name boot_priority))))"

text \<open>The body of one \<open>PART\<close> block after its magic and checksum tests.\<close>

definition rdb_part_body :: "nat \<Rightarrow> nat \<Rightarrow> nat \<Rightarrow> bytes \<Rightarrow> (string + partition_entry) res" where
  "rdb_part_body image_size block_size index block =
     bindE (byte_at block 36) (\<lambda>b36.
     let name_len = min b36 31;
         raw = latin1 (pyslice block 37 (37 + name_len));
         name = (if raw = [] then None else Some raw);
         env = 128
     in bindE (be32 block (env + 12)) (\<lambda>surfaces.
        bindE (be32 block (env + 20)) (\<lambda>blocks_per_track.
        bindE (be32 block (env + 36)) (\<lambda>low.
        bindE (be32 block (env + 40)) (\<lambda>high.
        let dostype = pyslice block (env + 64) (env + 68)
        in bindE (be32 block (env + 60)) (\<lambda>prio.
           rdb_geometry image_size block_size index name surfaces blocks_per_track low high
             dostype (signed_of 32 prio)))))))"

text \<open>
  The \<open>while\<close> loop over \<open>PART\<close> pointers. \<open>rdb_visit\<close> is one iteration: the loop ends, with the
  messages it appends, or goes on at the next pointer with a message or a partition. \<open>seen\<close> is
  the set of visited pointers as a list without duplicates; it grows in every iteration and is
  bounded by \<open>max_partitions\<close>.
\<close>

datatype rdb_step = Rdb_Stop "string list" | Rdb_Next nat "string + partition_entry"

definition rdb_visit :: "bytes \<Rightarrow> nat \<Rightarrow> nat \<Rightarrow> nat list \<Rightarrow> nat \<Rightarrow> nat \<Rightarrow> rdb_step res" where
  "rdb_visit data block_size max_partitions seen index pointer =
     (if pointer = 0xFFFFFFFF then Inr (Rdb_Stop [])
      else if pointer \<in> set seen then Inr (Rdb_Stop [''RDB partition pointer cycle''])
      else if length seen \<ge> max_partitions
      then Inr (Rdb_Stop [''partition count exceeds server maximum''])
      else
        let image_size = length data;
            offset = pointer * block_size
        in if offset > image_size \<or> block_size > image_size - offset
           then Inr (Rdb_Stop [''RDB partition pointer lies outside image''])
           else
             let block = take block_size (drop offset data)
             in bindE (if take 4 block \<noteq> ascb ''PART'' then Inr False else valid_rdb_checksum block) (\<lambda>ok.
                if \<not> ok
                then Inr (Rdb_Stop [''invalid RDB PART block at '' @ show_nat pointer])
                else bindE (rdb_part_body image_size block_size index block) (\<lambda>body.
                     bindE (be32 block 16) (\<lambda>next. Inr (Rdb_Next next body)))))"

lemma rdb_visit_Next:
  "rdb_visit data bs m seen i ptr = Inr (Rdb_Next nxt body) \<Longrightarrow>
     ptr \<notin> set seen \<and> length seen < m \<and> ptr * bs + bs \<le> length data
     \<and> rdb_part_body (length data) bs i (take bs (drop (ptr * bs) data)) = Inr body"
  by (auto simp: rdb_visit_def Let_def split: if_splits)

function rdb_loop :: "bytes \<Rightarrow> nat \<Rightarrow> nat \<Rightarrow> nat \<Rightarrow> nat list \<Rightarrow> partition_entry list \<Rightarrow> string list \<Rightarrow>
    (partition_entry list \<times> string list) res" where
  "rdb_loop data block_size max_partitions pointer seen partitions errors =
     (case rdb_visit data block_size max_partitions seen (length partitions) pointer of
        Inl e \<Rightarrow> Inl e
      | Inr (Rdb_Stop msgs) \<Rightarrow> Inr (partitions, errors @ msgs)
      | Inr (Rdb_Next next (Inl msg)) \<Rightarrow>
          rdb_loop data block_size max_partitions next (pointer # seen) partitions (errors @ [msg])
      | Inr (Rdb_Next next (Inr part)) \<Rightarrow>
          rdb_loop data block_size max_partitions next (pointer # seen) (partitions @ [part]) errors)"
  by pat_completeness auto
termination
  by (relation "measure (\<lambda>(data, bs, maxp, pointer, seen, ps, es). maxp - length seen)")
    (auto dest: rdb_visit_Next)

declare rdb_loop.simps [simp del]

definition parse_rdb :: "bytes \<Rightarrow> nat \<Rightarrow> partition_table option res" where
  "parse_rdb data max_partitions =
     (case find_rdsk data [0..<min 16 (length data div 512)] of
        None \<Rightarrow> Inr None
      | Some (rdb, rdb_index) \<Rightarrow>
          bindE (valid_rdb_checksum rdb) (\<lambda>ok.
          if \<not> ok then Inl (PartitionTableError ''invalid RDB checksum'')
          else bindE (be32 rdb 16) (\<lambda>block_size.
          if block_size < 512 \<or> block_size > 65536
             \<or> (block_size AND (block_size - 1)) \<noteq> 0
          then Inl (PartitionTableError ''invalid RDB block size'')
          else bindE (be32 rdb 28) (\<lambda>pointer.
               bindE (rdb_loop data block_size max_partitions pointer [] [] []) (\<lambda>(partitions, errors).
               Inr (Some \<lparr>table_scheme = ''RDB'', table_partitions = partitions,
                 table_metadata =
                   [(''rdb.block_location'', PNat rdb_index), (''rdb.block_size'', PNat block_size),
                    (''rdb.filesystem_handler_execution'', PBool False)],
                 table_errors = mark_overlaps partitions errors\<rparr>))))))"

definition parse_partition_table :: "bytes \<Rightarrow> nat \<Rightarrow> partition_table option res" where
  "parse_partition_table data max_partitions =
     bindE (parse_rdb data max_partitions) (\<lambda>rdb.
     case rdb of Some t \<Rightarrow> Inr (Some t) | None \<Rightarrow> parse_mbr data max_partitions)"

text \<open>
  The hash functions are \<open>hashlib\<close>/\<open>blake3\<close> digests of the bytes fed so far; the model takes
  them as an association list of names and functions on the whole input.
\<close>

definition hash_range :: "(string \<times> (bytes \<Rightarrow> string)) list \<Rightarrow> bytes \<Rightarrow> int \<Rightarrow> int \<Rightarrow>
    ((string \<times> string) list res) option" where
  "hash_range hashers data start len =
     (case range_reader_init data start len (int (length data)) of
        Inl e \<Rightarrow> Some (Inl e)
      | Inr r \<Rightarrow>
          map_option (\<lambda>res. bindE res (\<lambda>cs. Inr (map (\<lambda>(n, h). (n, h (concat cs))) hashers)))
            (rr_chunks (1024 * 1024) r))"

subsection \<open>Reading stays inside the range\<close>

definition reader_ok :: "range_reader \<Rightarrow> bool" where
  "reader_ok r \<longleftrightarrow> 0 \<le> rr_start r \<and> 0 \<le> rr_position r \<and> rr_position r \<le> rr_length r
     \<and> rr_start r + rr_length r \<le> int (length (rr_stream r))"

definition rr_remaining :: "range_reader \<Rightarrow> bytes" where
  "rr_remaining r = pyslice (rr_stream r) (nat (rr_start r + rr_position r))
     (nat (rr_start r + rr_length r))"

lemma range_reader_init_ok:
  "range_reader_init data start len (int (length data)) = Inr r \<Longrightarrow> reader_ok r"
  by (auto simp: range_reader_init_def reader_ok_def split: if_splits)

lemma rr_seek_ok: "reader_ok r \<Longrightarrow> rr_seek off w r = Inr (t, r') \<Longrightarrow> reader_ok r'"
  by (auto simp: rr_seek_def reader_ok_def Let_def split: if_splits)

lemma rr_read_remaining:
  fixes k :: int
  assumes "reader_ok r"
  defines "n \<equiv> (if (k::int) < 0 then length (rr_remaining r) else nat k)"
  shows "rr_read k r = Inr (take n (rr_remaining r),
           r\<lparr>rr_position := rr_position r + int (min n (length (rr_remaining r)))\<rparr>)"
proof -
  have len: "int (length (rr_remaining r)) = rr_length r - rr_position r"
    using assms(1) by (auto simp: reader_ok_def rr_remaining_def)
  let ?size = "min (if k < 0 then rr_length r - rr_position r else k) (rr_length r - rr_position r)"
  have sz: "?size = int (min n (length (rr_remaining r)))"
    using len assms(1) by (auto simp: n_def reader_ok_def)
  have "take (nat ?size) (drop (nat (rr_start r + rr_position r)) (rr_stream r))
      = take n (rr_remaining r)"
    using sz len assms(1)
    by (simp add: rr_remaining_def pyslice_def min_def)
  moreover have "length (take n (rr_remaining r)) = min n (length (rr_remaining r))"
    by simp
  ultimately show ?thesis
    using sz len assms(1) by (auto simp: rr_read_def stream_read_def Let_def reader_ok_def)
qed

lemma rr_remaining_advance:
  assumes "reader_ok r" and "n \<le> length (rr_remaining r)"
  shows "rr_remaining (r\<lparr>rr_position := rr_position r + int n\<rparr>) = drop n (rr_remaining r)"
    and "reader_ok (r\<lparr>rr_position := rr_position r + int n\<rparr>)"
  using assms by (auto simp: reader_ok_def rr_remaining_def drop_pyslice nat_add_distrib algebra_simps)

lemma rr_drain_chunks:
  assumes "reader_ok r" and "0 < c"
  shows "\<exists>cs. rr_drain c r = Some (Inr cs) \<and> concat cs = rr_remaining r"
  using assms(1)
proof (induction "length (rr_remaining r)" arbitrary: r rule: less_induct)
  case (less r)
  have len: "int (length (rr_remaining r)) = rr_length r - rr_position r"
    using less.prems by (auto simp: reader_ok_def rr_remaining_def)
  show ?case
  proof (cases "rr_tell r < rr_length r")
    case False
    then have "int (length (rr_remaining r)) \<le> 0" unfolding len rr_tell_def by linarith
    then have "rr_remaining r = []" by simp
    with False show ?thesis by (simp add: rr_drain.simps)
  next
    case True
    define k where "k = min c (rr_length r - rr_tell r)"
    have k: "0 < k" "nat k \<le> length (rr_remaining r)"
      using True len assms(2) by (auto simp: k_def rr_tell_def)
    let ?r' = "r\<lparr>rr_position := rr_position r + int (nat k)\<rparr>"
    have read: "rr_read k r = Inr (take (nat k) (rr_remaining r), ?r')"
      using rr_read_remaining [OF less.prems, of k] k by (simp add: min_absorb1)
    have rem: "rr_remaining ?r' = drop (nat k) (rr_remaining r)" "reader_ok ?r'"
      using rr_remaining_advance [OF less.prems k(2)] by auto
    have "length (rr_remaining ?r') < length (rr_remaining r)"
      using k by (subst rem(1)) auto
    then obtain cs where "rr_drain c ?r' = Some (Inr cs)" "concat cs = rr_remaining ?r'"
      using less.hyps rem(2) by blast
    with True read rem(1) show ?thesis
      by (subst rr_drain.simps) (simp add: k_def [symmetric])
  qed
qed

lemma rr_chunks_init:
  assumes "range_reader_init data start len (int (length data)) = Inr r" and "0 < c"
  shows "\<exists>cs. rr_chunks c r = Some (Inr cs)
           \<and> concat cs = pyslice data (nat start) (nat (start + len))"
proof -
  have r: "reader_ok r" "rr_remaining r = pyslice data (nat start) (nat (start + len))"
    "rr_seek 0 0 r = Inr (0, r)"
    using assms(1)
    by (auto simp: range_reader_init_def reader_ok_def rr_remaining_def rr_seek_def split: if_splits)
  with rr_drain_chunks [OF r(1) assms(2)] show ?thesis
    by (simp add: rr_chunks_def)
qed

text \<open>
  C23: \<open>hash_range\<close> always returns. It digests exactly the bytes \<open>data[start:start+len]\<close>, however
  they are chunked, when the range lies in the file, and raises \<open>PartitionTableError\<close> otherwise.
\<close>

theorem hash_range_exact:
  "hash_range hashers data start len =
     Some (if 0 \<le> start \<and> 0 \<le> len \<and> start + len \<le> int (length data)
           then Inr (map (\<lambda>(n, h). (n, h (pyslice data (nat start) (nat (start + len))))) hashers)
           else Inl (PartitionTableError ''byte range lies outside root object''))"
proof (cases "0 \<le> start \<and> 0 \<le> len \<and> start + len \<le> int (length data)")
  case True
  then obtain r where r: "range_reader_init data start len (int (length data)) = Inr r"
    by (auto simp: range_reader_init_def)
  obtain cs where "rr_chunks (1024 * 1024) r = Some (Inr cs)"
    and "concat cs = pyslice data (nat start) (nat (start + len))"
    using rr_chunks_init [OF r, of "1024 * 1024"] by auto
  with True r show ?thesis by (simp add: hash_range_def)
next
  case False
  then show ?thesis by (auto simp: hash_range_def range_reader_init_def)
qed

subsection \<open>Overlap report\<close>

definition disjoint_parts :: "partition_entry \<Rightarrow> partition_entry \<Rightarrow> bool" where
  "disjoint_parts p q \<longleftrightarrow> part_start p + part_length p \<le> part_start q
     \<or> part_start q + part_length q \<le> part_start p"

abbreviation part_key :: "partition_entry \<Rightarrow> nat \<times> nat" where
  "part_key p \<equiv> (part_start p, part_length p)"

lemma sorted_wrt_insort_key:
  assumes "\<And>x y. R x y \<Longrightarrow> R y x"
  shows "sorted_wrt R (insort_key f x xs) \<longleftrightarrow> (\<forall>y \<in> set xs. R x y) \<and> sorted_wrt R xs"
  using assms by (induction xs) (auto simp: set_insort_key)

lemma sorted_wrt_sort_key:
  assumes "\<And>x y. R x y \<Longrightarrow> R y x"
  shows "sorted_wrt R (sort_key f xs) \<longleftrightarrow> sorted_wrt R xs"
  by (induction xs) (auto simp: sort_key_def sorted_wrt_insort_key [OF assms] simp flip: sort_key_def)

lemma ends_before_trans:
  assumes "sorted (map part_key xs)" and "\<forall>p \<in> set xs. 0 < part_length p"
  shows "filter (\<lambda>(l, r). part_start r < part_start l + part_length l) (zip xs (drop 1 xs)) = []
     \<longleftrightarrow> sorted_wrt disjoint_parts xs"
  using assms
proof (induction xs rule: induct_list012)
  case (3 x y zs)
  have IH: "filter (\<lambda>(l, r). part_start r < part_start l + part_length l) (zip (y # zs) zs) = []
     \<longleftrightarrow> sorted_wrt disjoint_parts (y # zs)"
    using 3 by simp
  have le: "part_start x \<le> part_start y" "\<forall>z \<in> set zs. part_start y \<le> part_start z"
    using 3(3) by (auto simp: less_eq_prod_def)
  have "disjoint_parts x y \<longleftrightarrow> \<not> part_start y < part_start x + part_length x"
    using le 3(4) by (auto simp: disjoint_parts_def)
  moreover have "\<not> part_start y < part_start x + part_length x \<Longrightarrow> \<forall>z \<in> set zs. disjoint_parts x z"
    using le by (auto simp: disjoint_parts_def)
  ultimately show ?case using IH by auto
qed simp_all

lemma mark_overlaps_disjoint:
  assumes "\<forall>p \<in> set ps. 0 < part_length p"
  shows "mark_overlaps ps errs = errs \<longleftrightarrow> sorted_wrt disjoint_parts ps"
proof -
  let ?o = "sort_key part_key ps"
  have "mark_overlaps ps errs = errs \<longleftrightarrow>
    filter (\<lambda>(l, r). part_start r < part_start l + part_length l) (zip ?o (drop 1 ?o)) = []"
    by (simp add: mark_overlaps_def Let_def)
  also have "\<dots> \<longleftrightarrow> sorted_wrt disjoint_parts ?o"
    using assms by (intro ends_before_trans) simp_all
  also have "\<dots> \<longleftrightarrow> sorted_wrt disjoint_parts ps"
    by (rule sorted_wrt_sort_key) (auto simp: disjoint_parts_def)
  finally show ?thesis .
qed

subsection \<open>Bounds of the parsed partitions\<close>

definition part_within :: "nat \<Rightarrow> partition_entry \<Rightarrow> bool" where
  "part_within n p \<longleftrightarrow> 0 < part_length p \<and> part_start p + part_length p \<le> n"

lemma mbr_row_within:
  "mbr_row n i row = Row_Partition p \<Longrightarrow> part_within n p \<and> part_index p = i \<and> 512 \<le> part_start p"
  by (auto simp: mbr_row_def part_within_def mbr_partition_def Let_def split: if_splits)

lemma mbr_loop_inv:
  assumes "mbr_loop n i rows ps es = (ps', es')" and "\<forall>p \<in> set ps. part_within n p \<and> part_index p < i"
    and "sorted_wrt (<) (map part_index ps)"
  shows "(\<forall>p \<in> set ps'. part_within n p) \<and> sorted_wrt (<) (map part_index ps')"
  using assms
proof (induction rows arbitrary: i ps es)
  case (Cons row rows)
  show ?case
  proof (cases "mbr_row n i row")
    case (Row_Partition p)
    with Cons.prems mbr_row_within [OF Row_Partition] show ?thesis
      by (intro Cons.IH [of "Suc i" "ps @ [p]" es]) (auto simp: sorted_wrt_append less_Suc_eq)
  next
    case Row_Skip
    with Cons.prems show ?thesis by (intro Cons.IH [of "Suc i" ps es]) (auto simp: less_Suc_eq)
  next
    case (Row_Error m)
    with Cons.prems show ?thesis by (intro Cons.IH [of "Suc i" ps "es @ [m]"]) (auto simp: less_Suc_eq)
  qed
qed simp

lemma rdb_geometry_within:
  assumes "rdb_geometry n bs i name sf bpt lo hi dt prio = Inr (Inr p)" and "0 < bs"
  shows "part_within n p \<and> part_index p = i"
  using assms by (auto simp: rdb_geometry_def rdb_partition_def part_within_def Let_def split: if_splits)

lemma rdb_part_body_within:
  assumes "rdb_part_body n bs i block = Inr (Inr p)" and "0 < bs"
  shows "part_within n p \<and> part_index p = i"
  using assms rdb_geometry_within by (auto simp: rdb_part_body_def Let_def)

lemma rdb_loop_inv:
  assumes "rdb_loop data bs m ptr seen ps es = Inr (ps', es')" and "0 < bs"
    and "\<forall>p \<in> set ps. part_within (length data) p" and "map part_index ps = [0..<length ps]"
    and "length ps \<le> length seen" and "length seen \<le> m"
  shows "(\<forall>p \<in> set ps'. part_within (length data) p) \<and> map part_index ps' = [0..<length ps']
    \<and> length ps' \<le> m"
  using assms
proof (induction data bs m ptr seen ps es rule: rdb_loop.induct)
  case (1 data bs m ptr seen ps es)
  obtain st where st: "rdb_visit data bs m seen (length ps) ptr = Inr st"
    using "1.prems"(1) by (subst (asm) rdb_loop.simps) (auto split: sum.splits)
  show ?case
  proof (cases st)
    case (Rdb_Stop msgs)
    with st "1.prems" show ?thesis by (subst (asm) rdb_loop.simps) auto
  next
    case (Rdb_Next nxt body)
    note next_facts = rdb_visit_Next [OF st [unfolded Rdb_Next]]
    show ?thesis
    proof (cases body)
      case (Inl msg)
      with st Rdb_Next "1.prems"(1)
      have "rdb_loop data bs m nxt (ptr # seen) ps (es @ [msg]) = Inr (ps', es')"
        by (subst (asm) rdb_loop.simps) simp
      from "1.IH"(1) [OF st Rdb_Next Inl this] "1.prems" next_facts show ?thesis by simp
    next
      case (Inr part)
      with st Rdb_Next "1.prems"(1)
      have rec: "rdb_loop data bs m nxt (ptr # seen) (ps @ [part]) es = Inr (ps', es')"
        by (subst (asm) rdb_loop.simps) simp
      have "part_within (length data) part \<and> part_index part = length ps"
        using next_facts "1.prems"(2) Inr rdb_part_body_within by blast
      with "1.IH"(2) [OF st Rdb_Next Inr rec] "1.prems" next_facts show ?thesis by simp
    qed
  qed
qed

subsection \<open>Exceptions\<close>

abbreviation is_table_error :: "py_exn \<Rightarrow> bool" where
  "is_table_error e \<equiv> (\<exists>m. e = PartitionTableError m)"

lemma valid_rdb_checksum_total: "raises_only P (valid_rdb_checksum block)"
  by (simp add: valid_rdb_checksum_def be32_def)

lemma rdb_part_body_total: "512 \<le> length block \<Longrightarrow> raises_only P (rdb_part_body n bs i block)"
  unfolding rdb_part_body_def rdb_geometry_def rdb_text_type_def be32_def Let_def
  by (intro raises_only_bindE raises_only_if) simp_all

lemma rdb_visit_total:
  assumes "512 \<le> bs"
  shows "raises_only P (rdb_visit data bs m seen i ptr)"
  unfolding rdb_visit_def Let_def
  by (intro raises_only_bindE raises_only_if rdb_part_body_total valid_rdb_checksum_total)
    (use assms in \<open>simp_all add: be32_def\<close>)

lemma rdb_loop_total:
  assumes "512 \<le> bs"
  shows "raises_only P (rdb_loop data bs m ptr seen ps es)"
  using assms
proof (induction data bs m ptr seen ps es rule: rdb_loop.induct)
  case (1 data bs m ptr seen ps es)
  obtain st where "rdb_visit data bs m seen (length ps) ptr = Inr st"
    using rdb_visit_total [OF "1.prems", of "\<lambda>_. False"] unfolding total_iff by blast
  with "1" show ?case
    by (subst rdb_loop.simps) (auto split: rdb_step.split sum.split)
qed

lemma find_rdsk_length:
  "find_rdsk data is = Some (b, k) \<Longrightarrow> \<forall>i \<in> set is. i * 512 + 512 \<le> length data \<Longrightarrow> length b = 512"
  by (induction "is") (auto simp: Let_def split: if_splits)

lemma parse_rdb_raises: "raises_only is_table_error (parse_rdb data m)"
proof (cases "find_rdsk data [0..<min 16 (length data div 512)]")
  case (Some x)
  obtain b k where x: "x = (b, k)" by fastforce
  have len: "length b = 512"
    using find_rdsk_length [OF Some [unfolded x]] by fastforce
  show ?thesis unfolding parse_rdb_def Some x option.case prod.case be32_def
    by (intro raises_only_bindE raises_only_if rdb_loop_total valid_rdb_checksum_total)
      (simp_all add: len split: prod.split)
qed (simp add: parse_rdb_def)

lemma parse_mbr_raises: "raises_only is_table_error (parse_mbr data m)"
  by (simp add: parse_mbr_def Let_def split: prod.split)

lemma partition_table_raises: "raises_only is_table_error (parse_partition_table data max_partitions)"
  unfolding parse_partition_table_def
  by (intro raises_only_bindE parse_rdb_raises) (simp add: parse_mbr_raises split: option.split)

text \<open>
  Whatever the bytes are, the table parser raises no exception but \<open>PartitionTableError\<close>: no
  \<open>struct.error\<close> and no \<open>IndexError\<close> escapes.
\<close>

lemma parse_partition_table_raises:
  "raises_only is_table_error (parse_partition_table data max_partitions)"
  by (rule partition_table_raises)

subsection \<open>The parsed table\<close>

lemma parse_rdb_Some:
  assumes "parse_rdb data m = Inr (Some t)"
  shows "\<exists>bs ptr ps es. 512 \<le> bs \<and> rdb_loop data bs m ptr [] [] [] = Inr (ps, es)
    \<and> table_partitions t = ps \<and> table_errors t = mark_overlaps ps es \<and> table_scheme t = ''RDB''"
proof -
  from assms obtain b k where find: "find_rdsk data [0..<min 16 (length data div 512)] = Some (b, k)"
    by (auto simp: parse_rdb_def split: option.splits)
  from assms show ?thesis
    unfolding parse_rdb_def find option.case prod.case bindE_eq_Inr
    by (clarsimp simp del: One_nat_def split: if_split_asm) (metis linorder_not_less)
qed

lemma parse_mbr_Some:
  assumes "parse_mbr data m = Inr (Some t)"
  shows "\<exists>ps es. mbr_loop (length data) 0 (mbr_rows (take 512 data)) [] [] = (ps, es)
    \<and> table_partitions t = take m ps \<and> table_scheme t = ''MBR''
    \<and> table_errors t = mark_overlaps (take m ps)
       (if length ps > m then es @ [''partition count exceeds server maximum''] else es)"
proof -
  obtain ps es where loop: "mbr_loop (length data) 0 (mbr_rows (take 512 data)) [] [] = (ps, es)"
    by fastforce
  from assms have "t = \<lparr>table_scheme = ''MBR'',
      table_partitions = (if length ps > m then take m ps else ps),
      table_metadata = [(''mbr.signature'', PAsc ''55AA''), (''sector_size'', PNat 512)],
      table_errors = mark_overlaps (if length ps > m then take m ps else ps)
        (if length ps > m then es @ [''partition count exceeds server maximum''] else es)\<rparr>"
    by (simp add: parse_mbr_def Let_def loop split: if_split_asm)
  with loop show ?thesis by (intro exI [of _ ps] exI [of _ es]) simp
qed

lemma parse_partition_table_Some:
  "parse_partition_table data m = Inr (Some t) \<Longrightarrow>
     parse_rdb data m = Inr (Some t) \<or> parse_mbr data m = Inr (Some t)"
  by (auto simp: parse_partition_table_def split: option.splits)

lemma parsed_table_invariant:
  assumes "parse_partition_table data max_partitions = Inr (Some t)"
  shows "list_all (part_within (length data)) (table_partitions t)
     \<and> sorted_wrt (<) (map part_index (table_partitions t))
     \<and> length (table_partitions t) \<le> max_partitions"
  using parse_partition_table_Some [OF assms]
proof
  assume "parse_rdb data max_partitions = Inr (Some t)"
  then obtain bs ptr es where "512 \<le> bs"
    and "rdb_loop data bs max_partitions ptr [] [] [] = Inr (table_partitions t, es)"
    using parse_rdb_Some by blast
  from rdb_loop_inv [OF this(2)] this(1) show ?thesis by (simp add: list_all_iff)
next
  assume "parse_mbr data max_partitions = Inr (Some t)"
  then obtain ps es where t: "table_partitions t = take max_partitions ps"
    and loop: "mbr_loop (length data) 0 (mbr_rows (take 512 data)) [] [] = (ps, es)"
    using parse_mbr_Some by blast
  from mbr_loop_inv [OF loop] t show ?thesis
    by (auto simp: list_all_iff take_map [symmetric] intro!: sorted_wrt_take dest: in_set_takeD)
qed

text \<open>
  C6: every partition of a parsed table is non-empty and lies inside the image, the indexes
  increase (so they are distinct) and there are at most \<open>max_partitions\<close> of them.
\<close>

theorem parse_partition_table_within:
  assumes "parse_partition_table data max_partitions = Inr (Some t)"
  shows "list_all (part_within (length data)) (table_partitions t)
     \<and> sorted_wrt (<) (map part_index (table_partitions t))
     \<and> length (table_partitions t) \<le> max_partitions"
  using assms by (rule parsed_table_invariant)

subsection \<open>When an overlap is reported\<close>

definition is_overlap_message :: "string \<Rightarrow> bool" where
  "is_overlap_message m \<longleftrightarrow> starts_with ''OVERLAPPING_PARTITIONS: '' m"

lemma is_overlap_message_head: "hd m \<noteq> CHR ''O'' \<Longrightarrow> \<not> is_overlap_message m"
  by (cases m) (auto simp: is_overlap_message_def starts_with_def)

lemma overlap_message_is: "is_overlap_message (overlap_message l r)"
  by (simp add: is_overlap_message_def overlap_message_def starts_with_def)

lemma mbr_row_message: "mbr_row n i row = Row_Error m \<Longrightarrow> \<not> is_overlap_message m"
  by (rule is_overlap_message_head) (auto simp: mbr_row_def Let_def split: if_splits)

lemma mbr_loop_messages:
  assumes "mbr_loop n i rows ps es = (ps', es')" and "\<forall>m \<in> set es. \<not> is_overlap_message m"
  shows "\<forall>m \<in> set es'. \<not> is_overlap_message m"
  using assms
  by (induction n i rows ps es rule: mbr_loop.induct)
    (auto simp: mbr_row_message split: mbr_outcome.splits)

lemma rdb_geometry_message:
  "rdb_geometry n bs i name sf bpt lo hi dt prio = Inr (Inl m) \<Longrightarrow> \<not> is_overlap_message m"
  by (rule is_overlap_message_head) (auto simp: rdb_geometry_def Let_def split: if_splits)

lemma rdb_part_body_message: "rdb_part_body n bs i block = Inr (Inl m) \<Longrightarrow> \<not> is_overlap_message m"
  by (auto simp: rdb_part_body_def Let_def rdb_geometry_message)

lemma rdb_visit_messages:
  assumes "rdb_visit data bs m seen i ptr = Inr st"
  shows "case st of Rdb_Stop msgs \<Rightarrow> \<forall>m \<in> set msgs. \<not> is_overlap_message m
      | Rdb_Next _ (Inl m) \<Rightarrow> \<not> is_overlap_message m | Rdb_Next _ (Inr p) \<Rightarrow> True"
  using assms
  by (auto simp: rdb_visit_def Let_def is_overlap_message_head rdb_part_body_message
      split: if_splits sum.splits)

lemma rdb_loop_messages:
  assumes "rdb_loop data bs m ptr seen ps es = Inr (ps', es')"
    and "\<forall>m \<in> set es. \<not> is_overlap_message m"
  shows "\<forall>m \<in> set es'. \<not> is_overlap_message m"
  using assms
proof (induction data bs m ptr seen ps es rule: rdb_loop.induct)
  case (1 data bs m ptr seen ps es)
  obtain st where st: "rdb_visit data bs m seen (length ps) ptr = Inr st"
    using "1.prems"(1) by (subst (asm) rdb_loop.simps) (auto split: sum.splits)
  with "1" rdb_visit_messages [OF st] show ?case
    by (subst (asm) (3) rdb_loop.simps) (auto split: rdb_step.splits sum.splits)
qed

lemma mark_overlaps_messages:
  assumes "\<forall>p \<in> set ps. 0 < part_length p" and "\<forall>m \<in> set es. \<not> is_overlap_message m"
  shows "(\<exists>m \<in> set (mark_overlaps ps es). is_overlap_message m) \<longleftrightarrow> \<not> sorted_wrt disjoint_parts ps"
proof -
  obtain new where new: "mark_overlaps ps es = es @ new" "\<forall>m \<in> set new. is_overlap_message m"
    using overlap_message_is by (fastforce simp: mark_overlaps_def Let_def)
  then have "(\<exists>m \<in> set (mark_overlaps ps es). is_overlap_message m) \<longleftrightarrow> mark_overlaps ps es \<noteq> es"
    using assms(2) by (cases new) auto
  with mark_overlaps_disjoint [OF assms(1)] show ?thesis by blast
qed

text \<open>
  C22: a parsed table carries an \<open>OVERLAPPING_PARTITIONS\<close> error exactly when two of its partitions
  share a byte: comparing neighbours in start order misses no overlapping table.
\<close>

theorem parse_partition_table_overlaps:
  assumes "parse_partition_table data max_partitions = Inr (Some t)"
  shows "(\<exists>m \<in> set (table_errors t). is_overlap_message m)
     \<longleftrightarrow> \<not> sorted_wrt disjoint_parts (table_partitions t)"
proof -
  have pos: "\<forall>p \<in> set (table_partitions t). 0 < part_length p"
    using parsed_table_invariant [OF assms] by (simp add: part_within_def list_all_iff)
  from parse_partition_table_Some [OF assms] obtain es where
    "table_errors t = mark_overlaps (table_partitions t) es" "\<forall>m \<in> set es. \<not> is_overlap_message m"
  proof
    assume "parse_rdb data max_partitions = Inr (Some t)"
    then obtain bs ptr es where "table_errors t = mark_overlaps (table_partitions t) es"
      and "rdb_loop data bs max_partitions ptr [] [] [] = Inr (table_partitions t, es)"
      using parse_rdb_Some by blast
    with rdb_loop_messages [OF this(2)] that show ?thesis by simp
  next
    assume "parse_mbr data max_partitions = Inr (Some t)"
    then obtain ps es where t: "table_partitions t = take max_partitions ps"
      and es: "table_errors t = mark_overlaps (take max_partitions ps)
       (if length ps > max_partitions then es @ [''partition count exceeds server maximum''] else es)"
      and loop: "mbr_loop (length data) 0 (mbr_rows (take 512 data)) [] [] = (ps, es)"
      using parse_mbr_Some by blast
    have "\<forall>m \<in> set es. \<not> is_overlap_message m" using mbr_loop_messages [OF loop] by simp
    moreover have "\<not> is_overlap_message ''partition count exceeds server maximum''"
      by (rule is_overlap_message_head) simp
    ultimately show ?thesis using that t es by (auto split: if_splits)
  qed
  with mark_overlaps_messages [OF pos] show ?thesis by simp
qed

subsection \<open>Provenance of RDB partitions\<close>

definition rdb_part_at :: "bytes \<Rightarrow> nat \<Rightarrow> nat \<Rightarrow> partition_entry \<Rightarrow> bool" where
  "rdb_part_at data bs ptr p \<longleftrightarrow>
     (let block = pyslice data (ptr * bs) (ptr * bs + bs)
      in length block = bs \<and> take 4 block = ascb ''PART'' \<and> valid_rdb_checksum block = Inr True
         \<and> rdb_part_body (length data) bs (part_index p) block = Inr (Inr p))"

lemma rdb_visit_part:
  assumes "rdb_visit data bs m seen i ptr = Inr (Rdb_Next nxt (Inr p))" and "0 < bs"
  shows "rdb_part_at data bs ptr p"
proof -
  note facts = rdb_visit_Next [OF assms(1)]
  then have "part_index p = i" using rdb_part_body_within assms(2) by blast
  moreover from assms(1) have "take 4 (take bs (drop (ptr * bs) data)) = ascb ''PART''"
      and "valid_rdb_checksum (take bs (drop (ptr * bs) data)) = Inr True"
    by (auto simp: rdb_visit_def Let_def split: if_splits)
  ultimately show ?thesis
    using facts by (simp add: rdb_part_at_def pyslice_def) linarith
qed

lemma rdb_loop_parts:
  assumes "rdb_loop data bs m ptr seen ps es = Inr (ps', es')" and "0 < bs"
    and "list_all2 (rdb_part_at data bs) ptrs ps" and "distinct ptrs" and "set ptrs \<subseteq> set seen"
  shows "\<exists>ptrs'. list_all2 (rdb_part_at data bs) ptrs' ps' \<and> distinct ptrs'"
  using assms
proof (induction data bs m ptr seen ps es arbitrary: ptrs rule: rdb_loop.induct)
  case (1 data bs m ptr seen ps es)
  obtain st where st: "rdb_visit data bs m seen (length ps) ptr = Inr st"
    using "1.prems"(1) by (subst (asm) rdb_loop.simps) (auto split: sum.splits)
  show ?case
  proof (cases st)
    case (Rdb_Stop msgs)
    with st "1.prems" show ?thesis by (subst (asm) rdb_loop.simps) auto
  next
    case (Rdb_Next nxt body)
    note next_facts = rdb_visit_Next [OF st [unfolded Rdb_Next]]
    show ?thesis
    proof (cases body)
      case (Inl msg)
      with st Rdb_Next "1.prems"(1)
      have rec: "rdb_loop data bs m nxt (ptr # seen) ps (es @ [msg]) = Inr (ps', es')"
        by (subst (asm) rdb_loop.simps) simp
      from "1.IH"(1) [OF st Rdb_Next Inl rec "1.prems"(2,3,4)] "1.prems"(5) show ?thesis by auto
    next
      case (Inr part)
      with st Rdb_Next "1.prems"(1)
      have rec: "rdb_loop data bs m nxt (ptr # seen) (ps @ [part]) es = Inr (ps', es')"
        by (subst (asm) rdb_loop.simps) simp
      have "rdb_part_at data bs ptr part" using rdb_visit_part st Rdb_Next Inr "1.prems"(2) by blast
      then have "list_all2 (rdb_part_at data bs) (ptrs @ [ptr]) (ps @ [part])"
        using "1.prems"(3) by (simp add: list_all2_appendI)
      with "1.IH"(2) [OF st Rdb_Next Inr rec "1.prems"(2)] "1.prems"(4,5) next_facts show ?thesis
        by fastforce
    qed
  qed
qed

text \<open>
  Every RDB partition was decoded from a \<open>PART\<close> block of the image that lies inside it and
  has a valid checksum, and no two partitions come from the same block.
\<close>

lemma parse_rdb_provenance:
  assumes "parse_rdb data max_partitions = Inr (Some t)"
  shows "\<exists>bs ptrs. 512 \<le> bs \<and> distinct ptrs
     \<and> list_all2 (rdb_part_at data bs) ptrs (table_partitions t)"
proof -
  from assms obtain bs ptr es where bs: "512 \<le> bs"
    and loop: "rdb_loop data bs max_partitions ptr [] [] [] = Inr (table_partitions t, es)"
    using parse_rdb_Some by blast
  from rdb_loop_parts [OF loop, of "[]"] bs show ?thesis by auto
qed

subsection \<open>Concrete tables\<close>

text \<open>A 1536-byte disk with two overlapping MBR partitions, and one with an RDB and a \<open>PART\<close> block.\<close>

definition sample_row0 :: bytes where
  "sample_row0 = [0x80, 0, 0, 0, 6, 0, 0, 0, 1, 0, 0, 0, 1, 0, 0, 0]"

definition sample_row1 :: bytes where
  "sample_row1 = [0, 0, 0, 0, 11, 0, 0, 0, 1, 0, 0, 0, 2, 0, 0, 0]"

definition sample_mbr :: bytes where
  "sample_mbr = replicate 446 0 @ sample_row0 @ sample_row1 @ replicate 32 0 @ [0x55, 0xAA]
     @ replicate 1024 0"

definition sample_rdb :: bytes where
  "sample_rdb = ascb ''RDSK'' @ [0,0,0,8, 0xAD,0xBB,0xAA,0xAC] @ replicate 4 0 @ [0,0,2,0]
     @ replicate 8 0 @ [0,0,0,1] @ replicate 480 0
     @ ascb ''PART'' @ [0,0,0,6, 0xAF,0xBE,0xAD,0xA7] @ replicate 4 0 @ [255,255,255,255]
     @ replicate 16 0 @ [3] @ ascb ''DH0'' @ replicate 100 0 @ [0,0,0,1] @ replicate 4 0
     @ [0,0,0,1] @ replicate 12 0 @ [0,0,0,2, 0,0,0,2] @ replicate 20 0 @ ascb ''DOS'' @ [1]
     @ replicate 316 0 @ replicate 512 0"

lemma sample_mbr_rows:
  "mbr_rows (take 512 sample_mbr) = [sample_row0, sample_row1, replicate 16 0, replicate 16 0]"
  by (simp add: mbr_rows_def sample_mbr_def sample_row0_def sample_row1_def bytes_eval)

lemma sample_mbr_row:
  "1024 \<le> n \<Longrightarrow> mbr_row n 0 sample_row0 = Row_Partition (mbr_partition 0 sample_row0)"
  "1536 \<le> n \<Longrightarrow> mbr_row n (Suc 0) sample_row1 = Row_Partition (mbr_partition 1 sample_row1)"
  "mbr_row n i (replicate 16 0) = Row_Skip"
  by (simp_all add: mbr_row_def sample_row0_def sample_row1_def bytes_eval)

lemma sample_mbr_filters:
  "filter mbr_populated [sample_row0, sample_row1, replicate 16 0, replicate 16 0]
     = [sample_row0, sample_row1]"
  "filter mbr_plausible [sample_row0, sample_row1] = [sample_row0, sample_row1]"
  by (simp_all add: mbr_populated_def mbr_plausible_def sample_row0_def sample_row1_def bytes_eval)

lemma sample_mbr_signature:
  "pyslice (take 512 sample_mbr) 510 512 = [0x55, 0xAA]" "length sample_mbr = 1536"
  by (simp_all add: sample_mbr_def pyslice_def sample_row0_def sample_row1_def)

lemma sample_mbr_ranges:
  "part_start (mbr_partition 0 sample_row0) = 512" "part_length (mbr_partition 0 sample_row0) = 512"
  "part_start (mbr_partition 1 sample_row1) = 512" "part_length (mbr_partition 1 sample_row1) = 1024"
  by (simp_all add: mbr_partition_def sample_row0_def sample_row1_def bytes_eval Let_def)

lemma sample_mbr_loop:
  "mbr_loop 1536 0 [sample_row0, sample_row1, replicate 16 0, replicate 16 0] [] []
     = ([mbr_partition 0 sample_row0, mbr_partition 1 sample_row1], [])"
  by (simp add: sample_mbr_row)

definition sample_mbr_table :: partition_table where
  "sample_mbr_table =
     \<lparr>table_scheme = ''MBR'',
      table_partitions = [mbr_partition 0 sample_row0, mbr_partition 1 sample_row1],
      table_metadata = [(''mbr.signature'', PAsc ''55AA''), (''sector_size'', PNat 512)],
      table_errors =
        mark_overlaps [mbr_partition 0 sample_row0, mbr_partition 1 sample_row1] []\<rparr>"

lemma sample_mbr_parse: "parse_partition_table sample_mbr 32 = Inr (Some sample_mbr_table)"
proof -
  have "find_rdsk sample_mbr [0..<min 16 (length sample_mbr div 512)] = None"
    by (simp add: sample_mbr_def sample_row0_def sample_row1_def bytes_eval)
  then have "parse_partition_table sample_mbr 32 = parse_mbr sample_mbr 32"
    by (simp add: parse_partition_table_def parse_rdb_def)
  also have "\<dots> = Inr (Some sample_mbr_table)"
    unfolding parse_mbr_def Let_def sample_mbr_rows sample_mbr_filters sample_mbr_signature
      sample_mbr_loop prod.case
    by (simp add: sample_mbr_table_def)
  finally show ?thesis .
qed

lemma sample_rdb_find:
  "find_rdsk sample_rdb [0..<min 16 (length sample_rdb div 512)] = Some (take 512 sample_rdb, 0)"
  "length sample_rdb = 1536"
  by (simp_all add: sample_rdb_def bytes_eval)

lemma sample_rdb_checksums:
  "valid_rdb_checksum (take 512 sample_rdb) = Inr True"
  "valid_rdb_checksum (take 512 (drop 512 sample_rdb)) = Inr True"
  by (simp_all add: valid_rdb_checksum_def be32_def be32_words_def sample_rdb_def bytes_eval)

lemma sample_rdb_fields:
  "be_at 4 (take 512 sample_rdb) 16 = 512" "be_at 4 (take 512 sample_rdb) 28 = 1"
  "be_at 4 (take 512 (drop 512 sample_rdb)) 16 = 0xFFFFFFFF"
  "take 4 (take 512 (drop 512 sample_rdb)) = ascb ''PART''"
  by (simp_all add: sample_rdb_def bytes_eval)

lemma sample_rdb_body:
  "rdb_part_body 1536 512 0 (take 512 (drop 512 sample_rdb)) =
     rdb_geometry 1536 512 0 (Some (asc ''DH0'')) 1 1 2 2 (ascb ''DOS'' @ [1]) 0"
  by (simp add: rdb_part_body_def be32_def sample_rdb_def bytes_eval latin1_def asc_def signed_of_def nth_append)

lemma sample_rdb_geometry:
  "\<exists>p. rdb_geometry 1536 512 0 name 1 1 2 2 (ascb ''DOS'' @ [1]) 0 = Inr (Inr p)
     \<and> part_start p = 1024 \<and> part_length p = 512"
  by (simp add: rdb_geometry_def rdb_text_type_def ascb_def rdb_partition_def)

lemma sample_rdb_parse:
  "\<exists>t p. parse_rdb sample_rdb 32 = Inr (Some t) \<and> table_partitions t = [p]
     \<and> part_start p = 1024 \<and> part_length p = 512"
proof -
  obtain p where body: "rdb_part_body 1536 512 0 (take 512 (drop 512 sample_rdb)) = Inr (Inr p)"
    and p: "part_start p = 1024" "part_length p = 512"
    using sample_rdb_geometry sample_rdb_body by metis
  have visit: "rdb_visit sample_rdb 512 32 [] 0 1 = Inr (Rdb_Next 0xFFFFFFFF (Inr p))"
    unfolding rdb_visit_def Let_def sample_rdb_find mult_1 sample_rdb_fields sample_rdb_checksums body
      be32_def
    by (simp add: sample_rdb_find sample_rdb_fields)
  have stop: "rdb_visit sample_rdb 512 32 [1] 1 0xFFFFFFFF = Inr (Rdb_Stop [])"
    by (simp add: rdb_visit_def)
  have "rdb_loop sample_rdb 512 32 1 [] [] [] = Inr ([p], [])"
    by (subst rdb_loop.simps, simp add: visit [simplified])
      (subst rdb_loop.simps, simp add: stop [simplified])
  then show ?thesis
    unfolding parse_rdb_def sample_rdb_find(1) option.case prod.case sample_rdb_checksums
    using p by (simp add: be32_def sample_rdb_find sample_rdb_fields [simplified])
qed

theorem parse_partition_table_within_witness:
  "parse_partition_table sample_mbr 32 = Inr (Some sample_mbr_table)
     \<and> list_all (part_within (length sample_mbr)) (table_partitions sample_mbr_table)"
  using parse_partition_table_within [OF sample_mbr_parse] sample_mbr_parse by simp

theorem parse_partition_table_overlaps_witness:
  "\<exists>m \<in> set (table_errors sample_mbr_table). is_overlap_message m"
proof -
  have "\<not> sorted_wrt disjoint_parts (table_partitions sample_mbr_table)"
    by (simp add: sample_mbr_table_def disjoint_parts_def sample_mbr_ranges [simplified])
  then show ?thesis using parse_partition_table_overlaps [OF sample_mbr_parse] by blast
qed

lemma parse_rdb_provenance_witness:
  "\<exists>t bs ptrs. parse_rdb sample_rdb 32 = Inr (Some t) \<and> length (table_partitions t) = 1
     \<and> 512 \<le> bs \<and> distinct ptrs \<and> list_all2 (rdb_part_at sample_rdb bs) ptrs (table_partitions t)"
proof -
  obtain t p where t: "parse_rdb sample_rdb 32 = Inr (Some t)" "table_partitions t = [p]"
    using sample_rdb_parse by blast
  with parse_rdb_provenance [OF t(1)] show ?thesis by fastforce
qed

end
