(* ===== verification/Disk_Images.thy ===== *)
theory Disk_Images
  imports Prelude
begin

unbundle bit_operations_syntax

section \<open>Filesystem images: \<open>analyzers/disk_images.py\<close>\<close>

text \<open>
  The read-only FAT12/16/32 and Amiga OFS/FFS readers. The nested functions of the source close
  over local variables; here they take them in a layout record. Recursion of \<open>walk\<close> and
  \<open>walk_directory\<close> is bounded by Python's recursion limit: the argument \<open>depth\<close> is the number
  of nested calls left, and \<open>RecursionError\<close> is what a call past it raises.
\<close>

subsection \<open>Decoding of names\<close>

text \<open>\<open>bytes.decode("cp437")\<close>: the high half of the code page.\<close>

definition cp437_high :: "nat list" where
  "cp437_high =
    [0x00C7, 0x00FC, 0x00E9, 0x00E2, 0x00E4, 0x00E0, 0x00E5, 0x00E7,
     0x00EA, 0x00EB, 0x00E8, 0x00EF, 0x00EE, 0x00EC, 0x00C4, 0x00C5,
     0x00C9, 0x00E6, 0x00C6, 0x00F4, 0x00F6, 0x00F2, 0x00FB, 0x00F9,
     0x00FF, 0x00D6, 0x00DC, 0x00A2, 0x00A3, 0x00A5, 0x20A7, 0x0192,
     0x00E1, 0x00ED, 0x00F3, 0x00FA, 0x00F1, 0x00D1, 0x00AA, 0x00BA,
     0x00BF, 0x2310, 0x00AC, 0x00BD, 0x00BC, 0x00A1, 0x00AB, 0x00BB,
     0x2591, 0x2592, 0x2593, 0x2502, 0x2524, 0x2561, 0x2562, 0x2556,
     0x2555, 0x2563, 0x2551, 0x2557, 0x255D, 0x255C, 0x255B, 0x2510,
     0x2514, 0x2534, 0x252C, 0x251C, 0x2500, 0x253C, 0x255E, 0x255F,
     0x255A, 0x2554, 0x2569, 0x2566, 0x2560, 0x2550, 0x256C, 0x2567,
     0x2568, 0x2564, 0x2565, 0x2559, 0x2558, 0x2552, 0x2553, 0x256B,
     0x256A, 0x2518, 0x250C, 0x2588, 0x2584, 0x258C, 0x2590, 0x2580,
     0x03B1, 0x00DF, 0x0393, 0x03C0, 0x03A3, 0x03C3, 0x00B5, 0x03C4,
     0x03A6, 0x0398, 0x03A9, 0x03B4, 0x221E, 0x03C6, 0x03B5, 0x2229,
     0x2261, 0x00B1, 0x2265, 0x2264, 0x2320, 0x2321, 0x00F7, 0x2248,
     0x00B0, 0x2219, 0x00B7, 0x221A, 0x207F, 0x00B2, 0x25A0, 0x00A0]"

definition cp437 :: "bytes \<Rightarrow> pystr" where
  "cp437 bs = map (\<lambda>b. if unat b < 128 then unat b else cp437_high ! (unat b - 128)) bs"

text \<open>\<open>bytes.decode("ascii", errors="replace")\<close>.\<close>

definition ascii_replace :: "bytes \<Rightarrow> pystr" where
  "ascii_replace bs = map (\<lambda>b. if unat b < 128 then unat b else 0xFFFD) bs"

text \<open>\<open>bytes.decode("utf-16le", errors="replace")\<close> of an even number of bytes.\<close>

fun le_units :: "bytes \<Rightarrow> nat list" where
  "le_units (a # b # bs) = (unat a + 256 * unat b) # le_units bs"
| "le_units _ = []"

fun utf16_units :: "nat list \<Rightarrow> pystr" where
  "utf16_units [] = []"
| "utf16_units [u] = [if 0xD800 \<le> u \<and> u \<le> 0xDFFF then 0xFFFD else u]"
| "utf16_units (u # v # us) =
     (if u < 0xD800 \<or> 0xDFFF < u then u # utf16_units (v # us)
      else if u \<le> 0xDBFF \<and> 0xDC00 \<le> v \<and> v \<le> 0xDFFF
      then (0x10000 + (u - 0xD800) * 0x400 + (v - 0xDC00)) # utf16_units us
      else 0xFFFD # utf16_units (v # us))"

definition utf16le :: "bytes \<Rightarrow> pystr" where
  "utf16le bs = utf16_units (le_units bs)"

text \<open>\<open>f"{prefix}/{name}" if prefix else name\<close>.\<close>

definition join_path :: "pystr \<Rightarrow> pystr \<Rightarrow> pystr" where
  "join_path prefix name = (if prefix = [] then name else prefix @ asc ''/'' @ name)"

subsection \<open>Images\<close>

record disk_entry =
  entry_path :: pystr
  entry_data :: bytes
  entry_index :: nat
  entry_type :: string

record disk_image =
  image_format :: string
  image_filesystem :: string
  image_entries :: "disk_entry list"
  image_metadata :: "(string \<times> pyval) list"

text \<open>The mutable variables the recursive walks share: \<open>entries\<close> and the visited set.\<close>

record walk_state =
  ws_entries :: "disk_entry list"
  ws_visited :: "nat list"

definition add_entry :: "pystr \<Rightarrow> bytes \<Rightarrow> walk_state \<Rightarrow> walk_state" where
  "add_entry path data st =
     st\<lparr>ws_entries := ws_entries st @
        [\<lparr>entry_path = path, entry_data = data, entry_index = length (ws_entries st),
          entry_type = ''file''\<rparr>]\<rparr>"

definition visit :: "nat \<Rightarrow> walk_state \<Rightarrow> walk_state" where
  "visit key st = st\<lparr>ws_visited := key # ws_visited st\<rparr>"

subsection \<open>FAT\<close>

datatype fat_variant = FAT12 | FAT16 | FAT32

record fat_layout =
  fl_data :: bytes
  fl_bps :: nat
  fl_spc :: nat
  fl_reserved :: nat
  fl_fats :: nat
  fl_root_entries :: nat
  fl_total :: nat
  fl_fat_size :: nat
  fl_root_sectors :: nat
  fl_first_data :: nat
  fl_clusters :: nat
  fl_variant :: fat_variant
  fl_fat_bytes :: bytes

definition fl_cluster_size :: "fat_layout \<Rightarrow> nat" where
  "fl_cluster_size l = fl_spc l * fl_bps l"

definition u16 :: "bytes \<Rightarrow> nat \<Rightarrow> nat res" where
  "u16 data offset = unpack_le 2 data offset"

definition u32 :: "bytes \<Rightarrow> nat \<Rightarrow> nat res" where
  "u32 data offset = unpack_le 4 data offset"

text \<open>
  The boot sector: \<open>None\<close> where the source returns \<open>None\<close> before it reads any directory.
  \<open>fat_layout_of\<close> is the validation and the layout arithmetic on the decoded fields.
\<close>

definition fat_layout_of :: "bytes \<Rightarrow> nat \<Rightarrow> nat \<Rightarrow> nat \<Rightarrow> nat \<Rightarrow> nat \<Rightarrow> nat \<Rightarrow> nat \<Rightarrow> fat_layout option res" where
  "fat_layout_of data bps spc reserved fats root_entries total_sectors fat_size =
     (if bps \<notin> {512, 1024, 2048, 4096} \<or> spc = 0 \<or> (spc AND (spc - 1)) \<noteq> 0 \<or> reserved = 0
         \<or> fats \<notin> {1, 2} \<or> total_sectors = 0 \<or> fat_size = 0 \<or> total_sectors * bps > length data
      then Inr None
      else
        let root_sectors = (root_entries * 32 + bps - 1) div bps;
            first_data = reserved + fats * fat_size + root_sectors
        in if first_data \<ge> total_sectors then Inr None
           else
             let clusters = (total_sectors - first_data) div spc;
                 variant = (if clusters < 4085 then FAT12 else if clusters < 65525 then FAT16 else FAT32);
                 fat_offset = reserved * bps
             in bindE (if variant \<noteq> FAT32 then Inr False
                       else if root_entries \<noteq> 0 then Inr True
                       else bindE (u32 data 44) (\<lambda>c. Inr (c < 2))) (\<lambda>bad_root.
                Inr (if bad_root then None
                     else Some \<lparr>fl_data = data, fl_bps = bps, fl_spc = spc, fl_reserved = reserved,
                       fl_fats = fats, fl_root_entries = root_entries, fl_total = total_sectors,
                       fl_fat_size = fat_size, fl_root_sectors = root_sectors,
                       fl_first_data = first_data, fl_clusters = clusters, fl_variant = variant,
                       fl_fat_bytes = pyslice data fat_offset (fat_offset + fat_size * bps)\<rparr>)))"

definition fat_header :: "bytes \<Rightarrow> fat_layout option res" where
  "fat_header data =
     (if length data < 512 \<or> pyslice data 510 512 \<noteq> [0x55, 0xAA] then Inr None
      else
        bindE (u16 data 11) (\<lambda>bps.
        bindE (byte_at data 13) (\<lambda>spc.
        bindE (u16 data 14) (\<lambda>reserved.
        bindE (byte_at data 16) (\<lambda>fats.
        bindE (u16 data 17) (\<lambda>root_entries.
        bindE (u16 data 19) (\<lambda>total16.
        bindE (if total16 \<noteq> 0 then Inr total16 else u32 data 32) (\<lambda>total.
        bindE (u16 data 22) (\<lambda>fat16.
        bindE (if fat16 \<noteq> 0 then Inr fat16 else u32 data 36) (\<lambda>fat_size.
          fat_layout_of data bps spc reserved fats root_entries total fat_size))))))))))"

text \<open>\<open>next_cluster\<close>: the value of a FAT slot, then the end-of-chain and range tests.\<close>

definition fat_slot :: "fat_layout \<Rightarrow> nat \<Rightarrow> (nat \<times> bool) res" where
  "fat_slot l cluster =
     (let fat = fl_fat_bytes l in
      case fl_variant l of
        FAT12 \<Rightarrow>
          (let pos = cluster + cluster div 2 in
           if pos + 2 > length fat then Inl (DiskImageError ''FAT12 entry lies outside the FAT'')
           else let raw = le_at 2 fat pos;
                    value = (if odd cluster then drop_bit 4 raw else raw AND 0xFFF)
                in Inr (value, value \<ge> 0xFF8))
      | FAT16 \<Rightarrow>
          (let pos = cluster * 2 in
           if pos + 2 > length fat then Inl (DiskImageError ''FAT16 entry lies outside the FAT'')
           else bindE (u16 fat pos) (\<lambda>value. Inr (value, value \<ge> 0xFFF8)))
      | FAT32 \<Rightarrow>
          (let pos = cluster * 4 in
           if pos + 4 > length fat then Inl (DiskImageError ''FAT32 entry lies outside the FAT'')
           else bindE (u32 fat pos) (\<lambda>raw. let value = raw AND 0x0FFFFFFF in
                  Inr (value, value \<ge> 0x0FFFFFF8))))"

definition next_cluster :: "fat_layout \<Rightarrow> nat \<Rightarrow> nat option res" where
  "next_cluster l cluster =
     bindE (fat_slot l cluster) (\<lambda>(value, eof).
       if eof then Inr None
       else if value < 2 \<or> value \<ge> fl_clusters l + 2
       then Inl (DiskImageError ''invalid FAT cluster chain'')
       else Inr (Some value))"

definition cluster_data :: "fat_layout \<Rightarrow> nat \<Rightarrow> bytes res" where
  "cluster_data l cluster =
     (let sector = fl_first_data l + (cluster - 2) * fl_spc l;
          start = sector * fl_bps l;
          stop = start + fl_cluster_size l
      in if cluster < 2 \<or> stop > length (fl_data l)
         then Inl (DiskImageError ''cluster lies outside image'')
         else Inr (pyslice (fl_data l) start stop))"

text \<open>
  The loop of \<open>chain\<close>: one iteration ends with the file's bytes or goes on at the next cluster.
  \<open>seen\<close> grows in every iteration and is bounded by the cluster count.
\<close>

datatype chain_outcome = Chain_Done bytes | Chain_More nat bytes

definition chain_step :: "fat_layout \<Rightarrow> nat option \<Rightarrow> nat \<Rightarrow> nat list \<Rightarrow> bytes \<Rightarrow> chain_outcome res" where
  "chain_step l wanted current seen out =
     (if current \<in> set seen \<or> length seen > fl_clusters l
      then Inl (DiskImageError ''cyclic FAT cluster chain'')
      else bindE (cluster_data l current) (\<lambda>chunk.
        let out' = out @ chunk in
        if wanted \<noteq> None \<and> length out' \<ge> the wanted then Inr (Chain_Done (take (the wanted) out'))
        else bindE (next_cluster l current) (\<lambda>succ.
          case succ of
            Some c \<Rightarrow> Inr (Chain_More c out')
          | None \<Rightarrow>
              if wanted \<noteq> None \<and> length out' < the wanted
              then Inl (DiskImageError ''truncated FAT file'')
              else Inr (Chain_Done (case wanted of None \<Rightarrow> out' | Some w \<Rightarrow> take w out')))))"

lemma chain_step_More:
  "chain_step l w c seen out = Inr (Chain_More d out') \<Longrightarrow>
     c \<notin> set seen \<and> length seen \<le> fl_clusters l \<and> next_cluster l c = Inr (Some d)
     \<and> (\<exists>chunk. cluster_data l c = Inr chunk \<and> out' = out @ chunk)"
  by (auto simp: chain_step_def Let_def split: if_splits option.splits)

function chain_loop :: "fat_layout \<Rightarrow> nat option \<Rightarrow> nat \<Rightarrow> nat list \<Rightarrow> bytes \<Rightarrow> bytes res" where
  "chain_loop l wanted current seen out =
     (case chain_step l wanted current seen out of
        Inl e \<Rightarrow> Inl e
      | Inr (Chain_Done bs) \<Rightarrow> Inr bs
      | Inr (Chain_More c out') \<Rightarrow> chain_loop l wanted c (current # seen) out')"
  by pat_completeness auto
termination
  by (relation "measure (\<lambda>(l, wanted, current, seen, out). Suc (fl_clusters l) - length seen)")
    (auto dest: chain_step_More)

declare chain_loop.simps [simp del]

definition chain :: "fat_layout \<Rightarrow> nat \<Rightarrow> nat option \<Rightarrow> bytes res" where
  "chain l start wanted =
     (if start < 2
      then if wanted \<noteq> None \<and> the wanted \<noteq> 0 then Inl (DiskImageError ''missing cluster'') else Inr []
      else chain_loop l wanted start [] [])"

text \<open>The rows at \<open>range(0, len(directory) - 31, 32)\<close>: each has 32 bytes.\<close>

definition fat_rows :: "bytes \<Rightarrow> bytes list" where
  "fat_rows directory =
     map (\<lambda>k. pyslice directory (32 * k) (32 * k + 32)) [0..<(length directory - 31 + 31) div 32]"

text \<open>What one directory row asks for, given the long-name parts collected so far.\<close>

datatype fat_row_kind =
    Row_End
  | Row_Next "pystr list"
  | Row_Directory pystr nat
  | Row_File pystr nat nat

definition short_name :: "bytes \<Rightarrow> pystr" where
  "short_name row =
     (let stem = rstrip_by is_space (cp437 (take 8 row));
          ext = rstrip_by is_space (cp437 (pyslice row 8 11))
      in stem @ (if ext = [] then [] else asc ''.'' @ ext))"

definition fat_row :: "pystr list \<Rightarrow> bytes \<Rightarrow> fat_row_kind" where
  "fat_row long_parts row =
     (let attr = unat (row ! 11) in
      if row ! 0 = 0 then Row_End
      else if row ! 0 = 0xE5 then Row_Next []
      else if attr = 0x0F
      then Row_Next (rstrip_by (\<lambda>c. c = 0xFFFF \<or> c = 0)
             (utf16le (pyslice row 1 11 @ pyslice row 14 26 @ pyslice row 28 32)) # long_parts)
      else if (attr AND 0x08) \<noteq> 0 then Row_Next []
      else
        let name = (if long_parts \<noteq> [] then concat long_parts else short_name row)
        in if name = asc ''.'' \<or> name = asc ''..'' \<or> name = [] then Row_Next []
           else
             let start = le_at 2 row 26 OR (push_bit 16 (le_at 2 row 20))
             in if (attr AND 0x10) \<noteq> 0 then Row_Directory name start
                else Row_File name start (le_at 4 row 28))"

fun fat_walk :: "nat \<Rightarrow> fat_layout \<Rightarrow> pystr \<Rightarrow> bytes list \<Rightarrow> pystr list \<Rightarrow> walk_state \<Rightarrow> walk_state res" where
  "fat_walk depth l prefix [] long_parts st = Inr st"
| "fat_walk depth l prefix (row # rows) long_parts st =
     (case fat_row long_parts row of
        Row_End \<Rightarrow> Inr st
      | Row_Next parts \<Rightarrow> fat_walk depth l prefix rows parts st
      | Row_Directory name start \<Rightarrow>
          if start \<in> set (ws_visited st) then fat_walk depth l prefix rows [] st
          else bindE (chain l start None) (\<lambda>directory.
               case depth of
                 0 \<Rightarrow> Inl RecursionError
               | Suc d \<Rightarrow>
                   bindE (fat_walk d l (join_path prefix name) (fat_rows directory) [] (visit start st))
                     (fat_walk depth l prefix rows []))
      | Row_File name start fsize \<Rightarrow>
          bindE (chain l start (Some fsize)) (\<lambda>data.
            fat_walk depth l prefix rows [] (add_entry (join_path prefix name) data st)))"

definition variant_name :: "fat_variant \<Rightarrow> string" where
  "variant_name v = (case v of FAT12 \<Rightarrow> ''FAT12'' | FAT16 \<Rightarrow> ''FAT16'' | FAT32 \<Rightarrow> ''FAT32'')"

definition opt_text :: "pystr \<Rightarrow> pyval" where
  "opt_text s = (if s = [] then PNone else PStr s)"

definition fat_root :: "fat_layout \<Rightarrow> bytes res" where
  "fat_root l =
     (let root_start = (fl_reserved l + fl_fats l * fl_fat_size l) * fl_bps l in
      if fl_variant l = FAT32
      then bindE (u32 (fl_data l) 44) (\<lambda>c. chain l c None)
      else Inr (pyslice (fl_data l) root_start (root_start + fl_root_sectors l * fl_bps l)))"

definition parse_fat :: "nat \<Rightarrow> bytes \<Rightarrow> disk_image option res" where
  "parse_fat depth data =
     bindE (fat_header data) (\<lambda>hdr.
     case hdr of
       None \<Rightarrow> Inr None
     | Some l \<Rightarrow>
         bindE (fat_root l) (\<lambda>root.
         bindE (fat_walk depth l [] (fat_rows root) [] \<lparr>ws_entries = [], ws_visited = []\<rparr>) (\<lambda>st.
         let label_raw = (if fl_variant l = FAT32 then pyslice data 71 82 else pyslice data 43 54);
             label = strip_space (ascii_replace label_raw)
         in Inr (Some \<lparr>image_format = ''raw-fat-image'',
              image_filesystem = variant_name (fl_variant l),
              image_entries = ws_entries st,
              image_metadata =
                [(''disk_image_format'', PAsc ''raw-fat-image''),
                 (''filesystem_type'', PAsc (variant_name (fl_variant l))),
                 (''filesystem_label'', opt_text label),
                 (''filesystem_size'', PNat (fl_total l * fl_bps l)),
                 (''allocation_size'', PNat (fl_cluster_size l)),
                 (''image_byte_size'', PNat (length data)),
                 (''root_entry_count'',
                   if fl_variant l \<noteq> FAT32 then PNat (fl_root_entries l) else PNone)]\<rparr>))))"

subsection \<open>Amiga OFS and FFS\<close>

definition be32d :: "bytes \<Rightarrow> nat \<Rightarrow> nat res" where
  "be32d data offset = unpack_be 4 data offset"

definition signed_be32 :: "bytes \<Rightarrow> nat \<Rightarrow> int res" where
  "signed_be32 data offset = bindE (unpack_be 4 data offset) (\<lambda>v. Inr (signed_of 32 v))"

record adf_volume =
  av_data :: bytes
  av_filesystem :: string

definition adf_blocks :: "adf_volume \<Rightarrow> nat" where
  "adf_blocks v = length (av_data v) div 512"

definition adf_block :: "adf_volume \<Rightarrow> nat \<Rightarrow> bytes res" where
  "adf_block v key =
     (if key < 2 \<or> key \<ge> adf_blocks v
      then Inl (DiskImageError ''ADF block pointer lies outside image'')
      else Inr (pyslice (av_data v) (key * 512) ((key + 1) * 512)))"

text \<open>\<open>struct.unpack(">128I", value)\<close> wants exactly 512 bytes.\<close>

definition adf_valid_checksum :: "bytes \<Rightarrow> bool res" where
  "adf_valid_checksum value =
     (if length value \<noteq> 512 then Inl StructError
      else Inr (sum_list (map (\<lambda>i. be_at 4 value (4 * i)) [0..<128]) mod 2 ^ 32 = 0))"

definition bstr :: "bytes \<Rightarrow> nat \<Rightarrow> pystr res" where
  "bstr value offset =
     bindE (byte_at value offset) (\<lambda>len.
       if len > 107 \<or> offset + 1 + len > length value
       then Inl (DiskImageError ''invalid ADF counted string'')
       else Inr (latin1 (pyslice value (offset + 1) (offset + 1 + len))))"

text \<open>One data block of a file: the bytes it contributes.\<close>

definition adf_payload :: "adf_volume \<Rightarrow> nat \<Rightarrow> nat \<Rightarrow> bytes res" where
  "adf_payload v header_key key =
     bindE (adf_block v key) (\<lambda>value.
     if av_filesystem v = ''OFS''
     then bindE (be32d value 0) (\<lambda>ty.
          bindE (if ty \<noteq> 8 then Inr True else bindE (be32d value 4) (\<lambda>owner. Inr (owner \<noteq> header_key))) (\<lambda>bad.
          if bad then Inl (DiskImageError ''invalid OFS data block'')
          else bindE (be32d value 12) (\<lambda>n.
               bindE (if n > 488 then Inr True else bindE (adf_valid_checksum value) (\<lambda>ok. Inr (\<not> ok))) (\<lambda>bad2.
               if bad2 then Inl (DiskImageError ''invalid OFS data block size/checksum'')
               else Inr (pyslice value 24 (24 + n))))))
     else Inr value)"

fun adf_file_loop :: "adf_volume \<Rightarrow> nat \<Rightarrow> nat \<Rightarrow> nat list \<Rightarrow> nat list \<Rightarrow> bytes \<Rightarrow> bytes res" where
  "adf_file_loop v header_key fsize [] seen out =
     (if length out \<noteq> fsize then Inl (DiskImageError ''truncated ADF file'') else Inr out)"
| "adf_file_loop v header_key fsize (key # keys) seen out =
     (if key \<in> set seen then Inl (DiskImageError ''cyclic ADF file block list'')
      else bindE (adf_payload v header_key key) (\<lambda>chunk.
        let out' = out @ chunk in
        if length out' \<ge> fsize then Inr (take fsize out')
        else adf_file_loop v header_key fsize keys (key # seen) out'))"

definition adf_file_data :: "adf_volume \<Rightarrow> bytes \<Rightarrow> nat \<Rightarrow> bytes res" where
  "adf_file_data v header header_key =
     bindE (be32d header 324) (\<lambda>fsize.
     bindE (mapE (\<lambda>i. be32d header (24 + 4 * i)) [0..<72]) (\<lambda>pointers.
       adf_file_loop v header_key fsize (filter (\<lambda>p. p \<noteq> 0) (rev pointers)) [] []))"

definition unsafe_adf_name :: "pystr \<Rightarrow> bool" where
  "unsafe_adf_name name \<longleftrightarrow> name = [] \<or> 0x2F \<in> set name \<or> 0x5C \<in> set name
     \<or> name = asc ''.'' \<or> name = asc ''..''"

text \<open>One entry header, up to the name check.\<close>

definition adf_entry :: "adf_volume \<Rightarrow> nat \<Rightarrow> (bytes \<times> int \<times> pystr) res" where
  "adf_entry v key =
     bindE (adf_block v key) (\<lambda>header.
     bindE (be32d header 0) (\<lambda>ty.
     bindE (if ty \<noteq> 2 then Inr False else adf_valid_checksum header) (\<lambda>ok.
     if \<not> ok then Inl (DiskImageError ''invalid ADF entry header'')
     else
     bindE (signed_be32 header 508) (\<lambda>kind.
     bindE (bstr header 432) (\<lambda>name.
     if unsafe_adf_name name then Inl (DiskImageError ''unsafe ADF entry name'')
     else Inr (header, kind, name))))))"

text \<open>
  The \<open>while key\<close> loop of one hash bucket. \<open>fuel\<close> bounds its iterations (every iteration visits a
  block not visited before, so \<open>adf_blocks\<close> is enough); a subdirectory runs the loop of its 72
  buckets one level deeper.
\<close>

fun adf_chain :: "nat \<Rightarrow> nat \<Rightarrow> adf_volume \<Rightarrow> pystr \<Rightarrow> nat list \<Rightarrow> nat \<Rightarrow> walk_state \<Rightarrow> walk_state res" where
  "adf_chain depth fuel v prefix chain_seen key st =
     (if key = 0 then Inr st
      else case fuel of
        0 \<Rightarrow> Inl OutOfFuel
      | Suc fuel' \<Rightarrow>
        if key \<in> set chain_seen \<or> key \<in> set (ws_visited st)
        then Inl (DiskImageError ''cyclic ADF directory hash chain'')
        else
          bindE (adf_entry v key) (\<lambda>(header, kind, name).
          bindE
            (if kind = 2
             then (case depth of
                     0 \<Rightarrow> Inl RecursionError
                   | Suc d \<Rightarrow>
                       bindE (mapE (\<lambda>b. be32d header (24 + b * 4)) [0..<72]) (\<lambda>keys.
                       foldE (\<lambda>k. adf_chain d (adf_blocks v) v (join_path prefix name) [] k) keys
                         (visit key st)))
             else if kind = -3
             then bindE (adf_file_data v header key) (\<lambda>data.
                    Inr (add_entry (join_path prefix name) data (visit key st)))
             else Inl (DiskImageError ''unsupported ADF entry type'')) (\<lambda>st'.
          bindE (be32d header 496) (\<lambda>next.
            adf_chain depth fuel' v prefix (key # chain_seen) next st'))))"

declare adf_chain.simps [simp del]

definition adf_walk :: "nat \<Rightarrow> adf_volume \<Rightarrow> bytes \<Rightarrow> walk_state \<Rightarrow> walk_state res" where
  "adf_walk depth v directory st =
     bindE (mapE (\<lambda>b. be32d directory (24 + b * 4)) [0..<72]) (\<lambda>keys.
       foldE (\<lambda>k. adf_chain depth (adf_blocks v) v [] [] k) keys st)"

definition parse_adf :: "nat \<Rightarrow> bytes \<Rightarrow> disk_image option res" where
  "parse_adf depth data =
     (if length data \<noteq> 901120 \<or> take 3 data \<noteq> ascb ''DOS'' \<or> data ! 3 \<notin> {0, 1} then Inr None
      else
        let dos_type = unat (data ! 3);
            filesystem = (if dos_type = 0 then ''OFS'' else ''FFS'');
            v = \<lparr>av_data = data, av_filesystem = filesystem\<rparr>;
            root_key = adf_blocks v div 2
        in bindE (adf_block v root_key) (\<lambda>root.
           bindE (be32d root 0) (\<lambda>ty.
           bindE (signed_be32 root 508) (\<lambda>sec.
           if ty \<noteq> 2 \<or> sec \<noteq> 1 then Inr None
           else bindE (adf_valid_checksum root) (\<lambda>ok.
             if \<not> ok then Inl (DiskImageError ''invalid ADF root block checksum'')
             else
             bindE (adf_walk depth v root \<lparr>ws_entries = [], ws_visited = [root_key]\<rparr>) (\<lambda>st.
             bindE (bstr root 432) (\<lambda>volume.
             Inr (Some \<lparr>image_format = ''amiga-adf'', image_filesystem = filesystem,
               image_entries = ws_entries st,
               image_metadata =
                 [(''disk_image_format'', PAsc ''amiga-adf''),
                  (''filesystem_type'', PAsc filesystem),
                  (''dos_type'', PAsc (''DOS'' @ [CHR 0x5C] @ show_nat dos_type)),
                  (''filesystem_label'', opt_text volume),
                  (''filesystem_size'', PNat (length data)),
                  (''allocation_size'', PNat 512),
                  (''image_byte_size'', PNat (length data))]\<rparr>))))))))"

definition parse_disk_image :: "nat \<Rightarrow> bytes \<Rightarrow> disk_image option res" where
  "parse_disk_image depth data =
     bindE (parse_fat depth data) (\<lambda>fat.
     case fat of Some img \<Rightarrow> Inr (Some img) | None \<Rightarrow> parse_adf depth data)"

subsection \<open>FAT chains\<close>

abbreviation is_disk_error :: "py_exn \<Rightarrow> bool" where
  "is_disk_error e \<equiv> (\<exists>m. e = DiskImageError m)"

definition layout_ok :: "fat_layout \<Rightarrow> bool" where
  "layout_ok l \<longleftrightarrow> 0 < fl_bps l \<and> 0 < fl_spc l \<and> 512 \<le> length (fl_data l)"

definition header_ok :: "bytes \<Rightarrow> fat_layout option \<Rightarrow> bool" where
  "header_ok data r \<longleftrightarrow>
     (case r of None \<Rightarrow> True | Some l \<Rightarrow> layout_ok l \<and> fl_data l = data \<and> 512 \<le> fl_cluster_size l)"

lemma fat_layout_of_ok:
  assumes "512 \<le> length data"
  shows "ensures (header_ok data) (fat_layout_of data bps spc res fats re tot fs)"
proof -
  have size: "512 \<le> spc * bps \<and> 0 < bps" if "bps \<in> {512, 1024, 2048, 4096}" "spc \<noteq> 0"
    using that by auto
  show ?thesis
    unfolding fat_layout_of_def Let_def
    by (intro ensures_bindE ensures_if)
      (use assms size in \<open>simp_all add: header_ok_def layout_ok_def fl_cluster_size_def\<close>)
qed

lemma fat_header_ensures: "ensures (header_ok data) (fat_header data)"
  unfolding fat_header_def
  by (intro ensures_bindE ensures_if fat_layout_of_ok) (auto simp: header_ok_def)

lemma fat_header_ok:
  "fat_header data = Inr (Some l) \<Longrightarrow> layout_ok l \<and> fl_data l = data \<and> 512 \<le> fl_cluster_size l"
  using ensuresD [OF fat_header_ensures] by (fastforce simp: header_ok_def)

lemma fat_layout_of_raises: "512 \<le> length data \<Longrightarrow> raises_only P (fat_layout_of data bps spc res fats re tot fs)"
  unfolding fat_layout_of_def Let_def
  by (intro raises_only_bindE raises_only_if) (simp_all add: u32_def)

lemma fat_header_raises: "raises_only P (fat_header data)"
  unfolding fat_header_def
  by (intro raises_only_bindE raises_only_if fat_layout_of_raises) (simp_all add: u16_def u32_def)

lemma fat_slot_raises: "raises_only is_disk_error (fat_slot l c)"
  unfolding fat_slot_def Let_def
  by (cases "fl_variant l") (auto simp: u16_def u32_def)

lemma next_cluster_raises: "raises_only is_disk_error (next_cluster l c)"
  unfolding next_cluster_def
  by (intro raises_only_bindE fat_slot_raises) (auto split: prod.split)

lemma next_cluster_range: "next_cluster l c = Inr (Some d) \<Longrightarrow> 2 \<le> d \<and> d < fl_clusters l + 2"
  by (auto simp: next_cluster_def split: if_splits)

definition cluster_start :: "fat_layout \<Rightarrow> nat \<Rightarrow> nat" where
  "cluster_start l c = (fl_first_data l + (c - 2) * fl_spc l) * fl_bps l"

definition cluster_ok :: "fat_layout \<Rightarrow> nat \<Rightarrow> bool" where
  "cluster_ok l c \<longleftrightarrow> 2 \<le> c \<and> cluster_start l c + fl_cluster_size l \<le> length (fl_data l)"

definition cluster_bytes :: "fat_layout \<Rightarrow> nat \<Rightarrow> bytes" where
  "cluster_bytes l c = pyslice (fl_data l) (cluster_start l c) (cluster_start l c + fl_cluster_size l)"

lemma cluster_data_eq:
  "cluster_data l c = (if cluster_ok l c then Inr (cluster_bytes l c)
     else Inl (DiskImageError ''cluster lies outside image''))"
  by (auto simp: cluster_data_def cluster_ok_def cluster_bytes_def cluster_start_def Let_def)

lemma cluster_ok_bound:
  assumes "cluster_ok l c" and "0 < fl_cluster_size l"
  shows "c < length (fl_data l) div fl_cluster_size l + 2"
proof -
  have "(c - 2) * fl_cluster_size l + fl_cluster_size l \<le> length (fl_data l)"
    using assms(1) by (auto simp: cluster_ok_def cluster_start_def fl_cluster_size_def algebra_simps)
  then have "(c - 1) * fl_cluster_size l \<le> length (fl_data l)"
    using assms(1) by (cases c) (auto simp: cluster_ok_def algebra_simps Suc_diff_le)
  then have "c - 1 \<le> length (fl_data l) div fl_cluster_size l"
    using assms(2) by (simp add: less_eq_div_iff_mult_less_eq)
  then show ?thesis by linarith
qed

lemma chain_step_raises: "raises_only is_disk_error (chain_step l w c seen out)"
  unfolding chain_step_def Let_def
  by (intro raises_only_bindE raises_only_if next_cluster_raises)
    (auto simp: cluster_data_eq split: option.split)

lemma chain_loop_raises: "raises_only is_disk_error (chain_loop l w c seen out)"
proof (induction l w c seen out rule: chain_loop.induct)
  case (1 l w c seen out)
  with chain_step_raises [of l w c seen out] show ?case
    by (subst chain_loop.simps) (auto split: sum.split chain_outcome.split)
qed

lemma chain_raises: "raises_only is_disk_error (chain l start w)"
  using chain_loop_raises by (simp add: chain_def)

text \<open>The clusters of a chain follow each other in the FAT.\<close>

fun linked :: "fat_layout \<Rightarrow> nat list \<Rightarrow> bool" where
  "linked l (c # d # cs) \<longleftrightarrow> next_cluster l c = Inr (Some d) \<and> linked l (d # cs)"
| "linked l _ \<longleftrightarrow> True"

lemma linked_snoc: "linked l (cs @ [c]) \<Longrightarrow> next_cluster l c = Inr (Some d) \<Longrightarrow> linked l (cs @ [c, d])"
  by (induction l cs rule: linked.induct) auto

definition chain_spec :: "fat_layout \<Rightarrow> nat \<Rightarrow> nat option \<Rightarrow> nat list \<Rightarrow> bytes \<Rightarrow> bool" where
  "chain_spec l start wanted cs bs \<longleftrightarrow>
     cs \<noteq> [] \<and> hd cs = start \<and> distinct cs \<and> linked l cs \<and> list_all (cluster_ok l) cs
     \<and> (case wanted of
          None \<Rightarrow> next_cluster l (last cs) = Inr None \<and> bs = concat (map (cluster_bytes l) cs)
        | Some w \<Rightarrow> bs = take w (concat (map (cluster_bytes l) cs)) \<and> length bs = w)"

lemma chain_step_Done:
  assumes "chain_step l w c seen out = Inr (Chain_Done bs)"
  shows "c \<notin> set seen \<and> cluster_ok l c
     \<and> (case w of None \<Rightarrow> next_cluster l c = Inr None \<and> bs = out @ cluster_bytes l c
         | Some w \<Rightarrow> bs = take w (out @ cluster_bytes l c) \<and> length bs = w)"
  using assms by (auto simp: chain_step_def cluster_data_eq Let_def split: if_splits option.splits)

lemma chain_loop_spec:
  assumes "chain_loop l w c seen out = Inr bs"
    and "linked l (rev seen @ [c])" and "distinct seen" and "list_all (cluster_ok l) seen"
    and "out = concat (map (cluster_bytes l) (rev seen))"
  shows "\<exists>cs. chain_spec l (hd (rev seen @ [c])) w cs bs"
  using assms
proof (induction l w c seen out rule: chain_loop.induct)
  case (1 l w c seen out)
  obtain st where st: "chain_step l w c seen out = Inr st"
    using "1.prems"(1) by (subst (asm) chain_loop.simps) (auto split: sum.splits)
  show ?case
  proof (cases st)
    case (Chain_Done bs')
    with st "1.prems"(1) have bs: "bs' = bs" by (subst (asm) chain_loop.simps) simp
    note fin = chain_step_Done [OF st [unfolded Chain_Done bs]]
    have "chain_spec l (hd (rev seen @ [c])) w (rev seen @ [c]) bs"
      using fin "1.prems" by (auto simp: chain_spec_def split: option.splits)
    then show ?thesis by blast
  next
    case (Chain_More d out')
    note more = chain_step_More [OF st [unfolded Chain_More]]
    from st Chain_More "1.prems"(1) have rec: "chain_loop l w d (c # seen) out' = Inr bs"
      by (subst (asm) chain_loop.simps) simp
    have "\<exists>cs. chain_spec l (hd (rev (c # seen) @ [d])) w cs bs"
    proof (rule "1.IH" [OF st Chain_More rec])
      show "linked l (rev (c # seen) @ [d])"
        using linked_snoc [OF "1.prems"(2)] more by simp
    qed (use "1.prems" more in \<open>auto simp: cluster_data_eq split: if_splits\<close>)
    then show ?thesis by (cases "rev seen") auto
  qed
qed

lemma chain_refines:
  assumes "chain l start wanted = Inr bs" and "2 \<le> start"
  shows "\<exists>cs. chain_spec l start wanted cs bs"
  using assms chain_loop_spec [of l wanted start "[]" "[]" bs] by (auto simp: chain_def)

lemma chain_length: "chain l start (Some w) = Inr bs \<Longrightarrow> length bs = w"
  using chain_refines [of l start "Some w" bs]
  by (cases "start < 2") (auto simp: chain_def chain_spec_def split: if_splits)

subsection \<open>The FAT walk\<close>

lemma card_bound: "distinct xs \<Longrightarrow> set xs \<subseteq> {..<n} \<Longrightarrow> length xs \<le> n"
  by (metis card_lessThan card_mono distinct_card finite_lessThan)

definition entries_ok :: "disk_entry list \<Rightarrow> bool" where
  "entries_ok es \<longleftrightarrow> map entry_index es = [0..<length es] \<and> list_all (\<lambda>e. entry_type e = ''file'') es"

definition fat_bound :: "fat_layout \<Rightarrow> nat" where
  "fat_bound l = length (fl_data l) div fl_cluster_size l + 2"

text \<open>Directories are entered once each, and the depth left covers those not entered yet.\<close>

definition walk_inv :: "nat \<Rightarrow> nat \<Rightarrow> walk_state \<Rightarrow> bool" where
  "walk_inv bound depth st \<longleftrightarrow>
     distinct (ws_visited st) \<and> set (ws_visited st) \<subseteq> {..<bound}
     \<and> bound \<le> depth + length (ws_visited st) \<and> entries_ok (ws_entries st)"

lemma walk_inv_add [simp]: "walk_inv b d (add_entry p bs st) = walk_inv b d st"
  by (simp add: walk_inv_def add_entry_def entries_ok_def)

lemma visit_simps [simp]:
  "ws_visited (visit k st) = k # ws_visited st" "ws_entries (visit k st) = ws_entries st"
  by (simp_all add: visit_def)

lemma walk_inv_visit:
  assumes "walk_inv b depth st" and "k \<notin> set (ws_visited st)" and "k < b"
  shows "walk_inv b (depth - 1) (visit k st)" and "0 < depth" and "walk_inv b depth (visit k st)"
proof -
  have "length (k # ws_visited st) \<le> b"
    using assms by (intro card_bound) (auto simp: walk_inv_def)
  with assms show "walk_inv b (depth - 1) (visit k st)" "0 < depth" "walk_inv b depth (visit k st)"
    by (auto simp: walk_inv_def)
qed

lemma walk_inv_depth: "walk_inv b d st \<Longrightarrow> d \<le> d' \<Longrightarrow> walk_inv b d' st"
  by (auto simp: walk_inv_def)

lemma chain_start_bound:
  assumes "chain l start w = Inr bs" and "0 < fl_cluster_size l"
  shows "start < fat_bound l"
proof (cases "start < 2")
  case False
  with chain_refines [of l start w bs] assms obtain cs where "chain_spec l start w cs bs" by auto
  then have "cluster_ok l start"
    by (auto simp: chain_spec_def list_all_iff)
  then show ?thesis using cluster_ok_bound assms(2) by (simp add: fat_bound_def)
qed (simp add: fat_bound_def)

lemma fat_walk_safe:
  assumes "0 < fl_cluster_size l" and "walk_inv (fat_bound l) depth st"
  shows "raises_only is_disk_error (fat_walk depth l prefix rows parts st)
     \<and> ensures (walk_inv (fat_bound l) depth) (fat_walk depth l prefix rows parts st)"
  using assms
proof (induction depth l prefix rows parts st rule: fat_walk.induct)
  case (2 depth l prefix row rows parts st)
  show ?case
  proof (cases "fat_row parts row")
    case Row_End
    with "2.prems" show ?thesis by simp
  next
    case (Row_Next ps)
    with "2.IH"(1) [OF Row_Next] "2.prems" show ?thesis by simp
  next
    case (Row_File name start fsize)
    show ?thesis
    proof (cases "chain l start (Some fsize)")
      case (Inl e)
      with chain_raises [of l start "Some fsize"] Row_File show ?thesis by simp
    next
      case (Inr bs)
      with "2.IH"(5) [OF Row_File Inr] "2.prems" Row_File show ?thesis by simp
    qed
  next
    case (Row_Directory name start)
    show ?thesis
    proof (cases "start \<in> set (ws_visited st)")
      case True
      with "2.IH"(2) [OF Row_Directory] "2.prems" Row_Directory show ?thesis by simp
    next
      case False
      show ?thesis
      proof (cases "chain l start None")
        case (Inl e)
        with chain_raises [of l start None] Row_Directory False show ?thesis by simp
      next
        case (Inr dir)
        have bound: "start < fat_bound l"
          using chain_start_bound [OF Inr] "2.prems"(1) .
        note inv = walk_inv_visit [OF "2.prems"(2) False bound]
        then obtain d where d: "depth = Suc d" by (cases depth) auto
        let ?sub = "fat_walk d l (join_path prefix name) (fat_rows dir) [] (visit start st)"
        have sub: "raises_only is_disk_error ?sub \<and> ensures (walk_inv (fat_bound l) d) ?sub"
          using "2.IH"(3) [OF Row_Directory False Inr d] "2.prems"(1) inv(1) d by simp
        show ?thesis
        proof (cases ?sub)
          case Inl
          with sub Row_Directory False Inr d show ?thesis by simp
        next
          case (Inr st')
          with sub have "walk_inv (fat_bound l) depth st'" using d walk_inv_depth by force
          with "2.IH"(4) [OF Row_Directory False \<open>chain l start None = Inr dir\<close> d Inr] "2.prems"(1)
            Row_Directory False Inr d \<open>chain l start None = Inr dir\<close> show ?thesis by simp
        qed
      qed
    qed
  qed
qed simp

definition image_ok :: "disk_image option \<Rightarrow> bool" where
  "image_ok r \<longleftrightarrow> (case r of None \<Rightarrow> True | Some img \<Rightarrow> entries_ok (image_entries img))"

lemma fat_root_raises: "layout_ok l \<Longrightarrow> raises_only is_disk_error (fat_root l)"
  unfolding fat_root_def Let_def
  by (intro raises_only_if raises_only_bindE chain_raises) (simp_all add: u32_def layout_ok_def)

lemma parse_fat_safe:
  assumes "length data div 512 + 2 \<le> depth"
  shows "raises_only is_disk_error (parse_fat depth data) \<and> ensures image_ok (parse_fat depth data)"
proof (cases "fat_header data")
  case (Inl e)
  with fat_header_raises [of "\<lambda>_. False" data] show ?thesis by simp
next
  case (Inr hdr)
  show ?thesis
  proof (cases hdr)
    case None
    with Inr show ?thesis by (simp add: parse_fat_def image_ok_def)
  next
    case (Some l)
    then have ok: "layout_ok l" "fl_data l = data" "512 \<le> fl_cluster_size l"
      using fat_header_ok Inr by auto
    show ?thesis
    proof (cases "fat_root l")
      case (Inl e)
      with fat_root_raises [OF ok(1)] show ?thesis using \<open>hdr = Some l\<close> \<open>fat_header data = Inr hdr\<close>
        by (simp add: parse_fat_def)
    next
      case (Inr root)
      let ?w = "fat_walk depth l [] (fat_rows root) [] \<lparr>ws_entries = [], ws_visited = []\<rparr>"
      have "length data div fl_cluster_size l \<le> length data div 512"
        using ok(3) by (simp add: div_le_mono2)
      with assms have "fat_bound l \<le> depth" by (simp add: fat_bound_def ok(2))
      then have "walk_inv (fat_bound l) depth \<lparr>ws_entries = [], ws_visited = []\<rparr>"
        by (simp add: walk_inv_def entries_ok_def)
      then have w: "raises_only is_disk_error ?w \<and> ensures (walk_inv (fat_bound l) depth) ?w"
        using fat_walk_safe ok(3) by simp
      show ?thesis
        by (cases ?w) (use w Inr \<open>hdr = Some l\<close> \<open>fat_header data = Inr hdr\<close>
          in \<open>simp_all add: parse_fat_def Let_def image_ok_def walk_inv_def\<close>)
    qed
  qed
qed

subsection \<open>The ADF walk\<close>

lemma adf_block_length: "adf_block v key = Inr bs \<Longrightarrow> length bs = 512 \<and> 2 \<le> key \<and> key < adf_blocks v"
proof -
  assume a: "adf_block v key = Inr bs"
  then have k: "2 \<le> key" "key < adf_blocks v" by (auto simp: adf_block_def split: if_splits)
  then have "(key + 1) * 512 \<le> length (av_data v)" by (simp add: adf_blocks_def)
  with a k show ?thesis by (auto simp: adf_block_def split: if_splits)
qed

lemma adf_block_raises: "raises_only is_disk_error (adf_block v key)"
  by (simp add: adf_block_def)

lemma be32d_ok: "off + 4 \<le> length bs \<Longrightarrow> be32d bs off = Inr (be_at 4 bs off)"
  by (simp add: be32d_def)

lemma adf_valid_checksum_ok: "length bs = 512 \<Longrightarrow> raises_only P (adf_valid_checksum bs)"
  by (simp add: adf_valid_checksum_def)

lemma bstr_raises: "off < length bs \<Longrightarrow> raises_only is_disk_error (bstr bs off)"
  by (simp add: bstr_def)

lemma mapE_Inr: "(\<And>x. x \<in> set xs \<Longrightarrow> f x = Inr (g x)) \<Longrightarrow> mapE f xs = Inr (map g xs)"
  by (induction xs) auto

lemma hash_table_ok:
  "length bs = 512 \<Longrightarrow> mapE (\<lambda>b. be32d bs (24 + b * 4)) [0..<72] = Inr (map (\<lambda>b. be_at 4 bs (24 + b * 4)) [0..<72])"
  "length bs = 512 \<Longrightarrow> mapE (\<lambda>i. be32d bs (24 + 4 * i)) [0..<72] = Inr (map (\<lambda>i. be_at 4 bs (24 + 4 * i)) [0..<72])"
  by (rule mapE_Inr, simp add: be32d_ok)+

lemma adf_payload_raises: "raises_only is_disk_error (adf_payload v hk key)"
  unfolding adf_payload_def
  by (intro raises_only_bindE raises_only_if adf_block_raises)
    (use adf_block_length in \<open>simp_all add: be32d_ok adf_valid_checksum_def\<close>)

lemma adf_file_loop_raises: "raises_only is_disk_error (adf_file_loop v hk n keys seen out)"
  by (induction v hk n keys seen out rule: adf_file_loop.induct)
    (auto simp: Let_def intro!: raises_only_bindE adf_payload_raises)

lemma adf_file_data_raises: "length header = 512 \<Longrightarrow> raises_only is_disk_error (adf_file_data v header hk)"
  by (simp add: adf_file_data_def be32d_ok hash_table_ok adf_file_loop_raises)

text \<open>A file's bytes: its blocks in pointer order, each used once, cut at the declared size.\<close>

definition adf_file_spec :: "adf_volume \<Rightarrow> nat \<Rightarrow> nat \<Rightarrow> nat list \<Rightarrow> bytes \<Rightarrow> bool" where
  "adf_file_spec v hk fsize keys bs \<longleftrightarrow>
     distinct keys \<and> list_all (\<lambda>k. 2 \<le> k \<and> k < adf_blocks v) keys \<and> length bs = fsize
     \<and> (\<exists>parts. map (\<lambda>k. adf_payload v hk k) keys = map Inr parts \<and> bs = take fsize (concat parts))"

lemma adf_payload_key: "adf_payload v hk key = Inr bs \<Longrightarrow> 2 \<le> key \<and> key < adf_blocks v"
  using adf_block_length by (auto simp: adf_payload_def)

lemma adf_file_loop_spec:
  assumes "adf_file_loop v hk n keys seen out = Inr bs"
    and "distinct seen" and "map (adf_payload v hk) (rev seen) = map Inr parts" and "out = concat parts"
  shows "\<exists>used rest. keys = used @ rest \<and> adf_file_spec v hk n (rev seen @ used) bs"
  using assms
proof (induction v hk n keys seen out arbitrary: parts rule: adf_file_loop.induct)
  case (1 v hk n seen out)
  then have "list_all (\<lambda>k. 2 \<le> k \<and> k < adf_blocks v) (rev seen)"
    unfolding list_all_iff
    by (metis adf_payload_key in_set_conv_nth length_map nth_map)
  with 1 have "adf_file_spec v hk n (rev seen) bs"
    by (auto simp: adf_file_spec_def split: if_splits)
  then show ?case by simp
next
  case (2 v hk n key keys seen out)
  then obtain chunk where k: "key \<notin> set seen" and c: "adf_payload v hk key = Inr chunk"
    by (auto split: if_splits)
  have parts: "map (adf_payload v hk) (rev (key # seen)) = map Inr (parts @ [chunk])"
    using "2.prems"(3) c by simp
  show ?case
  proof (cases "n \<le> length (out @ chunk)")
    case True
    have keys: "list_all (\<lambda>k. 2 \<le> k \<and> k < adf_blocks v) (rev (key # seen))"
      unfolding list_all_iff
      by (metis adf_payload_key parts in_set_conv_nth length_map nth_map)
    from True "2.prems" k c have bs: "bs = take n (out @ chunk)" by (simp add: Let_def)
    have "adf_file_spec v hk n (rev seen @ [key]) bs"
      unfolding adf_file_spec_def
      using keys bs True k "2.prems"(2,4) parts by (intro conjI exI [of _ "parts @ [chunk]"]) auto
    then show ?thesis by (intro exI [of _ "[key]"] exI [of _ keys]) simp
  next
    case False
    with "2.prems"(1) k c have rec: "adf_file_loop v hk n keys (key # seen) (out @ chunk) = Inr bs"
      by (simp add: Let_def)
    from "2.IH" [OF k c refl False rec _ parts] "2.prems"(2,4) k
    obtain used rest where "keys = used @ rest" "adf_file_spec v hk n (rev (key # seen) @ used) bs"
      by auto
    then show ?thesis by (intro exI [of _ "key # used"] exI [of _ rest]) simp
  qed
qed

lemma adf_file_data_spec:
  assumes "adf_file_data v header hk = Inr bs" and "length header = 512"
  shows "\<exists>used rest. filter (\<lambda>p. p \<noteq> 0) (rev (map (\<lambda>i. be_at 4 header (24 + 4 * i)) [0..<72])) = used @ rest
     \<and> adf_file_spec v hk (be_at 4 header 324) used bs"
  using assms adf_file_loop_spec [of v hk "be_at 4 header 324" _ "[]" "[]" bs "[]"]
  by (simp add: adf_file_data_def be32d_ok hash_table_ok)

text \<open>\<open>p.split("/")\<close>, and the paths the container layer can extract without further checks.\<close>

fun split_on :: "'a \<Rightarrow> 'a list \<Rightarrow> 'a list list" where
  "split_on c [] = [[]]"
| "split_on c (x # xs) =
     (if x = c then [] # split_on c xs
      else case split_on c xs of [] \<Rightarrow> [[x]] | s # ss \<Rightarrow> (x # s) # ss)"

lemma split_on_ne [simp]: "split_on c xs \<noteq> []"
  by (induction xs) (auto split: list.split)

lemma split_on_none: "c \<notin> set xs \<Longrightarrow> split_on c xs = [xs]"
  by (induction xs) auto

lemma split_on_append: "split_on c (xs @ c # ys) = split_on c xs @ split_on c ys"
  by (induction xs) (auto split: list.split)

definition safe_path :: "pystr \<Rightarrow> bool" where
  "safe_path p \<longleftrightarrow> list_all (\<lambda>seg. \<not> unsafe_adf_name seg) (split_on 0x2F p)"

lemma safe_path_join:
  assumes "prefix = [] \<or> safe_path prefix" and "\<not> unsafe_adf_name name"
  shows "safe_path (join_path prefix name)"
proof -
  have "split_on 0x2F name = [name]" using assms(2) by (intro split_on_none) (simp add: unsafe_adf_name_def)
  moreover have "join_path prefix name = (if prefix = [] then name else prefix @ 0x2F # name)"
    by (simp add: join_path_def asc_def)
  ultimately show ?thesis using assms by (auto simp: safe_path_def split_on_append)
qed

definition adf_inv :: "adf_volume \<Rightarrow> nat \<Rightarrow> walk_state \<Rightarrow> bool" where
  "adf_inv v depth st \<longleftrightarrow> walk_inv (adf_blocks v) depth st \<and> list_all (safe_path \<circ> entry_path) (ws_entries st)
     \<and> 0 < adf_blocks v \<and> 0 \<notin> set (ws_visited st)"

lemma add_entry_visited [simp]: "ws_visited (add_entry p bs st) = ws_visited st"
  and add_entry_entries: "ws_entries (add_entry p bs st) = ws_entries st @
     [\<lparr>entry_path = p, entry_data = bs, entry_index = length (ws_entries st), entry_type = ''file''\<rparr>]"
  by (simp_all add: add_entry_def)

lemma adf_inv_add: "adf_inv v d st \<Longrightarrow> safe_path p \<Longrightarrow> adf_inv v d (add_entry p bs st)"
  by (simp add: adf_inv_def add_entry_entries)

lemma adf_inv_visit:
  assumes "adf_inv v depth st" and "k \<notin> set (ws_visited st)" and "k < adf_blocks v" and "k \<noteq> 0"
  shows "adf_inv v (depth - 1) (visit k st)" and "0 < depth" and "adf_inv v depth (visit k st)"
  using assms walk_inv_visit [of "adf_blocks v" depth st k] by (auto simp: adf_inv_def)

lemma adf_inv_fuel: "adf_inv v depth st \<Longrightarrow> length (ws_visited st) < adf_blocks v"
  using card_bound [of "0 # ws_visited st" "adf_blocks v"] by (auto simp: adf_inv_def walk_inv_def)

lemma adf_inv_depth: "adf_inv v d st \<Longrightarrow> d \<le> d' \<Longrightarrow> adf_inv v d' st"
  using walk_inv_depth by (auto simp: adf_inv_def)

lemma adf_entry_raises: "raises_only is_disk_error (adf_entry v key)"
  unfolding adf_entry_def
  by (intro raises_only_bindE raises_only_if adf_block_raises)
    (use adf_block_length in \<open>simp_all add: be32d_ok adf_valid_checksum_def signed_be32_def bstr_raises\<close>)

lemma adf_entry_ok:
  "adf_entry v key = Inr (header, kind, name) \<Longrightarrow>
     length header = 512 \<and> 2 \<le> key \<and> key < adf_blocks v \<and> \<not> unsafe_adf_name name"
  using adf_block_length by (auto simp: adf_entry_def split: if_splits)

definition adf_safe :: "adf_volume \<Rightarrow> nat \<Rightarrow> walk_state res \<Rightarrow> bool" where
  "adf_safe v depth m \<longleftrightarrow> raises_only is_disk_error m \<and> ensures (adf_inv v depth) m"

lemma adf_safe_Inr [simp]: "adf_safe v depth (Inr st) = adf_inv v depth st"
  and adf_safe_Inl [simp]: "adf_safe v depth (Inl e) = is_disk_error e"
  by (simp_all add: adf_safe_def)

lemma adf_safe_bindE:
  "raises_only is_disk_error m \<Longrightarrow> (\<And>x. m = Inr x \<Longrightarrow> adf_safe v depth (f x)) \<Longrightarrow> adf_safe v depth (bindE m f)"
  by (cases m) auto

lemma adf_safe_foldE:
  "(\<And>k st. adf_inv v depth st \<Longrightarrow> adf_safe v depth (f k st)) \<Longrightarrow> adf_inv v depth st \<Longrightarrow>
     adf_safe v depth (foldE f ks st)"
proof (induction ks arbitrary: st)
  case (Cons k ks)
  then show ?case by (cases "f k st") (auto, metis adf_safe_Inl, metis adf_safe_Inr)
qed simp

text \<open>
  One iteration leaves more blocks visited than it found: this is what the fuel counts.
\<close>

definition grows :: "walk_state \<Rightarrow> walk_state res \<Rightarrow> bool" where
  "grows st m \<longleftrightarrow> ensures (\<lambda>st'. length (ws_visited st) \<le> length (ws_visited st')) m"

lemma grows_simps [simp]:
  "grows st (Inl e)" "grows st (Inr st') = (length (ws_visited st) \<le> length (ws_visited st'))"
  by (simp_all add: grows_def)

lemma grows_mono: "length (ws_visited st) \<le> length (ws_visited st') \<Longrightarrow> grows st' m \<Longrightarrow> grows st m"
  by (cases m) auto

lemma grows_bindE: "grows st m \<Longrightarrow> (\<And>st'. grows st' (f st')) \<Longrightarrow> grows st (bindE m f)"
  by (cases m) (auto intro: grows_mono)

lemma grows_bind_other: "(\<And>v. m = Inr v \<Longrightarrow> grows st (f v)) \<Longrightarrow> grows st (bindE m f)"
  by (cases m) auto

lemma grows_foldE: "(\<And>k st. grows st (f k st)) \<Longrightarrow> grows st (foldE f ks st)"
proof (induction ks arbitrary: st)
  case (Cons k ks)
  from Cons.prems have k: "grows st (f k st)" .
  show ?case
  proof (cases "f k st")
    case (Inr st')
    with k Cons.IH [OF Cons.prems, of st'] show ?thesis
      by (cases "foldE f ks st'") auto
  qed simp
qed simp

lemma adf_chain_grows: "grows st (adf_chain depth fuel v prefix seen key st)"
proof (induction depth arbitrary: fuel prefix seen key st rule: less_induct)
  case (less depth)
  show ?case
  proof (induction fuel arbitrary: seen key st)
    case 0
    then show ?case by (subst adf_chain.simps) simp
  next
    case (Suc fuel)
    have rec: "grows st (foldE (adf_chain d f v p []) keys (visit key st))"
      if "d < depth" for d f p keys
      by (rule grows_mono [of _ "visit key st"]) (use less.IH [OF that] in \<open>auto intro!: grows_foldE\<close>)
    show ?case
      by (subst adf_chain.simps)
        (auto intro!: grows_bindE grows_bind_other [of "adf_entry _ _"] grows_bind_other [of "be32d _ _"]
          grows_bind_other [of "adf_file_data _ _ _"] grows_bind_other [of "mapE _ _"] Suc.IH rec split: nat.splits)
  qed
qed

lemma adf_chain_safe:
  assumes "adf_inv v depth st" and "adf_blocks v \<le> fuel + length (ws_visited st)"
    and "prefix = [] \<or> safe_path prefix"
  shows "adf_safe v depth (adf_chain depth fuel v prefix seen key st)"
  using assms
proof (induction depth arbitrary: fuel prefix seen key st rule: less_induct)
  case (less depth)
  from less.prems show ?case
  proof (induction fuel arbitrary: seen key st)
    case 0
    with adf_inv_fuel [of v depth st] show ?case by simp
  next
    case (Suc fuel)
    show ?case
    proof (cases "key = 0 \<or> key \<in> set seen \<or> key \<in> set (ws_visited st)")
      case True
      with Suc.prems show ?thesis by (subst adf_chain.simps) auto
    next
      case False
      have step: "adf_safe v depth (adf_chain depth fuel v prefix (key # seen) nxt st')"
        if "adf_inv v depth st'" "grows (visit key st) (Inr st' :: walk_state res)" for st' nxt
        using that Suc.prems by (intro Suc.IH) simp_all
      have more: "adf_safe v depth (bindE (be32d header 496) (\<lambda>next. adf_chain depth fuel v prefix (key # seen) next st'))"
        if "length header = 512" "adf_inv v depth st'" "grows (visit key st) (Inr st' :: walk_state res)" for st' header
        using that step by (simp add: be32d_ok)
      have entry: "adf_safe v depth (bindE
            (if kind = 2
             then (case depth of
                     0 \<Rightarrow> Inl RecursionError
                   | Suc d \<Rightarrow>
                       bindE (mapE (\<lambda>b. be32d header (24 + b * 4)) [0..<72]) (\<lambda>keys.
                       foldE (\<lambda>k. adf_chain d (adf_blocks v) v (join_path prefix name) [] k) keys
                         (visit key st)))
             else if kind = -3
             then bindE (adf_file_data v header key) (\<lambda>data.
                    Inr (add_entry (join_path prefix name) data (visit key st)))
             else Inl (DiskImageError ''unsupported ADF entry type'')) (\<lambda>st'.
          bindE (be32d header 496) (\<lambda>next. adf_chain depth fuel v prefix (key # seen) next st')))"
        (is "adf_safe v depth (bindE ?m _)")
        if e: "adf_entry v key = Inr (header, kind, name)" for header kind name
      proof -
        note ok = adf_entry_ok [OF e]
        have safe: "safe_path (join_path prefix name)"
          using safe_path_join Suc.prems(3) ok by blast
        have inv: "adf_inv v depth (visit key st)" "adf_inv v (depth - 1) (visit key st)" "0 < depth"
          using adf_inv_visit Suc.prems(1) False ok by auto
        then obtain d where d: "depth = Suc d" by (cases depth) auto
        have "adf_safe v depth ?m \<and> grows (visit key st) ?m"
        proof (cases "kind = 2")
          case True
          let ?f = "foldE (\<lambda>k. adf_chain d (adf_blocks v) v (join_path prefix name) [] k)
                (map (\<lambda>b. be_at 4 header (24 + b * 4)) [0..<72]) (visit key st)"
          have "adf_safe v d ?f"
            by (intro adf_safe_foldE less.IH) (use inv d safe in auto)
          then have "adf_safe v depth ?f"
            by (cases ?f) (auto simp: d elim: adf_inv_depth)
          moreover have "grows (visit key st) ?f" by (intro grows_foldE adf_chain_grows)
          ultimately show ?thesis using True ok d by (simp add: hash_table_ok)
        next
          case False
          then show ?thesis
            using adf_file_data_raises [of header v key] ok inv(1) safe
            by (cases "adf_file_data v header key") (auto intro: adf_inv_add)
        qed
        then show ?thesis using more ok by (cases ?m) auto
      qed
      have "adf_safe v depth (bindE (adf_entry v key) f)"
        if "\<And>header kind name. adf_entry v key = Inr (header, kind, name) \<Longrightarrow> adf_safe v depth (f (header, kind, name))" for f
        using that by (intro adf_safe_bindE adf_entry_raises) (metis prod_cases3)
      from this [of "\<lambda>(header, kind, name). _ header kind name", unfolded prod.case, OF entry] False
      show ?thesis
        by (subst adf_chain.simps) (simp only: nat.case if_False de_Morgan_disj simp_thms)
    qed
  qed
qed

definition adf_image_ok :: "disk_image option \<Rightarrow> bool" where
  "adf_image_ok r \<longleftrightarrow> image_ok r \<and>
     (case r of None \<Rightarrow> True | Some img \<Rightarrow> list_all (safe_path \<circ> entry_path) (image_entries img))"

lemma adf_walk_safe:
  assumes "length root = 512" and "adf_inv v depth st" and "adf_blocks v \<le> depth"
  shows "adf_safe v depth (adf_walk depth v root st)"
  unfolding adf_walk_def hash_table_ok [OF assms(1)] bindE_simps
  using assms(2) by (intro adf_safe_foldE adf_chain_safe) simp_all

lemma parse_adf_safe:
  assumes "length data div 512 \<le> depth"
  shows "raises_only is_disk_error (parse_adf depth data) \<and> ensures adf_image_ok (parse_adf depth data)"
proof (cases "length data \<noteq> 901120 \<or> take 3 data \<noteq> ascb ''DOS'' \<or> data ! 3 \<notin> {0, 1}")
  case True
  then show ?thesis by (simp add: parse_adf_def adf_image_ok_def image_ok_def)
next
  case False
  define v where "v = \<lparr>av_data = data, av_filesystem = if unat (data ! 3) = 0 then ''OFS'' else ''FFS''\<rparr>"
  have blocks: "adf_blocks v = 1760" using False by (simp add: v_def adf_blocks_def)
  then obtain root where root: "adf_block v 880 = Inr root"
    using adf_block_def [of v 880] by simp
  note len = adf_block_length [OF root]
  let ?st = "\<lparr>ws_entries = [], ws_visited = [880]\<rparr>"
  have "adf_inv v depth ?st"
    using assms False blocks by (simp add: adf_inv_def walk_inv_def entries_ok_def)
  then have walk: "adf_safe v depth (adf_walk depth v root ?st)"
    using adf_walk_safe [of root v depth ?st] len blocks assms False by simp
  have b: "raises_only is_disk_error (bstr root 432)" using len by (intro bstr_raises) simp
  show ?thesis
    unfolding parse_adf_def Let_def
    unfolding v_def [symmetric] blocks
    apply (simp add: False)
    apply (cases "adf_walk depth v root ?st"; cases "bstr root 432")
    using walk b len adf_valid_checksum_ok [of root "\<lambda>_. False"]
    apply (auto simp: root be32d_ok signed_be32_def adf_image_ok_def image_ok_def adf_inv_def walk_inv_def total_iff)
    done
qed

lemma parse_disk_image_safe:
  "raises_only is_disk_error (parse_disk_image (length data + 2 + k) data)
   \<and> ensures image_ok (parse_disk_image (length data + 2 + k) data)"
proof -
  let ?d = "length data + 2 + k"
  have fat: "raises_only is_disk_error (parse_fat ?d data) \<and> ensures image_ok (parse_fat ?d data)"
    by (rule parse_fat_safe) (simp add: div_le_dividend trans_le_add1)
  have adf: "raises_only is_disk_error (parse_adf ?d data) \<and> ensures adf_image_ok (parse_adf ?d data)"
    by (rule parse_adf_safe) (simp add: div_le_dividend trans_le_add1)
  show ?thesis
    using fat adf
    by (cases "parse_fat ?d data"; cases "parse_adf ?d data")
      (auto simp: parse_disk_image_def adf_image_ok_def split: option.split)
qed

lemma linked_range:
  "linked l (c # cs) \<Longrightarrow> set cs \<subseteq> {2..<fl_clusters l + 2}"
proof (induction cs arbitrary: c)
  case (Cons d cs)
  then show ?case using next_cluster_range [of l c d] by auto
qed simp

lemma linked_length:
  assumes "linked l (c # cs)" and "distinct cs"
  shows "length cs \<le> fl_clusters l"
proof -
  have "card (set cs) \<le> card {2..<fl_clusters l + 2}"
    using linked_range [OF assms(1)] by (intro card_mono) auto
  with assms(2) show ?thesis by (simp add: distinct_card)
qed

lemma linked_append: "linked l (xs @ ys) \<Longrightarrow> linked l xs \<and> linked l ys"
  by (induction l xs rule: linked.induct) (auto elim: linked.elims)

lemma chain_loop_complete:
  assumes "linked l (rev seen @ c # cs)" and "distinct (rev seen @ c # cs)"
    and "list_all (cluster_ok l) (c # cs)"
    and "case w of None \<Rightarrow> next_cluster l (last (c # cs)) = Inr None \<and> bs = out @ concat (map (cluster_bytes l) (c # cs))
       | Some n \<Rightarrow> bs = take n (out @ concat (map (cluster_bytes l) (c # cs))) \<and> length bs = n"
  shows "chain_loop l w c seen out = Inr bs"
  using assms
proof (induction cs arbitrary: c seen out)
  case Nil
  have "length seen \<le> fl_clusters l"
    using Nil.prems(1,2) linked_length [of l "hd (rev seen @ [c])" "tl (rev seen @ [c])"]
    by (cases "rev seen") (auto dest: arg_cong [of _ _ length])
  with Nil show ?case
    by (subst chain_loop.simps) (auto simp: chain_step_def cluster_data_eq Let_def split: option.splits)
next
  case (Cons d cs)
  have links: "linked l (rev seen @ [c])" and nxt: "next_cluster l c = Inr (Some d)"
    using Cons.prems(1) linked_append [of l "rev seen @ [c]" "d # cs"] linked_append [of l "rev seen" "c # d # cs"]
    by auto
  have len: "length seen \<le> fl_clusters l"
    using links Cons.prems(2) linked_length [of l "hd (rev seen @ [c])" "tl (rev seen @ [c])"]
    by (cases "rev seen") (auto dest: arg_cong [of _ _ length])
  have ok: "c \<notin> set seen" "cluster_ok l c" using Cons.prems by auto
  show ?case
  proof (cases "w \<noteq> None \<and> the w \<le> length (out @ cluster_bytes l c)")
    case True
    with len ok Cons.prems(4) show ?thesis
      by (subst chain_loop.simps) (auto simp: chain_step_def cluster_data_eq Let_def)
  next
    case False
    have "chain_loop l w d (c # seen) (out @ cluster_bytes l c) = Inr bs"
      using Cons.prems by (intro Cons.IH) (auto split: option.splits)
    with False len ok nxt show ?thesis
      by (subst chain_loop.simps) (auto simp: chain_step_def cluster_data_eq Let_def)
  qed
qed

lemma chain_iff:
  "chain l (start + 2) wanted = Inr bs \<longleftrightarrow> (\<exists>cs. chain_spec l (start + 2) wanted cs bs)"
proof
  assume "chain l (start + 2) wanted = Inr bs"
  then show "\<exists>cs. chain_spec l (start + 2) wanted cs bs" by (rule chain_refines) simp
next
  assume "\<exists>cs. chain_spec l (start + 2) wanted cs bs"
  then obtain c cs where "chain_spec l (start + 2) wanted (c # cs) bs"
    by (auto simp: chain_spec_def neq_Nil_conv)
  then show "chain l (start + 2) wanted = Inr bs"
    by (auto simp: chain_def chain_spec_def intro!: chain_loop_complete split: option.splits)
qed

subsection \<open>Properties of the image readers\<close>

text \<open>
  C11: \<open>chain\<close> is exactly the file a FAT chain holds: it returns \<open>bs\<close> if and only if there is a
  list of pairwise distinct clusters, each inside the image, starting at the start cluster and
  linked by the FAT, whose concatenation is \<open>bs\<close> (without a wanted length, the last one being
  marked end-of-chain) or has \<open>bs\<close> as its prefix of the wanted length.
\<close>

theorem fat_chain_exact:
  "chain l (start + 2) wanted = Inr bs \<longleftrightarrow> (\<exists>cs. chain_spec l (start + 2) wanted cs bs)"
  by (rule chain_iff)

text \<open>
  C24: on any bytes, with a recursion limit that covers the nested directories an image of this
  length can have, the image parser raises nothing but \<open>DiskImageError\<close> (no \<open>struct.error\<close>,
  \<open>IndexError\<close> or endless walk), and the entries it returns are files numbered by position.
\<close>

theorem parse_disk_image_contained:
  "raises_only (\<lambda>e. \<exists>m. e = DiskImageError m) (parse_disk_image (length data + 2 + k) data)
   \<and> ensures image_ok (parse_disk_image (length data + 2 + k) data)"
  by (rule parse_disk_image_safe)

text \<open>
  Every entry of a parsed ADF image has a relative path whose components are non-empty,
  contain no slash or backslash, and are neither \<open>.\<close> nor \<open>..\<close>.
\<close>

lemma parse_adf_paths_safe:
  "ensures (\<lambda>r. list_all (\<lambda>img. list_all (\<lambda>e. safe_path (entry_path e)) (image_entries img)) (case r of None \<Rightarrow> [] | Some img \<Rightarrow> [img]))
     (parse_adf (length data + k) data)"
proof -
  have "length data div 512 \<le> length data + k"
    by (simp add: div_le_dividend trans_le_add1)
  from parse_adf_safe [OF this] show ?thesis
    by (cases "parse_adf (length data + k) data") (auto simp: adf_image_ok_def comp_def split: option.split)
qed

text \<open>
  The bytes read for an ADF file are its data blocks, named by an initial part of the
  header's non-zero pointers in the order of the table's end, each used once and each inside the
  image with the right owner and checksum, cut at exactly the size the header declares.
\<close>

lemma adf_file_data_exact:
  "ensures (\<lambda>header. ensures (\<lambda>bs. \<exists>used rest.
       filter (\<lambda>p. p \<noteq> 0) (rev (map (\<lambda>i. be_at 4 header (24 + 4 * i)) [0..<72])) = used @ rest
       \<and> adf_file_spec v key (be_at 4 header 324) used bs) (adf_file_data v header key))
     (adf_block v key)"
proof (cases "adf_block v key")
  case (Inr header)
  then have "length header = 512" using adf_block_length by blast
  with adf_file_data_spec [of v header key] show ?thesis
    by (cases "adf_file_data v header key") (simp_all add: Inr)
qed simp


end
