(* ===== verification/Models.thy ===== *)
theory Models
  imports Complex_Main Prelude
begin

section \<open>The data model: \<open>models/\<close>\<close>

text \<open>
  The enums and pydantic models that the services exchange, field by field. A \<open>datetime\<close> is a
  number of microseconds and a duration too; text that comes from outside (file names, tool
  output, remote metadata) is a \<open>pystr\<close>, identifiers of the program are \<open>string\<close>s. Validation
  that pydantic performs when a model is built is a definition that may return
  \<open>ValidationError\<close>.
\<close>

type_synonym timestamp = int
type_synonym duration = int

subsection \<open>\<open>models/common.py\<close>\<close>

datatype scanner_class =
    ANTIVIRUS_ENGINE | RULE_ENGINE | IOC_DETECTOR | MALWARE_DETECTOR | SYSTEM_DETECTOR
  | IDENTITY_ANALYZER | FILE_TYPE_ANALYZER | METADATA_ANALYZER | STRINGS_ANALYZER
  | BYTE_STATISTICS_ANALYZER | SIMILARITY_ANALYZER | CONTAINER_ANALYZER | EXECUTABLE_ANALYZER
  | DOCUMENT_ANALYZER | STRUCTURAL_VALIDATOR

datatype confidence = Conf_HIGH | Conf_MEDIUM | Conf_LOW | Conf_UNKNOWN

datatype historical_mode = PERIOD_CORRECT | FINAL_HISTORICAL | MAXIMUM_RETRO

datatype verdict =
    CLEAN | MALICIOUS | SUSPICIOUS | PUA | V_ERROR | V_UNSUPPORTED | NOT_SCANNED | V_UNKNOWN

fun verdict_value :: "verdict \<Rightarrow> string" where
  "verdict_value CLEAN = ''CLEAN''"
| "verdict_value MALICIOUS = ''MALICIOUS''"
| "verdict_value SUSPICIOUS = ''SUSPICIOUS''"
| "verdict_value PUA = ''PUA''"
| "verdict_value V_ERROR = ''ERROR''"
| "verdict_value V_UNSUPPORTED = ''UNSUPPORTED''"
| "verdict_value NOT_SCANNED = ''NOT_SCANNED''"
| "verdict_value V_UNKNOWN = ''UNKNOWN''"

datatype structural_state =
    VALID | VALID_WITH_WARNINGS | DAMAGED | CORRUPT | TRUNCATED | NON_STANDARD | PARTIAL
  | S_UNSUPPORTED | S_UNKNOWN

datatype scan_policy = READ_ONLY | REPAIR_COPY

datatype rights_status = Rights_ALLOWED | Rights_RESTRICTED | Rights_UNKNOWN

datatype capability =
    FILE_SCAN | DIRECTORY_SCAN | ARCHIVE_SCAN | DISK_IMAGE_SCAN | BOOT_SECTOR_SCAN | MEMORY_SCAN
  | SYSTEM_SCAN | SCAN_ONLY | REPAIR | DELETE | QUARANTINE

datatype dependency_mode = LOCAL_ENGINE | CLOUD_ASSISTED | CLOUD_REQUIRED

datatype qualification_state =
    NOT_INSTALLED | INSTALLED | PROBED | QUALIFIED | DEGRADED | Q_FAILED | Q_DISABLED

datatype finding_kind =
    SIGNATURE_MATCH | IOC_MATCH | RULE_MATCH | HEURISTIC_WARNING | INTEGRITY_WARNING
  | ROOTKIT_WARNING | OPERATIONAL_ERROR

fun finding_kind_value :: "finding_kind \<Rightarrow> string" where
  "finding_kind_value SIGNATURE_MATCH = ''signature_match''"
| "finding_kind_value IOC_MATCH = ''ioc_match''"
| "finding_kind_value RULE_MATCH = ''rule_match''"
| "finding_kind_value HEURISTIC_WARNING = ''heuristic_warning''"
| "finding_kind_value INTEGRITY_WARNING = ''integrity_warning''"
| "finding_kind_value ROOTKIT_WARNING = ''rootkit_warning''"
| "finding_kind_value OPERATIONAL_ERROR = ''operational_error''"

subsection \<open>\<open>models/artifacts.py\<close>\<close>

record hashes =
  h_sha256 :: string
  h_blake3 :: string
  h_sha1 :: string
  h_md5 :: string

record rights =
  redistribution_rights :: rights_status
  acquisition_basis :: "pystr option"
  source_provenance :: "pystr option"

definition default_rights :: rights where
  "default_rights = \<lparr>redistribution_rights = Rights_UNKNOWN, acquisition_basis = None,
     source_provenance = None\<rparr>"

record input_artifact =
  a_hashes :: hashes
  a_byte_size :: int
  a_filename :: pystr
  a_submitted_filename :: "pystr option"
  a_media_type :: pystr
  a_source :: string
  a_submitted_at :: timestamp
  a_rights :: rights

definition identity :: "input_artifact \<Rightarrow> string" where
  "identity a = h_sha256 (a_hashes a)"

record repair_record =
  r_source_artifact_hash :: string
  r_working_copy_hash :: string
  r_scanner_id :: string
  r_scanner_version :: "string option"
  r_definition_version :: "string option"
  r_repair_action :: pystr
  r_repaired_artifact_hash :: string
  r_scanner_output_ref :: string
  r_timestamp :: timestamp

text \<open>The pattern \<open>^[0-9a-f]{n}$\<close> and the field constraints.\<close>

definition lower_hex :: "char \<Rightarrow> bool" where
  "lower_hex c \<longleftrightarrow> (let n = of_char c :: nat in 48 \<le> n \<and> n \<le> 57 \<or> 97 \<le> n \<and> n \<le> 102)"

definition hex_pattern :: "nat \<Rightarrow> string \<Rightarrow> bool" where
  "hex_pattern n s \<longleftrightarrow> length s = n \<and> list_all lower_hex s"

definition validate_hashes :: "hashes \<Rightarrow> hashes res" where
  "validate_hashes h =
     (if hex_pattern 64 (h_sha256 h) \<and> hex_pattern 64 (h_blake3 h) \<and> hex_pattern 40 (h_sha1 h)
         \<and> hex_pattern 32 (h_md5 h)
      then Inr h else Inl ValidationError)"

definition validate_input_artifact :: "input_artifact \<Rightarrow> input_artifact res" where
  "validate_input_artifact a =
     bindE (validate_hashes (a_hashes a)) (\<lambda>_. if 0 \<le> a_byte_size a then Inr a else Inl ValidationError)"

text \<open>
  The patterns, then the validator that runs after them; pydantic wraps its \<open>ValueError\<close>s.
\<close>

definition validate_repair_record :: "repair_record \<Rightarrow> repair_record res" where
  "validate_repair_record r =
     (if \<not> (hex_pattern 64 (r_source_artifact_hash r) \<and> hex_pattern 64 (r_working_copy_hash r)
            \<and> hex_pattern 64 (r_repaired_artifact_hash r))
      then Inl ValidationError
      else if r_source_artifact_hash r = r_working_copy_hash r
      then Inl ValidationError
      else if r_source_artifact_hash r = r_repaired_artifact_hash r
      then Inl ValidationError
      else Inr r)"

subsection \<open>\<open>models/correlation.py\<close>\<close>

datatype correlation_state = NOT_REQUESTED | UNAVAILABLE | COR_COMPLETE | COR_PARTIAL | COR_ERROR

datatype exact_lookup_state = EXACT_MATCH | NO_EXACT_MATCH | LOOKUP_RAB_UNAVAILABLE | LOOKUP_ERROR

datatype correlation_error_code =
    RAB_UNAVAILABLE | RAB_TIMEOUT | RAB_AUTH_FAILED | RAB_PROTOCOL_ERROR | RAB_RESPONSE_TOO_LARGE
  | RAB_IDENTITY_CONFLICT

record provenance_record =
  pr_source_id :: "pystr option"
  pr_source_label :: "pystr option"
  pr_collection :: "pystr option"
  pr_acquired_at :: "timestamp option"
  pr_summary :: "pystr option"
  pr_authority :: pystr

record known_occurrence =
  ko_parent_rab_object_id :: pystr
  ko_relationship :: pystr
  ko_logical_path :: "pystr option"
  ko_parent_label :: "pystr option"
  ko_authority :: pystr

record structural_history_record =
  sh_state :: pystr
  sh_observed_at :: "timestamp option"
  sh_validator :: "pystr option"
  sh_summary :: "pystr option"
  sh_authority :: pystr

record rab_object_context =
  rc_rab_object_id :: pystr
  rc_sha256 :: string
  rc_size :: int
  rc_known_filenames :: "pystr list"
  rc_format_classification :: "pystr option"
  rc_source_collections :: "pystr list"
  rc_provenance :: "provenance_record list"
  rc_rights :: "rights option"
  rc_physical_original_owned :: "bool option"
  rc_preservation_status :: "pystr option"
  rc_structural_validation_history :: "structural_history_record list"
  rc_metadata_urls :: "pystr list"
  rc_authority :: pystr

record exact_match =
  em_rab_object_id :: pystr
  em_sha256 :: string
  em_size :: int
  em_matched_hashes :: "pystr list"
  em_context :: "rab_object_context option"
  em_authority :: pystr

record exact_correlation =
  ec_state :: exact_lookup_state
  ec_matches :: "exact_match list"
  ec_completeness :: correlation_state

definition default_exact :: exact_correlation where
  "default_exact = \<lparr>ec_state = LOOKUP_RAB_UNAVAILABLE, ec_matches = [], ec_completeness = UNAVAILABLE\<rparr>"

record similarity_candidate =
  sc_algorithm :: pystr
  sc_query_fingerprint :: pystr
  sc_candidate_fingerprint :: pystr
  sc_score :: int
  sc_rab_object_id :: pystr
  sc_candidate_sha256 :: string
  sc_assessment :: pystr
  sc_authority :: pystr

record similarity_correlation =
  sm_algorithm :: pystr
  sm_state :: correlation_state
  sm_candidates :: "similarity_candidate list"

definition similarity_with :: "correlation_state \<Rightarrow> similarity_candidate list \<Rightarrow> similarity_correlation" where
  "similarity_with state candidates =
     \<lparr>sm_algorithm = asc ''ssdeep'', sm_state = state, sm_candidates = candidates\<rparr>"

record correlation_result =
  cr_protocol_version :: pystr
  cr_provider_id :: string
  cr_provider_version :: string
  cr_state :: correlation_state
  cr_exact :: exact_correlation
  cr_similarity :: similarity_correlation
  cr_known_occurrences :: "known_occurrence list"
  cr_warnings :: "pystr list"
  cr_errors :: "correlation_error_code list"
  cr_skipped_reason :: "string option"
  cr_fetched_at :: "timestamp option"
  cr_from_cache :: bool

text \<open>\<open>CorrelationResult(...)\<close> with the fields that have defaults left out.\<close>

definition correlation_result_of ::
  "string \<Rightarrow> string \<Rightarrow> correlation_state \<Rightarrow> exact_correlation \<Rightarrow> correlation_result" where
  "correlation_result_of provider_id provider_version state exact =
     \<lparr>cr_protocol_version = asc ''1'', cr_provider_id = provider_id,
      cr_provider_version = provider_version, cr_state = state, cr_exact = exact,
      cr_similarity = similarity_with NOT_REQUESTED [], cr_known_occurrences = [], cr_warnings = [],
      cr_errors = [], cr_skipped_reason = None, cr_fetched_at = None, cr_from_cache = False\<rparr>"

subsection \<open>\<open>models/analysis.py\<close>\<close>

record observation =
  o_type :: string
  o_value :: pyval
  o_analyzer_id :: string
  o_evidence_refs :: "pystr list"
  o_source :: "pystr option"
  o_observed_at :: "timestamp option"
  o_confidence :: "string option"

record finding =
  f_type :: string
  f_analyzer_id :: string
  f_native_name :: "pystr option"
  f_normalized_verdict :: "verdict option"
  f_evidence_refs :: "pystr list"

record assessment =
  as_type :: string
  as_analyzer_id :: string
  as_statement :: pystr
  as_confidence :: confidence
  as_evidence_refs :: "pystr list"

record preservation_context =
  pc_rab_correlation :: string
  pc_correlation :: "correlation_result option"
  pc_recommendation :: "pystr option"
  pc_provenance :: "(string \<times> pyval) list"

definition default_preservation :: preservation_context where
  "default_preservation = \<lparr>pc_rab_correlation = ''NOT_AVAILABLE'', pc_correlation = None,
     pc_recommendation = None, pc_provenance = []\<rparr>"

datatype relationship_kind =
    CONTAINS | EMBEDS | EXTRACTED_FROM | DERIVED_FROM | REPAIRED_FROM | SIMILAR_TO | DUPLICATE_OF
  | MEMBER_OF | DECOMPRESSED_FROM | FILESYSTEM_ENTRY_OF | PARTITION_OF | EMBEDDED_FILE_OF

datatype authority = AVBOX_ANALYSIS | RAB | USER_PROVIDED | EXTERNAL_REFERENCE

record object_relationship =
  rel_relationship :: relationship_kind
  rel_source_sha256 :: string
  rel_target_sha256 :: string
  rel_evidence_refs :: "pystr list"
  rel_member_name :: "pystr option"
  rel_normalized_member_name :: "pystr option"
  rel_analyzer_id :: "string option"
  rel_extracted_at :: "timestamp option"
  rel_depth :: nat
  rel_member_index :: "nat option"
  rel_authority :: authority

text \<open>\<open>max_expansion_ratio\<close> is a float; only its comparison with a quotient matters, so it is a
  rational.\<close>

record extraction_budget =
  b_max_recursion_depth :: nat
  b_max_children_per_object :: nat
  b_max_total_children :: nat
  b_max_single_child_bytes :: nat
  b_max_total_extracted_bytes :: nat
  b_max_expansion_ratio :: rat
  b_max_member_name_bytes :: nat
  b_max_path_depth :: nat
  b_max_extraction_time_seconds :: nat
  b_max_partitions_per_disk :: nat
  b_max_materialized_partition_bytes :: nat
  b_max_total_materialized_partition_bytes :: nat

record extraction_usage =
  u_children_discovered :: nat
  u_children_materialized :: nat
  u_total_extracted_bytes :: nat
  u_max_depth_reached :: nat
  u_limit_events :: "pystr list"
  u_materialized_partition_bytes :: nat

definition empty_usage :: extraction_usage where
  "empty_usage = \<lparr>u_children_discovered = 0, u_children_materialized = 0,
     u_total_extracted_bytes = 0, u_max_depth_reached = 0, u_limit_events = [],
     u_materialized_partition_bytes = 0\<rparr>"

record raw_output_descriptor =
  ro_raw_output_id :: string
  ro_sha256 :: "string option"
  ro_size :: "nat option"

record structural_validation =
  sv_validator :: string
  sv_format :: string
  sv_variant :: "string option"
  sv_state :: structural_state
  sv_observations :: "observation list"
  sv_findings :: "finding list"
  sv_assessments :: "assessment list"
  sv_completeness :: string
  sv_confidence :: confidence
  sv_source_sha256 :: string
  sv_validator_version :: string
  sv_duration_seconds :: duration
  sv_error_state :: "string option"
  sv_limit_state :: "string option"

record analyzer_result =
  ar_analyzer_id :: string
  ar_analyzer_class :: scanner_class
  ar_product :: string
  ar_implementation :: "string option"
  ar_product_version :: "pystr option"
  ar_engine_version :: "pystr option"
  ar_definition_state :: "(string \<times> pyval) list"
  ar_qualification_state :: "qualification_state option"
  ar_started_at :: "timestamp option"
  ar_completed_at :: timestamp
  ar_duration_seconds :: "duration option"
  ar_execution_profile :: string
  ar_native_status :: string
  ar_native_exit_code :: "int option"
  ar_normalized_verdict :: "verdict option"
  ar_observations :: "observation list"
  ar_findings :: "finding list"
  ar_assessments :: "assessment list"
  ar_raw_output :: "raw_output_descriptor option"
  ar_errors :: "pystr list"
  ar_structural_validation :: "structural_validation option"

subsection \<open>\<open>models/jobs.py\<close> and \<open>models/protocol.py\<close>\<close>

datatype job_status =
  CREATED | STAGED | QUEUED | RUNNING | COMPLETE | FAILED | QUARANTINED

fun job_status_value :: "job_status \<Rightarrow> string" where
  "job_status_value CREATED = ''CREATED''"
| "job_status_value STAGED = ''STAGED''"
| "job_status_value QUEUED = ''QUEUED''"
| "job_status_value RUNNING = ''RUNNING''"
| "job_status_value COMPLETE = ''COMPLETE''"
| "job_status_value FAILED = ''FAILED''"
| "job_status_value QUARANTINED = ''QUARANTINED''"

record scanner_result =
  sr_scanner_id :: string
  sr_native_verdict :: string
  sr_normalized_verdict :: verdict
  sr_detection_name :: "pystr option"
  sr_exit_code :: "int option"
  sr_raw_output_ref :: string
  sr_engine_version :: "pystr option"
  sr_definition_version :: "pystr option"
  sr_definition_date :: "timestamp option"
  sr_runtime_profile :: string
  sr_scanned_at :: timestamp
  sr_finding_kind :: "finding_kind option"
  sr_definition_state :: "(string \<times> pyval) list"
  sr_duration_seconds :: "duration option"
  sr_selected_reason :: "string option"
  sr_qualification_state :: "qualification_state option"

record object_identity =
  oi_sha256 :: string
  oi_blake3 :: "string option"
  oi_sha1 :: "string option"
  oi_md5 :: "string option"
  oi_size :: int
  oi_filename :: "pystr option"
  oi_media_type :: "pystr option"

definition valid_identity :: "object_identity \<Rightarrow> bool" where
  "valid_identity oi \<longleftrightarrow>
     hex_pattern 64 (oi_sha256 oi) \<and> (case oi_blake3 oi of None \<Rightarrow> True | Some h \<Rightarrow> hex_pattern 64 h)
     \<and> (case oi_sha1 oi of None \<Rightarrow> True | Some h \<Rightarrow> hex_pattern 40 h)
     \<and> (case oi_md5 oi of None \<Rightarrow> True | Some h \<Rightarrow> hex_pattern 32 h) \<and> 0 \<le> oi_size oi"

text \<open>
  \<open>DerivedObject.object\<close> is typed \<open>Any\<close>: the container analyzer stores an \<open>ObjectIdentity\<close> or an
  \<open>InputArtifact\<close>; after a round trip through the database it is the plain dictionary that JSON
  gave (\<open>Obj_Dict\<close> keeps what was dumped).
\<close>

datatype derived_ref =
    Obj_Artifact input_artifact
  | Obj_Identity object_identity
  | Obj_Dict derived_ref

record derived_object =
  d_object :: derived_ref
  d_parent_sha256 :: string
  d_depth :: nat
  d_member_name :: "pystr option"
  d_normalized_member_name :: "pystr option"
  d_member_index :: "nat option"
  d_extraction_status :: string
  d_analyzer_results :: "analyzer_result list"
  d_scanner_results :: "scanner_result list"
  d_normalized_verdict :: verdict
  d_errors :: "pystr list"
  d_metadata :: "(string \<times> pyval) list"
  d_preservation_context :: preservation_context

record scan_job =
  j_job_id :: string
  j_submitted_at :: timestamp
  j_source :: string
  j_input_artifact :: input_artifact
  j_requested_scanners :: "string list"
  j_applicable_scanners :: "string list"
  j_platform_hints :: "string list"
  j_historical_mode :: "historical_mode option"
  j_detected_media_type :: "string option"
  j_status :: job_status
  j_scanner_results :: "scanner_result list"
  j_analyzer_results :: "analyzer_result list"
  j_derived_objects :: "derived_object list"
  j_relationships :: "object_relationship list"
  j_extraction_budget :: "extraction_budget option"
  j_extraction_usage :: "extraction_usage option"
  j_completeness :: string
  j_root_verdict :: "verdict option"
  j_normalized_verdict :: verdict
  j_raw_output_refs :: "string list"
  j_preservation_decision :: "string option"
  j_preservation_context :: preservation_context
  j_updated_at :: timestamp
  j_errors :: "pystr list"
  j_scan_policy :: scan_policy

record analysis_profile =
  ap_id :: string
  ap_version :: nat
  ap_analyzers :: "string list"
  ap_capabilities :: "string list"
  ap_enabled :: bool

definition qualified_id :: "analysis_profile \<Rightarrow> string" where
  "qualified_id p = ap_id p @ ''@'' @ show_nat (ap_version p)"

record analysis_job_accepted =
  acc_job_id :: string
  acc_object_id :: string
  acc_object_sha256 :: string
  acc_profile :: string
  acc_state :: job_status
  acc_created_at :: timestamp
  acc_duplicate :: bool
  acc_links :: "(string \<times> string) list"

record analysis_job_status =
  ajs_job_id :: string
  ajs_object_sha256 :: string
  ajs_profile :: string
  ajs_state :: job_status
  ajs_created_at :: timestamp
  ajs_updated_at :: timestamp
  ajs_client_request_id :: pystr

record analysis_result_envelope =
  env_job_id :: string
  env_object :: object_identity
  env_profile :: string
  env_state :: job_status
  env_started_at :: "timestamp option"
  env_completed_at :: "timestamp option"
  env_analyzers :: "analyzer_result list"
  env_observations :: "observation list"
  env_findings :: "finding list"
  env_assessments :: "assessment list"
  env_verdict :: "verdict option"
  env_preservation_context :: preservation_context
  env_structural_validation :: "structural_validation list"
  env_relationships :: "object_relationship list"
  env_derived_objects :: "derived_object list"
  env_completeness :: string
  env_extraction_budget :: "extraction_budget option"
  env_extraction_usage :: "extraction_usage option"
  env_errors :: "pystr list"
  env_provenance :: "(string \<times> pyval) list"

subsection \<open>\<open>models/runtime.py\<close>\<close>

record scanner_runtime_status =
  rs_scanner_id :: string
  rs_qualification_state :: qualification_state
  rs_installed_version :: "pystr option"
  rs_definition_state :: "(string \<times> pyval) list"
  rs_last_probe :: "timestamp option"
  rs_last_update :: "timestamp option"
  rs_detail :: "pystr option"

end
