(* ===== verification/Effects.thy ===== *)
theory Effects
  imports Prelude
begin

section \<open>Stateful Python code\<close>

text \<open>
  Service methods change shared state and may raise: a statement maps the state before it to an
  outcome and the state after it, and what was changed before an exception stays changed. The
  triples \<open>hoare P m Q E\<close> state what holds after a normal and after an exceptional end.
\<close>

named_theorems hoare_intros \<open>rules of the state-and-exception logic\<close>

type_synonym ('s, 'a) py = "'s \<Rightarrow> 'a res \<times> 's"

definition ret :: "'a \<Rightarrow> ('s, 'a) py" where
  "ret v = (\<lambda>s. (Inr v, s))"

definition raiseP :: "py_exn \<Rightarrow> ('s, 'a) py" where
  "raiseP e = (\<lambda>s. (Inl e, s))"

definition bindP :: "('s, 'a) py \<Rightarrow> ('a \<Rightarrow> ('s, 'b) py) \<Rightarrow> ('s, 'b) py" where
  "bindP m f = (\<lambda>s. case m s of (Inl e, s') \<Rightarrow> (Inl e, s') | (Inr v, s') \<Rightarrow> f v s')"

definition thenP :: "('s, 'a) py \<Rightarrow> ('s, 'b) py \<Rightarrow> ('s, 'b) py" where
  "thenP m k = bindP m (\<lambda>_. k)"

definition getP :: "('s \<Rightarrow> 'a) \<Rightarrow> ('s, 'a) py" where
  "getP f = (\<lambda>s. (Inr (f s), s))"

definition updP :: "('s \<Rightarrow> 's) \<Rightarrow> ('s, unit) py" where
  "updP f = (\<lambda>s. (Inr (), f s))"

text \<open>A pure fallible computation, and one on a part of the state.\<close>

definition liftP :: "'a res \<Rightarrow> ('s, 'a) py" where
  "liftP m = (\<lambda>s. (m, s))"

definition zoomP :: "('s \<Rightarrow> 't) \<Rightarrow> ('t \<Rightarrow> 's \<Rightarrow> 's) \<Rightarrow> ('t, 'a) py \<Rightarrow> ('s, 'a) py" where
  "zoomP get put m = (\<lambda>s. case m (get s) of (r, t) \<Rightarrow> (r, put t s))"

text \<open>\<open>try: m except Exception as exc: h(exc)\<close> and \<open>try: m finally: k\<close>.\<close>

definition tryP :: "('s, 'a) py \<Rightarrow> (py_exn \<Rightarrow> ('s, 'a) py) \<Rightarrow> ('s, 'a) py" where
  "tryP m h = (\<lambda>s. case m s of (Inl e, s') \<Rightarrow> h e s' | (Inr v, s') \<Rightarrow> (Inr v, s'))"

definition finallyP :: "('s, 'a) py \<Rightarrow> ('s, unit) py \<Rightarrow> ('s, 'a) py" where
  "finallyP m k = (\<lambda>s. case m s of (r, s') \<Rightarrow>
     (case k s' of (Inl e, s'') \<Rightarrow> (Inl e, s'') | (Inr _, s'') \<Rightarrow> (r, s'')))"

fun forP :: "('a \<Rightarrow> ('s, unit) py) \<Rightarrow> 'a list \<Rightarrow> ('s, unit) py" where
  "forP f [] = ret ()"
| "forP f (x # xs) = thenP (f x) (forP f xs)"

text \<open>A \<open>for\<close> loop whose body may \<open>break\<close>: the body returns whether the loop goes on.\<close>

fun loopP :: "('a \<Rightarrow> ('s, bool) py) \<Rightarrow> 'a list \<Rightarrow> ('s, unit) py" where
  "loopP f [] = ret ()"
| "loopP f (x # xs) = bindP (f x) (\<lambda>go_on. if go_on then loopP f xs else ret ())"

text \<open>A \<open>finally\<close> clause that acts unless the body came to a successful result.\<close>

definition unlessP :: "('a \<Rightarrow> bool) \<Rightarrow> ('s, unit) py \<Rightarrow> ('s, 'a) py \<Rightarrow> ('s, 'a) py" where
  "unlessP success k m = (\<lambda>s. case m s of (r, s') \<Rightarrow>
     if (case r of Inl _ \<Rightarrow> False | Inr v \<Rightarrow> success v) then (r, s')
     else case k s' of (Inl e, s'') \<Rightarrow> (Inl e, s'') | (Inr _, s'') \<Rightarrow> (r, s''))"

definition whenP :: "bool \<Rightarrow> ('s, unit) py \<Rightarrow> ('s, unit) py" where
  "whenP b m = (if b then m else ret ())"

lemma ret_apply [simp]: "ret v s = (Inr v, s)"
  and raiseP_apply [simp]: "raiseP e s = (Inl e, s)"
  and getP_apply [simp]: "getP f s = (Inr (f s), s)"
  and updP_apply [simp]: "updP g s = (Inr (), g s)"
  and liftP_apply [simp]: "liftP m s = (m, s)"
  by (simp_all add: ret_def raiseP_def getP_def updP_def liftP_def)

lemmas py_defs = bindP_def thenP_def tryP_def finallyP_def whenP_def zoomP_def

subsection \<open>Triples\<close>

definition hoare :: "('s \<Rightarrow> bool) \<Rightarrow> ('s, 'a) py \<Rightarrow> ('a \<Rightarrow> 's \<Rightarrow> bool) \<Rightarrow> (py_exn \<Rightarrow> 's \<Rightarrow> bool) \<Rightarrow> bool" where
  "hoare P m Q E \<longleftrightarrow> (\<forall>s. P s \<longrightarrow> (case m s of (Inl e, s') \<Rightarrow> E e s' | (Inr v, s') \<Rightarrow> Q v s'))"

lemma hoareD_Inr: "hoare P m Q E \<Longrightarrow> P s \<Longrightarrow> m s = (Inr v, s') \<Longrightarrow> Q v s'"
  and hoareD_Inl: "hoare P m Q E \<Longrightarrow> P s \<Longrightarrow> m s = (Inl e, s') \<Longrightarrow> E e s'"
  by (force simp: hoare_def)+

lemma hoareI:
  assumes "\<And>s v s'. P s \<Longrightarrow> m s = (Inr v, s') \<Longrightarrow> Q v s'"
    and "\<And>s e s'. P s \<Longrightarrow> m s = (Inl e, s') \<Longrightarrow> E e s'"
  shows "hoare P m Q E"
  using assms by (auto simp: hoare_def split: prod.split sum.split)

lemma hoare_ret: "(\<And>s. P s \<Longrightarrow> Q v s) \<Longrightarrow> hoare P (ret v) Q E"
  by (simp add: hoare_def)

lemma hoare_raise: "(\<And>s. P s \<Longrightarrow> E e s) \<Longrightarrow> hoare P (raiseP e) Q E"
  by (simp add: hoare_def)

lemma hoare_get: "(\<And>s. P s \<Longrightarrow> Q (f s) s) \<Longrightarrow> hoare P (getP f) Q E"
  by (simp add: hoare_def)

lemma hoare_upd: "(\<And>s. P s \<Longrightarrow> Q () (g s)) \<Longrightarrow> hoare P (updP g) Q E"
  by (simp add: hoare_def)

lemma hoare_lift:
  assumes "\<And>s v. P s \<Longrightarrow> m = Inr v \<Longrightarrow> Q v s" and "\<And>s e. P s \<Longrightarrow> m = Inl e \<Longrightarrow> E e s"
  shows "hoare P (liftP m) Q E"
  using assms by (auto simp: hoare_def split: sum.split)

lemma hoare_bind:
  assumes "hoare P m R E" and "\<And>v. hoare (R v) (f v) Q E"
  shows "hoare P (bindP m f) Q E"
  using assms by (fastforce simp: hoare_def bindP_def split: prod.splits sum.splits)

lemma hoare_then:
  assumes "hoare P m (\<lambda>_. R) E" and "hoare R k Q E"
  shows "hoare P (thenP m k) Q E"
  using assms by (simp add: thenP_def hoare_bind)

lemma hoare_if:
  assumes "b \<Longrightarrow> hoare P m Q E" and "\<not> b \<Longrightarrow> hoare P k Q E"
  shows "hoare P (if b then m else k) Q E"
  using assms by simp

lemma hoare_when:
  assumes "b \<Longrightarrow> hoare P m (\<lambda>_. Q) E" and "\<not> b \<Longrightarrow> (\<And>s. P s \<Longrightarrow> Q s)"
  shows "hoare P (whenP b m) (\<lambda>_. Q) E"
  using assms by (simp add: whenP_def hoare_ret)

lemma hoare_try:
  assumes "hoare P m Q R" and "\<And>e. hoare (R e) (h e) Q E"
  shows "hoare P (tryP m h) Q E"
  using assms by (fastforce simp: hoare_def tryP_def split: prod.splits sum.splits)

lemma hoare_finally:
  assumes "hoare P m R F" and "\<And>v. hoare (R v) k (\<lambda>_. Q v) E" and "\<And>e. hoare (F e) k (\<lambda>_. E e) E"
  shows "hoare P (finallyP m k) Q E"
  using assms by (fastforce simp: hoare_def finallyP_def split: prod.splits sum.splits)

lemma hoare_for:
  assumes "\<And>x. x \<in> set xs \<Longrightarrow> hoare I (f x) (\<lambda>_. I) E"
  shows "hoare I (forP f xs) (\<lambda>_. I) E"
  using assms by (induction xs) (auto intro: hoare_ret hoare_then)

lemma hoare_loop:
  assumes "\<And>x. x \<in> set xs \<Longrightarrow> hoare I (f x) (\<lambda>_. I) E"
  shows "hoare I (loopP f xs) (\<lambda>_. I) E"
  using assms
proof (induction xs)
  case (Cons x xs)
  then show ?case by (auto intro!: hoare_bind [where R = "\<lambda>_. I"] hoare_if hoare_ret)
qed (auto intro: hoare_ret)

lemma hoare_unless:
  assumes "hoare P m R F" and "\<And>v s. success v \<Longrightarrow> R v s \<Longrightarrow> Q v s"
    and "\<And>v. \<not> success v \<Longrightarrow> hoare (R v) k (\<lambda>_. Q v) E" and "\<And>e. hoare (F e) k (\<lambda>_. E e) E"
  shows "hoare P (unlessP success k m) Q E"
  using assms by (fastforce simp: hoare_def unlessP_def split: prod.splits sum.splits)

lemma hoare_weaken:
  assumes "hoare P' m Q' E'" and "\<And>s. P s \<Longrightarrow> P' s"
    and "\<And>v s. Q' v s \<Longrightarrow> Q v s" and "\<And>e s. E' e s \<Longrightarrow> E e s"
  shows "hoare P m Q E"
  using assms by (fastforce simp: hoare_def split: prod.splits sum.splits)

lemma hoare_conj:
  assumes "hoare P m Q E" and "hoare P' m Q' E'"
  shows "hoare (\<lambda>s. P s \<and> P' s) m (\<lambda>v s. Q v s \<and> Q' v s) (\<lambda>e s. E e s \<and> E' e s)"
  using assms by (fastforce simp: hoare_def split: prod.splits sum.splits)

lemmas hoare_rules = hoare_ret hoare_raise hoare_get hoare_upd hoare_bind hoare_then hoare_when

text \<open>\<open>keeps f m\<close>: however \<open>m\<close> ends, the part \<open>f\<close> of the state is what it was.\<close>

definition keeps :: "('s \<Rightarrow> 't) \<Rightarrow> ('s, 'a) py \<Rightarrow> bool" where
  "keeps f m \<longleftrightarrow> (\<forall>s. f (snd (m s)) = f s)"

named_theorems keeps_intros \<open>rules showing that a statement leaves a part of the state alone\<close>

lemma keepsD: "keeps f m \<Longrightarrow> m s = (r, s') \<Longrightarrow> f s' = f s"
  by (metis keeps_def snd_conv)

lemma keeps_basic [keeps_intros]:
  "keeps f (ret v)" "keeps f (raiseP e)" "keeps f (getP g)" "keeps f (liftP m')"
  by (simp_all add: keeps_def)

lemma keeps_upd [keeps_intros]: "(\<And>s. f (g s) = f s) \<Longrightarrow> keeps f (updP g)"
  by (simp add: keeps_def)

lemma keeps_bind [keeps_intros]:
  assumes "keeps f m" and "\<And>v. keeps f (k v)"
  shows "keeps f (bindP m k)"
  unfolding keeps_def
proof
  fix s
  obtain r s' where m: "m s = (r, s')" by fastforce
  then have "f s' = f s" using assms(1) by (rule keepsD [rotated])
  moreover have "f (snd (k v s')) = f s'" for v using assms(2) by (simp add: keeps_def)
  ultimately show "f (snd (bindP m k s)) = f s" by (cases r) (simp_all add: bindP_def m)
qed

lemma keeps_then [keeps_intros]: "keeps f m \<Longrightarrow> keeps f k \<Longrightarrow> keeps f (thenP m k)"
  by (simp add: thenP_def keeps_bind)

lemma keeps_if [keeps_intros]: "(b \<Longrightarrow> keeps f m) \<Longrightarrow> (\<not> b \<Longrightarrow> keeps f k) \<Longrightarrow> keeps f (if b then m else k)"
  by simp

lemma keeps_when [keeps_intros]: "(b \<Longrightarrow> keeps f m) \<Longrightarrow> keeps f (whenP b m)"
  by (simp add: whenP_def keeps_basic)

lemma keeps_try [keeps_intros]: "keeps f m \<Longrightarrow> (\<And>e. keeps f (h e)) \<Longrightarrow> keeps f (tryP m h)"
  unfolding keeps_def tryP_def by (auto split: prod.split sum.split) (metis snd_conv)+

lemma keeps_finally [keeps_intros]: "keeps f m \<Longrightarrow> keeps f k \<Longrightarrow> keeps f (finallyP m k)"
  unfolding keeps_def finallyP_def by (auto split: prod.split sum.split) (metis snd_conv)+

lemma keeps_for [keeps_intros]: "(\<And>x. x \<in> set xs \<Longrightarrow> keeps f (g x)) \<Longrightarrow> keeps f (forP g xs)"
  by (induction xs) (auto intro: keeps_intros)

lemma keeps_loop [keeps_intros]: "(\<And>x. x \<in> set xs \<Longrightarrow> keeps f (g x)) \<Longrightarrow> keeps f (loopP g xs)"
  by (induction xs) (auto intro: keeps_intros)

lemma keeps_unless [keeps_intros]: "keeps f m \<Longrightarrow> keeps f k \<Longrightarrow> keeps f (unlessP success k m)"
  unfolding keeps_def unlessP_def by (auto split: prod.split sum.split) (metis snd_conv)+

lemma keeps_zoom [keeps_intros]: "(\<And>s t. f (put t s) = f s) \<Longrightarrow> keeps f (zoomP get put m)"
  by (simp add: keeps_def zoomP_def split: prod.split)

subsection \<open>Files\<close>

text \<open>
  A path is the list of its components below the root. The file system holds the bytes of the
  regular files and the directories; links and permissions are not part of it.
\<close>

type_synonym path = "string list"

record fs =
  fs_files :: "(path \<times> bytes) list"
  fs_dirs :: "path list"

definition file_at :: "path \<Rightarrow> fs \<Rightarrow> bytes option" where
  "file_at p s = map_of (fs_files s) p"

definition is_dir :: "path \<Rightarrow> fs \<Rightarrow> bool" where
  "is_dir p s \<longleftrightarrow> p \<in> set (fs_dirs s)"

definition fs_exists :: "path \<Rightarrow> fs \<Rightarrow> bool" where
  "fs_exists p s \<longleftrightarrow> file_at p s \<noteq> None \<or> is_dir p s"

definition drop_file :: "path \<Rightarrow> fs \<Rightarrow> fs" where
  "drop_file p s = s\<lparr>fs_files := filter (\<lambda>(q, _). q \<noteq> p) (fs_files s)\<rparr>"

definition put_file :: "path \<Rightarrow> bytes \<Rightarrow> fs \<Rightarrow> fs" where
  "put_file p bs s = s\<lparr>fs_files := (p, bs) # fs_files (drop_file p s)\<rparr>"

lemma map_of_filter_key: "map_of (filter (\<lambda>(q, _). P q) xs) k = (if P k then map_of xs k else None)"
  by (induction xs) auto

lemma file_at_drop [simp]: "file_at q (drop_file p s) = (if q = p then None else file_at q s)"
  by (simp add: file_at_def drop_file_def map_of_filter_key)

lemma file_at_put [simp]: "file_at q (put_file p bs s) = (if q = p then Some bs else file_at q s)"
  by (simp add: file_at_def put_file_def drop_file_def map_of_filter_key)

lemma is_dir_files [simp]: "is_dir q (drop_file p s) = is_dir q s" "is_dir q (put_file p bs s) = is_dir q s"
  by (simp_all add: is_dir_def drop_file_def put_file_def)

definition read_file :: "path \<Rightarrow> (fs, bytes) py" where
  "read_file p = (\<lambda>s. case file_at p s of None \<Rightarrow> (Inl OSError, s) | Some bs \<Rightarrow> (Inr bs, s))"

text \<open>\<open>p.open("xb")\<close> and the writes to it: the file must be new and its directory must exist.\<close>

definition write_new :: "path \<Rightarrow> bytes \<Rightarrow> (fs, unit) py" where
  "write_new p bs = (\<lambda>s.
     if fs_exists p s \<or> p = [] \<or> \<not> is_dir (butlast p) s then (Inl OSError, s)
     else (Inr (), put_file p bs s))"

text \<open>\<open>p.write_bytes(bs)\<close> and \<open>shutil.copyfile\<close> onto \<open>p\<close>: an existing file is replaced.\<close>

definition write_file :: "path \<Rightarrow> bytes \<Rightarrow> (fs, unit) py" where
  "write_file p bs = (\<lambda>s.
     if is_dir p s \<or> p = [] \<or> \<not> is_dir (butlast p) s then (Inl OSError, s)
     else (Inr (), put_file p bs s))"

text \<open>\<open>p.mkdir(parents=True, exist_ok=...)\<close> and \<open>p.mkdir()\<close>.\<close>

definition path_prefixes :: "path \<Rightarrow> path list" where
  "path_prefixes p = map (\<lambda>n. take n p) [0..<Suc (length p)]"

definition mkdir_parents :: "bool \<Rightarrow> path \<Rightarrow> (fs, unit) py" where
  "mkdir_parents exist_ok p = (\<lambda>s.
     if list_ex (\<lambda>q. file_at q s \<noteq> None) (path_prefixes p) \<or> (is_dir p s \<and> \<not> exist_ok)
     then (Inl OSError, s)
     else (Inr (), s\<lparr>fs_dirs := remdups (path_prefixes p @ fs_dirs s)\<rparr>))"

definition mkdir :: "path \<Rightarrow> (fs, unit) py" where
  "mkdir p = (\<lambda>s.
     if fs_exists p s \<or> p = [] \<or> \<not> is_dir (butlast p) s then (Inl OSError, s)
     else (Inr (), s\<lparr>fs_dirs := p # fs_dirs s\<rparr>))"

text \<open>\<open>p.unlink(missing_ok=True)\<close>, \<open>src.rename(dst)\<close>/\<open>os.replace\<close>, \<open>p.rmdir()\<close>, \<open>shutil.rmtree(p)\<close>.\<close>

definition unlink :: "path \<Rightarrow> (fs, unit) py" where
  "unlink p = (\<lambda>s. if is_dir p s then (Inl OSError, s) else (Inr (), drop_file p s))"

definition rename :: "path \<Rightarrow> path \<Rightarrow> (fs, unit) py" where
  "rename src dst = (\<lambda>s. case file_at src s of
       None \<Rightarrow> (Inl OSError, s)
     | Some bs \<Rightarrow>
         if is_dir dst s \<or> dst = [] \<or> \<not> is_dir (butlast dst) s then (Inl OSError, s)
         else (Inr (), put_file dst bs (drop_file src s)))"

definition below :: "path \<Rightarrow> path \<Rightarrow> bool" where
  "below root p \<longleftrightarrow> take (length root) p = root"

definition dir_empty :: "path \<Rightarrow> fs \<Rightarrow> bool" where
  "dir_empty d s \<longleftrightarrow>
     list_all (\<lambda>p. \<not> below d p \<or> p = d) (map fst (fs_files s) @ fs_dirs s)"

definition rmdir :: "path \<Rightarrow> (fs, unit) py" where
  "rmdir p = (\<lambda>s. if is_dir p s \<and> dir_empty p s
     then (Inr (), s\<lparr>fs_dirs := filter (\<lambda>q. q \<noteq> p) (fs_dirs s)\<rparr>) else (Inl OSError, s))"

definition rmtree :: "path \<Rightarrow> (fs, unit) py" where
  "rmtree p = (\<lambda>s. if is_dir p s
     then (Inr (), s\<lparr>fs_files := filter (\<lambda>(q, _). \<not> below p q) (fs_files s),
                    fs_dirs := filter (\<lambda>q. \<not> below p q) (fs_dirs s)\<rparr>)
     else (Inl OSError, s))"

lemma file_at_dirs [simp]: "file_at p (s\<lparr>fs_dirs := ds\<rparr>) = file_at p s"
  by (simp add: file_at_def)

subsection \<open>Byte streams\<close>

text \<open>
  Several loops read a stream in chunks until an empty chunk comes: \<open>while chunk := read(n)\<close>.
  \<open>read_all\<close> collects the chunks, \<open>read_bounded\<close> gives up with \<open>too_large\<close> when the total exceeds
  a limit. The fuel bounds the number of reads; one more than the bytes left is enough.
\<close>

fun read_all :: "nat \<Rightarrow> (nat \<Rightarrow> 's \<Rightarrow> bytes \<times> 's) \<Rightarrow> nat \<Rightarrow> 's \<Rightarrow> bytes \<Rightarrow> bytes res" where
  "read_all 0 rd n s acc = Inl OutOfFuel"
| "read_all (Suc fuel) rd n s acc =
     (case rd n s of (chunk, s') \<Rightarrow> if chunk = [] then Inr acc else read_all fuel rd n s' (acc @ chunk))"

fun read_bounded :: "nat \<Rightarrow> (nat \<Rightarrow> 's \<Rightarrow> bytes \<times> 's) \<Rightarrow> nat \<Rightarrow> nat \<Rightarrow> py_exn \<Rightarrow> 's \<Rightarrow> bytes \<Rightarrow> bytes res" where
  "read_bounded 0 rd n limit too_large s acc = Inl OutOfFuel"
| "read_bounded (Suc fuel) rd n limit too_large s acc =
     (case rd n s of (chunk, s') \<Rightarrow>
        if chunk = [] then Inr acc
        else if length acc + length chunk > limit then Inl too_large
        else read_bounded fuel rd n limit too_large s' (acc @ chunk))"

text \<open>The contract of a readable stream: \<open>read(n)\<close> takes the next \<open>n\<close> bytes that are left.\<close>

locale byte_stream =
  fixes rd :: "nat \<Rightarrow> 's \<Rightarrow> bytes \<times> 's"
    and remaining :: "'s \<Rightarrow> bytes"
  assumes read_bytes: "rd n s = (bs, s') \<Longrightarrow> bs = take n (remaining s)"
    and read_rest: "rd n s = (bs, s') \<Longrightarrow> remaining s' = drop n (remaining s)"
begin

lemma read_all_exact:
  "0 < n \<Longrightarrow> length (remaining s) < fuel \<Longrightarrow> read_all fuel rd n s acc = Inr (acc @ remaining s)"
proof (induction fuel arbitrary: s acc)
  case (Suc fuel)
  obtain bs s' where r: "rd n s = (bs, s')" by fastforce
  note rb = read_bytes [OF r] and rr = read_rest [OF r]
  show ?case
  proof (cases "remaining s = []")
    case False
    then have "length (remaining s') < length (remaining s)" using rr Suc.prems by simp
    then have "read_all fuel rd n s' (acc @ bs) = Inr ((acc @ bs) @ remaining s')"
      using Suc.prems by (intro Suc.IH) simp_all
    then show ?thesis using False Suc.prems(1) by (simp add: r rb rr)
  qed (simp add: r rb)
qed simp

lemma read_bounded_exact:
  "0 < n \<Longrightarrow> length (remaining s) < fuel \<Longrightarrow> length acc \<le> limit \<Longrightarrow>
     read_bounded fuel rd n limit e s acc =
       (if length acc + length (remaining s) \<le> limit then Inr (acc @ remaining s) else Inl e)"
proof (induction fuel arbitrary: s acc)
  case (Suc fuel)
  obtain bs s' where r: "rd n s = (bs, s')" by fastforce
  note rb = read_bytes [OF r] and rr = read_rest [OF r]
  show ?case
  proof (cases "remaining s = []")
    case True
    then show ?thesis using Suc.prems by (simp add: r rb)
  next
    case False
    then have bs: "bs \<noteq> []" using Suc.prems(1) by (simp add: rb)
    have len: "length bs + length (remaining s') = length (remaining s)"
      by (simp add: rb rr)
    show ?thesis
    proof (cases "length acc + length bs > limit")
      case True
      then show ?thesis using bs len by (simp add: r)
    next
      case False
      have "length (remaining s') < fuel" using bs len Suc.prems(2) by (cases bs) auto
      then have "read_bounded fuel rd n limit e s' (acc @ bs) =
          (if length (acc @ bs) + length (remaining s') \<le> limit then Inr ((acc @ bs) @ remaining s') else Inl e)"
        using False Suc.prems(1) by (intro Suc.IH) simp_all
      moreover have "bs @ remaining s' = remaining s" by (simp add: rb rr)
      ultimately show ?thesis using bs False len by (simp add: r)
    qed
  qed
qed simp

end

text \<open>An open binary file (or \<open>BytesIO\<close>): its bytes and the position.\<close>

definition file_read :: "nat \<Rightarrow> bytes \<times> nat \<Rightarrow> bytes \<times> (bytes \<times> nat)" where
  "file_read n s = (case s of (bs, pos) \<Rightarrow> (pyslice bs pos (pos + n), (bs, pos + length (pyslice bs pos (pos + n)))))"

definition file_remaining :: "bytes \<times> nat \<Rightarrow> bytes" where
  "file_remaining s = drop (snd s) (fst s)"

interpretation file_stream: byte_stream file_read file_remaining
proof
  show "bs = take n (file_remaining s)" if "file_read n s = (bs, s')" for n s bs s'
    using that by (auto simp: file_read_def file_remaining_def pyslice_def split: prod.splits)
  show "file_remaining s' = drop n (file_remaining s)" if "file_read n s = (bs, s')" for n s bs s'
    using that
    by (auto simp: file_read_def file_remaining_def add.commute min_def split: prod.splits if_splits)
qed

end
