(* ===== verification/Preservation.thy ===== *)
theory Preservation
  imports Models Effects
begin

section \<open>Artifacts and quarantine: \<open>application/artifacts.py\<close>, \<open>preservation/\<close>\<close>

text \<open>
  Hashing of a file into an \<open>InputArtifact\<close> and the content-addressed quarantine. The digest
  functions are an argument: an incremental digest fed chunk by chunk is the digest of all bytes.
\<close>

record digests =
  dg_sha256 :: "bytes \<Rightarrow> string"
  dg_blake3 :: "bytes \<Rightarrow> string"
  dg_sha1 :: "bytes \<Rightarrow> string"
  dg_md5 :: "bytes \<Rightarrow> string"

definition hashes_of :: "digests \<Rightarrow> bytes \<Rightarrow> hashes" where
  "hashes_of dg bs = \<lparr>h_sha256 = dg_sha256 dg bs, h_blake3 = dg_blake3 dg bs, h_sha1 = dg_sha1 dg bs,
     h_md5 = dg_md5 dg bs\<rparr>"

text \<open>\<open>ArtifactService.hash_file\<close>: the file is read in chunks of 1 MiB.\<close>

definition mib :: nat where
  "mib = 1024 * 1024"

definition read_chunked :: "bytes \<Rightarrow> bytes res" where
  "read_chunked bs = read_all (length bs + 1) file_read mib (bs, 0) []"

definition hash_file :: "digests \<Rightarrow> timestamp \<Rightarrow> path \<Rightarrow> string \<Rightarrow> pystr \<Rightarrow> (fs, input_artifact) py" where
  "hash_file dg now p source media_type =
     bindP (getP (file_at p)) (\<lambda>content.
     case content of
       None \<Rightarrow> raiseP (ValueError ''not a regular file'')
     | Some bs \<Rightarrow>
         bindP (liftP (read_chunked bs)) (\<lambda>all.
         liftP (validate_input_artifact
           \<lparr>a_hashes = hashes_of dg all, a_byte_size = int (length bs), a_filename = asc (last p),
            a_submitted_filename = None, a_media_type = media_type, a_source = source,
            a_submitted_at = now, a_rights = default_rights\<rparr>)))"

subsection \<open>\<open>preservation/models.py\<close>\<close>

record external_artifact =
  ea_original_filename :: pystr
  ea_hashes :: hashes
  ea_byte_size :: int
  ea_source_urls :: "pystr list"
  ea_vendor :: "pystr option"
  ea_product :: "pystr option"
  ea_product_version :: "pystr option"
  ea_engine_version :: "pystr option"
  ea_definition_version :: "pystr option"
  ea_definition_date :: "timestamp option"
  ea_compatibility :: "(string \<times> pyval) list"
  ea_relationships :: "(string \<times> pyval) list list"
  ea_provenance_events :: "(string \<times> pyval) list list"
  ea_rights :: rights

record external_preservation_manifest =
  epm_schema_version :: int
  epm_authority :: pystr
  epm_generated_at :: timestamp
  epm_artifacts :: "external_artifact list"
  epm_failed_sources :: "(string \<times> pyval) list list"

definition validate_external_artifact :: "external_artifact \<Rightarrow> external_artifact res" where
  "validate_external_artifact a =
     bindE (validate_hashes (ea_hashes a)) (\<lambda>_. if 0 \<le> ea_byte_size a then Inr a else Inl ValidationError)"

record rab_resource_request =
  rrq_request_id :: string
  rrq_artifact_sha256 :: string
  rrq_requested_scanners :: "string list"

record rab_result_envelope =
  rre_request_id :: string
  rre_job_id :: string
  rre_artifact_sha256 :: string
  rre_result_document :: "(string \<times> pyval) list"

subsection \<open>\<open>PreservationService\<close>\<close>

definition quarantine_path :: "path \<Rightarrow> input_artifact \<Rightarrow> path" where
  "quarantine_path quarantine a =
     (let sha = h_sha256 (a_hashes a) in quarantine @ [''sha256'', take 2 sha, sha])"

text \<open>\<open>destination.with_suffix(".incoming")\<close>: a digest has no suffix to replace.\<close>

definition with_incoming :: "path \<Rightarrow> path" where
  "with_incoming p = butlast p @ [last p @ ''.incoming'']"

definition detected :: "verdict \<Rightarrow> bool" where
  "detected v \<longleftrightarrow> v \<in> {MALICIOUS, SUSPICIOUS, PUA}"

definition admit :: "path \<Rightarrow> path \<Rightarrow> input_artifact \<Rightarrow> verdict \<Rightarrow> (fs, path) py" where
  "admit quarantine source artifact verdict =
     (if \<not> detected verdict
      then raiseP (ValueError ''only malicious, suspicious, or PUA objects may enter quarantine'')
      else
        let destination = quarantine_path quarantine artifact;
            temporary = with_incoming destination
        in bindP (getP (fs_exists destination)) (\<lambda>there.
           if there then ret destination
           else
             thenP (mkdir_parents True (butlast destination))
             (bindP (read_file source) (\<lambda>bs.
             bindP (liftP (read_chunked bs)) (\<lambda>content.
             thenP (write_new temporary content)
             (thenP (rename temporary destination)
             (ret destination)))))))"

subsection \<open>Lemmas\<close>

lemma read_chunked_exact: "read_chunked bs = Inr bs"
  using file_stream.read_all_exact [of mib "(bs, 0)" "length bs + 1" "[]"]
  by (simp add: read_chunked_def file_remaining_def mib_def)

lemma mkdir_parents_files: "mkdir_parents ok p s = (r, s') \<Longrightarrow> file_at q s' = file_at q s"
  by (auto simp: mkdir_parents_def split: if_splits)

text \<open>Once the destination is new, admission is: make the directory, copy, rename.\<close>

lemma rename_put:
  assumes "rename t d (put_file t bs s) = (r, s')"
  shows "(if r = Inr () then s' = put_file d bs (drop_file t (put_file t bs s)) else s' = put_file t bs s)
     \<and> (r = Inr () \<or> r = Inl OSError)"
  using assms by (auto simp: rename_def split: if_splits)

lemma admit_new:
  assumes "admit q src a v s = (r, s')" and "detected v" and "\<not> fs_exists (quarantine_path q a) s"
  shows "(\<exists>bs. file_at src s = Some bs \<and> r = Inr (quarantine_path q a)
           \<and> file_at (quarantine_path q a) s' = Some bs
           \<and> (\<forall>p. p \<noteq> quarantine_path q a \<and> p \<noteq> with_incoming (quarantine_path q a) \<longrightarrow> file_at p s' = file_at p s))
     \<or> (r = Inl OSError \<and> (\<forall>p. p \<noteq> with_incoming (quarantine_path q a) \<longrightarrow> file_at p s' = file_at p s))"
  using assms
  by (auto simp: admit_def py_defs Let_def read_chunked_exact read_file_def write_new_def mkdir_parents_def
      dest!: rename_put split: if_splits option.splits sum.splits prod.splits)

subsection \<open>Properties of the quarantine\<close>

text \<open>
  C12: only malicious, suspicious or PUA objects are admitted; an object that is already in
  quarantine is left as it is; otherwise the object under its digest holds exactly the bytes of
  the source when admission succeeds, a failed admission leaves no file under that name, and no
  file other than the destination and its temporary is touched.
\<close>

theorem admit_exact:
  "case admit q src a v s of (r, s') \<Rightarrow>
     let dest = quarantine_path q a in
     if \<not> detected v
     then r = Inl (ValueError ''only malicious, suspicious, or PUA objects may enter quarantine'') \<and> s' = s
     else if fs_exists dest s then r = Inr dest \<and> s' = s
     else (\<forall>p. p = dest \<or> p = with_incoming dest \<or> file_at p s' = file_at p s)
        \<and> (if r = Inr dest then file_at src s \<noteq> None \<and> file_at dest s' = file_at src s
           else r = Inl OSError \<and> file_at dest s' = None)"
proof -
  obtain r s' where a: "admit q src a v s = (r, s')" by fastforce
  consider "\<not> detected v" | "detected v" "fs_exists (quarantine_path q a) s"
    | "detected v" "\<not> fs_exists (quarantine_path q a) s" by blast
  then show ?thesis
  proof cases
    case 3
    have ne: "quarantine_path q a \<noteq> with_incoming (quarantine_path q a)"
      by (simp add: with_incoming_def quarantine_path_def Let_def)
    have "file_at (quarantine_path q a) s = None" using 3 by (simp add: fs_exists_def)
    with admit_new [OF a 3] ne 3 show ?thesis by (auto simp: a Let_def)
  qed (use a in \<open>auto simp: admit_def py_defs Let_def\<close>)
qed

text \<open>
  Hashing a file reads all of it, changes nothing, and yields its size and the digests of
  its bytes; it raises only for a path that is no file or for digests that are not well formed.
\<close>

lemma hash_file_exact:
  "hash_file dg now p source mt s =
     (case file_at p s of
        None \<Rightarrow> (Inl (ValueError ''not a regular file''), s)
      | Some bs \<Rightarrow>
          (bindE (validate_hashes (hashes_of dg bs)) (\<lambda>h.
             Inr \<lparr>a_hashes = h, a_byte_size = int (length bs), a_filename = asc (last p),
               a_submitted_filename = None, a_media_type = mt, a_source = source,
               a_submitted_at = now, a_rights = default_rights\<rparr>), s))"
  by (auto simp: hash_file_def py_defs read_chunked_exact validate_input_artifact_def validate_hashes_def
      split: option.split)

end
