(* ===== verification/Registry.thy ===== *)
theory Registry
  imports Models "HOL-Library.List_Lexorder" "HOL-Library.Char_ord"
begin

section \<open>The scanner registry: \<open>registry/\<close>\<close>

text \<open>
  The registry document and the cross-reference checks that run when it is loaded. Reading the
  YAML file is not modelled: the validated document is the input.
\<close>

subsection \<open>\<open>registry/models.py\<close>\<close>

record platform =
  p_id :: string
  p_label :: pystr
  p_family :: pystr
  p_historical :: bool

record scanner_product =
  sp_id :: string
  sp_vendor :: pystr
  sp_product :: pystr
  sp_scanner_class :: scanner_class
  sp_notes :: "pystr option"
  sp_license :: "pystr option"

record scanner_release =
  rl_id :: string
  rl_product_id :: string
  rl_product_version :: "pystr option"
  rl_engine_version :: "pystr option"
  rl_platform_ids :: "string list"
  rl_runtime_profile_id :: string
  rl_worker_profile_id :: string
  rl_historical_mode :: "historical_mode option"
  rl_qualification_status :: string
  rl_capabilities :: "capability list"
  rl_dependency_mode :: dependency_mode
  rl_offline_definitions_supported :: "bool option"
  rl_definition_snapshot_supported :: "bool option"
  rl_rights :: rights
  rl_installation_source :: "pystr option"
  rl_installation_method :: "pystr option"
  rl_update_mechanism :: "pystr option"

definition validate_release :: "scanner_release \<Rightarrow> scanner_release res" where
  "validate_release r =
     (if rl_historical_mode r \<noteq> None \<and> \<not> substring ''incomplete'' (rl_qualification_status r)
         \<and> \<not> substring ''qualified'' (rl_qualification_status r)
      then Inl ValidationError else Inr r)"

record detector_release =
  dr_id :: string
  dr_product_id :: string
  dr_product_version :: "pystr option"
  dr_platform_ids :: "string list"
  dr_runtime_profile_id :: string
  dr_worker_profile_id :: string
  dr_capabilities :: "capability list"
  dr_dependency_mode :: dependency_mode
  dr_qualification_status :: string
  dr_installation_source :: "pystr option"
  dr_installation_method :: "pystr option"
  dr_update_mechanism :: "pystr option"

record definition_set =
  ds_id :: string
  ds_product_id :: string
  ds_definition_version :: "pystr option"
  ds_definition_date :: "timestamp option"
  ds_compatible_engine_versions :: "pystr list"
  ds_compatibility_status :: pystr

record runtime_profile =
  rp_id :: string
  rp_mechanism :: pystr
  rp_platform_id :: string
  rp_network_policy :: pystr

record worker_profile =
  wp_id :: string
  wp_adapter :: pystr
  wp_isolation :: pystr

record registry =
  reg_schema_version :: int
  reg_platforms :: "platform list"
  reg_products :: "scanner_product list"
  reg_scanner_releases :: "scanner_release list"
  reg_detector_releases :: "detector_release list"
  reg_definition_sets :: "definition_set list"
  reg_runtime_profiles :: "runtime_profile list"
  reg_worker_profiles :: "worker_profile list"

subsection \<open>\<open>RegistryService\<close>\<close>

text \<open>\<open>_unique\<close>: the dictionary it returns has the identifiers as keys, in the order of the list.\<close>

fun unique_loop :: "('a \<Rightarrow> string) \<Rightarrow> string \<Rightarrow> 'a list \<Rightarrow> string list \<Rightarrow> string list res" where
  "unique_loop key kind [] seen = Inr seen"
| "unique_loop key kind (x # xs) seen =
     (if key x \<in> set seen then Inl (RegistryError (''duplicate '' @ kind @ '' ID: '' @ key x))
      else unique_loop key kind xs (seen @ [key x]))"

definition unique_ids :: "('a \<Rightarrow> string) \<Rightarrow> string \<Rightarrow> 'a list \<Rightarrow> string list res" where
  "unique_ids key kind items = unique_loop key kind items []"

text \<open>What a release of either kind refers to.\<close>

record release_refs =
  ref_id :: string
  ref_product :: string
  ref_platforms :: "string list"
  ref_runtime :: string
  ref_worker :: string

definition scanner_refs :: "scanner_release \<Rightarrow> release_refs" where
  "scanner_refs r = \<lparr>ref_id = rl_id r, ref_product = rl_product_id r, ref_platforms = rl_platform_ids r,
     ref_runtime = rl_runtime_profile_id r, ref_worker = rl_worker_profile_id r\<rparr>"

definition detector_refs :: "detector_release \<Rightarrow> release_refs" where
  "detector_refs r = \<lparr>ref_id = dr_id r, ref_product = dr_product_id r, ref_platforms = dr_platform_ids r,
     ref_runtime = dr_runtime_profile_id r, ref_worker = dr_worker_profile_id r\<rparr>"

text \<open>\<open>str\<close> of a list of strings without quotes or backslashes.\<close>

definition quoted :: "string \<Rightarrow> string" where
  "quoted s = [CHR 39] @ s @ [CHR 39]"

definition list_text :: "string list \<Rightarrow> string" where
  "list_text xs = ''['' @ concat (map (\<lambda>(i, x). (if i = 0 then '''' else '', '') @ quoted x) (enumerate 0 xs)) @ '']''"

definition check_release :: "string list \<Rightarrow> string list \<Rightarrow> string list \<Rightarrow> string list \<Rightarrow> release_refs \<Rightarrow> unit res" where
  "check_release products platforms runtimes workers r =
     (if ref_product r \<notin> set products
      then Inl (RegistryError (ref_id r @ '': unknown product '' @ ref_product r))
      else
        let missing = filter (\<lambda>p. p \<notin> set platforms) (ref_platforms r) in
        if missing \<noteq> []
        then Inl (RegistryError (ref_id r @ '': unknown platforms '' @ list_text (sort (remdups missing))))
        else if ref_runtime r \<notin> set runtimes
        then Inl (RegistryError (ref_id r @ '': unknown runtime '' @ ref_runtime r))
        else if ref_worker r \<notin> set workers
        then Inl (RegistryError (ref_id r @ '': unknown worker '' @ ref_worker r))
        else Inr ())"

definition check_definition :: "string list \<Rightarrow> definition_set \<Rightarrow> unit res" where
  "check_definition products d =
     (if ds_product_id d \<notin> set products
      then Inl (RegistryError (ds_id d @ '': unknown product '' @ ds_product_id d)) else Inr ())"

definition validate_cross_references :: "registry \<Rightarrow> unit res" where
  "validate_cross_references r =
     bindE (unique_ids p_id ''platform'' (reg_platforms r)) (\<lambda>platforms.
     bindE (unique_ids sp_id ''product'' (reg_products r)) (\<lambda>products.
     bindE (unique_ids rp_id ''runtime profile'' (reg_runtime_profiles r)) (\<lambda>runtimes.
     bindE (unique_ids wp_id ''worker profile'' (reg_worker_profiles r)) (\<lambda>workers.
     bindE (unique_ids rl_id ''scanner release'' (reg_scanner_releases r)) (\<lambda>_.
     bindE (unique_ids dr_id ''detector release'' (reg_detector_releases r)) (\<lambda>_.
     bindE (unique_ids ds_id ''definition set'' (reg_definition_sets r)) (\<lambda>_.
     bindE (foldE (\<lambda>rel _. check_release products platforms runtimes workers rel)
              (map scanner_refs (reg_scanner_releases r) @ map detector_refs (reg_detector_releases r)) ()) (\<lambda>_.
     foldE (\<lambda>d _. check_definition products d) (reg_definition_sets r) ()))))))))"

subsection \<open>Lemmas\<close>

lemma unique_loop_iff:
  "unique_loop key kind xs seen = Inr ys \<longleftrightarrow>
     distinct (map key xs) \<and> set (map key xs) \<inter> set seen = {} \<and> ys = seen @ map key xs"
  by (induction xs arbitrary: seen) auto

lemma unique_ids_iff: "unique_ids key kind xs = Inr ys \<longleftrightarrow> distinct (map key xs) \<and> ys = map key xs"
  by (simp add: unique_ids_def unique_loop_iff)

lemma foldE_unit_iff: "foldE (\<lambda>x _. f x) xs () = Inr () \<longleftrightarrow> list_all (\<lambda>x. f x = Inr ()) xs"
  by (induction xs) auto

text \<open>The specification: identifiers are unique, and every reference of a release and of a definition
  set resolves. The platform that a runtime profile names is not among the references.\<close>

definition refs_resolve :: "registry \<Rightarrow> release_refs \<Rightarrow> bool" where
  "refs_resolve r x \<longleftrightarrow>
     ref_product x \<in> sp_id ` set (reg_products r)
     \<and> set (ref_platforms x) \<subseteq> p_id ` set (reg_platforms r)
     \<and> ref_runtime x \<in> rp_id ` set (reg_runtime_profiles r)
     \<and> ref_worker x \<in> wp_id ` set (reg_worker_profiles r)"

definition registry_ok :: "registry \<Rightarrow> bool" where
  "registry_ok r \<longleftrightarrow>
     distinct (map p_id (reg_platforms r)) \<and> distinct (map sp_id (reg_products r))
     \<and> distinct (map rp_id (reg_runtime_profiles r)) \<and> distinct (map wp_id (reg_worker_profiles r))
     \<and> distinct (map rl_id (reg_scanner_releases r)) \<and> distinct (map dr_id (reg_detector_releases r))
     \<and> distinct (map ds_id (reg_definition_sets r))
     \<and> list_all (refs_resolve r) (map scanner_refs (reg_scanner_releases r) @ map detector_refs (reg_detector_releases r))
     \<and> list_all (\<lambda>d. ds_product_id d \<in> sp_id ` set (reg_products r)) (reg_definition_sets r)"

lemma check_release_iff:
  "check_release (map sp_id (reg_products r)) (map p_id (reg_platforms r)) (map rp_id (reg_runtime_profiles r))
     (map wp_id (reg_worker_profiles r)) x = Inr () \<longleftrightarrow> refs_resolve r x"
  by (auto simp: check_release_def refs_resolve_def Let_def filter_empty_conv)

lemma validate_iff: "validate_cross_references r = Inr () \<longleftrightarrow> registry_ok r"
  by (auto simp: validate_cross_references_def registry_ok_def unique_ids_iff foldE_unit_iff check_release_iff
      check_definition_def)

lemma unique_loop_raises: "raises_only (\<lambda>e. \<exists>m. e = RegistryError m) (unique_loop key kind xs seen)"
  by (induction xs arbitrary: seen) auto

lemma check_raises:
  "raises_only (\<lambda>e. \<exists>m. e = RegistryError m) (foldE (\<lambda>rel _. check_release a b c d rel) rels ())"
  "raises_only (\<lambda>e. \<exists>m. e = RegistryError m) (foldE (\<lambda>d _. check_definition a d) ds ())"
  by (rule raises_only_foldE [of "\<lambda>_. True"]; simp add: check_release_def check_definition_def Let_def)+

lemma unique_loop_map: "(\<And>x. key (g x) = key x) \<Longrightarrow> unique_loop key kind (map g xs) seen = unique_loop key kind xs seen"
  by (induction xs arbitrary: seen) auto

text \<open>The same registry with other platforms in its runtime profiles.\<close>

definition with_runtime_platforms :: "(runtime_profile \<Rightarrow> string) \<Rightarrow> registry \<Rightarrow> registry" where
  "with_runtime_platforms f r =
     r\<lparr>reg_runtime_profiles := map (\<lambda>p. p\<lparr>rp_platform_id := f p\<rparr>) (reg_runtime_profiles r)\<rparr>"

lemma validate_ignores_runtime_platforms:
  "validate_cross_references (with_runtime_platforms f r) = validate_cross_references r"
  by (simp add: validate_cross_references_def with_runtime_platforms_def unique_ids_def unique_loop_map)

subsection \<open>Properties of the registry\<close>


end
