(* ===== verification/Jobs.thy ===== *)
theory Jobs
  imports Models Effects
begin

section \<open>Jobs: \<open>models/jobs.py\<close> and \<open>application/jobs.py\<close>\<close>

text \<open>
  The life cycle of a job and the SQLite store. A table is the list of its rows in rowid order;
  \<open>INSERT OR REPLACE\<close> deletes the row with the same key and appends. The document column holds
  the dumped job, so reading it back is \<open>reload_job\<close>: everything survives JSON but the classes
  of the values that are typed \<open>Any\<close>. Errors of the database file itself are not modelled.
\<close>

subsection \<open>The life cycle\<close>

fun transitions :: "job_status \<Rightarrow> job_status list" where
  "transitions CREATED = [STAGED, FAILED]"
| "transitions STAGED = [QUEUED, FAILED, QUARANTINED]"
| "transitions QUEUED = [RUNNING, FAILED]"
| "transitions RUNNING = [COMPLETE, FAILED, QUARANTINED]"
| "transitions COMPLETE = [QUARANTINED]"
| "transitions FAILED = []"
| "transitions QUARANTINED = []"

definition transition :: "timestamp \<Rightarrow> job_status \<Rightarrow> scan_job \<Rightarrow> scan_job res" where
  "transition now target job =
     (if target \<notin> set (transitions (j_status job))
      then Inl (ValueError (''invalid job transition: '' @ job_status_value (j_status job) @ '' -> ''
             @ job_status_value target))
      else Inr (job\<lparr>j_status := target, j_updated_at := now\<rparr>))"

text \<open>\<open>ScanJob(source=..., input_artifact=..., requested_scanners=..., applicable_scanners=...,
  detected_media_type=...)\<close>; the identifier and the clock are arguments.\<close>

definition new_job :: "string \<Rightarrow> timestamp \<Rightarrow> timestamp \<Rightarrow> string \<Rightarrow> input_artifact \<Rightarrow> string list \<Rightarrow> string list
    \<Rightarrow> string option \<Rightarrow> scan_job" where
  "new_job job_id submitted updated source artifact requested applicable media =
     \<lparr>j_job_id = job_id, j_submitted_at = submitted, j_source = source, j_input_artifact = artifact,
      j_requested_scanners = requested, j_applicable_scanners = applicable, j_platform_hints = [],
      j_historical_mode = None, j_detected_media_type = media, j_status = CREATED,
      j_scanner_results = [], j_analyzer_results = [], j_derived_objects = [], j_relationships = [],
      j_extraction_budget = None, j_extraction_usage = None, j_completeness = ''COMPLETE'',
      j_root_verdict = None, j_normalized_verdict = NOT_SCANNED, j_raw_output_refs = [],
      j_preservation_decision = None, j_preservation_context = default_preservation,
      j_updated_at = updated, j_errors = [], j_scan_policy = READ_ONLY\<rparr>"

subsection \<open>The store\<close>

record job_row =
  row_job_id :: string
  row_status :: job_status
  row_document :: scan_job

record rab_row =
  rr_job_id :: string
  rr_client_id :: string
  rr_client_request_id :: pystr
  rr_idempotency_key :: string
  rr_fingerprint :: string
  rr_profile :: string
  rr_upload_path :: "path option"
  rr_document :: "(string \<times> pyval) list"

record db =
  db_jobs :: "job_row list"
  db_runtime :: "(string \<times> scanner_runtime_status) list"
  db_rab :: "rab_row list"

definition empty_db :: db where
  "empty_db = \<lparr>db_jobs = [], db_runtime = [], db_rab = []\<rparr>"

text \<open>What \<open>model_validate(json.loads(model_dump_json()))\<close> does to a job.\<close>

definition reload_ref :: "derived_ref \<Rightarrow> derived_ref" where
  "reload_ref r = (case r of Obj_Dict _ \<Rightarrow> r | _ \<Rightarrow> Obj_Dict r)"

definition reload_derived :: "derived_object \<Rightarrow> derived_object" where
  "reload_derived d = d\<lparr>d_object := reload_ref (d_object d)\<rparr>"

definition reload_job :: "scan_job \<Rightarrow> scan_job" where
  "reload_job job = job\<lparr>j_derived_objects := map reload_derived (j_derived_objects job)\<rparr>"

definition db_save :: "scan_job \<Rightarrow> db \<Rightarrow> db" where
  "db_save job s =
     s\<lparr>db_jobs := filter (\<lambda>r. row_job_id r \<noteq> j_job_id job) (db_jobs s) @
        [\<lparr>row_job_id = j_job_id job, row_status = j_status job, row_document = job\<rparr>]\<rparr>"

definition db_list :: "db \<Rightarrow> scan_job list" where
  "db_list s = map (reload_job \<circ> row_document) (rev (db_jobs s))"

definition db_get :: "string \<Rightarrow> db \<Rightarrow> scan_job option" where
  "db_get job_id s = map_option (reload_job \<circ> row_document) (find (\<lambda>r. row_job_id r = job_id) (db_jobs s))"

definition db_transition :: "timestamp \<Rightarrow> job_status \<Rightarrow> scan_job \<Rightarrow> (db, scan_job) py" where
  "db_transition now target job =
     bindP (liftP (transition now target job)) (\<lambda>job'. thenP (updP (db_save job')) (ret job'))"

definition save_scanner_status :: "scanner_runtime_status \<Rightarrow> db \<Rightarrow> db" where
  "save_scanner_status status s =
     s\<lparr>db_runtime := filter (\<lambda>(k, _). k \<noteq> rs_scanner_id status) (db_runtime s) @ [(rs_scanner_id status, status)]\<rparr>"

definition scanner_statuses :: "db \<Rightarrow> (string \<times> scanner_runtime_status) list" where
  "scanner_statuses s = db_runtime s"

text \<open>The table constraints: the primary key and \<open>UNIQUE(client_id, idempotency_key)\<close>.\<close>

definition save_rab_job :: "rab_row \<Rightarrow> (db, unit) py" where
  "save_rab_job row = (\<lambda>s.
     if list_ex (\<lambda>r. rr_job_id r = rr_job_id row
          \<or> rr_client_id r = rr_client_id row \<and> rr_idempotency_key r = rr_idempotency_key row) (db_rab s)
     then (Inl IntegrityError, s)
     else (Inr (), s\<lparr>db_rab := db_rab s @ [row]\<rparr>))"

definition rab_by_idempotency :: "string \<Rightarrow> string \<Rightarrow> db \<Rightarrow> rab_row option" where
  "rab_by_idempotency client key s =
     find (\<lambda>r. rr_client_id r = client \<and> rr_idempotency_key r = key) (db_rab s)"

definition rab_job :: "string \<Rightarrow> db \<Rightarrow> rab_row option" where
  "rab_job job_id s = find (\<lambda>r. rr_job_id r = job_id) (db_rab s)"

definition interrupted_message :: pystr where
  "interrupted_message = asc ''ANALYSIS_FAILED: interrupted by service restart''"

definition interrupted :: "scan_job \<Rightarrow> bool" where
  "interrupted job \<longleftrightarrow> starts_with ''rab:'' (j_source job) \<and> j_status job \<in> {STAGED, QUEUED, RUNNING}"

text \<open>\<open>now job\<close> is the time the clock shows when that job is failed.\<close>

definition reconcile_one :: "(scan_job \<Rightarrow> timestamp) \<Rightarrow> scan_job \<Rightarrow> (db \<times> nat, unit) py" where
  "reconcile_one now job =
     (if interrupted job
      then bindP (liftP (transition (now job) FAILED (job\<lparr>j_errors := j_errors job @ [interrupted_message]\<rparr>)))
             (\<lambda>job'. updP (\<lambda>(s, count). (db_save job' s, count + 1)))
      else ret ())"

definition reconcile_interrupted :: "(scan_job \<Rightarrow> timestamp) \<Rightarrow> (db, nat) py" where
  "reconcile_interrupted now = (\<lambda>s.
     case forP (reconcile_one now) (db_list s) (s, 0) of
       (Inl e, (s', _)) \<Rightarrow> (Inl e, s')
     | (Inr _, (s', count)) \<Rightarrow> (Inr count, s'))"

subsection \<open>Life cycle lemmas\<close>

text \<open>The life cycle as a step relation, and its rank: no status is entered twice.\<close>

inductive job_step :: "job_status \<Rightarrow> job_status \<Rightarrow> bool" where
  step: "target \<in> set (transitions status) \<Longrightarrow> job_step status target"

inductive_simps job_step_from:
  "job_step CREATED target" "job_step STAGED target" "job_step QUEUED target"
  "job_step RUNNING target" "job_step COMPLETE target" "job_step FAILED target"
  "job_step QUARANTINED target"

fun status_rank :: "job_status \<Rightarrow> nat" where
  "status_rank CREATED = 0"
| "status_rank STAGED = 1"
| "status_rank QUEUED = 2"
| "status_rank RUNNING = 3"
| "status_rank COMPLETE = 4"
| "status_rank FAILED = 5"
| "status_rank QUARANTINED = 5"

lemma job_step_rank: "job_step s t \<Longrightarrow> status_rank s < status_rank t"
  by (induction rule: job_step.induct, case_tac status) auto

lemma transition_step:
  "transition now t job = Inr job' \<longleftrightarrow> job_step (j_status job) t \<and> job' = job\<lparr>j_status := t, j_updated_at := now\<rparr>"
  by (auto simp: transition_def job_step.simps)

text \<open>A history of transitions applied to one job.\<close>

definition run_history :: "(timestamp \<times> job_status) list \<Rightarrow> scan_job \<Rightarrow> scan_job res" where
  "run_history hist job = foldE (\<lambda>(now, t). transition now t) hist job"

lemma run_history_simps [simp]:
  "run_history [] job = Inr job"
  "run_history ((now, t) # hist) job = bindE (transition now t job) (run_history hist)"
  by (simp_all add: run_history_def [abs_def])

lemma run_history_rank:
  "run_history hist job = Inr job' \<Longrightarrow> status_rank (j_status job) + length hist \<le> status_rank (j_status job')"
proof (induction hist arbitrary: job)
  case (Cons h hist)
  then obtain now t j where "h = (now, t)" "transition now t job = Inr j" "run_history hist j = Inr job'"
    by (cases h) auto
  with Cons.IH [of j] job_step_rank [of "j_status job" t] show ?case
    by (auto simp: transition_step)
qed simp

lemma status_rank_le: "status_rank s \<le> 5"
  by (cases s) auto

lemma run_history_bounded: "run_history hist job = Inr job' \<Longrightarrow> length hist \<le> 5"
  using run_history_rank [of hist job job'] status_rank_le [of "j_status job'"] by linarith

lemma run_history_from:
  "run_history hist job = Inr job' \<Longrightarrow> j_status job' = COMPLETE \<Longrightarrow>
     (j_status job = CREATED \<longrightarrow> map snd hist = [STAGED, QUEUED, RUNNING, COMPLETE])
     \<and> (j_status job = STAGED \<longrightarrow> map snd hist = [QUEUED, RUNNING, COMPLETE])
     \<and> (j_status job = QUEUED \<longrightarrow> map snd hist = [RUNNING, COMPLETE])
     \<and> (j_status job = RUNNING \<longrightarrow> map snd hist = [COMPLETE])
     \<and> (j_status job = COMPLETE \<longrightarrow> hist = [])
     \<and> j_status job \<noteq> FAILED \<and> j_status job \<noteq> QUARANTINED"
proof (induction hist arbitrary: job)
  case (Cons h hist)
  obtain now t where h: "h = (now, t)" by (cases h)
  with Cons.prems obtain j where t: "transition now t job = Inr j" "run_history hist j = Inr job'" by auto
  from t(1) have js: "job_step (j_status job) t" "j_status j = t" by (auto simp: transition_step)
  with Cons.IH [OF t(2) Cons.prems(2)] h show ?case
    by (cases "j_status job") (auto simp: job_step_from)
qed simp

lemma run_history_complete:
  "(\<exists>job'. run_history hist (new_job i t u s a r p m) = Inr job' \<and> j_status job' = COMPLETE)
     \<longleftrightarrow> map snd hist = [STAGED, QUEUED, RUNNING, COMPLETE]"
proof
  show "map snd hist = [STAGED, QUEUED, RUNNING, COMPLETE]"
    if "\<exists>job'. run_history hist (new_job i t u s a r p m) = Inr job' \<and> j_status job' = COMPLETE"
    using that run_history_from by (fastforce simp: new_job_def)
  show "\<exists>job'. run_history hist (new_job i t u s a r p m) = Inr job' \<and> j_status job' = COMPLETE"
    if "map snd hist = [STAGED, QUEUED, RUNNING, COMPLETE]"
  proof -
    from that obtain a b c d where "hist = [(a, STAGED), (b, QUEUED), (c, RUNNING), (d, COMPLETE)]"
      by (auto simp: map_eq_Cons_conv)
    then show ?thesis by (simp add: transition_def new_job_def)
  qed
qed

lemma find_append: "find P (xs @ ys) = (case find P xs of None \<Rightarrow> find P ys | Some x \<Rightarrow> Some x)"
  by (induction xs) auto

lemma find_key_None: "k \<notin> f ` set xs \<Longrightarrow> find (\<lambda>x. f x = k) xs = None"
  by (induction xs) auto

subsection \<open>The store as an interface\<close>

text \<open>
  What the services rely on: reading a job after saving it gives that job back as it survives the
  round trip, saving one job leaves the others alone, and reloading twice is reloading once.
\<close>

locale job_store =
  fixes save :: "scan_job \<Rightarrow> 'db \<Rightarrow> 'db"
    and load :: "string \<Rightarrow> 'db \<Rightarrow> scan_job option"
    and reload :: "scan_job \<Rightarrow> scan_job"
  assumes load_save: "load (j_job_id job) (save job s) = Some (reload job)"
    and load_other: "i \<noteq> j_job_id job \<Longrightarrow> load i (save job s) = load i s"
    and reload_id: "j_job_id (reload job) = j_job_id job"
    and reload_reload: "reload (reload job) = reload job"
begin

lemma load_save_eq: "load i (save job s) = (if i = j_job_id job then Some (reload job) else load i s)"
  by (simp add: load_save load_other)

text \<open>Saving a batch of jobs with distinct identifiers.\<close>

lemma load_fold_save:
  "distinct (map j_job_id jobs) \<Longrightarrow>
     load i (fold save jobs s) = (case find (\<lambda>j. j_job_id j = i) jobs of None \<Rightarrow> load i s | Some j \<Rightarrow> Some (reload j))"
proof (induction jobs arbitrary: s)
  case (Cons j jobs)
  have "find (\<lambda>x. j_job_id x = j_job_id j) jobs = None"
    using Cons.prems by (intro find_key_None) simp
  with Cons show ?case by (auto simp: load_save_eq split: option.splits)
qed simp

lemma save_last_wins: "j_job_id a = j_job_id b \<Longrightarrow> load i (save b (save a s)) = load i (save b s)"
  by (simp add: load_save_eq)

end

lemma reload_ref_idem [simp]: "reload_ref (reload_ref r) = reload_ref r"
  by (cases r) (simp_all add: reload_ref_def)

lemma reload_idem [simp]: "reload_job (reload_job job) = reload_job job"
  by (simp add: reload_job_def reload_derived_def comp_def)

lemma reload_simps [simp]:
  "j_job_id (reload_job job) = j_job_id job" "j_status (reload_job job) = j_status job"
  "j_source (reload_job job) = j_source job" "j_errors (reload_job job) = j_errors job"
  by (simp_all add: reload_job_def)

lemma find_filter_other:
  "(\<And>x. P x \<Longrightarrow> Q x) \<Longrightarrow> find P (filter Q xs) = find P xs"
  by (induction xs) auto

interpretation store: job_store db_save db_get reload_job
proof
  show "db_get (j_job_id job) (db_save job s) = Some (reload_job job)" for job s
  proof -
    have "find (\<lambda>r. row_job_id r = j_job_id job) (filter (\<lambda>r. row_job_id r \<noteq> j_job_id job) (db_jobs s)) = None"
      by (auto simp: find_None_iff)
    then show ?thesis by (simp add: db_get_def db_save_def find_append)
  qed
  show "db_get i (db_save job s) = db_get i s" if "i \<noteq> j_job_id job" for i job s
  proof -
    have "find (\<lambda>r. row_job_id r = i) (filter (\<lambda>r. row_job_id r \<noteq> j_job_id job) (db_jobs s))
        = find (\<lambda>r. row_job_id r = i) (db_jobs s)"
      using that by (intro find_filter_other) simp
    with that show ?thesis by (auto simp: db_get_def db_save_def find_append split: option.split)
  qed
qed simp_all

subsection \<open>Invariant of the store\<close>

definition rows_ok :: "job_row list \<Rightarrow> bool" where
  "rows_ok rows \<longleftrightarrow> distinct (map row_job_id rows)
     \<and> list_all (\<lambda>r. row_job_id r = j_job_id (row_document r) \<and> row_status r = j_status (row_document r)) rows"

definition rab_ok :: "rab_row list \<Rightarrow> bool" where
  "rab_ok rows \<longleftrightarrow> distinct (map rr_job_id rows)
     \<and> distinct (map (\<lambda>r. (rr_client_id r, rr_idempotency_key r)) rows)"

definition db_ok :: "db \<Rightarrow> bool" where
  "db_ok s \<longleftrightarrow> rows_ok (db_jobs s) \<and> distinct (map fst (db_runtime s)) \<and> rab_ok (db_rab s)"

lemma db_ok_empty [simp]: "db_ok empty_db"
  by (simp add: db_ok_def empty_db_def rows_ok_def rab_ok_def)

lemma distinct_map_filter_append:
  "distinct (map f xs) \<Longrightarrow> distinct (map f (filter (\<lambda>x. f x \<noteq> f y) xs @ [y]))"
  by (auto simp: distinct_map_filter)

lemma db_ok_save: "db_ok s \<Longrightarrow> db_ok (db_save job s)"
  using distinct_map_filter_append [of row_job_id "db_jobs s" "\<lparr>row_job_id = j_job_id job, row_status = j_status job, row_document = job\<rparr>"]
  by (auto simp: db_ok_def rows_ok_def db_save_def list_all_iff)

lemma db_ok_status: "db_ok s \<Longrightarrow> db_ok (save_scanner_status st s)"
  using distinct_map_filter_append [of fst "db_runtime s" "(rs_scanner_id st, st)"]
  by (simp add: db_ok_def save_scanner_status_def case_prod_unfold)

lemma db_ok_rab: "db_ok s \<Longrightarrow> save_rab_job row s = (r, s') \<Longrightarrow> db_ok s'"
  by (auto simp: db_ok_def rab_ok_def save_rab_job_def list_ex_iff split: if_splits) (blast, metis)

lemma db_ok_transition: "db_ok s \<Longrightarrow> db_transition now t job s = (r, s') \<Longrightarrow> db_ok s'"
  by (auto simp: db_transition_def py_defs split: sum.splits intro: db_ok_save)

subsection \<open>Reconciliation\<close>

definition fail_interrupted :: "timestamp \<Rightarrow> scan_job \<Rightarrow> scan_job" where
  "fail_interrupted now job = job\<lparr>j_errors := j_errors job @ [interrupted_message], j_status := FAILED, j_updated_at := now\<rparr>"

lemma reconcile_one_eq:
  "reconcile_one now job (s, n) =
     (if interrupted job then (Inr (), (db_save (fail_interrupted (now job) job) s, n + 1)) else (Inr (), (s, n)))"
  by (auto simp: reconcile_one_def interrupted_def transition_def py_defs fail_interrupted_def)

lemma reconcile_loop:
  "forP (reconcile_one now) jobs (s, n) =
     (Inr (), (fold db_save (map (\<lambda>j. fail_interrupted (now j) j) (filter interrupted jobs)) s, n + length (filter interrupted jobs)))"
  by (induction jobs arbitrary: s n) (auto simp: reconcile_one_eq py_defs)

lemma fail_interrupted_id [simp]: "j_job_id (fail_interrupted now job) = j_job_id job"
  by (simp add: fail_interrupted_def)

lemma db_get_list:
  assumes "rows_ok (db_jobs s)"
  shows "db_get i s = find (\<lambda>j. j_job_id j = i) (db_list s)"
proof -
  have find_rev: "find P (rev xs) = find P xs" if "distinct (map f xs)" "\<And>x y. P x \<Longrightarrow> P y \<Longrightarrow> f x = f y"
    for P and f :: "'a \<Rightarrow> 'b" and xs
    using that
  proof (induction xs)
    case (Cons x xs)
    have "distinct (map f xs)" using Cons.prems(1) by simp
    from Cons.IH [OF this Cons.prems(2)] have IH: "find P (rev xs) = find P xs" .
    show ?case
    proof (cases "P x")
      case True
      have "\<not> P y" if "y \<in> set xs" for y
      proof
        assume "P y"
        with True Cons.prems(2) have "f x = f y" by blast
        with that Cons.prems(1) show False by simp
      qed
      then have "find P xs = None" by (simp add: find_None_iff)
      with True show ?thesis by (simp add: find_append IH)
    next
      case False
      then show ?thesis by (simp add: find_append IH split: option.split)
    qed
  qed simp
  have find_map: "find P (map g xs) = map_option g (find (P \<circ> g) xs)" for P and g :: "job_row \<Rightarrow> scan_job" and xs
    by (induction xs) auto
  have "find ((\<lambda>j. j_job_id j = i) \<circ> (reload_job \<circ> row_document)) (rev (db_jobs s))
      = find (\<lambda>r. row_job_id r = i) (rev (db_jobs s))"
    using assms by (intro find_cong) (auto simp: rows_ok_def list_all_iff)
  also have "\<dots> = find (\<lambda>r. row_job_id r = i) (db_jobs s)"
    using assms by (intro find_rev [of row_job_id]) (auto simp: rows_ok_def)
  finally show ?thesis by (simp add: db_get_def db_list_def find_map)
qed

lemma db_list_ids: "rows_ok (db_jobs s) \<Longrightarrow> distinct (map j_job_id (db_list s))"
proof -
  assume "rows_ok (db_jobs s)"
  then have "map j_job_id (db_list s) = rev (map row_job_id (db_jobs s))" and "distinct (map row_job_id (db_jobs s))"
    by (auto simp: rows_ok_def db_list_def list_all_iff rev_map)
  then show ?thesis by simp
qed

lemma reload_fail: "reload_job (fail_interrupted now (reload_job j)) = fail_interrupted now (reload_job j)"
  by (simp add: reload_job_def fail_interrupted_def reload_derived_def comp_def)

lemma db_list_reloaded: "j \<in> set (db_list s) \<Longrightarrow> reload_job j = j"
  by (auto simp: db_list_def)

lemma reconcile_get:
  assumes "db_ok s"
  shows "\<exists>s'. reconcile_interrupted now s = (Inr (length (filter interrupted (db_list s))), s')
     \<and> db_ok s'
     \<and> (\<forall>i. db_get i s' = map_option (\<lambda>j. if interrupted j then fail_interrupted (now j) j else j) (db_get i s))"
proof -
  let ?js = "map (\<lambda>j. fail_interrupted (now j) j) (filter interrupted (db_list s))"
  let ?s' = "fold db_save ?js s"
  have rows: "rows_ok (db_jobs s)" using assms by (simp add: db_ok_def)
  have dist: "distinct (map j_job_id ?js)"
    using db_list_ids [OF rows] by (simp add: comp_def distinct_map_filter)
  have ok: "db_ok (fold db_save js s)" for js
    using assms by (induction js arbitrary: s) (auto intro: db_ok_save)
  have find_js: "distinct (map j_job_id jobs) \<Longrightarrow>
      find (\<lambda>j. j_job_id j = i) (map (\<lambda>j. fail_interrupted (now j) j) (filter interrupted jobs))
      = (case find (\<lambda>j. j_job_id j = i) jobs of None \<Rightarrow> None
         | Some j \<Rightarrow> if interrupted j then Some (fail_interrupted (now j) j) else None)" for i jobs
  proof (induction jobs)
    case (Cons x xs)
    show ?case
    proof (cases "j_job_id x = i")
      case True
      with Cons.prems have "find (\<lambda>j. j_job_id j = i) xs = None" by (intro find_key_None) simp
      with True Cons show ?thesis by simp
    qed (use Cons in simp)
  qed simp
  have "db_get i ?s' = map_option (\<lambda>j. if interrupted j then fail_interrupted (now j) j else j) (db_get i s)" for i
  proof (cases "find (\<lambda>j. j_job_id j = i) (db_list s)")
    case None
    then show ?thesis
      using store.load_fold_save [OF dist, of i s] find_js [OF db_list_ids [OF rows], of i]
      by (simp add: db_get_list [OF rows])
  next
    case (Some j)
    then have "reload_job j = j" by (metis db_list_reloaded find_Some_iff nth_mem)
    then have "reload_job (fail_interrupted (now j) j) = fail_interrupted (now j) j" by (metis reload_fail)
    with Some show ?thesis
      using store.load_fold_save [OF dist, of i s] find_js [OF db_list_ids [OF rows], of i]
      by (simp add: db_get_list [OF rows])
  qed
  then show ?thesis
    by (intro exI [of _ ?s']) (simp add: reconcile_interrupted_def reconcile_loop ok)
qed

subsection \<open>Reachable stores\<close>

text \<open>Every database the service's operations can lead to, from the empty tables.\<close>

inductive db_reachable :: "db \<Rightarrow> bool" where
  init: "db_reachable empty_db"
| save: "db_reachable s \<Longrightarrow> db_reachable (db_save job s)"
| transition: "db_reachable s \<Longrightarrow> db_transition now target job s = (r, s') \<Longrightarrow> db_reachable s'"
| status: "db_reachable s \<Longrightarrow> db_reachable (save_scanner_status st s)"
| rab: "db_reachable s \<Longrightarrow> save_rab_job row s = (r, s') \<Longrightarrow> db_reachable s'"
| reconcile: "db_reachable s \<Longrightarrow> reconcile_interrupted clock s = (n, s') \<Longrightarrow> db_reachable s'"

lemma db_reachable_ok: "db_reachable s \<Longrightarrow> db_ok s"
proof (induction rule: db_reachable.induct)
  case (reconcile s clock n s')
  with reconcile_get [of s clock] show ?case by auto
qed (auto intro: db_ok_save db_ok_status db_ok_rab db_ok_transition)

lemma rab_lookup_unique:
  assumes "db_ok s" and "row \<in> set (db_rab s)"
  shows "rab_by_idempotency (rr_client_id row) (rr_idempotency_key row) s = Some row"
    and "rab_job (rr_job_id row) s = Some row"
proof -
  have *: "find (\<lambda>r. f r = f row) rows = Some row" if "distinct (map f rows)" "row \<in> set rows"
    for f :: "rab_row \<Rightarrow> 'k" and rows
    using that by (induction rows) (auto simp: rev_image_eqI)
  have "find (\<lambda>r. (rr_client_id r, rr_idempotency_key r) = (rr_client_id row, rr_idempotency_key row)) (db_rab s) = Some row"
    by (rule *) (use assms in \<open>simp_all add: db_ok_def rab_ok_def\<close>)
  then show "rab_by_idempotency (rr_client_id row) (rr_idempotency_key row) s = Some row"
    by (simp add: rab_by_idempotency_def)
  show "rab_job (rr_job_id row) s = Some row"
    unfolding rab_job_def by (rule *) (use assms in \<open>simp_all add: db_ok_def rab_ok_def\<close>)
qed

definition sample_artifact :: input_artifact where
  "sample_artifact = \<lparr>a_hashes = \<lparr>h_sha256 = ''aa'', h_blake3 = ''bb'', h_sha1 = ''cc'', h_md5 = ''dd''\<rparr>,
     a_byte_size = 3, a_filename = asc ''f'', a_submitted_filename = None, a_media_type = asc ''m'',
     a_source = ''rab:c'', a_submitted_at = 0, a_rights = default_rights\<rparr>"

definition sample_job :: scan_job where
  "sample_job = (new_job ''j1'' 0 0 ''rab:c'' sample_artifact [''clamav''] [''clamav''] None)\<lparr>j_status := QUEUED\<rparr>"

subsection \<open>Properties of jobs and their store\<close>

text \<open>
  Applying transitions to a newly created job ends in \<open>COMPLETE\<close> exactly when the history is
  STAGED, QUEUED, RUNNING, COMPLETE in this order; every other sequence is rejected on the way or
  ends elsewhere.
\<close>

lemma job_complete_exactly:
  "(\<exists>job'. run_history hist (new_job i t u s a r p m) = Inr job' \<and> j_status job' = COMPLETE)
     \<longleftrightarrow> map snd hist = [STAGED, QUEUED, RUNNING, COMPLETE]"
  by (rule run_history_complete)

text \<open>
  No job is transitioned more than five times, and it never returns to a status it has left:
  a history that is accepted has at most five steps and ends at a status of higher rank.
\<close>

lemma job_history_bounded:
  "ensures (\<lambda>job'. length hist \<le> 5 \<and> status_rank (j_status job) + length hist \<le> status_rank (j_status job'))
     (run_history hist job)"
  using run_history_rank run_history_bounded by (cases "run_history hist job") auto

text \<open>
  C8: in every database the store's operations lead to, a job identifier has one row, whose key
  and status columns agree with its document, a scanner has one runtime row, and a RAB record is
  the only one with its job identifier and the only one with its client and idempotency key.
\<close>

theorem store_invariant: "db_reachable s \<Longrightarrow> db_ok s"
  by (rule db_reachable_ok)

theorem store_invariant_witness:
  "db_ok (save_scanner_status \<lparr>rs_scanner_id = ''yara'', rs_qualification_state = PROBED,
     rs_installed_version = None, rs_definition_state = [], rs_last_probe = None,
     rs_last_update = None, rs_detail = None\<rparr> (db_save sample_job empty_db))"
  by (rule store_invariant) (rule db_reachable.status, rule db_reachable.save, rule db_reachable.init)

text \<open>
  C26: restarting the service fails every interrupted RAB job and nothing else. In a consistent
  store \<open>reconcile_interrupted\<close> never raises, returns the number of RAB jobs that were staged,
  queued or running, and afterwards each identifier's job is the one before it, failed with the
  message of the restart if it was interrupted.
\<close>

theorem reconcile_exact:
  assumes "db_ok s"
  shows "\<exists>s'. reconcile_interrupted now s = (Inr (length (filter interrupted (db_list s))), s')
     \<and> db_ok s'
     \<and> (\<forall>i. db_get i s' = map_option (\<lambda>j. if interrupted j then fail_interrupted (now j) j else j) (db_get i s))"
  using assms by (rule reconcile_get)

theorem reconcile_exact_witness:
  "\<exists>s'. reconcile_interrupted (\<lambda>_. 7) (db_save sample_job empty_db) = (Inr 1, s')
     \<and> map_option j_status (db_get ''j1'' s') = Some FAILED"
proof -
  have ok: "db_ok (db_save sample_job empty_db)" by (simp add: db_ok_save)
  have list: "db_list (db_save sample_job empty_db) = [reload_job sample_job]"
    by (simp add: db_list_def db_save_def empty_db_def)
  have int: "interrupted (reload_job sample_job)"
    by (simp add: interrupted_def sample_job_def new_job_def starts_with_def)
  have get: "db_get ''j1'' (db_save sample_job empty_db) = Some (reload_job sample_job)"
    using store.load_save [of sample_job empty_db] by (simp add: sample_job_def new_job_def)
  from reconcile_exact [OF ok, of "\<lambda>_. 7"] obtain s' where s':
    "reconcile_interrupted (\<lambda>_. 7) (db_save sample_job empty_db) = (Inr 1, s')"
    "db_get ''j1'' s' = map_option (\<lambda>j. if interrupted j then fail_interrupted 7 j else j)
        (db_get ''j1'' (db_save sample_job empty_db))"
    by (auto simp: list int)
  then show ?thesis using int by (auto simp: get fail_interrupted_def)
qed


end
