(* ===== verification/Correlation.thy ===== *)
theory Correlation
  imports Models Effects
begin

section \<open>Correlation with the preservation authority: \<open>correlation/\<close>\<close>

text \<open>
  The three providers and the service that walks a job's object graph. The network and the JSON
  and pydantic decoding of a response are arguments: \<open>post\<close> says how the endpoint answers a
  request and \<open>decode\<close> what the body parses to. A provider has a state of type \<open>'p\<close>.
\<close>

subsection \<open>Settings and requests\<close>

record correlation_settings =
  cs_provider_id :: string
  cs_provider_version :: string
  cs_maximum_response_bytes :: nat
  cs_max_exact_records :: nat
  cs_max_occurrences :: nat
  cs_max_similarity_candidates :: nat
  cs_max_provenance_records :: nat
  cs_max_metadata_string_length :: nat

text \<open>The credential file: its permission bits and its text, or what reading it raises.\<close>

record credential_file =
  cf_stat :: "nat res"
  cf_text :: "pystr res"

text \<open>How a request ends: a timeout, another \<open>httpx.HTTPError\<close>, any other exception (a refused URL or
  header), or a status and a body, in chunks, whose transfer may end in one of these too.\<close>

datatype stream_end = Body_Complete | Body_Timeout | Body_Error | Body_Raised py_exn

datatype http_outcome =
    Http_Timeout
  | Http_Error
  | Http_Raised py_exn
  | Http_Response nat "bytes list" stream_end

definition http_payload :: "input_artifact \<Rightarrow> pystr option \<Rightarrow> (string \<times> pyval) list" where
  "http_payload a ssdeep =
     [(''protocol_version'', PAsc ''1''),
      (''object'', PDict [(''sha256'', PAsc (h_sha256 (a_hashes a))),
         (''blake3'', PAsc (h_blake3 (a_hashes a))), (''sha1'', PAsc (h_sha1 (a_hashes a))),
         (''md5'', PAsc (h_md5 (a_hashes a))), (''size'', PInt (a_byte_size a))])]
     @ (case ssdeep of
          None \<Rightarrow> []
        | Some fp \<Rightarrow> if fp = [] then []
            else [(''similarity'', PDict [(''algorithm'', PAsc ''ssdeep''), (''fingerprint'', PStr fp)])])"

subsection \<open>The HTTP provider\<close>

definition http_token :: "credential_file \<Rightarrow> pystr res" where
  "http_token cred =
     bindE (cf_stat cred) (\<lambda>mode.
     if and mode 63 \<noteq> 0 then Inl OSError
     else bindE (cf_text cred) (\<lambda>text.
       let token = strip_space text in
       if token = [] then Inl OSError else Inr token))"

definition http_error :: "correlation_settings \<Rightarrow> correlation_error_code \<Rightarrow> correlation_result" where
  "http_error st code =
     (let unavailable = (code = RAB_UNAVAILABLE);
          state = (if unavailable then UNAVAILABLE else COR_ERROR)
      in (correlation_result_of (cs_provider_id st) (cs_provider_version st) state
            \<lparr>ec_state = (if unavailable then LOOKUP_RAB_UNAVAILABLE else LOOKUP_ERROR), ec_matches = [],
             ec_completeness = state\<rparr>)
         \<lparr>cr_similarity := similarity_with state [], cr_errors := [code]\<rparr>)"

definition clip :: "correlation_settings \<Rightarrow> pystr \<Rightarrow> pystr" where
  "clip st v = take (cs_max_metadata_string_length st) v"

definition clip_optional :: "correlation_settings \<Rightarrow> pystr option \<Rightarrow> pystr option" where
  "clip_optional st v = map_option (clip st) v"

definition clip_provenance :: "correlation_settings \<Rightarrow> provenance_record \<Rightarrow> provenance_record" where
  "clip_provenance st r =
     r\<lparr>pr_source_id := clip_optional st (pr_source_id r),
       pr_source_label := clip_optional st (pr_source_label r),
       pr_collection := clip_optional st (pr_collection r),
       pr_summary := clip_optional st (pr_summary r)\<rparr>"

definition bound_context :: "correlation_settings \<Rightarrow> rab_object_context \<Rightarrow> rab_object_context" where
  "bound_context st c =
     c\<lparr>rc_provenance := map (clip_provenance st) (take (cs_max_provenance_records st) (rc_provenance c)),
       rc_known_filenames := map (clip st) (rc_known_filenames c),
       rc_source_collections := map (clip st) (rc_source_collections c),
       rc_metadata_urls := map (clip st) (rc_metadata_urls c)\<rparr>"

definition bound_match :: "correlation_settings \<Rightarrow> exact_match \<Rightarrow> exact_match" where
  "bound_match st m = m\<lparr>em_context := map_option (bound_context st) (em_context m)\<rparr>"

definition clip_occurrence :: "correlation_settings \<Rightarrow> known_occurrence \<Rightarrow> known_occurrence" where
  "clip_occurrence st k =
     k\<lparr>ko_logical_path := clip_optional st (ko_logical_path k),
       ko_parent_label := clip_optional st (ko_parent_label k)\<rparr>"

definition clip_candidate :: "correlation_settings \<Rightarrow> similarity_candidate \<Rightarrow> similarity_candidate" where
  "clip_candidate st c =
     c\<lparr>sc_query_fingerprint := clip st (sc_query_fingerprint c),
       sc_candidate_fingerprint := clip st (sc_candidate_fingerprint c)\<rparr>"

text \<open>\<open>_validate_and_bound\<close>: the loop over the matches returns at the first one that is not the
  object asked for.\<close>

definition wrong_match :: "input_artifact \<Rightarrow> exact_match \<Rightarrow> bool" where
  "wrong_match a m \<longleftrightarrow> em_sha256 m \<noteq> h_sha256 (a_hashes a) \<or> em_size m \<noteq> a_byte_size a"

definition validate_and_bound :: "correlation_settings \<Rightarrow> correlation_result \<Rightarrow> input_artifact \<Rightarrow> correlation_result" where
  "validate_and_bound st r a =
     (let matches = take (cs_max_exact_records st) (ec_matches (cr_exact r));
          occurrences = take (cs_max_occurrences st) (cr_known_occurrences r);
          candidates = take (cs_max_similarity_candidates st) (sm_candidates (cr_similarity r))
      in if list_ex (wrong_match a) matches then http_error st RAB_IDENTITY_CONFLICT
         else r\<lparr>cr_provider_id := cs_provider_id st, cr_provider_version := cs_provider_version st,
             cr_exact := (cr_exact r)\<lparr>ec_matches := map (bound_match st) matches\<rparr>,
             cr_known_occurrences := map (clip_occurrence st) occurrences,
             cr_similarity := (cr_similarity r)\<lparr>sm_candidates := map (clip_candidate st) candidates\<rparr>\<rparr>)"

text \<open>The loop over the body's chunks: \<open>Inl\<close> is the result it returns early.\<close>

datatype body_outcome = Body_Too_Large | Body_Failed stream_end | Body_Read bytes

fun read_body :: "nat \<Rightarrow> bytes list \<Rightarrow> stream_end \<Rightarrow> bytes \<Rightarrow> body_outcome" where
  "read_body limit [] e acc = (if e = Body_Complete then Body_Read acc else Body_Failed e)"
| "read_body limit (chunk # chunks) e acc =
     (if length (acc @ chunk) > limit then Body_Too_Large else read_body limit chunks e (acc @ chunk))"

text \<open>The exceptions that \<open>except (ValueError, TypeError, ValidationError)\<close> catches.\<close>

definition value_error :: "py_exn \<Rightarrow> bool" where
  "value_error e \<longleftrightarrow> (case e of ValueError _ \<Rightarrow> True | TypeError _ \<Rightarrow> True | ValidationError \<Rightarrow> True
     | JSONDecodeError \<Rightarrow> True | UnicodeDecodeError \<Rightarrow> True | _ \<Rightarrow> False)"

definition catch_correlate :: "correlation_settings \<Rightarrow> correlation_result res \<Rightarrow> correlation_result res" where
  "catch_correlate st m =
     (case m of
        Inr r \<Rightarrow> Inr r
      | Inl e \<Rightarrow>
          if e = OSError then Inr (http_error st RAB_UNAVAILABLE)
          else if value_error e then Inr (http_error st RAB_PROTOCOL_ERROR)
          else Inl e)"

definition http_correlate ::
  "correlation_settings \<Rightarrow> credential_file \<Rightarrow> (pystr \<Rightarrow> (string \<times> pyval) list \<Rightarrow> http_outcome)
   \<Rightarrow> (bytes \<Rightarrow> correlation_result res) \<Rightarrow> input_artifact \<Rightarrow> pystr option \<Rightarrow> correlation_result res" where
  "http_correlate st cred post decode a ssdeep =
     catch_correlate st
       (bindE (http_token cred) (\<lambda>token.
        case post token (http_payload a ssdeep) of
          Http_Timeout \<Rightarrow> Inr (http_error st RAB_TIMEOUT)
        | Http_Error \<Rightarrow> Inr (http_error st RAB_UNAVAILABLE)
        | Http_Raised e \<Rightarrow> Inl e
        | Http_Response status chunks ending \<Rightarrow>
            if status \<in> {401, 403} then Inr (http_error st RAB_AUTH_FAILED)
            else if status \<ge> 400 then Inr (http_error st RAB_PROTOCOL_ERROR)
            else (case read_body (cs_maximum_response_bytes st) chunks ending [] of
                    Body_Too_Large \<Rightarrow> Inr (http_error st RAB_RESPONSE_TOO_LARGE)
                  | Body_Failed (Body_Raised e) \<Rightarrow> Inl e
                  | Body_Failed e \<Rightarrow>
                      Inr (http_error st (if e = Body_Timeout then RAB_TIMEOUT else RAB_UNAVAILABLE))
                  | Body_Read body \<Rightarrow>
                      bindE (decode body) (\<lambda>r. Inr (validate_and_bound st r a)))))"

subsection \<open>The unavailable and the reference provider\<close>

definition unavailable_correlate :: "input_artifact \<Rightarrow> pystr option \<Rightarrow> correlation_result" where
  "unavailable_correlate a ssdeep =
     (correlation_result_of ''production-rab'' ''1'' UNAVAILABLE default_exact)
       \<lparr>cr_similarity := similarity_with UNAVAILABLE [], cr_errors := [RAB_UNAVAILABLE]\<rparr>"

record reference_provider =
  rp_objects :: "(string \<times> exact_match) list"
  rp_occurrences :: "(string \<times> known_occurrence list) list"
  rp_similarities :: "(pystr \<times> similarity_candidate list) list"
  rp_requests :: "(hashes \<times> int \<times> pystr option) list"

definition reference_correlate :: "input_artifact \<Rightarrow> pystr option \<Rightarrow> (reference_provider, correlation_result) py" where
  "reference_correlate a ssdeep =
     thenP (updP (\<lambda>p. p\<lparr>rp_requests := rp_requests p @ [(a_hashes a, a_byte_size a, ssdeep)]\<rparr>))
     (getP (\<lambda>p.
       let match = map_of (rp_objects p) (h_sha256 (a_hashes a));
           fp = (case ssdeep of None \<Rightarrow> [] | Some v \<Rightarrow> v);
           candidates = (case map_of (rp_similarities p) fp of None \<Rightarrow> [] | Some cs \<Rightarrow> cs);
           occurrences = (case map_of (rp_occurrences p) (h_sha256 (a_hashes a)) of None \<Rightarrow> [] | Some ks \<Rightarrow> ks)
       in (correlation_result_of ''avbox-m18-reference-provider'' ''1'' COR_COMPLETE
             \<lparr>ec_state = (if match = None then NO_EXACT_MATCH else EXACT_MATCH),
              ec_matches = (case match of None \<Rightarrow> [] | Some m \<Rightarrow> [m]), ec_completeness = COR_COMPLETE\<rparr>)
          \<lparr>cr_similarity := similarity_with (if fp = [] then NOT_REQUESTED else COR_COMPLETE) candidates,
           cr_known_occurrences := occurrences\<rparr>))"

subsection \<open>\<open>CorrelationService\<close>\<close>

text \<open>A provider as the service sees it: its two attributes and its \<open>correlate\<close>.\<close>

record 'p provider =
  pv_id :: string
  pv_version :: string
  pv_correlate :: "input_artifact \<Rightarrow> pystr option \<Rightarrow> ('p, correlation_result) py"

definition unavailable_provider :: "'p provider" where
  "unavailable_provider = \<lparr>pv_id = ''production-rab'', pv_version = ''1'',
     pv_correlate = (\<lambda>a fp. ret (unavailable_correlate a fp))\<rparr>"

definition http_provider ::
  "correlation_settings \<Rightarrow> credential_file \<Rightarrow> (pystr \<Rightarrow> (string \<times> pyval) list \<Rightarrow> http_outcome)
   \<Rightarrow> (bytes \<Rightarrow> correlation_result res) \<Rightarrow> 'p provider" where
  "http_provider st cred post decode = \<lparr>pv_id = cs_provider_id st, pv_version = cs_provider_version st,
     pv_correlate = (\<lambda>a fp. liftP (http_correlate st cred post decode a fp))\<rparr>"

definition reference_service_provider :: "reference_provider provider" where
  "reference_service_provider = \<lparr>pv_id = ''avbox-m18-reference-provider'', pv_version = ''1'',
     pv_correlate = reference_correlate\<rparr>"

record service_limits =
  lim_max_objects :: nat
  lim_max_similarity_queries :: nat
  lim_total_deadline :: int

definition skipped_result :: "'p provider \<Rightarrow> string \<Rightarrow> correlation_result" where
  "skipped_result pv reason =
     (correlation_result_of (pv_id pv) (pv_version pv) COR_PARTIAL
        \<lparr>ec_state = LOOKUP_ERROR, ec_matches = [], ec_completeness = COR_PARTIAL\<rparr>)
       \<lparr>cr_skipped_reason := Some reason\<rparr>"

text \<open>\<open>_ssdeep\<close>: the first well-formed ssdeep observation.\<close>

definition ssdeep_value :: "observation \<Rightarrow> pystr option" where
  "ssdeep_value ob =
     (if o_type ob = ''similarity.ssdeep''
      then (case o_value ob of
              PDict d \<Rightarrow> (case map_of d ''fingerprint'' of Some (PStr s) \<Rightarrow> Some s | _ \<Rightarrow> None)
            | _ \<Rightarrow> None)
      else None)"

fun first_some :: "('a \<Rightarrow> 'b option) \<Rightarrow> 'a list \<Rightarrow> 'b option" where
  "first_some f [] = None"
| "first_some f (x # xs) = (case f x of Some y \<Rightarrow> Some y | None \<Rightarrow> first_some f xs)"

definition ssdeep_of :: "analyzer_result list \<Rightarrow> pystr option" where
  "ssdeep_of analyzers = first_some ssdeep_value (concat (map ar_observations analyzers))"

text \<open>\<open>_artifact\<close>: a plain dictionary, and an identity without all four digests, has none.\<close>

definition present :: "string option \<Rightarrow> bool" where
  "present v \<longleftrightarrow> (case v of None \<Rightarrow> False | Some s \<Rightarrow> s \<noteq> [])"

definition artifact_of :: "timestamp \<Rightarrow> derived_ref \<Rightarrow> input_artifact option res" where
  "artifact_of now r =
     (case r of
        Obj_Artifact a \<Rightarrow> Inr (Some a)
      | Obj_Dict _ \<Rightarrow> Inr None
      | Obj_Identity v \<Rightarrow>
          if \<not> present (oi_blake3 v) \<or> \<not> present (oi_sha1 v) \<or> \<not> present (oi_md5 v) then Inr None
          else bindE (validate_input_artifact
                 \<lparr>a_hashes = \<lparr>h_sha256 = oi_sha256 v, h_blake3 = the (oi_blake3 v), h_sha1 = the (oi_sha1 v),
                    h_md5 = the (oi_md5 v)\<rparr>,
                  a_byte_size = oi_size v,
                  a_filename = (case oi_filename v of Some f \<Rightarrow> if f = [] then asc ''derived-object'' else f
                    | None \<Rightarrow> asc ''derived-object''),
                  a_submitted_filename = None,
                  a_media_type = (case oi_media_type v of Some m \<Rightarrow> if m = [] then asc ''application/octet-stream'' else m
                    | None \<Rightarrow> asc ''application/octet-stream''),
                  a_source = ''avbox-derived-object'', a_submitted_at = now, a_rights = default_rights\<rparr>)
               (\<lambda>a. Inr (Some a)))"

text \<open>
  The contexts that \<open>process\<close> updates are objects inside the job: the job's own one and those of
  its children. A slot names one.
\<close>

datatype slot = Root_Slot | Child_Slot nat

definition update_slot :: "slot \<Rightarrow> (preservation_context \<Rightarrow> preservation_context) \<Rightarrow> scan_job \<Rightarrow> scan_job" where
  "update_slot sl f job =
     (case sl of
        Root_Slot \<Rightarrow> job\<lparr>j_preservation_context := f (j_preservation_context job)\<rparr>
      | Child_Slot i \<Rightarrow>
          job\<lparr>j_derived_objects := (j_derived_objects job)[i :=
            (j_derived_objects job ! i)\<lparr>d_preservation_context :=
               f (d_preservation_context (j_derived_objects job ! i))\<rparr>]\<rparr>)"

definition attach :: "slot \<Rightarrow> string \<Rightarrow> correlation_result \<Rightarrow> scan_job \<Rightarrow> scan_job" where
  "attach sl availability r =
     update_slot sl (\<lambda>c. c\<lparr>pc_rab_correlation := availability, pc_correlation := Some r\<rparr>)"

type_synonym target = "slot \<times> input_artifact \<times> analyzer_result list"

fun child_targets :: "timestamp \<Rightarrow> nat \<Rightarrow> derived_object list \<Rightarrow> target list res" where
  "child_targets now i [] = Inr []"
| "child_targets now i (d # ds) =
     bindE (artifact_of now (d_object d)) (\<lambda>converted.
     bindE (child_targets now (Suc i) ds) (\<lambda>rest.
       Inr (case converted of None \<Rightarrow> rest | Some a \<Rightarrow> (Child_Slot i, a, d_analyzer_results d) # rest)))"

definition correlation_targets :: "timestamp \<Rightarrow> scan_job \<Rightarrow> target list res" where
  "correlation_targets now job =
     bindE (child_targets now 0 (j_derived_objects job)) (\<lambda>children.
       Inr ((Root_Slot, j_input_artifact job, j_analyzer_results job) # children))"

text \<open>
  The loop. \<open>clock\<close> is the monotonic clock, read once before the loop and once for every object
  within the object limit; \<open>used\<close> counts the similarity queries.
\<close>

fun correlate_loop ::
  "'p provider \<Rightarrow> service_limits \<Rightarrow> (nat \<Rightarrow> int) \<Rightarrow> nat \<Rightarrow> nat \<Rightarrow> target list \<Rightarrow> (scan_job \<times> 'p, unit) py" where
  "correlate_loop pv limits clock index used [] = ret ()"
| "correlate_loop pv limits clock index used ((sl, artifact, analyzers) # rest) =
     (if index \<ge> lim_max_objects limits
      then thenP (updP (\<lambda>(job, p). (attach sl ''AVAILABLE''
               (skipped_result pv ''max_correlated_objects_per_job exhausted'') job, p)))
             (correlate_loop pv limits clock (Suc index) used rest)
      else if clock (Suc index) - clock 0 \<ge> lim_total_deadline limits
      then thenP (updP (\<lambda>(job, p). (attach sl ''AVAILABLE''
               (skipped_result pv ''total_correlation_deadline exhausted'') job, p)))
             (correlate_loop pv limits clock (Suc index) used rest)
      else
        let found = ssdeep_of analyzers;
            wanted = (found \<noteq> None \<and> found \<noteq> Some []);
            fingerprint = (if wanted \<and> used \<ge> lim_max_similarity_queries limits then None else found);
            used' = (if wanted \<and> used < lim_max_similarity_queries limits then Suc used else used)
        in bindP (zoomP snd (\<lambda>p (job, _). (job, p)) (pv_correlate pv artifact fingerprint)) (\<lambda>r.
           thenP (updP (\<lambda>(job, p). (attach sl
                    (if cr_state r = UNAVAILABLE then ''NOT_AVAILABLE'' else ''AVAILABLE'') r job, p)))
             (correlate_loop pv limits clock (Suc index) used' rest)))"

definition correlation_process ::
  "'p provider \<Rightarrow> service_limits \<Rightarrow> (nat \<Rightarrow> int) \<Rightarrow> timestamp \<Rightarrow> (scan_job \<times> 'p, unit) py" where
  "correlation_process pv limits clock now =
     bindP (getP (\<lambda>(job, _). correlation_targets now job)) (\<lambda>targets.
     bindP (liftP targets) (\<lambda>ts. correlate_loop pv limits clock 0 0 ts))"

text \<open>The convenience operations of the provider interface.\<close>

definition exact_lookup :: "'p provider \<Rightarrow> input_artifact \<Rightarrow> ('p, correlation_result) py" where
  "exact_lookup pv a = pv_correlate pv a None"

definition similarity_candidates_of :: "'p provider \<Rightarrow> input_artifact \<Rightarrow> pystr \<Rightarrow> ('p, similarity_candidate list) py" where
  "similarity_candidates_of pv a fp =
     bindP (pv_correlate pv a (Some fp)) (\<lambda>r. ret (sm_candidates (cr_similarity r)))"

definition relationships_of :: "'p provider \<Rightarrow> input_artifact \<Rightarrow> ('p, known_occurrence list) py" where
  "relationships_of pv a = bindP (exact_lookup pv a) (\<lambda>r. ret (cr_known_occurrences r))"

definition object_context :: "'p provider \<Rightarrow> input_artifact \<Rightarrow> ('p, exact_match list) py" where
  "object_context pv a = bindP (exact_lookup pv a) (\<lambda>r. ret (ec_matches (cr_exact r)))"

subsection \<open>What the HTTP provider returns\<close>

definition clipped :: "correlation_settings \<Rightarrow> pystr option \<Rightarrow> bool" where
  "clipped st v \<longleftrightarrow> (case v of None \<Rightarrow> True | Some s \<Rightarrow> length s \<le> cs_max_metadata_string_length st)"

definition context_bounded :: "correlation_settings \<Rightarrow> rab_object_context \<Rightarrow> bool" where
  "context_bounded st c \<longleftrightarrow>
     length (rc_provenance c) \<le> cs_max_provenance_records st
     \<and> list_all (\<lambda>s. length s \<le> cs_max_metadata_string_length st)
         (rc_known_filenames c @ rc_source_collections c @ rc_metadata_urls c)
     \<and> list_all (\<lambda>r. list_all (clipped st) [pr_source_id r, pr_source_label r, pr_collection r, pr_summary r])
         (rc_provenance c)"

definition bounded_result :: "correlation_settings \<Rightarrow> input_artifact \<Rightarrow> correlation_result \<Rightarrow> bool" where
  "bounded_result st a r \<longleftrightarrow>
     cr_provider_id r = cs_provider_id st \<and> cr_provider_version r = cs_provider_version st
     \<and> length (ec_matches (cr_exact r)) \<le> cs_max_exact_records st
     \<and> length (cr_known_occurrences r) \<le> cs_max_occurrences st
     \<and> length (sm_candidates (cr_similarity r)) \<le> cs_max_similarity_candidates st
     \<and> list_all (\<lambda>m. em_sha256 m = h_sha256 (a_hashes a) \<and> em_size m = a_byte_size a
         \<and> (case em_context m of None \<Rightarrow> True | Some c \<Rightarrow> context_bounded st c)) (ec_matches (cr_exact r))
     \<and> list_all (\<lambda>k. clipped st (ko_logical_path k) \<and> clipped st (ko_parent_label k)) (cr_known_occurrences r)
     \<and> list_all (\<lambda>c. length (sc_query_fingerprint c) \<le> cs_max_metadata_string_length st
         \<and> length (sc_candidate_fingerprint c) \<le> cs_max_metadata_string_length st) (sm_candidates (cr_similarity r))"

lemma length_clip [simp]: "length (clip st v) \<le> cs_max_metadata_string_length st"
  by (simp add: clip_def)

lemma clipped_clip [simp]: "clipped st (clip_optional st v)"
  by (simp add: clipped_def clip_optional_def split: option.split)

lemma bound_context_bounded: "context_bounded st (bound_context st c)"
  by (auto simp: context_bounded_def bound_context_def list_all_iff clip_provenance_def)

lemma clip_bounded [simp]:
  "list_all (\<lambda>k. clipped st (ko_logical_path k) \<and> clipped st (ko_parent_label k)) (map (clip_occurrence st) ks)"
  "list_all (\<lambda>c. length (sc_query_fingerprint c) \<le> cs_max_metadata_string_length st
     \<and> length (sc_candidate_fingerprint c) \<le> cs_max_metadata_string_length st) (map (clip_candidate st) cs)"
  by (simp_all add: list_all_iff clip_occurrence_def clip_candidate_def)

lemma http_error_bounded [simp]: "bounded_result st a (http_error st code)"
  by (simp add: bounded_result_def http_error_def correlation_result_of_def similarity_with_def Let_def)

lemma validate_bounded: "bounded_result st a (validate_and_bound st r a)"
proof (cases "list_ex (wrong_match a) (take (cs_max_exact_records st) (ec_matches (cr_exact r)))")
  case True
  then show ?thesis by (simp add: validate_and_bound_def Let_def)
next
  case False
  then show ?thesis
    by (simp add: validate_and_bound_def Let_def bounded_result_def del: list.pred_map)
      (auto simp: list_all_iff list_ex_iff bound_match_def wrong_match_def bound_context_bounded split: option.split)
qed

lemma catch_ensures: "ensures (bounded_result st a) m \<Longrightarrow> ensures (bounded_result st a) (catch_correlate st m)"
  by (cases m) (auto simp: catch_correlate_def)

lemma catch_raises: "raises_only (\<lambda>e. e \<noteq> OSError \<and> \<not> value_error e) (catch_correlate st m)"
  by (cases m) (auto simp: catch_correlate_def)

lemma http_correlate_bounded_aux: "ensures (bounded_result st a) (http_correlate st cred post decode a fp)"
  unfolding http_correlate_def
  by (intro catch_ensures ensures_bindE)
    (auto simp: validate_bounded split: http_outcome.split body_outcome.split stream_end.split intro!: ensures_bindE)

subsection \<open>The walk over the object graph\<close>

text \<open>Everything of a job but the correlation contexts.\<close>

definition erase_contexts :: "scan_job \<Rightarrow> scan_job" where
  "erase_contexts job = job\<lparr>j_preservation_context := default_preservation,
     j_derived_objects := map (\<lambda>d. d\<lparr>d_preservation_context := default_preservation\<rparr>) (j_derived_objects job)\<rparr>"

definition slot_context :: "slot \<Rightarrow> scan_job \<Rightarrow> preservation_context" where
  "slot_context sl job =
     (case sl of Root_Slot \<Rightarrow> j_preservation_context job
      | Child_Slot i \<Rightarrow> d_preservation_context (j_derived_objects job ! i))"

definition slot_ok :: "scan_job \<Rightarrow> slot \<Rightarrow> bool" where
  "slot_ok job sl \<longleftrightarrow> (case sl of Root_Slot \<Rightarrow> True | Child_Slot i \<Rightarrow> i < length (j_derived_objects job))"

lemma erase_update [simp]: "erase_contexts (update_slot sl f job) = erase_contexts job"
proof (cases sl)
  case (Child_Slot i)
  show ?thesis
  proof (cases "i < length (j_derived_objects job)")
    case True
    then show ?thesis using Child_Slot
      by (simp add: erase_contexts_def update_slot_def map_update list_update_same_conv)
  qed (simp add: erase_contexts_def update_slot_def Child_Slot list_update_beyond)
qed (simp add: erase_contexts_def update_slot_def)

lemma slot_update:
  "slot_ok job sl \<Longrightarrow> slot_ok job sl' \<Longrightarrow>
     slot_context sl' (update_slot sl f job) = (if sl' = sl then f (slot_context sl job) else slot_context sl' job)"
  by (cases sl; cases sl') (auto simp: slot_context_def update_slot_def slot_ok_def)

lemma slot_ok_update [simp]: "slot_ok (update_slot sl f job) sl' = slot_ok job sl'"
  by (cases sl; cases sl') (auto simp: update_slot_def slot_ok_def)

lemmas attach_simps [simp] = erase_update [of _ "\<lambda>c. c\<lparr>pc_rab_correlation := _, pc_correlation := Some _\<rparr>", folded attach_def]
  slot_ok_update [of _ "\<lambda>c. c\<lparr>pc_rab_correlation := _, pc_correlation := Some _\<rparr>", folded attach_def]

lemma slot_attach:
  "slot_ok job sl \<Longrightarrow> slot_ok job sl' \<Longrightarrow>
     pc_correlation (slot_context sl' (attach sl v r job)) =
       (if sl' = sl then Some r else pc_correlation (slot_context sl' job))"
  by (simp add: attach_def slot_update)

text \<open>An iteration attaches a result, skipped or the provider's, and goes on; or the provider raises.\<close>

lemma correlate_loop_Cons:
  assumes "correlate_loop pv limits clock index used ((sl, a, ars) # rest) (job, p) = (out, st)"
  obtains (skip) reason where
      "correlate_loop pv limits clock (Suc index) used rest
         (attach sl ''AVAILABLE'' (skipped_result pv reason) job, p) = (out, st)"
    | (result) fp r p' av used' where "pv_correlate pv a fp p = (Inr r, p')" and "index < lim_max_objects limits"
      and "used' = (if fp = None \<or> fp = Some [] then used else Suc used)"
      and "fp = None \<or> fp = Some [] \<or> used < lim_max_similarity_queries limits"
      and "correlate_loop pv limits clock (Suc index) used' rest (attach sl av r job, p') = (out, st)"
    | (error) fp e p' where "pv_correlate pv a fp p = (Inl e, p')" and "out = Inl e" and "st = (job, p')"
proof (cases "index \<ge> lim_max_objects limits \<or> clock (Suc index) - clock 0 \<ge> lim_total_deadline limits")
  case True
  with assms skip show ?thesis by (cases "index \<ge> lim_max_objects limits") (auto simp: py_defs)
next
  case False
  define wanted where "wanted \<longleftrightarrow> ssdeep_of ars \<noteq> None \<and> ssdeep_of ars \<noteq> Some []"
  define fp where "fp = (if wanted \<and> used \<ge> lim_max_similarity_queries limits then None else ssdeep_of ars)"
  obtain x p' where call: "pv_correlate pv a fp p = (x, p')" by fastforce
  show ?thesis
  proof (cases x)
    case (Inl e)
    with False assms call show ?thesis
      by (intro error [of fp e p']) (simp_all add: py_defs Let_def wanted_def fp_def)
  next
    case (Inr r)
    with False assms call show ?thesis
      by (intro result [of fp r p' "if fp = None \<or> fp = Some [] then used else Suc used"
            "if cr_state r = UNAVAILABLE then ''NOT_AVAILABLE'' else ''AVAILABLE''"])
        (auto simp: py_defs Let_def wanted_def fp_def split: if_splits)
  qed
qed

declare correlate_loop.simps(2) [simp del]

lemma correlate_loop_erase:
  "correlate_loop pv limits clock i used ts (job, p) = (out, (job', p')) \<Longrightarrow> erase_contexts job' = erase_contexts job"
proof (induction ts arbitrary: i used job p)
  case (Cons t ts)
  obtain sl a ars where t: "t = (sl, a, ars)" by (cases t)
  from Cons.prems [unfolded t] show ?case
    by (cases rule: correlate_loop_Cons) (auto dest: Cons.IH)
qed simp

lemma correlation_process_erase:
  "correlation_process pv limits clock now (job, p) = (out, (job', p')) \<Longrightarrow> erase_contexts job' = erase_contexts job"
  by (auto simp: correlation_process_def py_defs dest: correlate_loop_erase split: sum.splits)

lemma child_targets_slots:
  "child_targets now i ds = Inr ts \<Longrightarrow>
     distinct (map fst ts) \<and> list_all (\<lambda>(sl, _, _). \<exists>k. sl = Child_Slot k \<and> i \<le> k \<and> k < i + length ds) ts"
proof (induction now i ds arbitrary: ts rule: child_targets.induct)
  case (2 now i d ds)
  then obtain c rest where c: "artifact_of now (d_object d) = Inr c" "child_targets now (Suc i) ds = Inr rest"
    "ts = (case c of None \<Rightarrow> rest | Some a \<Rightarrow> (Child_Slot i, a, d_analyzer_results d) # rest)" by auto
  from "2.IH" [OF c(1,2)] c(3) show ?case
    by (fastforce simp: list_all_iff split: option.splits)
qed simp

lemma targets_slots:
  "correlation_targets now job = Inr ts \<Longrightarrow> distinct (map fst ts) \<and> list_all (\<lambda>(sl, _, _). slot_ok job sl) ts"
  using child_targets_slots [of now 0 "j_derived_objects job"]
  by (fastforce simp: correlation_targets_def list_all_iff slot_ok_def)

subsection \<open>Providers as an interface\<close>

text \<open>
  What the service may rely on: a result names the provider it came from. The walk then leaves
  every object it visits with a result of that provider, its own or a skip notice.
\<close>

locale correlation_provider =
  fixes pv :: "'p provider"
  assumes stamped: "pv_correlate pv a fp p = (Inr r, p') \<Longrightarrow>
    cr_provider_id r = pv_id pv \<and> cr_provider_version r = pv_version pv"
begin

definition from_provider :: "correlation_result \<Rightarrow> bool" where
  "from_provider r \<longleftrightarrow> cr_provider_id r = pv_id pv \<and> cr_provider_version r = pv_version pv"

lemma skipped_from_provider: "from_provider (skipped_result pv reason)"
  by (simp add: from_provider_def skipped_result_def correlation_result_of_def)

text \<open>A slot keeps a result of the provider once it has one.\<close>

definition served :: "scan_job \<Rightarrow> slot \<Rightarrow> bool" where
  "served job sl \<longleftrightarrow> list_all from_provider (case pc_correlation (slot_context sl job) of None \<Rightarrow> [] | Some r \<Rightarrow> [r])
     \<and> pc_correlation (slot_context sl job) \<noteq> None"

lemma loop_serves:
  "correlate_loop pv limits clock i used ts (job, p) = (Inr (), (job', p')) \<Longrightarrow>
   list_all (\<lambda>(sl, _, _). slot_ok job sl) ts \<Longrightarrow>
     (\<forall>sl. slot_ok job sl \<and> (served job sl \<or> sl \<in> fst ` set ts) \<longrightarrow> served job' sl)
     \<and> (\<forall>sl. slot_ok job' sl = slot_ok job sl)"
proof (induction ts arbitrary: i used job p)
  case (Cons t ts)
  obtain sl a ars where t: "t = (sl, a, ars)" by (cases t)
  have slot: "slot_ok job sl" using Cons.prems(2) t by simp
  have att: "served (attach sl av r job) sl' \<longleftrightarrow> sl' = sl \<or> served job sl'"
    if "from_provider r" "slot_ok job sl'" for r av sl'
    using that slot by (simp add: served_def slot_attach)
  have go: ?case if "from_provider r"
      "correlate_loop pv limits clock (Suc i) used' ts (attach sl av r job, q) = (Inr (), (job', p'))" for r av used' q
    using Cons.IH [OF that(2)] Cons.prems(2) att [OF that(1)] t by (auto simp: list_all_iff)
  from Cons.prems(1) [unfolded t] show ?case
  proof (cases rule: correlate_loop_Cons)
    case (skip reason)
    with skipped_from_provider show ?thesis by (rule go)
  next
    case (result fp r q av used')
    then have "from_provider r" using stamped by (simp add: from_provider_def)
    then show ?thesis using result(5) by (rule go)
  qed simp
qed simp

lemma process_serves:
  assumes "correlation_process pv limits clock now (job, p) = (Inr (), (job', p'))"
    and "correlation_targets now job = Inr ts"
  shows "list_all (\<lambda>(sl, _, _). served job' sl) ts"
proof -
  from assms have loop: "correlate_loop pv limits clock 0 0 ts (job, p) = (Inr (), (job', p'))"
    by (simp add: correlation_process_def py_defs)
  have slots: "list_all (\<lambda>(sl, _, _). slot_ok job sl) ts" using targets_slots [OF assms(2)] by simp
  from loop_serves [OF loop slots] slots show ?thesis by (fastforce simp: list_all_iff)
qed

end

interpretation unavailable: correlation_provider "unavailable_provider :: 'p provider"
  by unfold_locales (auto simp: unavailable_provider_def unavailable_correlate_def correlation_result_of_def)

interpretation reference: correlation_provider reference_service_provider
  by unfold_locales
    (auto simp: reference_service_provider_def reference_correlate_def correlation_result_of_def py_defs Let_def)

interpretation http: correlation_provider "http_provider st cred post decode :: 'p provider"
  for st cred post decode
proof
  fix a fp and p p' :: 'p and r
  assume "pv_correlate (http_provider st cred post decode) a fp p = (Inr r, p')"
  then have "http_correlate st cred post decode a fp = Inr r" by (simp add: http_provider_def)
  with ensuresD [OF http_correlate_bounded_aux] show "cr_provider_id r = pv_id (http_provider st cred post decode :: 'p provider)
      \<and> cr_provider_version r = pv_version (http_provider st cred post decode :: 'p provider)"
    by (fastforce simp: bounded_result_def http_provider_def)
qed

lemma http_provider_attrs [simp]:
  "pv_id (http_provider st cred post decode) = cs_provider_id st"
  "pv_version (http_provider st cred post decode) = cs_provider_version st"
  by (simp_all add: http_provider_def)

subsection \<open>Query budgets\<close>

definition similarity_queries :: "(hashes \<times> int \<times> pystr option) list \<Rightarrow> nat" where
  "similarity_queries requests = length (filter (\<lambda>(_, _, fp). fp \<noteq> None \<and> fp \<noteq> Some []) requests)"

lemma reference_request:
  "pv_correlate reference_service_provider a fp p = (out, p') \<Longrightarrow>
     (\<exists>r. out = Inr r) \<and> rp_requests p' = rp_requests p @ [(a_hashes a, a_byte_size a, fp)]"
  by (auto simp: reference_service_provider_def reference_correlate_def py_defs)

lemma reference_loop_budget:
  "correlate_loop reference_service_provider limits clock i used ts (job, p) = (out, (job', p')) \<Longrightarrow>
   used \<le> lim_max_similarity_queries limits \<Longrightarrow>
     out = Inr ()
     \<and> length (rp_requests p') \<le> length (rp_requests p) + (lim_max_objects limits - i)
     \<and> similarity_queries (rp_requests p') + used \<le> similarity_queries (rp_requests p) + lim_max_similarity_queries limits"
proof (induction ts arbitrary: i used job p)
  case (Cons t ts)
  obtain sl a ars where t: "t = (sl, a, ars)" by (cases t)
  from Cons.prems(1) [unfolded t] show ?case
  proof (cases rule: correlate_loop_Cons)
    case (skip reason)
    from Cons.IH [OF skip Cons.prems(2)] show ?thesis by auto
  next
    case (result fp r q av used')
    note req = reference_request [OF result(1)]
    have "used' \<le> lim_max_similarity_queries limits" using result Cons.prems(2) by auto
    from Cons.IH [OF result(5) this] req result(2,3) show ?thesis
      by (auto simp: similarity_queries_def split: if_splits)
  next
    case (error fp e q)
    with reference_request [OF error(1)] show ?thesis by simp
  qed
qed simp

lemma reference_process_budget:
  assumes "correlation_process reference_service_provider limits clock now (job, p) = (out, (job', p'))"
  shows "length (rp_requests p') \<le> length (rp_requests p) + lim_max_objects limits
     \<and> similarity_queries (rp_requests p') \<le> similarity_queries (rp_requests p) + lim_max_similarity_queries limits"
  using assms reference_loop_budget [of limits clock 0 0 _ job p out job' p']
  by (auto simp: correlation_process_def py_defs split: sum.splits)

subsection \<open>Properties of correlation\<close>

text \<open>
  C10: whatever the endpoint answers, the production provider's result carries the configured
  provider identity, at most the configured numbers of matches, occurrences, candidates and
  provenance records, and only matches with the object's own SHA-256 and size; the known filenames,
  source collections, URLs and provenance texts of a match, the logical path and the parent label of
  an occurrence and both fingerprints of a candidate are clipped to the configured length. No
  \<open>OSError\<close> and no value, type, decoding or validation error gets out of the provider.
\<close>

theorem http_correlate_bounded:
  "ensures (bounded_result st a) (http_correlate st cred post decode a fp)
   \<and> raises_only (\<lambda>e. e \<noteq> OSError \<and> \<not> value_error e) (http_correlate st cred post decode a fp)"
  using http_correlate_bounded_aux catch_raises by (simp add: http_correlate_def)

text \<open>
  Correlation changes nothing of a job but the preservation contexts of the job and its
  derived objects: status, verdicts, results, errors and identity stay, also when the provider
  raises in the middle.
\<close>

lemma correlation_process_frame:
  "case correlation_process pv limits clock now (job, p) of
     (_, (job', _)) \<Rightarrow> erase_contexts job' = erase_contexts job"
  using correlation_process_erase by (auto split: prod.split)

text \<open>
  When correlation with the production provider completes, the job and every derived object
  that has a full identity carry a correlation result stamped with that provider, its answer or
  the notice that the object was skipped.
\<close>

lemma correlation_process_serves:
  "case correlation_process (http_provider st cred post decode) limits clock now (job, p) of
     (Inl _, _) \<Rightarrow> True
   | (Inr _, (job', _)) \<Rightarrow>
       list_all (\<lambda>(sl, _, _). \<exists>r. pc_correlation (slot_context sl job') = Some r
           \<and> cr_provider_id r = cs_provider_id st \<and> cr_provider_version r = cs_provider_version st)
         (case correlation_targets now job of Inl _ \<Rightarrow> [] | Inr ts \<Rightarrow> ts)"
proof -
  obtain out job' p' where run: "correlation_process (http_provider st cred post decode) limits clock now (job, p) = (out, (job', p'))"
    by (metis prod_cases3)
  show ?thesis
  proof (cases out)
    case (Inr u)
    obtain ts where ts: "correlation_targets now job = Inr ts"
      using run Inr by (auto simp: correlation_process_def py_defs split: sum.splits)
    from run Inr have "correlation_process (http_provider st cred post decode) limits clock now (job, p) = (Inr (), (job', p'))"
      by simp
    from http.process_serves [OF this ts] show ?thesis
      by (auto simp: run Inr ts list_all_iff http.served_def http.from_provider_def split: option.splits)
  qed (simp add: run)
qed

text \<open>
  One job asks the provider at most \<open>max_objects\<close> times and sends at most
  \<open>max_similarity_queries\<close> fingerprints, as the reference provider's request log shows.
\<close>

lemma correlation_process_budget:
  "case correlation_process reference_service_provider limits clock now (job, p) of
     (_, (_, p')) \<Rightarrow>
       length (rp_requests p') \<le> length (rp_requests p) + lim_max_objects limits
       \<and> similarity_queries (rp_requests p') \<le> similarity_queries (rp_requests p) + lim_max_similarity_queries limits"
  using reference_process_budget by (auto split: prod.split)


end
