(* ===== verification/Scanners.thy ===== *)
theory Scanners
  imports Models Effects Preservation "HOL-Library.AList"
begin

section \<open>Scanner adapters: \<open>scanners/\<close>\<close>

text \<open>
  The bounded command runner and the adapters of the detectors. Running a process is an argument:
  \<open>exec\<close> says what a command does to the file system (and to whatever else it may touch, the
  \<open>'x\<close> part of the state) and how it ends. The Unicode properties that Python's regular
  expressions consult are arguments too.
\<close>

subsection \<open>Text\<close>

definition line_break :: "nat \<Rightarrow> bool" where
  "line_break c \<longleftrightarrow> c \<in> {10, 11, 12, 13, 28, 29, 30, 0x85, 0x2028, 0x2029}"

text \<open>\<open>str.splitlines()\<close>; \<open>cur\<close> is the line read so far, in reverse.\<close>

fun splitlines_from :: "pystr \<Rightarrow> pystr \<Rightarrow> pystr list" where
  "splitlines_from cur [] = (if cur = [] then [] else [rev cur])"
| "splitlines_from cur (c # cs) =
     (if line_break c
      then rev cur # splitlines_from [] (if c = 13 \<and> cs \<noteq> [] \<and> hd cs = 10 then tl cs else cs)
      else splitlines_from (c # cur) cs)"

definition splitlines :: "pystr \<Rightarrow> pystr list" where
  "splitlines s = splitlines_from [] s"

definition ends_with :: "'a list \<Rightarrow> 'a list \<Rightarrow> bool" where
  "ends_with suffix s \<longleftrightarrow> length suffix \<le> length s \<and> drop (length s - length suffix) s = suffix"

definition remove_suffix :: "'a list \<Rightarrow> 'a list \<Rightarrow> 'a list" where
  "remove_suffix suffix s = (if suffix \<noteq> [] \<and> ends_with suffix s then take (length s - length suffix) s else s)"

text \<open>\<open>s.rsplit(sep, 1)[-1]\<close>: what follows the last occurrence of the separator.\<close>

fun after_last :: "'a list \<Rightarrow> 'a list \<Rightarrow> 'a list option" where
  "after_last sep [] = None"
| "after_last sep (x # xs) =
     (case after_last sep xs of
        Some r \<Rightarrow> Some r
      | None \<Rightarrow> if starts_with sep (x # xs) then Some (drop (length sep) (x # xs)) else None)"

definition rsplit_last :: "'a list \<Rightarrow> 'a list \<Rightarrow> 'a list" where
  "rsplit_last sep s = (case after_last sep s of None \<Rightarrow> s | Some r \<Rightarrow> r)"

definition join_with :: "'a list \<Rightarrow> 'a list list \<Rightarrow> 'a list" where
  "join_with sep parts = (case parts of [] \<Rightarrow> [] | p # ps \<Rightarrow> p @ concat (map (\<lambda>x. sep @ x) ps))"

text \<open>Case-insensitive comparison of a lower-case ASCII letter with a character (\<open>re.I\<close>).\<close>

definition ci_match :: "nat \<Rightarrow> nat \<Rightarrow> bool" where
  "ci_match l c \<longleftrightarrow> c = l \<or> (97 \<le> l \<and> l \<le> 122 \<and> c = l - 32)
     \<or> (l = 105 \<and> c \<in> {0x130, 0x131}) \<or> (l = 115 \<and> c = 0x17F) \<or> (l = 107 \<and> c = 0x212A)"

record unicode =
  uc_word :: "nat \<Rightarrow> bool"
  uc_digit :: "nat \<Rightarrow> bool"

definition ci_prefix :: "pystr \<Rightarrow> pystr \<Rightarrow> bool" where
  "ci_prefix pat s \<longleftrightarrow> length pat \<le> length s \<and> list_all (\<lambda>(l, c). ci_match l c) (zip pat s)"

text \<open>\<open>re.search(r"\bWORD\b", text, re.I)\<close> for a word of letters; \<open>prev\<close> is the character before.\<close>

fun search_word :: "unicode \<Rightarrow> pystr \<Rightarrow> nat option \<Rightarrow> pystr \<Rightarrow> bool" where
  "search_word uc pat prev [] \<longleftrightarrow> False"
| "search_word uc pat prev (c # cs) \<longleftrightarrow>
     ci_prefix pat (c # cs) \<and> (case prev of None \<Rightarrow> True | Some p \<Rightarrow> \<not> uc_word uc p)
       \<and> (case drop (length pat) (c # cs) of [] \<Rightarrow> True | d # _ \<Rightarrow> \<not> uc_word uc d)
     \<or> search_word uc pat (Some c) cs"

text \<open>\<open>re.search(r"hits\s*:\s*([1-9]\d*)", text, re.I)\<close> and its group.\<close>

definition hits_here :: "unicode \<Rightarrow> pystr \<Rightarrow> pystr option" where
  "hits_here uc s =
     (if \<not> ci_prefix (asc ''hits'') s then None
      else case dropWhile is_space (drop 4 s) of
        [] \<Rightarrow> None
      | c # r \<Rightarrow>
          if c \<noteq> 58 then None
          else case dropWhile is_space r of
            [] \<Rightarrow> None
          | d # ds \<Rightarrow> if 49 \<le> d \<and> d \<le> 57 then Some (d # takeWhile (uc_digit uc) ds) else None)"

fun search_hits :: "unicode \<Rightarrow> pystr \<Rightarrow> pystr option" where
  "search_hits uc [] = None"
| "search_hits uc (c # cs) = (case hits_here uc (c # cs) of Some g \<Rightarrow> Some g | None \<Rightarrow> search_hits uc cs)"

text \<open>\<open>str.encode()\<close>.\<close>

definition utf8_char :: "nat \<Rightarrow> bytes" where
  "utf8_char c =
     (if c < 0x80 then [of_nat c]
      else if c < 0x800 then [of_nat (0xC0 + c div 0x40), of_nat (0x80 + c mod 0x40)]
      else if c < 0x10000 then
        [of_nat (0xE0 + c div 0x1000), of_nat (0x80 + c div 0x40 mod 0x40), of_nat (0x80 + c mod 0x40)]
      else [of_nat (0xF0 + c div 0x40000), of_nat (0x80 + c div 0x1000 mod 0x40),
            of_nat (0x80 + c div 0x40 mod 0x40), of_nat (0x80 + c mod 0x40)])"

definition utf8 :: "pystr \<Rightarrow> bytes" where
  "utf8 s = concat (map utf8_char s)"

subsection \<open>\<open>scanners/command.py\<close>\<close>

record command_result =
  cm_argv :: "string list"
  cm_exit_code :: int
  cm_stdout :: pystr
  cm_stderr :: pystr
  cm_duration_seconds :: duration
  cm_timed_out :: bool
  cm_isolated :: bool
  cm_isolation_failed :: bool

record runner =
  rn_timeout :: nat
  rn_memory_mib :: nat
  rn_use_bwrap :: bool

datatype exec_outcome = Exec_Timeout pystr pystr duration | Exec_Done int pystr pystr duration

text \<open>The host: whether \<open>bwrap\<close> is on the path, and what running a command does.\<close>

type_synonym 'x machine = "fs \<times> 'x"

record 'x host =
  ho_which :: "string \<Rightarrow> string option"
  ho_exec :: "string list \<Rightarrow> path \<Rightarrow> nat \<Rightarrow> nat \<Rightarrow> ('x machine, exec_outcome) py"

definition remediation_options :: "string list" where
  "remediation_options = [''--remove'', ''--move'', ''--copy'', ''--delete'', ''--clean'']"

definition path_text :: "path \<Rightarrow> string" where
  "path_text p = concat (map (\<lambda>c. ''/'' @ c) p)"

definition bwrap_prefix :: "path \<Rightarrow> string list" where
  "bwrap_prefix cwd =
     [''bwrap'', ''--die-with-parent'', ''--new-session'', ''--unshare-net'', ''--ro-bind'', ''/'', ''/'',
      ''--dev'', ''/dev'', ''--proc'', ''/proc'', ''--tmpfs'', ''/tmp'', ''--chdir'', path_text cwd, ''--'']"

definition run_command :: "'x host \<Rightarrow> runner \<Rightarrow> string list \<Rightarrow> path \<Rightarrow> ('x machine, command_result) py" where
  "run_command h rn argv cwd =
     (if argv = [] \<or> list_ex (\<lambda>a. a \<in> set remediation_options) argv
      then raiseP (ValueError ''remediation options are forbidden by READ_ONLY policy'')
      else
        let isolated = (rn_use_bwrap rn \<and> ho_which h ''bwrap'' \<noteq> None);
            command = (if isolated then bwrap_prefix cwd @ argv else argv)
        in bindP (ho_exec h command cwd (rn_timeout rn) (rn_memory_mib rn)) (\<lambda>outcome.
           ret (case outcome of
             Exec_Timeout out err dur \<Rightarrow>
               \<lparr>cm_argv = argv, cm_exit_code = 124, cm_stdout = out, cm_stderr = err,
                cm_duration_seconds = dur, cm_timed_out = True, cm_isolated = isolated,
                cm_isolation_failed = False\<rparr>
           | Exec_Done code out err dur \<Rightarrow>
               \<lparr>cm_argv = argv, cm_exit_code = code, cm_stdout = out, cm_stderr = err,
                cm_duration_seconds = dur, cm_timed_out = False, cm_isolated = isolated,
                cm_isolation_failed = (isolated \<and> code \<noteq> 0
                  \<and> starts_with (asc ''bwrap:'') (dropWhile is_space err))\<rparr>)))"

text \<open>\<open>store_raw_output\<close>: the log is named by its digest and written once.\<close>

definition raw_payload :: "command_result \<Rightarrow> bytes" where
  "raw_payload r = utf8 (cm_stdout r @ (if cm_stderr r = [] then [] else asc ''\<newline>[stderr]\<newline>'' @ cm_stderr r))"

definition raw_output_name :: "digests \<Rightarrow> string \<Rightarrow> command_result \<Rightarrow> string" where
  "raw_output_name dg scanner_id r = scanner_id @ ''-'' @ take 16 (dg_sha256 dg (raw_payload r)) @ ''.log''"

definition store_raw_output :: "digests \<Rightarrow> path \<Rightarrow> string \<Rightarrow> string \<Rightarrow> command_result \<Rightarrow> (fs, string) py" where
  "store_raw_output dg raw_root job_id scanner_id r =
     (let directory = raw_root @ [job_id]; name = raw_output_name dg scanner_id r; p = directory @ [name]
      in thenP (mkdir_parents True directory)
         (bindP (getP (fs_exists p)) (\<lambda>there.
          thenP (whenP (\<not> there) (write_file p (raw_payload r)))
          (ret (''raw-output/'' @ job_id @ ''/'' @ name)))))"

subsection \<open>The file adapters\<close>

datatype adapter_kind = ClamAV | Yara | YaraX | Loki | Maldet

fun adapter_id :: "adapter_kind \<Rightarrow> string" where
  "adapter_id ClamAV = ''clamav''"
| "adapter_id Yara = ''yara''"
| "adapter_id YaraX = ''yara-x''"
| "adapter_id Loki = ''loki''"
| "adapter_id Maldet = ''maldet''"

fun adapter_executable :: "adapter_kind \<Rightarrow> string" where
  "adapter_executable ClamAV = ''clamscan''"
| "adapter_executable Yara = ''yara''"
| "adapter_executable YaraX = ''yr''"
| "adapter_executable Loki = ''loki.py''"
| "adapter_executable Maldet = ''maldet''"

fun adapter_class :: "adapter_kind \<Rightarrow> scanner_class" where
  "adapter_class ClamAV = ANTIVIRUS_ENGINE"
| "adapter_class Yara = RULE_ENGINE"
| "adapter_class YaraX = RULE_ENGINE"
| "adapter_class Loki = IOC_DETECTOR"
| "adapter_class Maldet = MALWARE_DETECTOR"

definition adapter_capabilities :: "adapter_kind \<Rightarrow> capability list" where
  "adapter_capabilities k = [FILE_SCAN, SCAN_ONLY]"

text \<open>\<open>command(path)\<close>; \<open>rules\<close> is the configured rule file.\<close>

definition adapter_command :: "adapter_kind \<Rightarrow> path option \<Rightarrow> path \<Rightarrow> string list res" where
  "adapter_command k rules p =
     (case k of
        ClamAV \<Rightarrow> Inr [''clamscan'', ''--no-summary'', ''--infected'', ''--'', path_text p]
      | Yara \<Rightarrow> (case rules of None \<Rightarrow> Inl (ValueError ''YARA rules path is not configured'')
           | Some r \<Rightarrow> Inr [''yara'', ''--no-warnings'', path_text r, path_text p])
      | YaraX \<Rightarrow> (case rules of None \<Rightarrow> Inl (ValueError ''YARA-X rules path is not configured'')
           | Some r \<Rightarrow> Inr [''yr'', ''scan'', path_text r, path_text p])
      | Loki \<Rightarrow> Inr [''loki.py'', ''--path'', path_text p, ''--noprocscan'', ''--dontwait'', ''--noindicator'']
      | Maldet \<Rightarrow> Inr [''maldet'', ''--scan-all'', path_text p])"

text \<open>What \<open>normalize\<close> reads off a finished command: verdict, native verdict, detection, kind.\<close>

type_synonym classification = "verdict \<times> string \<times> pystr option \<times> finding_kind option"

definition operational :: "string \<Rightarrow> classification" where
  "operational native = (V_ERROR, native, None, Some OPERATIONAL_ERROR)"

definition clamav_detection :: "pystr \<Rightarrow> pystr option" where
  "clamav_detection out =
     (let line = (case find (ends_with (asc '' FOUND'')) (splitlines out) of None \<Rightarrow> [] | Some l \<Rightarrow> l);
          name = remove_suffix (asc '' FOUND'') (rsplit_last (asc '': '') line)
      in if name = [] then None else Some name)"

definition clamav_classify :: "command_result \<Rightarrow> classification" where
  "clamav_classify n =
     (if cm_isolation_failed n then operational ''isolation-failed''
      else if cm_timed_out n then operational ''timeout''
      else if cm_exit_code n = 0 then (CLEAN, ''clean'', None, None)
      else if cm_exit_code n = 1
      then (MALICIOUS, ''FOUND'', clamav_detection (cm_stdout n), Some SIGNATURE_MATCH)
      else operational ''scanner-error'')"

definition yara_matches :: "pystr \<Rightarrow> pystr list" where
  "yara_matches out =
     map (\<lambda>line. takeWhile (\<lambda>c. \<not> is_space c) (dropWhile is_space line))
       (filter (\<lambda>line. strip_space line \<noteq> []) (splitlines out))"

definition failed_run :: "command_result \<Rightarrow> bool" where
  "failed_run n \<longleftrightarrow> cm_timed_out n \<or> cm_exit_code n \<notin> {0, 1}"

definition yara_classify :: "command_result \<Rightarrow> classification" where
  "yara_classify n =
     (if cm_isolation_failed n then operational ''isolation-failed''
      else if failed_run n then operational ''scanner-error''
      else
        let matches = yara_matches (cm_stdout n) in
        if matches \<noteq> []
        then (SUSPICIOUS, ''rule-match'', Some (join_with (asc '','') matches), Some RULE_MATCH)
        else (CLEAN, ''no-match'', None, None))"

definition loki_classify :: "unicode \<Rightarrow> command_result \<Rightarrow> classification" where
  "loki_classify uc n =
     (if cm_isolation_failed n then operational ''isolation-failed''
      else
        let output = cm_stdout n @ cm_stderr n in
        if failed_run n then operational ''scanner-error''
        else if search_word uc (asc ''alert'') None output then (MALICIOUS, ''ALERT'', None, Some IOC_MATCH)
        else if search_word uc (asc ''warning'') None output
        then (SUSPICIOUS, ''WARNING'', None, Some HEURISTIC_WARNING)
        else (CLEAN, ''clean'', None, None))"

definition maldet_classify :: "unicode \<Rightarrow> command_result \<Rightarrow> classification" where
  "maldet_classify uc n =
     (if cm_isolation_failed n then operational ''isolation-failed''
      else if failed_run n then operational ''scanner-error''
      else
        (case search_hits uc (cm_stdout n @ cm_stderr n) of
           Some g \<Rightarrow> (MALICIOUS, ''hits'', Some g, Some SIGNATURE_MATCH)
         | None \<Rightarrow> (CLEAN, ''no-hits'', None, None)))"

definition classify :: "unicode \<Rightarrow> adapter_kind \<Rightarrow> command_result \<Rightarrow> classification" where
  "classify uc k n =
     (case k of ClamAV \<Rightarrow> clamav_classify n | Yara \<Rightarrow> yara_classify n | YaraX \<Rightarrow> yara_classify n
      | Loki \<Rightarrow> loki_classify uc n | Maldet \<Rightarrow> maldet_classify uc n)"

subsection \<open>Definition state\<close>

text \<open>
  \<open>ClamAVAdapter.definition_state\<close> reads the headers of the signature databases; \<open>mtime\<close> and the
  decoding of a header (\<open>decode(errors="replace")\<close>) are arguments. Dictionary updates keep the
  position of a key that is already there.
\<close>

definition split_colon :: "pystr \<Rightarrow> pystr list" where
  "split_colon s = foldr (\<lambda>c acc. if c = 58 then [] # acc else (c # hd acc) # tl acc) s [[]]"

definition clamav_file_state ::
  "(path \<Rightarrow> int) \<Rightarrow> (bytes \<Rightarrow> pystr) \<Rightarrow> string \<Rightarrow> string \<Rightarrow> fs \<Rightarrow> (string \<times> pyval) list \<Rightarrow> (string \<times> pyval) list" where
  "clamav_file_state mtime decode name suffix s state =
     (let file = name @ ''.'' @ suffix; p = [''var'', ''lib'', ''clamav'', file] in
      case file_at p s of
        None \<Rightarrow> state
      | Some bs \<Rightarrow>
          let header = decode (rev (dropWhile (\<lambda>b. b = 0) (rev (take 512 bs))));
              fields = split_colon header;
              state1 = AList.update (name @ ''_mtime'') (PInt (mtime p))
                         (AList.update (name @ ''_file'') (PAsc file) state)
          in if length fields \<ge> 4 \<and> fields ! 0 = asc ''ClamAV-VDB''
             then AList.update (name @ ''_signatures'') (PStr (fields ! 3))
                    (AList.update (name @ ''_version'') (PStr (fields ! 2))
                      (AList.update (name @ ''_build_time'') (PStr (fields ! 1)) state1))
             else state1)"

definition clamav_definition_state :: "(path \<Rightarrow> int) \<Rightarrow> (bytes \<Rightarrow> pystr) \<Rightarrow> fs \<Rightarrow> (string \<times> pyval) list" where
  "clamav_definition_state mtime decode s =
     fold (\<lambda>(name, suffix). clamav_file_state mtime decode name suffix s)
       [(n, x). n \<leftarrow> [''main'', ''daily'', ''bytecode''], x \<leftarrow> [''cld'', ''cvd'']] []"

definition yara_definition_state :: "digests \<Rightarrow> path option \<Rightarrow> fs \<Rightarrow> (string \<times> pyval) list" where
  "yara_definition_state dg rules s =
     (case rules of
        None \<Rightarrow> [(''rule_set'', PNone)]
      | Some p \<Rightarrow> (case file_at p s of
            None \<Rightarrow> [(''rule_set'', PNone)]
          | Some bs \<Rightarrow> [(''rule_set'', PAsc (last p)), (''rule_set_sha256'', PAsc (dg_sha256 dg bs))]))"

text \<open>Everything an adapter is configured with.\<close>

record 'x adapter =
  ad_kind :: adapter_kind
  ad_rules :: "path option"
  ad_runner :: runner
  ad_raw_output :: path
  ad_host :: "'x host"
  ad_digests :: digests
  ad_unicode :: unicode
  ad_mtime :: "path \<Rightarrow> int"
  ad_decode :: "bytes \<Rightarrow> pystr"
  ad_now :: timestamp

definition definition_state :: "'x adapter \<Rightarrow> fs \<Rightarrow> (string \<times> pyval) list" where
  "definition_state ad s =
     (case ad_kind ad of
        ClamAV \<Rightarrow> clamav_definition_state (ad_mtime ad) (ad_decode ad) s
      | Yara \<Rightarrow> yara_definition_state (ad_digests ad) (ad_rules ad) s
      | YaraX \<Rightarrow> yara_definition_state (ad_digests ad) (ad_rules ad) s
      | _ \<Rightarrow> [])"

definition definition_version :: "'x adapter \<Rightarrow> fs \<Rightarrow> pystr option" where
  "definition_version ad s =
     (let key = (case ad_kind ad of ClamAV \<Rightarrow> ''daily_version'' | _ \<Rightarrow> ''rule_set_sha256'') in
      case map_of (definition_state ad s) key of Some (PStr v) \<Rightarrow> Some v | _ \<Rightarrow> None)"

subsection \<open>Probe, prepare, scan, cleanup\<close>

record probe_result =
  pb_available :: bool
  pb_detail :: pystr
  pb_state :: qualification_state
  pb_version :: "pystr option"
  pb_definition_state :: "(string \<times> pyval) list"

record prepared_scan =
  ps_job_id :: string
  ps_immutable_input :: path
  ps_working_path :: path

text \<open>\<open>(stdout or stderr).strip().splitlines()[0]\<close>: a tool that prints nothing is an \<open>IndexError\<close>.\<close>

definition first_line :: "pystr \<Rightarrow> pystr \<Rightarrow> pystr res" where
  "first_line out err =
     (case splitlines (strip_space (if out \<noteq> [] then out else err)) of
        [] \<Rightarrow> Inl IndexError | l # _ \<Rightarrow> Inr l)"

definition adapter_probe :: "'x adapter \<Rightarrow> ('x machine, probe_result) py" where
  "adapter_probe ad =
     (case ho_which (ad_host ad) (adapter_executable (ad_kind ad)) of
        None \<Rightarrow> ret \<lparr>pb_available = False, pb_detail = asc (adapter_executable (ad_kind ad) @ '' not found''),
                   pb_state = NOT_INSTALLED, pb_version = None, pb_definition_state = []\<rparr>
      | Some p \<Rightarrow>
          bindP (run_command (ad_host ad) (ad_runner ad) [adapter_executable (ad_kind ad), ''--version''] [''tmp'']) (\<lambda>r.
          bindP (liftP (if cm_timed_out r then Inr None
                   else bindE (first_line (cm_stdout r) (cm_stderr r)) (\<lambda>l. Inr (Some l)))) (\<lambda>version.
          getP (\<lambda>(s, _). \<lparr>pb_available = True, pb_detail = asc p,
                   pb_state = (if cm_exit_code r = 0 then PROBED else DEGRADED), pb_version = version,
                   pb_definition_state = definition_state ad s\<rparr>))))"

definition onfs :: "(fs, 'a) py \<Rightarrow> ('x machine, 'a) py" where
  "onfs m = zoomP fst (\<lambda>s (_, x). (s, x)) m"

definition adapter_prepare :: "'x adapter \<Rightarrow> string \<Rightarrow> path \<Rightarrow> path \<Rightarrow> (fs, prepared_scan) py" where
  "adapter_prepare ad job_id immutable_input working_root =
     bindP (getP (file_at immutable_input)) (\<lambda>content.
     if content = None then raiseP (ValueError ''ordinary regular files only'')
     else
       let job_root = working_root @ [job_id, adapter_id (ad_kind ad)]; staged = job_root @ [''object'']
       in thenP (mkdir_parents False job_root)
          (bindP (read_file immutable_input) (\<lambda>bs.
           thenP (write_file staged bs)
           (ret \<lparr>ps_job_id = job_id, ps_immutable_input = immutable_input, ps_working_path = staged\<rparr>))))"

definition adapter_scan :: "'x adapter \<Rightarrow> prepared_scan \<Rightarrow> ('x machine, command_result) py" where
  "adapter_scan ad ps =
     bindP (liftP (adapter_command (ad_kind ad) (ad_rules ad) (ps_working_path ps))) (\<lambda>argv.
       run_command (ad_host ad) (ad_runner ad) argv (butlast (ps_working_path ps)))"

text \<open>\<open>chmod\<close> of the staged file (which must exist), \<open>unlink\<close>, \<open>rmdir\<close> of its directory.\<close>

definition adapter_cleanup :: "prepared_scan \<Rightarrow> (fs, unit) py" where
  "adapter_cleanup ps =
     bindP (getP (fs_exists (ps_working_path ps))) (\<lambda>there.
     if \<not> there then raiseP OSError
     else thenP (unlink (ps_working_path ps)) (rmdir (butlast (ps_working_path ps))))"

definition adapter_result ::
  "'x adapter \<Rightarrow> string \<Rightarrow> command_result \<Rightarrow> classification \<Rightarrow> ('x machine, scanner_result) py" where
  "adapter_result ad job_id n c =
     (case c of (v, native_verdict, detection, kind) \<Rightarrow>
        bindP (onfs (store_raw_output (ad_digests ad) (ad_raw_output ad)
                 (if cm_argv n = [] then ''system'' else job_id) (adapter_id (ad_kind ad)) n)) (\<lambda>ref.
        bindP (adapter_probe ad) (\<lambda>probe.
        getP (\<lambda>(s, _).
          \<lparr>sr_scanner_id = adapter_id (ad_kind ad), sr_native_verdict = native_verdict,
           sr_normalized_verdict = v, sr_detection_name = detection, sr_exit_code = Some (cm_exit_code n),
           sr_raw_output_ref = ref, sr_engine_version = pb_version probe,
           sr_definition_version = definition_version ad s, sr_definition_date = None,
           sr_runtime_profile = (if cm_isolated n then ''linux-bwrap-read-only-no-network''
              else ''linux-bounded-direct-degraded''),
           sr_scanned_at = ad_now ad, sr_finding_kind = kind, sr_definition_state = definition_state ad s,
           sr_duration_seconds = Some (cm_duration_seconds n), sr_selected_reason = None,
           sr_qualification_state = None\<rparr>))))"

text \<open>\<open>run_prepared\<close>: scan, then normalize.\<close>

definition adapter_run :: "'x adapter \<Rightarrow> prepared_scan \<Rightarrow> ('x machine, scanner_result) py" where
  "adapter_run ad ps =
     bindP (adapter_scan ad ps) (\<lambda>n.
       adapter_result ad (ps_job_id ps) n (classify (ad_unicode ad) (ad_kind ad) n))"

subsection \<open>The system detectors\<close>

definition rootkit_probe_args :: "string \<Rightarrow> string \<Rightarrow> string list" where
  "rootkit_probe_args scanner_id exe = (if scanner_id = ''rkhunter'' then [exe, ''--version''] else [exe, ''-V''])"

definition rootkit_scan_args :: "string \<Rightarrow> string \<Rightarrow> string list" where
  "rootkit_scan_args scanner_id exe =
     (if scanner_id = ''rkhunter''
      then [exe, ''--check'', ''--skip-keypress'', ''--report-warnings-only'', ''--nocolors'']
      else [exe, ''-q''])"

definition rootkit_probe :: "'x host \<Rightarrow> runner \<Rightarrow> string \<Rightarrow> string \<Rightarrow> ('x machine, probe_result) py" where
  "rootkit_probe h rn scanner_id exe =
     (case ho_which h exe of
        None \<Rightarrow> ret \<lparr>pb_available = False, pb_detail = asc (exe @ '' not found''), pb_state = NOT_INSTALLED,
                   pb_version = None, pb_definition_state = []\<rparr>
      | Some p \<Rightarrow>
          bindP (run_command h rn (rootkit_probe_args scanner_id exe) [''tmp'']) (\<lambda>r.
          ret \<lparr>pb_available = True, pb_detail = asc p, pb_state = PROBED,
             pb_version = Some (case splitlines (strip_space (if cm_stdout r \<noteq> [] then cm_stdout r else cm_stderr r)) of
                [] \<Rightarrow> asc ''unknown'' | l # _ \<Rightarrow> l), pb_definition_state = []\<rparr>))"

definition rootkit_classify :: "command_result \<Rightarrow> classification" where
  "rootkit_classify n =
     (let output = cm_stdout n @ cm_stderr n;
          err = failed_run n;
          warning = (strip_space output \<noteq> [] \<or> cm_exit_code n = 1)
      in (if err then V_ERROR else if warning then SUSPICIOUS else CLEAN,
          if err then ''error'' else if warning then ''warning'' else ''clean'', None,
          if err then Some OPERATIONAL_ERROR else if warning then Some ROOTKIT_WARNING else None))"

definition rootkit_update :: "'x host \<Rightarrow> runner \<Rightarrow> string \<Rightarrow> string \<Rightarrow> ('x machine, command_result) py" where
  "rootkit_update h rn scanner_id exe =
     (if scanner_id \<noteq> ''rkhunter''
      then raiseP (NotImplementedError ''chkrootkit has no separate property update operation'')
      else run_command h rn [exe, ''--update''] [''tmp''])"

text \<open>\<open>scanners/factory.py\<close>: the adapters the configuration gives, in order.\<close>

definition file_adapter_kinds :: "adapter_kind list" where
  "file_adapter_kinds = [ClamAV, Yara, YaraX, Loki, Maldet]"

definition system_adapter_ids :: "(string \<times> string) list" where
  "system_adapter_ids = [(''chkrootkit'', ''chkrootkit''), (''rkhunter'', ''rkhunter'')]"

definition adapter_rules :: "path \<Rightarrow> adapter_kind \<Rightarrow> path option" where
  "adapter_rules rules_dir k = (if k \<in> {Yara, YaraX} then Some (rules_dir @ [''avbox-m1.yar'']) else None)"

subsection \<open>The contract of a file adapter\<close>

text \<open>
  What the scan service relies on: a run that was not isolated, timed out or ended with an
  unknown status is an error and nothing else, an operational error is the only error, and a
  clean result carries no detection.
\<close>

locale detector_contract =
  fixes cls :: "command_result \<Rightarrow> classification"
  assumes isolation: "cm_isolation_failed n \<Longrightarrow> cls n = operational ''isolation-failed''"
    and failed: "failed_run n \<Longrightarrow> fst (cls n) = V_ERROR"
    and error_kind: "snd (snd (snd (cls n))) = Some OPERATIONAL_ERROR \<longleftrightarrow> fst (cls n) = V_ERROR"
    and clean_result: "fst (cls n) = CLEAN \<Longrightarrow> snd (snd (cls n)) = (None, None)"
    and verdicts: "fst (cls n) \<in> {CLEAN, MALICIOUS, SUSPICIOUS, V_ERROR}"
begin

lemma error_or_ran: "fst (cls n) = V_ERROR \<or> (\<not> cm_isolation_failed n \<and> \<not> cm_timed_out n \<and> cm_exit_code n \<in> {0, 1})"
  using isolation [of n] failed [of n] by (auto simp: failed_run_def operational_def)

lemma detection_has_kind:
  "snd (snd (snd (cls n))) = None \<Longrightarrow> fst (cls n) \<noteq> V_ERROR"
  using error_kind [of n] by auto

lemma summary:
  "(if cm_isolation_failed n \<or> failed_run n then fst (cls n) = V_ERROR
     else if fst (cls n) = CLEAN then snd (snd (cls n)) = (None, None) else True)
   \<and> (snd (snd (snd (cls n))) = Some OPERATIONAL_ERROR) = (fst (cls n) = V_ERROR)
   \<and> fst (cls n) \<in> {CLEAN, MALICIOUS, SUSPICIOUS, V_ERROR}"
  using isolation [of n] failed [of n] error_kind [of n] clean_result [of n] verdicts [of n]
  by (simp add: operational_def)

end

interpretation clamav: detector_contract clamav_classify
  by unfold_locales (auto simp: clamav_classify_def operational_def failed_run_def split: if_splits)

interpretation yara: detector_contract yara_classify
  by unfold_locales (auto simp: yara_classify_def operational_def Let_def split: if_splits)

interpretation loki: detector_contract "loki_classify uc" for uc
  by unfold_locales (auto simp: loki_classify_def operational_def Let_def split: if_splits)

interpretation maldet: detector_contract "maldet_classify uc" for uc
  by unfold_locales (auto simp: maldet_classify_def operational_def split: if_splits option.splits)

lemma classify_summary:
  "(if cm_isolation_failed n \<or> failed_run n then fst (classify uc k n) = V_ERROR
     else if fst (classify uc k n) = CLEAN then snd (snd (classify uc k n)) = (None, None) else True)
   \<and> (snd (snd (snd (classify uc k n))) = Some OPERATIONAL_ERROR) = (fst (classify uc k n) = V_ERROR)
   \<and> fst (classify uc k n) \<in> {CLEAN, MALICIOUS, SUSPICIOUS, V_ERROR}"
  unfolding classify_def
  by (cases k; simp only: adapter_kind.case;
      rule clamav.summary yara.summary loki.summary maldet.summary)

subsection \<open>Commands\<close>

lemma path_text_safe: "path_text p \<notin> set remediation_options"
  by (cases p) (simp_all add: path_text_def remediation_options_def)

lemma adapter_command_safe:
  "ensures (\<lambda>argv. argv \<noteq> [] \<and> list_all (\<lambda>a. a \<notin> set remediation_options) argv) (adapter_command k rules p)"
  using path_text_safe [of p] path_text_safe [of "the rules"]
  by (cases k; cases rules) (auto simp: adapter_command_def remediation_options_def)

lemma run_command_forbidden:
  "argv = [] \<or> list_ex (\<lambda>a. a \<in> set remediation_options) argv \<Longrightarrow>
     run_command h rn argv cwd s = (Inl (ValueError ''remediation options are forbidden by READ_ONLY policy''), s)"
  by (simp add: run_command_def)

subsection \<open>The ClamAV report\<close>

lemma splitlines_from_one:
  "list_all (\<lambda>c. \<not> line_break c) s \<Longrightarrow> splitlines_from cur (s @ [10]) = [rev cur @ s]"
  by (induction s arbitrary: cur) (auto simp: line_break_def)

lemma after_last_suffix:
  assumes "after_last sep xs = None" and "xs \<noteq> []" and "length sep \<ge> 1"
    and "\<And>i. i < length sep \<Longrightarrow> \<not> starts_with sep (drop i (sep @ xs)) \<or> i = 0"
  shows "after_last sep (sep @ xs) = Some xs"
proof -
  have "after_last sep (drop i (sep @ xs)) = None" if "1 \<le> i" "i \<le> length sep" for i
    using that
  proof (induction "length sep - i" arbitrary: i)
    case 0
    with assms(1) show ?case by simp
  next
    case (Suc n)
    then have "i < length sep" by simp
    then have "drop i (sep @ xs) = (sep @ xs) ! i # drop (Suc i) (sep @ xs)"
      by (metis Cons_nth_drop_Suc length_append trans_less_add1)
    moreover have "after_last sep (drop (Suc i) (sep @ xs)) = None"
      using Suc \<open>i < length sep\<close> by (intro Suc.hyps) auto
    moreover have "\<not> starts_with sep (drop i (sep @ xs))"
      using assms(4) [OF \<open>i < length sep\<close>] Suc.prems by simp
    ultimately show ?case by simp
  qed
  from this [of 1] assms(3) show ?thesis
    by (cases sep) (auto simp: starts_with_def)
qed

lemma after_last_prefix: "after_last sep ys = Some r \<Longrightarrow> after_last sep (xs @ ys) = Some r"
  by (induction xs) auto

lemma ends_with_append [simp]: "ends_with s (xs @ s)"
  by (simp add: ends_with_def)

lemma remove_suffix_append [simp]: "s \<noteq> [] \<Longrightarrow> remove_suffix s (xs @ s) = xs"
  by (simp add: remove_suffix_def)

text \<open>No \<open>": "\<close> in a name also means none in the name followed by \<open>" FOUND"\<close>.\<close>

lemma after_last_none:
  "\<not> substring [58, 32] xs \<Longrightarrow> last (58 # xs) \<noteq> 58 \<or> xs = [] \<Longrightarrow> \<not> substring [58, 32] ys \<Longrightarrow>
     (xs = [] \<or> last xs \<noteq> 58) \<Longrightarrow> after_last [58, 32] (xs @ ys) = None"
proof (induction xs)
  case Nil
  then show ?case by (induction ys) auto
next
  case (Cons x xs)
  have "after_last [58, 32] (xs @ ys) = None"
    using Cons by (cases xs) auto
  moreover have "\<not> starts_with [58, 32] (x # xs @ ys)"
    using Cons.prems by (cases xs) (auto simp: starts_with_def)
  ultimately show ?case by simp
qed

lemma clamav_detection_line:
  assumes "list_all (\<lambda>c. \<not> line_break c) (p @ name)" and "name \<noteq> []"
    and "\<not> substring (asc '': '') name" and "last name \<noteq> 58"
  shows "clamav_detection (p @ asc '': '' @ name @ asc '' FOUND'' @ [10]) = Some name"
proof -
  let ?line = "p @ asc '': '' @ name @ asc '' FOUND''"
  have lines: "splitlines (?line @ [10]) = [?line]"
    using assms(1) splitlines_from_one [of ?line "[]"]
    by (simp add: splitlines_def asc_def line_break_def)
  have sep: "asc '': '' = [58, 32]" by (simp add: asc_def)
  have "after_last [58, 32] (name @ asc '' FOUND'') = None"
    using assms(2-4) by (intro after_last_none) (auto simp: asc_def starts_with_def)
  then have "after_last [58, 32] ([58, 32] @ name @ asc '' FOUND'') = Some (name @ asc '' FOUND'')"
    by (intro after_last_suffix) (auto simp: asc_def starts_with_def less_Suc_eq)
  then have "rsplit_last (asc '': '') ?line = name @ asc '' FOUND''"
    by (simp add: rsplit_last_def sep after_last_prefix)
  moreover have "ends_with (asc '' FOUND'') ?line"
    using ends_with_append [of "asc '' FOUND''" "p @ asc '': '' @ name"] by simp
  ultimately show ?thesis
    using lines assms(2) by (simp add: clamav_detection_def Let_def asc_def)
qed

subsection \<open>Staging\<close>

text \<open>A well-formed file system: parents are directories, and no path is both.\<close>

definition fs_ok :: "fs \<Rightarrow> bool" where
  "fs_ok s \<longleftrightarrow> list_all (\<lambda>(p, _). p \<noteq> [] \<and> is_dir (butlast p) s \<and> \<not> is_dir p s) (fs_files s)
     \<and> list_all (\<lambda>d. d = [] \<or> is_dir (butlast d) s) (fs_dirs s)"

lemma fs_ok_parent:
  assumes "fs_ok s" and "fs_exists p s" and "p \<noteq> []"
  shows "is_dir (butlast p) s"
  using assms by (auto simp: fs_ok_def fs_exists_def file_at_def is_dir_def list_all_iff dest!: map_of_SomeD)

lemma below_dir:
  assumes "fs_ok s" and "fs_exists p s" and "below d p" and "p \<noteq> d"
  shows "is_dir d s"
  using assms(2-4)
proof (induction p rule: rev_induct)
  case Nil
  then show ?case by (simp add: below_def)
next
  case (snoc x xs)
  have parent: "is_dir xs s" using fs_ok_parent [OF assms(1) snoc.prems(1)] by simp
  have "below d xs"
    using snoc.prems(2,3) by (auto simp: below_def take_Cons' split: if_splits)
  then show ?case
  proof (cases "xs = d")
    case False
    then show ?thesis using snoc.IH \<open>below d xs\<close> parent by (simp add: fs_exists_def)
  qed (use parent in simp)
qed

lemma below_prefix: "q \<in> set (path_prefixes p) \<Longrightarrow> below p q \<Longrightarrow> q = p"
  by (auto simp: path_prefixes_def below_def)

lemma prefixes_self: "p \<in> set (path_prefixes p)"
  by (force simp: path_prefixes_def)

definition stage_root :: "'x adapter \<Rightarrow> string \<Rightarrow> path \<Rightarrow> path" where
  "stage_root ad job_id working = working @ [job_id, adapter_id (ad_kind ad)]"

lemma prepare_result:
  assumes "adapter_prepare ad job src working s = (Inr ps, s1)"
  shows "ps = \<lparr>ps_job_id = job, ps_immutable_input = src, ps_working_path = stage_root ad job working @ [''object'']\<rparr>
    \<and> \<not> is_dir (stage_root ad job working) s
    \<and> list_all (\<lambda>q. file_at q s = None) (path_prefixes (stage_root ad job working))
    \<and> (\<exists>bs. file_at src s = Some bs \<and>
         s1 = put_file (stage_root ad job working @ [''object'']) bs
                (s\<lparr>fs_dirs := remdups (path_prefixes (stage_root ad job working) @ fs_dirs s)\<rparr>))"
  using assms
  by (auto simp: adapter_prepare_def py_defs stage_root_def [symmetric] Let_def mkdir_parents_def read_file_def
      write_file_def list_ex_iff list_all_iff split: if_splits option.splits)

lemma prepare_cleanup:
  assumes ok: "fs_ok s" and prep: "adapter_prepare ad job src working s = (Inr ps, s1)"
  shows "file_at (ps_working_path ps) s1 = file_at src s
    \<and> (\<exists>s2. adapter_cleanup ps s1 = (Inr (), s2) \<and> (\<forall>p. file_at p s2 = file_at p s))"
proof -
  let ?r = "stage_root ad job working"
  let ?o = "?r @ [''object'']"
  from prepare_result [OF prep] obtain bs where
    ps: "ps = \<lparr>ps_job_id = job, ps_immutable_input = src, ps_working_path = ?o\<rparr>"
    and nodir: "\<not> is_dir ?r s" and nofile: "list_all (\<lambda>q. file_at q s = None) (path_prefixes ?r)"
    and src: "file_at src s = Some bs"
    and s1: "s1 = put_file ?o bs (s\<lparr>fs_dirs := remdups (path_prefixes ?r @ fs_dirs s)\<rparr>)" by blast
  have free: "p = ?r" if "fs_exists p s" "below ?r p" for p
    using below_dir [OF ok that] nodir by blast
  have root_none: "file_at ?r s = None" using nofile prefixes_self by (auto simp: list_all_iff)
  have "\<not> fs_exists ?o s"
  proof
    assume "fs_exists ?o s"
    then have "?o = ?r" by (rule free) (simp add: below_def)
    then show False by simp
  qed
  then have onone: "file_at ?o s = None" "\<not> is_dir ?o s" by (auto simp: fs_exists_def)
  have onew: "\<not> is_dir ?o s1"
    using onone(2) by (auto simp: s1 is_dir_def put_file_def drop_file_def path_prefixes_def dest!: arg_cong [of _ _ length])
  have unl: "unlink ?o s1 = (Inr (), drop_file ?o s1)" using onew by (simp add: unlink_def)
  have dir: "is_dir ?r (drop_file ?o s1)" using prefixes_self [of ?r] by (simp add: s1 is_dir_def put_file_def drop_file_def)
  have "dir_empty ?r (drop_file ?o s1)"
  proof -
    have "p = ?r" if "below ?r p" "p \<in> fst ` set (fs_files (drop_file ?o s1))" for p
    proof -
      from that(2) have "file_at p s \<noteq> None"
        by (auto simp: s1 drop_file_def put_file_def file_at_def map_of_eq_None_iff rev_image_eqI)
      then show ?thesis using that(1) by (intro free) (auto simp: fs_exists_def)
    qed
    moreover have "p = ?r" if "below ?r p" "p \<in> set (fs_dirs (drop_file ?o s1))" for p
      using that below_prefix [of p ?r] free [of p]
      by (auto simp: s1 drop_file_def put_file_def fs_exists_def is_dir_def)
    ultimately show ?thesis by (auto simp: dir_empty_def list_all_iff)
  qed
  with dir have rm: "\<exists>s2. rmdir ?r (drop_file ?o s1) = (Inr (), s2) \<and> (\<forall>p. file_at p s2 = file_at p (drop_file ?o s1))"
    by (auto simp: rmdir_def)
  have same: "file_at p (drop_file ?o s1) = file_at p s" for p
    using onone(1) by (simp add: s1)
  have ex: "fs_exists ?o s1" by (simp add: fs_exists_def s1)
  show ?thesis
    using rm same src ex unl by (auto simp: adapter_cleanup_def py_defs ps s1)
qed

subsection \<open>Properties of the adapters\<close>

text \<open>
  C9: the contract every file detector's \<open>normalize\<close> keeps: a run that lost its isolation, timed
  out or ended with a status other than 0 and 1 is an \<open>ERROR\<close>, errors are exactly the results
  marked operational, a clean result has no detection and no finding, and no other verdict than
  clean, malicious, suspicious and error is given.
\<close>

theorem classify_contract:
  "(if cm_isolation_failed n \<or> failed_run n then fst (classify uc k n) = V_ERROR
     else if fst (classify uc k n) = CLEAN then snd (snd (classify uc k n)) = (None, None) else True)
   \<and> (snd (snd (snd (classify uc k n))) = Some OPERATIONAL_ERROR) = (fst (classify uc k n) = V_ERROR)
   \<and> fst (classify uc k n) \<in> {CLEAN, MALICIOUS, SUSPICIOUS, V_ERROR}"
  by (rule classify_summary)

text \<open>
  READ_ONLY at the command line. No adapter ever builds a command with a remediation option,
  and the runner refuses such a command without running anything.
\<close>

lemma no_remediation:
  "ensures (\<lambda>argv. argv \<noteq> [] \<and> list_all (\<lambda>a. a \<notin> set remediation_options) argv) (adapter_command k rules p)
   \<and> (if list_ex (\<lambda>a. a \<in> set remediation_options) argv
      then run_command h rn argv cwd s = (Inl (ValueError ''remediation options are forbidden by READ_ONLY policy''), s)
      else True)"
  by (simp add: adapter_command_safe run_command_forbidden)

text \<open>
  The name in ClamAV's report line \<open>path: NAME FOUND\<close> is read back as it was printed, for any
  path and any non-empty name that contain no line break, the name neither containing \<open>": "\<close> nor
  ending in a colon.
\<close>

lemma clamav_report_roundtrip:
  assumes "list_all (\<lambda>c. \<not> line_break c) (p @ name)" and "name \<noteq> []"
    and "\<not> substring (asc '': '') name" and "last name \<noteq> 58"
  shows "clamav_detection (p @ asc '': '' @ name @ asc '' FOUND'' @ [10]) = Some name"
  using assms by (rule clamav_detection_line)

lemma clamav_report_roundtrip_witness:
  "clamav_detection (asc ''/job/object'' @ asc '': '' @ asc ''Eicar-Test'' @ asc '' FOUND'' @ [10]) = Some (asc ''Eicar-Test'')"
  by (rule clamav_report_roundtrip) (simp_all add: asc_def line_break_def starts_with_def)

text \<open>
  Staging leaves no trace. In a well-formed file system a successful \<open>prepare\<close> stages a copy of
  the input under the job's directory, and the \<open>cleanup\<close> that follows succeeds and gives back every
  file, the input included, exactly as it was.
\<close>

lemma prepare_cleanup_restores:
  assumes "fs_ok s" and "adapter_prepare ad job src working s = (Inr ps, s1)"
  shows "file_at (ps_working_path ps) s1 = file_at src s
    \<and> (\<exists>s2. adapter_cleanup ps s1 = (Inr (), s2) \<and> (\<forall>p. file_at p s2 = file_at p s))"
  using assms by (rule prepare_cleanup)

definition sample_fs :: fs where
  "sample_fs = \<lparr>fs_files = [([''in''], [1, 2, 3])], fs_dirs = [[], [''staging'']]\<rparr>"

definition sample_host :: "unit host" where
  "sample_host = \<lparr>ho_which = (\<lambda>_. None), ho_exec = (\<lambda>_ _ _ _. ret (Exec_Done 0 [] [] 0))\<rparr>"

definition sample_adapter :: "unit adapter" where
  "sample_adapter = \<lparr>ad_kind = ClamAV, ad_rules = None,
     ad_runner = \<lparr>rn_timeout = 1, rn_memory_mib = 1, rn_use_bwrap = False\<rparr>, ad_raw_output = [''raw''],
     ad_host = sample_host,
     ad_digests = \<lparr>dg_sha256 = (\<lambda>_. ''d''), dg_blake3 = (\<lambda>_. ''d''), dg_sha1 = (\<lambda>_. ''d''), dg_md5 = (\<lambda>_. ''d'')\<rparr>,
     ad_unicode = \<lparr>uc_word = (\<lambda>_. True), uc_digit = (\<lambda>_. True)\<rparr>, ad_mtime = (\<lambda>_. 0), ad_decode = latin1, ad_now = 0\<rparr>"

lemma sample_prepare:
  "adapter_prepare sample_adapter ''j'' [''in''] [''staging''] sample_fs =
     (Inr \<lparr>ps_job_id = ''j'', ps_immutable_input = [''in''], ps_working_path = [''staging'', ''j'', ''clamav'', ''object'']\<rparr>,
      \<lparr>fs_files = [([''staging'', ''j'', ''clamav'', ''object''], [1, 2, 3]), ([''in''], [1, 2, 3])],
       fs_dirs = [[''staging'', ''j''], [''staging'', ''j'', ''clamav''], [], [''staging'']]\<rparr>)"
  by (simp add: adapter_prepare_def py_defs sample_adapter_def sample_fs_def mkdir_parents_def read_file_def
      write_file_def put_file_def drop_file_def file_at_def is_dir_def path_prefixes_def Let_def)

lemma prepare_cleanup_restores_witness:
  "\<exists>ps s1 s2. adapter_prepare sample_adapter ''j'' [''in''] [''staging''] sample_fs = (Inr ps, s1)
     \<and> file_at (ps_working_path ps) s1 = Some [1, 2, 3]
     \<and> adapter_cleanup ps s1 = (Inr (), s2) \<and> file_at [''in''] s2 = Some [1, 2, 3]"
proof -
  have ok: "fs_ok sample_fs" by (simp add: fs_ok_def sample_fs_def is_dir_def)
  have "file_at [''in''] sample_fs = Some [1, 2, 3]" by (simp add: sample_fs_def file_at_def)
  with prepare_cleanup_restores [OF ok sample_prepare] sample_prepare show ?thesis by auto
qed


end
