(* ===== verification/Scanning.thy ===== *)
theory Scanning
  imports Jobs Scanners Correlation
begin

section \<open>The scan service: \<open>application/scanning.py\<close>, \<open>application/policy.py\<close>\<close>

text \<open>
  Executing a job: the detectors and analyzers one after the other, aggregation of the verdicts,
  recursion and correlation, the check that the input was not changed, quarantine, and the final
  status. The state holds the machine (file system and whatever tools touch), the database, the
  job object that the code mutates, and the number of clock readings.
\<close>

subsection \<open>Aggregation\<close>

definition aggregate_set :: "verdict set \<Rightarrow> verdict" where
  "aggregate_set vs =
     (if MALICIOUS \<in> vs then MALICIOUS
      else if PUA \<in> vs then PUA
      else if SUSPICIOUS \<in> vs then SUSPICIOUS
      else if V_ERROR \<in> vs then (if vs = {V_ERROR} then V_ERROR else V_UNKNOWN)
      else if CLEAN \<in> vs then CLEAN
      else if V_UNKNOWN \<in> vs then V_UNKNOWN
      else if V_UNSUPPORTED \<in> vs then V_UNSUPPORTED
      else NOT_SCANNED)"

definition aggregate_verdict :: "scanner_result list \<Rightarrow> verdict" where
  "aggregate_verdict results = aggregate_set (set (map sr_normalized_verdict results))"

subsection \<open>The service and its state\<close>

record 'x world =
  w_machine :: "'x machine"
  w_db :: db
  w_job :: scan_job
  w_ticks :: nat

text \<open>The operations of a \<open>ScannerAdapter\<close> that the service calls.\<close>

record 'x scanner_iface =
  si_probe :: "('x machine, probe_result) py"
  si_prepare :: "string \<Rightarrow> path \<Rightarrow> path \<Rightarrow> ('x machine, prepared_scan) py"
  si_run :: "prepared_scan \<Rightarrow> ('x machine, scanner_result) py"
  si_cleanup :: "prepared_scan \<Rightarrow> ('x machine, unit) py"

definition adapter_iface :: "'x adapter \<Rightarrow> 'x scanner_iface" where
  "adapter_iface ad = \<lparr>si_probe = adapter_probe ad,
     si_prepare = (\<lambda>job src working. onfs (adapter_prepare ad job src working)),
     si_run = adapter_run ad, si_cleanup = (\<lambda>ps. onfs (adapter_cleanup ps))\<rparr>"

text \<open>
  A generic analyzer's \<open>analyze\<close> and the two job processors (container recursion, correlation)
  are components of their own; here they are arguments. \<open>exn_text\<close> is \<open>str(exc)\<close>.
\<close>

record 'x scan_service =
  ss_adapters :: "string \<Rightarrow> 'x scanner_iface option"
  ss_generic :: "string \<Rightarrow> (input_artifact \<Rightarrow> path \<Rightarrow> string \<Rightarrow> ('x machine, analyzer_result) py) option"
  ss_recursive :: "(path \<Rightarrow> ('x world, unit) py) option"
  ss_correlation :: "('x world, unit) py option"
  ss_staging :: path
  ss_quarantine :: path
  ss_maximum_file_bytes :: nat
  ss_digests :: digests
  ss_clock :: "nat \<Rightarrow> timestamp"
  ss_exn_text :: "py_exn \<Rightarrow> pystr"

definition exn_class :: "py_exn \<Rightarrow> string" where
  "exn_class e = (case e of
      StructError \<Rightarrow> ''error'' | IndexError \<Rightarrow> ''IndexError'' | ZeroDivisionError \<Rightarrow> ''ZeroDivisionError''
    | RecursionError \<Rightarrow> ''RecursionError'' | OSError \<Rightarrow> ''OSError'' | UnicodeDecodeError \<Rightarrow> ''UnicodeDecodeError''
    | PartitionTableError _ \<Rightarrow> ''PartitionTableError'' | DiskImageError _ \<Rightarrow> ''DiskImageError''
    | ExecutableError _ \<Rightarrow> ''ExecutableError'' | DocumentError _ \<Rightarrow> ''DocumentError'' | ValueError _ \<Rightarrow> ''ValueError'' | RuntimeError _ \<Rightarrow> ''RuntimeError''
    | RegistryError _ \<Rightarrow> ''RegistryError'' | PermissionError _ \<Rightarrow> ''PermissionError'' | TypeError _ \<Rightarrow> ''TypeError''
    | NotImplementedError _ \<Rightarrow> ''NotImplementedError'' | ValidationError \<Rightarrow> ''ValidationError''
    | JSONDecodeError \<Rightarrow> ''JSONDecodeError'' | KeyError _ \<Rightarrow> ''KeyError'' | ExternalError c _ \<Rightarrow> c
    | RABProtocolError _ _ _ \<Rightarrow> ''RABProtocolError'' | IntegrityError \<Rightarrow> ''IntegrityError'' | OutOfFuel \<Rightarrow> '''')"

definition onmachine :: "('x machine, 'a) py \<Rightarrow> ('x world, 'a) py" where
  "onmachine m = zoomP w_machine (\<lambda>t w. w\<lparr>w_machine := t\<rparr>) m"

definition upd_job :: "(scan_job \<Rightarrow> scan_job) \<Rightarrow> ('x world, unit) py" where
  "upd_job f = updP (\<lambda>w. w\<lparr>w_job := f (w_job w)\<rparr>)"

definition upd_db :: "(db \<Rightarrow> db) \<Rightarrow> ('x world, unit) py" where
  "upd_db f = updP (\<lambda>w. w\<lparr>w_db := f (w_db w)\<rparr>)"

definition now_time :: "'x scan_service \<Rightarrow> ('x world, timestamp) py" where
  "now_time sv = (\<lambda>w. (Inr (ss_clock sv (w_ticks w)), w\<lparr>w_ticks := Suc (w_ticks w)\<rparr>))"

definition add_error :: "pystr \<Rightarrow> ('x world, unit) py" where
  "add_error msg = upd_job (\<lambda>j. j\<lparr>j_errors := j_errors j @ [msg]\<rparr>)"

text \<open>\<open>self.jobs.transition(job, target)\<close> on the job object.\<close>

definition job_transition :: "'x scan_service \<Rightarrow> job_status \<Rightarrow> ('x world, unit) py" where
  "job_transition sv target =
     bindP (getP w_job) (\<lambda>job.
     if target \<notin> set (transitions (j_status job)) then bindP (liftP (transition 0 target job)) (\<lambda>_. ret ())
     else bindP (now_time sv) (\<lambda>t.
          bindP (liftP (transition t target job)) (\<lambda>job'.
          thenP (upd_job (\<lambda>_. job')) (upd_db (db_save job')))))"

definition save_status :: "'x scan_service \<Rightarrow> string \<Rightarrow> qualification_state \<Rightarrow> pystr option \<Rightarrow> (string \<times> pyval) list
    \<Rightarrow> pystr \<Rightarrow> ('x world, unit) py" where
  "save_status sv name q version defs detail =
     bindP (now_time sv) (\<lambda>t. upd_db (save_scanner_status
       \<lparr>rs_scanner_id = name, rs_qualification_state = q, rs_installed_version = version,
        rs_definition_state = defs, rs_last_probe = Some t, rs_last_update = None, rs_detail = Some detail\<rparr>))"

subsection \<open>One requested analyzer\<close>

definition upper_char :: "char \<Rightarrow> char" where
  "upper_char c = (let n = of_char c :: nat in if 97 \<le> n \<and> n \<le> 122 then char_of (n - 32) else c)"

definition upper :: "string \<Rightarrow> string" where
  "upper s = map upper_char s"

text \<open>What a generic result changes in the job.\<close>

definition generic_completeness :: "string \<Rightarrow> analyzer_result \<Rightarrow> string \<Rightarrow> string" where
  "generic_completeness name r old =
     (let document_partial = (name = ''document'' \<and> starts_with ''partial_'' (ar_native_status r));
          c1 = (if document_partial then upper (ar_native_status r) else old)
      in if ar_errors r \<noteq> [] \<and> name \<in> {''executable'', ''document''} \<and> \<not> document_partial
         then (if ar_native_status r \<in> {''partial_limit'', ''unsupported_limit''} then ''PARTIAL_LIMIT''
               else ''PARTIAL_ERROR'')
         else c1)"

definition record_generic :: "string \<Rightarrow> analyzer_result \<Rightarrow> scan_job \<Rightarrow> scan_job" where
  "record_generic name r j =
     j\<lparr>j_analyzer_results := j_analyzer_results j @ [r],
       j_completeness := generic_completeness name r (j_completeness j),
       j_raw_output_refs := j_raw_output_refs j @ (case ar_raw_output r of None \<Rightarrow> [] | Some d \<Rightarrow> [ro_raw_output_id d]),
       j_errors := j_errors j @ map (\<lambda>e. asc name @ asc '': '' @ e) (ar_errors r)\<rparr>"

definition generic_version :: "analyzer_result \<Rightarrow> pystr option" where
  "generic_version r =
     (case ar_engine_version r of
        Some v \<Rightarrow> if v \<noteq> [] then Some v else ar_product_version r
      | None \<Rightarrow> ar_product_version r)"

definition run_generic :: "'x scan_service \<Rightarrow> path \<Rightarrow> string
    \<Rightarrow> (input_artifact \<Rightarrow> path \<Rightarrow> string \<Rightarrow> ('x machine, analyzer_result) py) \<Rightarrow> ('x world, unit) py" where
  "run_generic sv source name analyze =
     tryP
       (bindP (getP w_job) (\<lambda>job.
        bindP (onmachine (analyze (j_input_artifact job) source (j_job_id job))) (\<lambda>r.
        thenP (upd_job (record_generic name r))
          (save_status sv name
             (case ar_qualification_state r of Some q \<Rightarrow> q | None \<Rightarrow> DEGRADED)
             (generic_version r) (ar_definition_state r)
             (asc ''generic object analysis completed'')))))
       (\<lambda>e. add_error (asc name @ asc '': '' @ asc (exn_class e) @ asc '': '' @ ss_exn_text sv e))"

definition qualified_before :: "string \<Rightarrow> db \<Rightarrow> bool" where
  "qualified_before name s =
     (case map_of (scanner_statuses s) name of
        None \<Rightarrow> False | Some st \<Rightarrow> rs_qualification_state st = QUALIFIED)"

definition run_adapter :: "'x scan_service \<Rightarrow> path \<Rightarrow> string \<Rightarrow> 'x scanner_iface \<Rightarrow> ('x world, unit) py" where
  "run_adapter sv source name si =
     bindP (onmachine (si_probe si)) (\<lambda>probe.
     if \<not> pb_available probe \<or> pb_state probe \<noteq> PROBED
     then add_error (asc name @ asc '': '' @ pb_detail probe)
     else
       bindP (getP (\<lambda>w. map_of (scanner_statuses (w_db w)) name)) (\<lambda>previous.
       thenP (bindP (getP w_db) (\<lambda>s. save_status sv name (if qualified_before name s then QUALIFIED else PROBED)
                (pb_version probe) (pb_definition_state probe) (pb_detail probe)))
       (bindP (getP w_job) (\<lambda>job.
        bindP (onmachine (si_prepare si (j_job_id job) source (ss_staging sv))) (\<lambda>prepared.
        finallyP
          (bindP (onmachine (si_run si prepared)) (\<lambda>r0.
           let r = r0\<lparr>sr_selected_reason := Some ''requested and runtime-capable for ordinary-file'',
                      sr_qualification_state := Some (case previous of Some st \<Rightarrow> rs_qualification_state st
                        | None \<Rightarrow> pb_state probe)\<rparr>
           in thenP (upd_job (\<lambda>j. j\<lparr>j_scanner_results := j_scanner_results j @ [r],
                       j_raw_output_refs := j_raw_output_refs j @ [sr_raw_output_ref r]\<rparr>))
              (save_status sv name (if sr_normalized_verdict r = V_ERROR then DEGRADED else QUALIFIED)
                 (sr_engine_version r) (sr_definition_state r)
                 (asc ''real ordinary-file execution completed''))))
          (onmachine (si_cleanup si prepared)))))))"

definition run_requested :: "'x scan_service \<Rightarrow> path \<Rightarrow> string \<Rightarrow> ('x world, unit) py" where
  "run_requested sv source name =
     (if name \<in> {''container'', ''rab-correlation''} then ret ()
      else case ss_generic sv name of
        Some analyze \<Rightarrow> run_generic sv source name analyze
      | None \<Rightarrow>
          (case ss_adapters sv name of
             None \<Rightarrow> add_error (asc name @ asc '': unavailable or not applicable to ordinary files'')
           | Some si \<Rightarrow> run_adapter sv source name si))"

subsection \<open>Executing a job\<close>

definition child_results :: "scan_job \<Rightarrow> scanner_result list" where
  "child_results job = concat (map d_scanner_results (j_derived_objects job))"

text \<open>\<open>(source.stat().st_size, hash_file(source).hashes.sha256) != original\<close>.\<close>

definition source_changed :: "'x scan_service \<Rightarrow> path \<Rightarrow> scan_job \<Rightarrow> ('x world, bool) py" where
  "source_changed sv source job =
     bindP (onmachine (onfs (read_file source))) (\<lambda>bs.
     bindP (now_time sv) (\<lambda>t.
     bindP (onmachine (onfs (hash_file (ss_digests sv) t source ''local-cli'' (asc ''application/octet-stream'')))) (\<lambda>a.
     ret ((int (length bs), h_sha256 (a_hashes a))
          \<noteq> (a_byte_size (j_input_artifact job), h_sha256 (a_hashes (j_input_artifact job)))))))"

definition finish_job :: "'x scan_service \<Rightarrow> path \<Rightarrow> ('x world, unit) py" where
  "finish_job sv source =
     bindP (getP w_job) (\<lambda>job.
     if detected (j_normalized_verdict job)
     then bindP (onmachine (onfs (admit (ss_quarantine sv) source (j_input_artifact job) (j_normalized_verdict job)))) (\<lambda>p.
          thenP (upd_job (\<lambda>j. j\<lparr>j_preservation_decision := Some (''local-quarantine:'' @ last p)\<rparr>))
          (job_transition sv QUARANTINED))
     else thenP (upd_job (\<lambda>j. j\<lparr>j_preservation_decision := Some ''transient-bytes-removed''\<rparr>))
          (job_transition sv COMPLETE))"

definition process_children :: "'x scan_service \<Rightarrow> path \<Rightarrow> ('x world, unit) py" where
  "process_children sv source =
     bindP (getP w_job) (\<lambda>job.
     case ss_recursive sv of
       None \<Rightarrow> ret ()
     | Some process \<Rightarrow>
         whenP (''container'' \<in> set (j_requested_scanners job))
           (thenP (process source)
             (upd_job (\<lambda>j. j\<lparr>j_normalized_verdict := aggregate_verdict (j_scanner_results j @ child_results j)\<rparr>))))"

definition process_correlation :: "'x scan_service \<Rightarrow> ('x world, unit) py" where
  "process_correlation sv =
     bindP (getP w_job) (\<lambda>job.
     case ss_correlation sv of
       None \<Rightarrow> ret ()
     | Some process \<Rightarrow> whenP (''rab-correlation'' \<in> set (j_requested_scanners job)) process)"

definition execute_body :: "'x scan_service \<Rightarrow> path \<Rightarrow> ('x world, unit) py" where
  "execute_body sv source =
     bindP (getP w_job) (\<lambda>job0.
     thenP (forP (run_requested sv source) (j_requested_scanners job0))
     (thenP (upd_job (\<lambda>j. j\<lparr>j_root_verdict := Some (aggregate_verdict (j_scanner_results j)),
                           j_normalized_verdict := aggregate_verdict (j_scanner_results j)\<rparr>))
     (thenP (process_children sv source)
     (thenP (process_correlation sv)
     (bindP (source_changed sv source job0) (\<lambda>changed.
      if changed then raiseP (RuntimeError ''READ_ONLY invariant violated: source changed during scan'')
      else finish_job sv source))))))"

definition cleanup_job :: "'x scan_service \<Rightarrow> ('x world, unit) py" where
  "cleanup_job sv =
     bindP (getP w_job) (\<lambda>job.
     let job_root = ss_staging sv @ [j_job_id job] in
     bindP (getP (\<lambda>w. fs_exists job_root (fst (w_machine w)))) (\<lambda>there.
     thenP (whenP there (onmachine (onfs (rmtree job_root))))
     (upd_db (db_save job))))"

definition execute_queued :: "'x scan_service \<Rightarrow> path \<Rightarrow> ('x world, unit) py" where
  "execute_queued sv source =
     bindP (getP w_job) (\<lambda>job.
     if j_status job \<noteq> QUEUED then raiseP (ValueError ''job must be QUEUED before execution'')
     else thenP (job_transition sv RUNNING)
       (finallyP
          (tryP (execute_body sv source)
             (\<lambda>e. thenP (add_error (ss_exn_text sv e)) (job_transition sv FAILED)))
          (cleanup_job sv)))"

text \<open>
  The correlation service as a job processor: \<open>getp\<close> and \<open>putp\<close> find the provider's state in the
  machine.
\<close>

definition correlation_step ::
  "('x \<Rightarrow> 'p) \<Rightarrow> ('p \<Rightarrow> 'x \<Rightarrow> 'x) \<Rightarrow> 'p provider \<Rightarrow> service_limits \<Rightarrow> (nat \<Rightarrow> int) \<Rightarrow> timestamp \<Rightarrow> ('x world, unit) py" where
  "correlation_step getp putp pv limits clock now =
     zoomP (\<lambda>w. (w_job w, getp (snd (w_machine w))))
       (\<lambda>(job, p) w. w\<lparr>w_job := job, w_machine := (fst (w_machine w), putp p (snd (w_machine w)))\<rparr>)
       (correlation_process pv limits clock now)"

text \<open>\<open>create_queued\<close> and \<open>scan_file\<close>: the new job becomes the state's job object.\<close>

definition create_queued :: "'x scan_service \<Rightarrow> string \<Rightarrow> input_artifact \<Rightarrow> string \<Rightarrow> string list \<Rightarrow> ('x world, unit) py" where
  "create_queued sv job_id artifact source_label requested =
     bindP (now_time sv) (\<lambda>t1.
     bindP (now_time sv) (\<lambda>t2.
     let selected = filter (\<lambda>n. ss_adapters sv n \<noteq> None \<or> ss_generic sv n \<noteq> None) requested;
         job = new_job job_id t1 t2 source_label artifact requested selected (Some ''ordinary-file'')
     in thenP (upd_job (\<lambda>_. job))
        (thenP (upd_db (db_save job))
        (thenP (job_transition sv STAGED) (job_transition sv QUEUED)))))"

definition scan_file :: "'x scan_service \<Rightarrow> string \<Rightarrow> path \<Rightarrow> string list \<Rightarrow> ('x world, unit) py" where
  "scan_file sv job_id source requested =
     bindP (onmachine (onfs (read_file source))) (\<lambda>bs.
     if length bs > ss_maximum_file_bytes sv
     then raiseP (ValueError ''input exceeds configured maximum_file_bytes'')
     else
       bindP (now_time sv) (\<lambda>t.
       bindP (onmachine (onfs (hash_file (ss_digests sv) t source ''local-cli'' (asc ''application/octet-stream'')))) (\<lambda>artifact.
       thenP (create_queued sv job_id artifact ''local-cli'' requested) (execute_queued sv source))))"

subsection \<open>\<open>system_scan\<close> and the scan policy\<close>

record 'x system_iface =
  sy_probe :: "('x machine, probe_result) py"
  sy_scan :: "('x machine, scanner_result) py"

fun system_scan :: "'x scan_service \<Rightarrow> (string \<Rightarrow> 'x system_iface option) \<Rightarrow> string list \<Rightarrow> scanner_result list
    \<Rightarrow> ('x world, scanner_result list) py" where
  "system_scan sv systems [] results = ret results"
| "system_scan sv systems (name # names) results =
     (case systems name of
        None \<Rightarrow> system_scan sv systems names results
      | Some sy \<Rightarrow>
          bindP (onmachine (sy_probe sy)) (\<lambda>probe.
          if \<not> pb_available probe then system_scan sv systems names results
          else
            bindP (onmachine (sy_scan sy)) (\<lambda>r.
            bindP (onmachine (sy_probe sy)) (\<lambda>again.
            thenP (save_status sv name (if sr_normalized_verdict r = V_ERROR then DEGRADED else QUALIFIED)
                     (pb_version again) [] (asc ''real system execution completed''))
              (system_scan sv systems names (results @ [r]))))))"

definition require_read_only :: "scan_policy \<Rightarrow> unit res" where
  "require_read_only p = (if p \<noteq> READ_ONLY then Inl (PermissionError ''M0 permits READ_ONLY scans only'') else Inr ())"

subsection \<open>Verdict precedence\<close>

text \<open>The verdicts in order of precedence.\<close>

fun severity :: "verdict \<Rightarrow> nat" where
  "severity NOT_SCANNED = 0"
| "severity V_UNSUPPORTED = 1"
| "severity V_UNKNOWN = 2"
| "severity CLEAN = 3"
| "severity V_ERROR = 4"
| "severity SUSPICIOUS = 5"
| "severity PUA = 6"
| "severity MALICIOUS = 7"

lemma severity_inj: "severity a = severity b \<longleftrightarrow> a = b"
  by (cases a; cases b) auto

instantiation verdict :: linorder
begin

definition less_eq_verdict :: "verdict \<Rightarrow> verdict \<Rightarrow> bool" where
  "less_eq_verdict a b \<longleftrightarrow> severity a \<le> severity b"

definition less_verdict :: "verdict \<Rightarrow> verdict \<Rightarrow> bool" where
  "less_verdict a b \<longleftrightarrow> severity a < severity b"

instance
  by standard (auto simp: less_eq_verdict_def less_verdict_def severity_inj)

end

lemmas verdict_order = less_eq_verdict_def less_verdict_def

lemma verdict_UNIV: "(UNIV :: verdict set) = {CLEAN, MALICIOUS, SUSPICIOUS, PUA, V_ERROR, V_UNSUPPORTED, NOT_SCANNED, V_UNKNOWN}"
  by (auto intro: verdict.exhaust)

lemma finite_verdicts [simp]: "finite (vs :: verdict set)"
  by (rule finite_subset [OF subset_UNIV]) (simp add: verdict_UNIV)

lemma aggregate_set_Max:
  "aggregate_set vs = (let m = Max (insert NOT_SCANNED vs) in
     if m = V_ERROR \<and> vs \<noteq> {V_ERROR} then V_UNKNOWN else m)"
proof -
  have max: "Max (insert NOT_SCANNED vs) = v" if "v \<in> vs \<or> v = NOT_SCANNED" "\<And>x. x \<in> vs \<Longrightarrow> severity x \<le> severity v" for v
    using that by (intro Max_eqI) (auto simp: verdict_order)
  consider "MALICIOUS \<in> vs" | "MALICIOUS \<notin> vs" "PUA \<in> vs" | "MALICIOUS \<notin> vs" "PUA \<notin> vs" "SUSPICIOUS \<in> vs"
    | "MALICIOUS \<notin> vs" "PUA \<notin> vs" "SUSPICIOUS \<notin> vs" "V_ERROR \<in> vs"
    | "MALICIOUS \<notin> vs" "PUA \<notin> vs" "SUSPICIOUS \<notin> vs" "V_ERROR \<notin> vs" "CLEAN \<in> vs"
    | "MALICIOUS \<notin> vs" "PUA \<notin> vs" "SUSPICIOUS \<notin> vs" "V_ERROR \<notin> vs" "CLEAN \<notin> vs" "V_UNKNOWN \<in> vs"
    | "MALICIOUS \<notin> vs" "PUA \<notin> vs" "SUSPICIOUS \<notin> vs" "V_ERROR \<notin> vs" "CLEAN \<notin> vs" "V_UNKNOWN \<notin> vs" "V_UNSUPPORTED \<in> vs"
    | "vs \<subseteq> {NOT_SCANNED}"
    by (smt (verit, best) insertCI severity.cases subsetI)
  then show ?thesis
  proof cases
    case 1
    have "Max (insert NOT_SCANNED vs) = MALICIOUS" using 1 by (intro max) (simp, case_tac x, auto)
    with 1 show ?thesis by (simp add: aggregate_set_def)
  next
    case 2
    have "Max (insert NOT_SCANNED vs) = PUA" using 2 by (intro max) (simp, case_tac x, auto)
    with 2 show ?thesis by (simp add: aggregate_set_def)
  next
    case 3
    have "Max (insert NOT_SCANNED vs) = SUSPICIOUS" using 3 by (intro max) (simp, case_tac x, auto)
    with 3 show ?thesis by (simp add: aggregate_set_def)
  next
    case 4
    have "Max (insert NOT_SCANNED vs) = V_ERROR" using 4 by (intro max) (simp, case_tac x, auto)
    with 4 show ?thesis by (simp add: aggregate_set_def)
  next
    case 5
    have "Max (insert NOT_SCANNED vs) = CLEAN" using 5 by (intro max) (simp, case_tac x, auto)
    with 5 show ?thesis by (simp add: aggregate_set_def)
  next
    case 6
    have "Max (insert NOT_SCANNED vs) = V_UNKNOWN" using 6 by (intro max) (simp, case_tac x, auto)
    with 6 show ?thesis by (simp add: aggregate_set_def)
  next
    case 7
    have "Max (insert NOT_SCANNED vs) = V_UNSUPPORTED" using 7 by (intro max) (simp, case_tac x, auto)
    with 7 show ?thesis by (simp add: aggregate_set_def)
  next
    case 8
    then have "Max (insert NOT_SCANNED vs) = NOT_SCANNED" by (intro max) auto
    with 8 show ?thesis by (auto simp: aggregate_set_def)
  qed
qed

lemma aggregate_clean_iff:
  "aggregate_verdict rs = CLEAN \<longleftrightarrow>
     CLEAN \<in> set (map sr_normalized_verdict rs)
     \<and> {V_ERROR, MALICIOUS, PUA, SUSPICIOUS} \<inter> set (map sr_normalized_verdict rs) = {}"
  by (auto simp: aggregate_verdict_def aggregate_set_def)

lemma aggregate_detected_iff:
  "detected (aggregate_verdict rs) \<longleftrightarrow> list_ex (\<lambda>r. detected (sr_normalized_verdict r)) rs"
proof -
  have "detected (aggregate_set vs) \<longleftrightarrow> {MALICIOUS, SUSPICIOUS, PUA} \<inter> vs \<noteq> {}" for vs
    by (simp add: aggregate_set_def detected_def)
  moreover have "V \<inter> set (map f rs) \<noteq> {} \<longleftrightarrow> list_ex (\<lambda>r. f r \<in> V) rs" for V and f :: "scanner_result \<Rightarrow> verdict"
    by (induction rs) auto
  ultimately show ?thesis by (simp only: aggregate_verdict_def detected_def)
qed

subsection \<open>What the analyzers leave alone\<close>

text \<open>The part of the state that only \<open>execute_queued\<close> itself may change while it runs.\<close>

definition core :: "'x world \<Rightarrow> job_status \<times> string \<times> input_artifact \<times> string list" where
  "core w = (j_status (w_job w), j_job_id (w_job w), j_input_artifact (w_job w), j_requested_scanners (w_job w))"

text \<open>The contract of a job processor (container recursion, correlation).\<close>

locale job_processor =
  fixes process :: "('x world, unit) py"
  assumes keeps_core: "keeps core process"
begin

lemma status_kept: "process w = (r, w') \<Longrightarrow> j_status (w_job w') = j_status (w_job w)"
  using keepsD [OF keeps_core] by (fastforce simp: core_def)

end

lemma core_erase:
  assumes "erase_contexts job' = erase_contexts job"
  shows "j_status job' = j_status job" "j_job_id job' = j_job_id job" "j_input_artifact job' = j_input_artifact job"
    "j_requested_scanners job' = j_requested_scanners job" "j_normalized_verdict job' = j_normalized_verdict job"
  using arg_cong [OF assms, of j_status] arg_cong [OF assms, of j_job_id] arg_cong [OF assms, of j_input_artifact]
    arg_cong [OF assms, of j_requested_scanners] arg_cong [OF assms, of j_normalized_verdict]
  by (simp_all add: erase_contexts_def)

interpretation correlation: job_processor "correlation_step getp putp pv limits clock now :: ('x world, unit) py"
  for getp putp pv limits clock now
proof
  show "keeps core (correlation_step getp putp pv limits clock now :: ('x world, unit) py)"
    unfolding keeps_def
  proof
    fix w :: "'x world"
    obtain out job p where run: "correlation_process pv limits clock now (w_job w, getp (snd (w_machine w))) = (out, (job, p))"
      by (metis prod_cases3)
    show "core (snd (correlation_step getp putp pv limits clock now w)) = core w"
      using core_erase [OF correlation_process_erase [OF run]]
      by (simp add: correlation_step_def zoomP_def run core_def)
  qed
qed

lemma core_simps [simp]:
  "core (w\<lparr>w_machine := m\<rparr>) = core w" "core (w\<lparr>w_ticks := t\<rparr>) = core w"
  "core (w\<lparr>w_db := d\<rparr>) = core w"
  by (simp_all add: core_def)

lemma keeps_onmachine [keeps_intros]: "keeps core (onmachine m)"
  unfolding onmachine_def by (intro keeps_intros) simp

lemma keeps_now [keeps_intros]: "keeps core (now_time sv)"
  by (simp add: keeps_def now_time_def)

lemma keeps_upd_job [keeps_intros]:
  "(\<And>j. j_status (f j) = j_status j \<and> j_job_id (f j) = j_job_id j \<and> j_input_artifact (f j) = j_input_artifact j
     \<and> j_requested_scanners (f j) = j_requested_scanners j) \<Longrightarrow> keeps core (upd_job f)"
  unfolding upd_job_def by (intro keeps_intros) (simp add: core_def)

lemma keeps_add_error [keeps_intros]: "keeps core (add_error msg)"
  unfolding add_error_def by (intro keeps_intros) simp

lemma keeps_save_status [keeps_intros]: "keeps core (save_status sv name q v d detail)"
  unfolding save_status_def upd_db_def by (intro keeps_intros) (simp add: core_def save_scanner_status_def)

lemma keeps_run_generic [keeps_intros]: "keeps core (run_generic sv source name analyze)"
  unfolding run_generic_def by (intro keeps_intros) (simp add: record_generic_def)

lemma keeps_run_adapter [keeps_intros]: "keeps core (run_adapter sv source name si)"
  unfolding run_adapter_def Let_def by (intro keeps_intros) simp

lemma keeps_run_requested [keeps_intros]: "keeps core (run_requested sv source name)"
  unfolding run_requested_def by (auto intro!: keeps_intros split: option.split)

definition processors_ok :: "'x scan_service \<Rightarrow> bool" where
  "processors_ok sv \<longleftrightarrow>
     (case ss_recursive sv of None \<Rightarrow> True | Some process \<Rightarrow> \<forall>source. job_processor (process source))
     \<and> (case ss_correlation sv of None \<Rightarrow> True | Some process \<Rightarrow> job_processor process)"

lemma keeps_process_children [keeps_intros]:
  "processors_ok sv \<Longrightarrow> keeps core (process_children sv source)"
  unfolding process_children_def
  by (auto simp: processors_ok_def job_processor_def split: option.splits intro!: keeps_intros)

lemma keeps_process_correlation [keeps_intros]:
  "processors_ok sv \<Longrightarrow> keeps core (process_correlation sv)"
  unfolding process_correlation_def
  by (auto simp: processors_ok_def job_processor_def split: option.splits intro!: keeps_intros)

subsection \<open>How a job ends\<close>

lemma bindP_cases:
  assumes "bindP m f s = (r, s')"
  obtains (raised) e where "m s = (Inl e, s')" "r = Inl e"
    | (went) v s1 where "m s = (Inr v, s1)" "f v s1 = (r, s')"
  using assms by (cases "m s"; cases "fst (m s)") (auto simp: bindP_def)

lemma thenP_cases:
  assumes "thenP m k s = (r, s')"
  obtains (raised) e where "m s = (Inl e, s')" "r = Inl e"
    | (went) v s1 where "m s = (Inr v, s1)" "k s1 = (r, s')"
  using assms unfolding thenP_def by (rule bindP_cases)

definition status_of :: "'x world \<Rightarrow> job_status" where
  "status_of w = j_status (w_job w)"

definition stored :: "'x world \<Rightarrow> bool" where
  "stored w \<longleftrightarrow> db_get (j_job_id (w_job w)) (w_db w) = Some (reload_job (w_job w))"

lemma core_eq: "core w' = core w \<Longrightarrow> status_of w' = status_of w \<and> j_job_id (w_job w') = j_job_id (w_job w)
    \<and> j_input_artifact (w_job w') = j_input_artifact (w_job w)
    \<and> j_requested_scanners (w_job w') = j_requested_scanners (w_job w)"
  by (simp add: core_def status_of_def)

lemma job_transition_result:
  assumes "job_transition sv target w = (r, w')"
  shows "(if target \<in> set (transitions (status_of w))
          then r = Inr () \<and> w_job w' = (w_job w)\<lparr>j_status := target, j_updated_at := ss_clock sv (w_ticks w)\<rparr>
             \<and> w_machine w' = w_machine w \<and> stored w'
          else w' = w \<and> (\<exists>m. r = Inl (ValueError m)))"
  using assms
  by (auto simp: job_transition_def py_defs now_time_def transition_def upd_job_def upd_db_def status_of_def
      stored_def store.load_save_eq split: if_splits)

lemma finish_job_result:
  assumes "finish_job sv source w = (r, w')" and "status_of w = RUNNING"
  shows "(\<exists>e. r = Inl e \<and> core w' = core w)
     \<or> (r = Inr () \<and> stored w' \<and> j_job_id (w_job w') = j_job_id (w_job w)
         \<and> j_normalized_verdict (w_job w') = j_normalized_verdict (w_job w)
         \<and> (if detected (j_normalized_verdict (w_job w))
            then status_of w' = QUARANTINED
              \<and> (\<exists>s'. admit (ss_quarantine sv) source (j_input_artifact (w_job w)) (j_normalized_verdict (w_job w))
                     (fst (w_machine w)) = (Inr (quarantine_path (ss_quarantine sv) (j_input_artifact (w_job w))), s')
                   \<and> fst (w_machine w') = s')
            else status_of w' = COMPLETE \<and> w_machine w' = w_machine w))"
proof (cases "detected (j_normalized_verdict (w_job w))")
  case True
  let ?admit = "onmachine (onfs (admit (ss_quarantine sv) source (j_input_artifact (w_job w)) (j_normalized_verdict (w_job w))))"
  from assms(1) True have "bindP ?admit (\<lambda>p. thenP (upd_job (\<lambda>j. j\<lparr>j_preservation_decision := Some (''local-quarantine:'' @ last p)\<rparr>))
          (job_transition sv QUARANTINED)) w = (r, w')"
    by (simp add: finish_job_def bindP_def)
  then show ?thesis
  proof (cases rule: bindP_cases)
    case (raised e)
    with keepsD [OF keeps_onmachine raised(1)] show ?thesis by blast
  next
    case (went p w1)
    obtain s' where adm: "admit (ss_quarantine sv) source (j_input_artifact (w_job w)) (j_normalized_verdict (w_job w))
        (fst (w_machine w)) = (Inr p, s')" "w1 = w\<lparr>w_machine := (s', snd (w_machine w))\<rparr>"
      using went(1) by (auto simp: onmachine_def onfs_def zoomP_def split: prod.splits)
    then have p: "p = quarantine_path (ss_quarantine sv) (j_input_artifact (w_job w))"
      by (auto simp: admit_def py_defs Let_def split: if_splits sum.splits prod.splits)
    from went(2) obtain w2 where w2: "w2 = w1\<lparr>w_job := (w_job w1)\<lparr>j_preservation_decision := Some (''local-quarantine:'' @ last p)\<rparr>\<rparr>"
      "job_transition sv QUARANTINED w2 = (r, w')"
      by (auto simp: upd_job_def thenP_def bindP_def)
    have "status_of w2 = RUNNING" using assms(2) adm(2) w2(1) by (simp add: status_of_def)
    with job_transition_result [OF w2(2)] show ?thesis using True adm p w2(1) by (simp add: status_of_def)
  qed
next
  case False
  define w2 where "w2 = w\<lparr>w_job := (w_job w)\<lparr>j_preservation_decision := Some ''transient-bytes-removed''\<rparr>\<rparr>"
  from assms(1) False have "job_transition sv COMPLETE w2 = (r, w')"
    by (simp add: finish_job_def bindP_def thenP_def upd_job_def w2_def)
  from job_transition_result [OF this] assms(2) False show ?thesis
    by (simp add: status_of_def w2_def)
qed

text \<open>The check that the source is what it was when the job was created.\<close>

definition source_intact :: "'x scan_service \<Rightarrow> path \<Rightarrow> input_artifact \<Rightarrow> fs \<Rightarrow> bool" where
  "source_intact sv source a s \<longleftrightarrow>
     (case file_at source s of None \<Rightarrow> False
      | Some bs \<Rightarrow> int (length bs) = a_byte_size a \<and> dg_sha256 (ss_digests sv) bs = h_sha256 (a_hashes a))"

lemma keeps_source_changed [keeps_intros]: "keeps core (source_changed sv source job)"
  unfolding source_changed_def by (intro keeps_intros)

lemma source_changed_False:
  assumes "source_changed sv source job w = (Inr False, w')"
  shows "source_intact sv source (j_input_artifact job) (fst (w_machine w')) \<and> w_job w' = w_job w"
proof -
  from assms obtain bs where bs: "file_at source (fst (w_machine w)) = Some bs"
    by (auto simp: source_changed_def py_defs onmachine_def onfs_def read_file_def split: prod.splits option.splits sum.splits)
  with assms show ?thesis
    by (auto simp: source_changed_def py_defs onmachine_def onfs_def read_file_def now_time_def hash_file_def
        source_intact_def read_chunked_exact validate_input_artifact_def validate_hashes_def hashes_of_def
        split: prod.splits option.splits sum.splits if_splits)
qed

lemma execute_body_result:
  assumes "execute_body sv source w = (r, w')" and "status_of w = RUNNING" and ok: "processors_ok sv"
  shows "(\<exists>e. r = Inl e \<and> status_of w' = RUNNING \<and> j_job_id (w_job w') = j_job_id (w_job w))
     \<or> (r = Inr () \<and> j_job_id (w_job w') = j_job_id (w_job w)
         \<and> (\<exists>w1. source_intact sv source (j_input_artifact (w_job w)) (fst (w_machine w1))
              \<and> status_of w1 = RUNNING \<and> j_input_artifact (w_job w1) = j_input_artifact (w_job w)
              \<and> finish_job sv source w1 = (Inr (), w')))"
proof -
  let ?pre = "thenP (forP (run_requested sv source) (j_requested_scanners (w_job w)))
     (thenP (upd_job (\<lambda>j. j\<lparr>j_root_verdict := Some (aggregate_verdict (j_scanner_results j)),
                           j_normalized_verdict := aggregate_verdict (j_scanner_results j)\<rparr>))
     (thenP (process_children sv source) (process_correlation sv)))"
  let ?check = "\<lambda>changed. if changed then raiseP (RuntimeError ''READ_ONLY invariant violated: source changed during scan'')
      else finish_job sv source"
  have pre: "keeps core ?pre"
    by (intro keeps_intros ok) auto
  have assoc: "thenP a (thenP b (thenP c (thenP d k))) s = thenP (thenP a (thenP b (thenP c d))) k s"
    for a b c d :: "('x world, unit) py" and k :: "('x world, 'b) py" and s
    by (simp add: thenP_def bindP_def split: prod.split sum.split)
  from assms(1) have "thenP ?pre (bindP (source_changed sv source (w_job w)) ?check) w = (r, w')"
    unfolding execute_body_def by (simp add: bindP_def [of "getP w_job"] assoc [symmetric])
  then show ?thesis
  proof (cases rule: thenP_cases)
    case (raised e)
    with core_eq [OF keepsD [OF pre raised(1)]] assms(2) show ?thesis by auto
  next
    case (went u w1)
    note c1 = core_eq [OF keepsD [OF pre went(1)]]
    from went(2) show ?thesis
    proof (cases rule: bindP_cases)
      case (raised e)
      with core_eq [OF keepsD [OF keeps_source_changed raised(1)]] c1 assms(2) show ?thesis by auto
    next
      case (went changed w2)
      note c2 = core_eq [OF keepsD [OF keeps_source_changed went(1)]]
      show ?thesis
      proof (cases changed)
        case True
        with went(2) c1 c2 assms(2) show ?thesis by auto
      next
        case False
        with went have fin: "finish_job sv source w2 = (r, w')" and same: "source_changed sv source (w_job w) w1 = (Inr False, w2)"
          by simp_all
        from source_changed_False [OF same] c1 c2 finish_job_result [OF fin] fin assms(2) show ?thesis
          by (auto dest: core_eq)
      qed
    qed
  qed
qed

lemma cleanup_result:
  assumes "cleanup_job sv w = (r, w')"
  shows "w_job w' = w_job w \<and> (stored w \<longrightarrow> stored w') \<and> (r = Inr () \<or> r = Inl OSError)
     \<and> (\<forall>p. file_at p (fst (w_machine w')) =
           (if below (ss_staging sv @ [j_job_id (w_job w)]) p \<and> r = Inr () \<and> is_dir (ss_staging sv @ [j_job_id (w_job w)]) (fst (w_machine w))
            then None else file_at p (fst (w_machine w))))"
proof (cases "fs_exists (ss_staging sv @ [j_job_id (w_job w)]) (fst (w_machine w))")
  case False
  with assms show ?thesis
    by (auto simp: cleanup_job_def Let_def py_defs upd_db_def stored_def store.load_save_eq fs_exists_def)
next
  case True
  with assms show ?thesis
    by (auto simp: cleanup_job_def Let_def py_defs upd_db_def stored_def store.load_save_eq onmachine_def onfs_def rmtree_def
        file_at_def map_of_filter_key split: prod.splits if_splits)
qed

text \<open>The possible ends of a queued job.\<close>

definition job_finished :: "'x scan_service \<Rightarrow> path \<Rightarrow> scan_job \<Rightarrow> (unit res \<times> 'x world) \<Rightarrow> bool" where
  "job_finished sv source job out \<longleftrightarrow>
     (case out of (r, w') \<Rightarrow>
        j_job_id (w_job w') = j_job_id job
        \<and> stored w' \<and> (r = Inr () \<or> r = Inl OSError)
        \<and> (status_of w' = FAILED
           \<or> status_of w' = COMPLETE \<and> \<not> detected (j_normalized_verdict (w_job w'))
             \<and> (below (ss_staging sv @ [j_job_id job]) source \<or> source_intact sv source (j_input_artifact job) (fst (w_machine w')))
           \<or> status_of w' = QUARANTINED \<and> detected (j_normalized_verdict (w_job w'))))"

lemma execute_queued_result:
  assumes "status_of w = QUEUED" and ok: "processors_ok sv"
  shows "job_finished sv source (w_job w) (execute_queued sv source w)"
proof -
  obtain r w' where run: "execute_queued sv source w = (r, w')" by fastforce
  obtain r0 w0 where t: "job_transition sv RUNNING w = (r0, w0)" by fastforce
  from job_transition_result [OF t] assms(1) have r0: "r0 = Inr ()"
    and w0: "w_job w0 = (w_job w)\<lparr>j_status := RUNNING, j_updated_at := ss_clock sv (w_ticks w)\<rparr>"
      "w_machine w0 = w_machine w" by simp_all
  have running: "status_of w0 = RUNNING" by (simp add: w0 status_of_def)
  let ?handler = "\<lambda>e. thenP (add_error (ss_exn_text sv e)) (job_transition sv FAILED)"
  obtain r1 w1 where body: "execute_body sv source w0 = (r1, w1)" by fastforce
  obtain r2 w2 where handled: "tryP (execute_body sv source) ?handler w0 = (r2, w2)" by fastforce
  obtain r3 w3 where clean: "cleanup_job sv w2 = (r3, w3)" by fastforce
  have res: "w' = w3" "r = (case r3 of Inl e \<Rightarrow> Inl e | Inr _ \<Rightarrow> r2)"
    using run assms(1) t r0 handled clean
    by (auto simp: execute_queued_def py_defs status_of_def split: sum.splits)
  have "r2 = Inr () \<and> stored w2 \<and> j_job_id (w_job w2) = j_job_id (w_job w)
      \<and> (status_of w2 = FAILED
         \<or> status_of w2 = COMPLETE \<and> \<not> detected (j_normalized_verdict (w_job w2))
             \<and> source_intact sv source (j_input_artifact (w_job w)) (fst (w_machine w2))
         \<or> status_of w2 = QUARANTINED \<and> detected (j_normalized_verdict (w_job w2)))"
    using execute_body_result [OF body running ok]
  proof (elim disjE exE conjE)
    fix e assume e: "r1 = Inl e" "status_of w1 = RUNNING" "j_job_id (w_job w1) = j_job_id (w_job w0)"
    define wx where "wx = w1\<lparr>w_job := (w_job w1)\<lparr>j_errors := j_errors (w_job w1) @ [ss_exn_text sv e]\<rparr>\<rparr>"
    have "job_transition sv FAILED wx = (r2, w2)"
      using handled body e(1) by (simp add: tryP_def thenP_def bindP_def add_error_def upd_job_def wx_def)
    from job_transition_result [OF this] e show ?thesis by (simp add: wx_def status_of_def w0)
  next
    fix wf
    assume f: "r1 = Inr ()" "source_intact sv source (j_input_artifact (w_job w0)) (fst (w_machine wf))"
      "status_of wf = RUNNING" "j_input_artifact (w_job wf) = j_input_artifact (w_job w0)"
      "finish_job sv source wf = (Inr (), w1)" "j_job_id (w_job w1) = j_job_id (w_job w0)"
    have "r2 = Inr ()" "w2 = w1" using handled body f(1) by (simp_all add: tryP_def)
    with finish_job_result [OF f(5,3)] f show ?thesis by (auto simp: w0 split: if_splits)
  qed
  with cleanup_result [OF clean] res show ?thesis
    by (auto simp: job_finished_def run source_intact_def status_of_def split: sum.splits option.splits)
qed

lemma finish_content:
  assumes "finish_job sv source w = (Inr (), w')" and "status_of w = RUNNING"
    and "detected (j_normalized_verdict (w_job w))"
    and "source_intact sv source (j_input_artifact (w_job w)) (fst (w_machine w))"
    and "\<not> fs_exists (quarantine_path (ss_quarantine sv) (j_input_artifact (w_job w))) (fst (w_machine w))"
  shows "source_intact sv (quarantine_path (ss_quarantine sv) (j_input_artifact (w_job w))) (j_input_artifact (w_job w)) (fst (w_machine w'))"
proof -
  let ?dest = "quarantine_path (ss_quarantine sv) (j_input_artifact (w_job w))"
  from finish_job_result [OF assms(1,2)] assms(3) obtain s' where
    adm: "admit (ss_quarantine sv) source (j_input_artifact (w_job w)) (j_normalized_verdict (w_job w)) (fst (w_machine w)) = (Inr ?dest, s')"
    and s': "fst (w_machine w') = s'" by auto
  from admit_new [OF adm assms(3,5)] assms(4) show ?thesis
    by (auto simp: source_intact_def s' split: option.splits)
qed

definition sample_service :: "unit scan_service" where
  "sample_service = \<lparr>ss_adapters = (\<lambda>n. if n = ''clamav'' then Some (adapter_iface sample_adapter) else None),
     ss_generic = (\<lambda>_. None), ss_recursive = None,
     ss_correlation = Some (correlation_step (\<lambda>_. ()) (\<lambda>_ x. x) unavailable_provider
        \<lparr>lim_max_objects = 10, lim_max_similarity_queries = 5, lim_total_deadline = 30\<rparr> int 0),
     ss_staging = [''staging''], ss_quarantine = [''quarantine''], ss_maximum_file_bytes = 100,
     ss_digests = ad_digests sample_adapter, ss_clock = int, ss_exn_text = (\<lambda>_. [])\<rparr>"

definition sample_world :: "unit world" where
  "sample_world = \<lparr>w_machine = (sample_fs, ()), w_db = db_save sample_job empty_db, w_job = sample_job, w_ticks = 0\<rparr>"

subsection \<open>Properties of scanning\<close>

text \<open>
  The aggregated verdict is the most severe verdict of the results (malicious over PUA over
  suspicious over error over clean over unknown over unsupported over not scanned), except that
  errors among other results make it unknown.
\<close>

lemma aggregate_verdict_is_max:
  "aggregate_verdict rs = (let vs = set (map sr_normalized_verdict rs); m = Max (insert NOT_SCANNED vs) in
     if m = V_ERROR \<and> vs \<noteq> {V_ERROR} then V_UNKNOWN else m)"
  unfolding aggregate_verdict_def aggregate_set_Max by (simp add: Let_def)

text \<open>
  The job is called clean exactly when some detector said clean and none reported an error, a
  match or a suspicion, and it counts as detected exactly when one detector detected something.
\<close>

lemma aggregate_clean_and_detected:
  "(aggregate_verdict rs = CLEAN \<longleftrightarrow>
      CLEAN \<in> set (map sr_normalized_verdict rs)
      \<and> {V_ERROR, MALICIOUS, PUA, SUSPICIOUS} \<inter> set (map sr_normalized_verdict rs) = {})
   \<and> (detected (aggregate_verdict rs) \<longleftrightarrow> list_ex (\<lambda>r. detected (sr_normalized_verdict r)) rs)"
  using aggregate_clean_iff aggregate_detected_iff by blast

text \<open>
  C1: whatever the detectors, analyzers and tools do, executing a queued job ends it. With job
  processors that keep their contract, the job ends \<open>FAILED\<close>, or \<open>COMPLETE\<close> with no detection and
  (unless the source lies in the removed staging directory) a source that still has the size and
  SHA-256 of the artifact, or \<open>QUARANTINED\<close> with a detection; the stored document is the final job,
  and nothing is raised but the \<open>OSError\<close> of removing the staging directory.
\<close>

theorem execute_queued_ends_job:
  assumes "status_of w = QUEUED" and "processors_ok sv"
  shows "job_finished sv source (w_job w) (execute_queued sv source w)"
  using assms by (rule execute_queued_result)

theorem execute_queued_ends_job_witness:
  "job_finished sample_service [''in''] sample_job (execute_queued sample_service [''in''] sample_world)"
proof -
  have "status_of sample_world = QUEUED" by (simp add: status_of_def sample_world_def sample_job_def)
  moreover have "processors_ok sample_service"
    by (simp add: processors_ok_def sample_service_def correlation.job_processor_axioms)
  ultimately have "job_finished sample_service [''in''] (w_job sample_world) (execute_queued sample_service [''in''] sample_world)"
    by (rule execute_queued_ends_job)
  then show ?thesis by (simp add: sample_world_def)
qed

text \<open>
  The quarantine is content addressed. When a running job with a detection is finished, and
  its source is intact and not yet in quarantine, a normal end leaves under the path of the
  artifact's digest a file of the artifact's size with exactly that SHA-256.
\<close>

lemma quarantine_content_addressed:
  assumes "finish_job sv source w = (Inr (), w')" and "status_of w = RUNNING"
    and "detected (j_normalized_verdict (w_job w))"
    and "source_intact sv source (j_input_artifact (w_job w)) (fst (w_machine w))"
    and "\<not> fs_exists (quarantine_path (ss_quarantine sv) (j_input_artifact (w_job w))) (fst (w_machine w))"
  shows "source_intact sv (quarantine_path (ss_quarantine sv) (j_input_artifact (w_job w))) (j_input_artifact (w_job w)) (fst (w_machine w'))"
  using assms by (rule finish_content)

definition sample_detected :: "unit world" where
  "sample_detected = sample_world\<lparr>w_job := sample_job\<lparr>j_status := RUNNING, j_normalized_verdict := MALICIOUS,
     j_input_artifact := sample_artifact\<lparr>a_hashes := (a_hashes sample_artifact)\<lparr>h_sha256 := ''d''\<rparr>\<rparr>\<rparr>\<rparr>"

lemma quarantine_content_addressed_witness:
  "\<exists>w'. finish_job sample_service [''in''] sample_detected = (Inr (), w')
     \<and> source_intact sample_service [''quarantine'', ''sha256'', ''d'', ''d''] (j_input_artifact (w_job sample_detected)) (fst (w_machine w'))"
proof -
  obtain r w' where run: "finish_job sample_service [''in''] sample_detected = (r, w')" by fastforce
  have st: "status_of sample_detected = RUNNING" by (simp add: status_of_def sample_detected_def)
  have det: "detected (j_normalized_verdict (w_job sample_detected))" by (simp add: sample_detected_def detected_def)
  have intact: "source_intact sample_service [''in''] (j_input_artifact (w_job sample_detected)) (fst (w_machine sample_detected))"
    by (simp add: source_intact_def sample_detected_def sample_world_def sample_fs_def sample_artifact_def file_at_def
        sample_service_def sample_adapter_def)
  have path: "quarantine_path (ss_quarantine sample_service) (j_input_artifact (w_job sample_detected)) = [''quarantine'', ''sha256'', ''d'', ''d'']"
    by (simp add: quarantine_path_def Let_def sample_service_def sample_detected_def sample_artifact_def)
  have free: "\<not> fs_exists (quarantine_path (ss_quarantine sample_service) (j_input_artifact (w_job sample_detected))) (fst (w_machine sample_detected))"
    unfolding path by (simp add: fs_exists_def is_dir_def file_at_def sample_detected_def sample_world_def sample_fs_def)
  have "r = Inr ()"
    using run
    by (simp add: finish_job_def sample_detected_def sample_world_def sample_fs_def sample_service_def py_defs detected_def
        admit_def onmachine_def onfs_def quarantine_path_def sample_artifact_def with_incoming_def fs_exists_def is_dir_def
        file_at_def mkdir_parents_def path_prefixes_def read_file_def read_chunked_exact write_new_def rename_def
        put_file_def drop_file_def upd_job_def upd_db_def job_transition_def now_time_def transition_def sample_job_def
        new_job_def Let_def)
  with quarantine_content_addressed [OF _ st det intact free] run show ?thesis by (auto simp: path)
qed


end
