(* ===== verification/Protocol.thy ===== *)
theory Protocol
  imports Scanning
begin

section \<open>The RAB protocol service: \<open>protocol/service.py\<close>\<close>

text \<open>
  Authentication, idempotent submission of an uploaded object into the bounded queue, the
  worker, status and results, and shutdown. An operation runs from its call to its end; the
  queue holds the job objects themselves, which the worker mutates. Reading the credential and
  profile files and decoding them is an argument, as are the identifiers that \<open>uuid4\<close> draws.
\<close>

subsection \<open>Settings, clients, state\<close>

record credential_entry =
  ce_token :: pystr
  ce_client_id :: "string option"
  ce_scopes :: "string list"

record rab_client =
  cl_client_id :: string
  cl_scopes :: "string list"

record rab_settings =
  rab_enabled :: bool
  rab_upload_root :: path
  rab_maximum_upload_bytes :: nat
  rab_queue_capacity :: nat
  rab_worker_concurrency :: nat

record 'x rab_service =
  rs_settings :: rab_settings
  rs_scans :: "'x scan_service"
  rs_profiles :: "(string \<times> analysis_profile) list"
  rs_raw_output_root :: path
  rs_generic_probe :: "string \<Rightarrow> bool \<times> qualification_state"
  rs_printable :: "nat \<Rightarrow> bool"

record 'x rab_state =
  rb_world :: "'x world"
  rb_queue :: "(scan_job \<times> path) option list"

definition onworld :: "('x world, 'a) py \<Rightarrow> ('x rab_state, 'a) py" where
  "onworld m = zoomP rb_world (\<lambda>w s. s\<lparr>rb_world := w\<rparr>) m"

definition onfiles :: "(fs, 'a) py \<Rightarrow> ('x rab_state, 'a) py" where
  "onfiles m = onworld (onmachine (onfs m))"

definition rab_error :: "nat \<Rightarrow> error_code \<Rightarrow> string \<Rightarrow> ('s, 'a) py" where
  "rab_error status code detail = raiseP (RABProtocolError status code detail)"

text \<open>\<open>_load_profiles\<close>: a dictionary comprehension, then the comparison of the lengths.\<close>

definition load_profiles :: "analysis_profile list \<Rightarrow> (string \<times> analysis_profile) list res" where
  "load_profiles profiles =
     (let vals = fold (\<lambda>p d. AList.update (qualified_id p) p d) profiles []
      in if length vals \<noteq> length profiles then Inl (ValueError ''duplicate qualified analysis profile ID'')
         else Inr vals)"

subsection \<open>\<open>authenticate\<close>\<close>

text \<open>\<open>hmac.compare_digest\<close> of two strings raises \<open>TypeError\<close> unless both are ASCII.\<close>

definition compare_digest :: "pystr \<Rightarrow> pystr \<Rightarrow> bool res" where
  "compare_digest a b =
     (if list_all (\<lambda>c. c < 128) (a @ b) then Inr (a = b)
      else Inl (TypeError ''comparing strings with non-ASCII characters is not supported''))"

fun match_client :: "pystr \<Rightarrow> string \<Rightarrow> credential_entry list \<Rightarrow> rab_client res" where
  "match_client supplied scope [] =
     Inl (RABProtocolError 401 AUTHENTICATION_REQUIRED ''credential is invalid'')"
| "match_client supplied scope (v # vs) =
     (if ce_token v = [] then match_client supplied scope vs
      else bindE (compare_digest supplied (ce_token v)) (\<lambda>same.
        if \<not> same then match_client supplied scope vs
        else case ce_client_id v of
          None \<Rightarrow> Inl (KeyError ''client_id'')
        | Some cid \<Rightarrow>
            if scope \<notin> set (ce_scopes v)
            then Inl (RABProtocolError 403 FORBIDDEN ''client lacks the required scope'')
            else Inr \<lparr>cl_client_id = cid, cl_scopes = ce_scopes v\<rparr>))"

definition authenticate :: "credential_entry list res \<Rightarrow> pystr option \<Rightarrow> string \<Rightarrow> rab_client res" where
  "authenticate store authorization scope =
     (case authorization of
        None \<Rightarrow> Inl (RABProtocolError 401 AUTHENTICATION_REQUIRED ''a bearer credential is required'')
      | Some a \<Rightarrow>
          if a = [] \<or> \<not> starts_with (asc ''Bearer '') a
          then Inl (RABProtocolError 401 AUTHENTICATION_REQUIRED ''a bearer credential is required'')
          else
            let supplied = drop 7 a in
            (case store of
               Inl e \<Rightarrow>
                 if e = OSError \<or> value_error e
                 then Inl (RABProtocolError 503 STORAGE_UNAVAILABLE ''credential store is unavailable'')
                 else Inl e
             | Inr entries \<Rightarrow> match_client supplied scope entries))"

subsection \<open>Views of a job\<close>

definition find_job :: "string \<Rightarrow> ('x rab_state, scan_job \<times> rab_row) py" where
  "find_job job_id =
     bindP (getP (\<lambda>s. (db_get job_id (w_db (rb_world s)), rab_job job_id (w_db (rb_world s))))) (\<lambda>found.
     case found of
       (Some job, Some row) \<Rightarrow> ret (job, row)
     | _ \<Rightarrow> rab_error 404 NOT_FOUND ''analysis job was not found'')"

definition accepted_view :: "bool \<Rightarrow> scan_job \<times> rab_row \<Rightarrow> analysis_job_accepted" where
  "accepted_view duplicate found =
     (case found of (job, row) \<Rightarrow>
        \<lparr>acc_job_id = j_job_id job,
         acc_object_id = ''sha256:'' @ h_sha256 (a_hashes (j_input_artifact job)),
         acc_object_sha256 = h_sha256 (a_hashes (j_input_artifact job)),
         acc_profile = rr_profile row, acc_state = j_status job, acc_created_at = j_submitted_at job,
         acc_duplicate = duplicate,
         acc_links = [(''self'', ''/api/v1/rab/analysis-jobs/'' @ j_job_id job),
           (''results'', ''/api/v1/rab/analysis-jobs/'' @ j_job_id job @ ''/results'')]\<rparr>)"

definition accepted :: "string \<Rightarrow> bool \<Rightarrow> ('x rab_state, analysis_job_accepted) py" where
  "accepted job_id duplicate = bindP (find_job job_id) (\<lambda>found. ret (accepted_view duplicate found))"

definition job_status_view :: "string \<Rightarrow> ('x rab_state, analysis_job_status) py" where
  "job_status_view job_id =
     bindP (find_job job_id) (\<lambda>(job, row). ret
       \<lparr>ajs_job_id = j_job_id job, ajs_object_sha256 = h_sha256 (a_hashes (j_input_artifact job)),
        ajs_profile = rr_profile row, ajs_state = j_status job, ajs_created_at = j_submitted_at job,
        ajs_updated_at = j_updated_at job, ajs_client_request_id = rr_client_request_id row\<rparr>)"

subsection \<open>Results\<close>

text \<open>\<open>reference.removeprefix("raw-output/")\<close> below the raw output directory.\<close>

definition split_slash :: "string \<Rightarrow> string list" where
  "split_slash s = foldr (\<lambda>c acc. if c = CHR ''/'' then [] # acc else (c # hd acc) # tl acc) s [[]]"

definition raw_path :: "path \<Rightarrow> string \<Rightarrow> path" where
  "raw_path raw_dir reference =
     (let relative = (if starts_with ''raw-output/'' reference then drop 11 reference else reference)
      in raw_dir @ filter (\<lambda>c. c \<noteq> [] \<and> c \<noteq> ''.'') (split_slash relative))"

definition raw_descriptor :: "'x rab_service \<Rightarrow> string \<Rightarrow> ('x rab_state, raw_output_descriptor) py" where
  "raw_descriptor rs reference =
     (let p = raw_path (rs_raw_output_root rs) reference in
      bindP (getP (\<lambda>s. file_at p (fst (w_machine (rb_world s))))) (\<lambda>content.
      if content = None then ret \<lparr>ro_raw_output_id = reference, ro_sha256 = None, ro_size = None\<rparr>
      else
        bindP (onworld (now_time (rs_scans rs))) (\<lambda>t.
        bindP (onfiles (hash_file (ss_digests (rs_scans rs)) t p ''local-cli'' (asc ''application/octet-stream''))) (\<lambda>a.
        ret \<lparr>ro_raw_output_id = reference, ro_sha256 = Some (h_sha256 (a_hashes a)), ro_size = Some (nat (a_byte_size a))\<rparr>))))"

definition result_findings :: "scanner_result \<Rightarrow> finding list" where
  "result_findings r =
     (if (sr_detection_name r \<noteq> None \<and> sr_detection_name r \<noteq> Some []) \<or> sr_finding_kind r \<noteq> None
      then [\<lparr>f_type = (case sr_finding_kind r of None \<Rightarrow> ''detector_finding'' | Some k \<Rightarrow> finding_kind_value k),
             f_analyzer_id = sr_scanner_id r, f_native_name = sr_detection_name r,
             f_normalized_verdict = Some (sr_normalized_verdict r),
             f_evidence_refs = [asc (sr_raw_output_ref r)]\<rparr>]
      else [])"

definition map_result :: "'x rab_service \<Rightarrow> scanner_result \<Rightarrow> ('x rab_state, analyzer_result) py" where
  "map_result rs r =
     bindP (raw_descriptor rs (sr_raw_output_ref r)) (\<lambda>raw. ret
       \<lparr>ar_analyzer_id = sr_scanner_id r,
        ar_analyzer_class = (if sr_scanner_id r = ''clamav'' then ANTIVIRUS_ENGINE else RULE_ENGINE),
        ar_product = (if sr_scanner_id r = ''clamav'' then ''ClamAV'' else ''YARA''),
        ar_implementation = None, ar_product_version = None, ar_engine_version = sr_engine_version r,
        ar_definition_state = sr_definition_state r, ar_qualification_state = sr_qualification_state r,
        ar_started_at = map_option (\<lambda>d. sr_scanned_at r - d) (sr_duration_seconds r),
        ar_completed_at = sr_scanned_at r, ar_duration_seconds = sr_duration_seconds r,
        ar_execution_profile = sr_runtime_profile r, ar_native_status = sr_native_verdict r,
        ar_native_exit_code = sr_exit_code r, ar_normalized_verdict = Some (sr_normalized_verdict r),
        ar_observations = [], ar_findings = result_findings r, ar_assessments = [], ar_raw_output = Some raw,
        ar_errors = [], ar_structural_validation = None\<rparr>)"

fun map_results :: "'x rab_service \<Rightarrow> scanner_result list \<Rightarrow> ('x rab_state, analyzer_result list) py" where
  "map_results rs [] = ret []"
| "map_results rs (r # rest) =
     bindP (map_result rs r) (\<lambda>m. bindP (map_results rs rest) (\<lambda>ms. ret (m # ms)))"

definition terminal :: "job_status \<Rightarrow> bool" where
  "terminal s \<longleftrightarrow> s \<in> {COMPLETE, FAILED, QUARANTINED}"

definition envelope_of :: "scan_job \<Rightarrow> rab_row \<Rightarrow> analyzer_result list \<Rightarrow> analysis_result_envelope" where
  "envelope_of job row mapped =
     (let a = j_input_artifact job; h = a_hashes a;
          analyzers = j_analyzer_results job @ mapped;
          starts = concat (map (\<lambda>r. case ar_started_at r of None \<Rightarrow> [] | Some t \<Rightarrow> [t]) analyzers)
      in \<lparr>env_job_id = j_job_id job,
          env_object = \<lparr>oi_sha256 = h_sha256 h, oi_blake3 = Some (h_blake3 h), oi_sha1 = Some (h_sha1 h),
             oi_md5 = Some (h_md5 h), oi_size = a_byte_size a, oi_filename = Some (a_filename a),
             oi_media_type = Some (a_media_type a)\<rparr>,
          env_profile = rr_profile row, env_state = j_status job,
          env_started_at = (if starts = [] then None else Some (foldr min (tl starts) (hd starts))),
          env_completed_at = (if terminal (j_status job) then Some (j_updated_at job) else None),
          env_analyzers = analyzers,
          env_observations =
            \<lparr>o_type = ''object_identity'',
             o_value = PDict [(''sha256'', PAsc (h_sha256 h)), (''size'', PInt (a_byte_size a))],
             o_analyzer_id = ''avbox.identity'', o_evidence_refs = [], o_source = None,
             o_observed_at = None, o_confidence = None\<rparr> # concat (map ar_observations analyzers),
          env_findings = concat (map ar_findings analyzers),
          env_assessments = concat (map ar_assessments analyzers),
          env_verdict = (if j_scanner_results job \<noteq> [] then Some (j_normalized_verdict job) else None),
          env_preservation_context = (j_preservation_context job)\<lparr>pc_provenance :=
             [(''client_id'', PAsc (rr_client_id row)), (''client_request_id'', PStr (rr_client_request_id row)),
              (''profile'', PAsc (rr_profile row))]\<rparr>,
          env_structural_validation =
             concat (map (\<lambda>r. case ar_structural_validation r of None \<Rightarrow> [] | Some v \<Rightarrow> [v]) analyzers),
          env_relationships = j_relationships job, env_derived_objects = j_derived_objects job,
          env_completeness = j_completeness job, env_extraction_budget = j_extraction_budget job,
          env_extraction_usage = j_extraction_usage job, env_errors = j_errors job,
          env_provenance = [(''requested_by'', PAsc (rr_client_id row)), (''verified_sha256'', PAsc (h_sha256 h)),
             (''scan_policy'', PAsc (if j_scan_policy job = READ_ONLY then ''READ_ONLY'' else ''REPAIR_COPY'')),
             (''root_verdict'', case j_root_verdict job of None \<Rightarrow> PNone | Some v \<Rightarrow> PAsc (verdict_value v))]\<rparr>)"

definition results_view :: "'x rab_service \<Rightarrow> string \<Rightarrow> ('x rab_state, analysis_result_envelope) py" where
  "results_view rs job_id =
     bindP (find_job job_id) (\<lambda>(job, row).
     bindP (map_results rs (j_scanner_results job)) (\<lambda>mapped. ret (envelope_of job row mapped)))"

subsection \<open>\<open>submit_stream\<close>\<close>

definition safe_label :: "(nat \<Rightarrow> bool) \<Rightarrow> pystr \<Rightarrow> pystr option" where
  "safe_label printable v =
     (let cleaned = take 255 (filter printable v);
          parts = filter (\<lambda>c. c \<noteq> [] \<and> c \<noteq> [46])
                    (foldr (\<lambda>c acc. if c = 47 then [] # acc else (c # hd acc) # tl acc) cleaned [[]])
      in if parts = [] then None else Some (last parts))"

definition analyzer_available :: "'x rab_service \<Rightarrow> (string \<times> scanner_runtime_status) list \<Rightarrow> string \<Rightarrow> bool" where
  "analyzer_available rs runtime analyzer =
     (if analyzer = ''rab-correlation'' then ss_correlation (rs_scans rs) \<noteq> None
      else if analyzer = ''container'' then ss_recursive (rs_scans rs) \<noteq> None
      else if ss_generic (rs_scans rs) analyzer \<noteq> None
      then fst (rs_generic_probe rs analyzer) \<and> snd (rs_generic_probe rs analyzer) \<in> {PROBED, QUALIFIED}
      else ss_adapters (rs_scans rs) analyzer \<noteq> None
        \<and> (case map_of runtime analyzer of None \<Rightarrow> False | Some st \<Rightarrow> rs_qualification_state st = QUALIFIED))"

record submission =
  sub_client :: rab_client
  sub_request_id :: pystr
  sub_idempotency_key :: pystr
  sub_profile_id :: string
  sub_expected_sha256 :: string
  sub_filename :: "pystr option"
  sub_media_type :: "pystr option"

definition fingerprint_of :: "digests \<Rightarrow> submission \<Rightarrow> string \<Rightarrow> string" where
  "fingerprint_of dg sub sha =
     dg_sha256 dg (utf8 (asc (cl_client_id (sub_client sub)) @ [0] @ sub_request_id sub @ [0]
       @ asc (sub_profile_id sub) @ [0] @ asc sha))"

definition idempotency_hash :: "digests \<Rightarrow> submission \<Rightarrow> string" where
  "idempotency_hash dg sub = dg_sha256 dg (utf8 (sub_idempotency_key sub))"

text \<open>The checks before anything is received.\<close>

definition check_submission :: "'x rab_service \<Rightarrow> submission \<Rightarrow> analysis_profile res" where
  "check_submission rs sub =
     (case map_of (rs_profiles rs) (sub_profile_id sub) of
        None \<Rightarrow> Inl (RABProtocolError 422 UNSUPPORTED_PROFILE ''profile is unsupported'')
      | Some p \<Rightarrow>
          if \<not> ap_enabled p then Inl (RABProtocolError 422 UNSUPPORTED_PROFILE ''profile is unsupported'')
          else if sub_idempotency_key sub = [] \<or> length (sub_idempotency_key sub) > 200
          then Inl (RABProtocolError 422 INVALID_REQUEST
                 ''Idempotency-Key is required and must be at most 200 characters'')
          else if sub_request_id sub = [] \<or> length (sub_request_id sub) > 200
          then Inl (RABProtocolError 422 INVALID_REQUEST ''client_request_id is required'')
          else Inr p)"

text \<open>
  Receiving: the file is created, the chunks are counted before they are written, and the digest
  is compared. The stream's bytes are read through \<open>rd\<close> with at most \<open>fuel\<close> reads.
\<close>

definition receive ::
  "'x rab_service \<Rightarrow> submission \<Rightarrow> path \<Rightarrow> nat \<Rightarrow> (nat \<Rightarrow> 'i \<Rightarrow> bytes \<times> 'i) \<Rightarrow> 'i \<Rightarrow> ('x rab_state, bytes) py" where
  "receive rs sub incoming fuel rd input =
     thenP (onfiles (write_new incoming []))
     (bindP (liftP (read_bounded fuel rd mib (rab_maximum_upload_bytes (rs_settings rs))
              (RABProtocolError 413 OBJECT_TOO_LARGE ''upload exceeds configured maximum'') input [])) (\<lambda>content.
      thenP (onfiles (write_file incoming content))
      (bindP (liftP (compare_digest (asc (dg_sha256 (ss_digests (rs_scans rs)) content))
                (asc (lower (sub_expected_sha256 sub))))) (\<lambda>same.
       if \<not> same
       then rab_error 422 OBJECT_HASH_MISMATCH ''declared SHA-256 does not match received bytes''
       else ret content))))"

definition queue_full :: "'x rab_service \<Rightarrow> 'x rab_state \<Rightarrow> bool" where
  "queue_full rs s \<longleftrightarrow> rab_queue_capacity (rs_settings rs) \<le> length (rb_queue s)"

definition artifact_for :: "'x rab_service \<Rightarrow> submission \<Rightarrow> bytes \<Rightarrow> timestamp \<Rightarrow> input_artifact" where
  "artifact_for rs sub content now =
     \<lparr>a_hashes = hashes_of (ss_digests (rs_scans rs)) content, a_byte_size = int (length content),
      a_filename = (case Option.bind (sub_filename sub) (safe_label (rs_printable rs)) of
          None \<Rightarrow> asc ''submitted-object'' | Some f \<Rightarrow> f),
      a_submitted_filename = (case sub_filename sub of None \<Rightarrow> None
        | Some f \<Rightarrow> if f = [] then None else Some (take 1024 f)),
      a_media_type = (case sub_media_type sub of None \<Rightarrow> asc ''application/octet-stream''
        | Some m \<Rightarrow> if m = [] then asc ''application/octet-stream'' else m),
      a_source = ''rab:'' @ cl_client_id (sub_client sub), a_submitted_at = now, a_rights = default_rights\<rparr>"

definition opt_pystr :: "pystr option \<Rightarrow> pyval" where
  "opt_pystr v = (case v of None \<Rightarrow> PNone | Some s \<Rightarrow> PStr s)"

definition record_for :: "'x rab_service \<Rightarrow> submission \<Rightarrow> bytes \<Rightarrow> string \<Rightarrow> path \<Rightarrow> rab_row" where
  "record_for rs sub content job_id upload =
     (let sha = dg_sha256 (ss_digests (rs_scans rs)) content in
      \<lparr>rr_job_id = job_id, rr_client_id = cl_client_id (sub_client sub),
       rr_client_request_id = sub_request_id sub,
       rr_idempotency_key = idempotency_hash (ss_digests (rs_scans rs)) sub,
       rr_fingerprint = fingerprint_of (ss_digests (rs_scans rs)) sub sha,
       rr_profile = sub_profile_id sub, rr_upload_path = Some upload,
       rr_document = [(''declared_sha256'', PAsc (lower (sub_expected_sha256 sub))),
         (''verified_sha256'', PAsc sha), (''size'', PNat (length content)),
         (''filename'', opt_pystr (Option.bind (sub_filename sub) (safe_label (rs_printable rs)))),
         (''media_type'', opt_pystr (sub_media_type sub))]\<rparr>)"

text \<open>Under the lock, after the checks: create the job, move the upload, record, enqueue.\<close>

definition enqueue ::
  "'x rab_service \<Rightarrow> submission \<Rightarrow> analysis_profile \<Rightarrow> path \<Rightarrow> bytes \<Rightarrow> string \<Rightarrow> ('x rab_state, unit) py" where
  "enqueue rs sub profile incoming content job_id =
     bindP (onworld (now_time (rs_scans rs))) (\<lambda>t.
     bindP (liftP (validate_input_artifact (artifact_for rs sub content t))) (\<lambda>artifact.
     thenP (onworld (create_queued (rs_scans rs) job_id artifact (''rab:'' @ cl_client_id (sub_client sub)) (ap_analyzers profile)))
     (let directory = rab_upload_root (rs_settings rs) @ [job_id]; upload = directory @ [''object''] in
      thenP (onfiles (mkdir directory))
      (thenP (onfiles (rename incoming upload))
      (thenP (onworld (zoomP w_db (\<lambda>d w. w\<lparr>w_db := d\<rparr>) (save_rab_job (record_for rs sub content job_id upload))))
      (updP (\<lambda>s. s\<lparr>rb_queue := rb_queue s @ [Some (w_job (rb_world s), upload)]\<rparr>)))))))"

definition locked_part ::
  "'x rab_service \<Rightarrow> submission \<Rightarrow> analysis_profile \<Rightarrow> path \<Rightarrow> bytes \<Rightarrow> string \<Rightarrow> ('x rab_state, analysis_job_accepted) py" where
  "locked_part rs sub profile incoming content job_id =
     (let dg = ss_digests (rs_scans rs); sha = dg_sha256 dg content in
      bindP (getP (\<lambda>s. rab_by_idempotency (cl_client_id (sub_client sub)) (idempotency_hash dg sub) (w_db (rb_world s)))) (\<lambda>existing.
      case existing of
        Some row \<Rightarrow>
          if rr_fingerprint row \<noteq> fingerprint_of dg sub sha
          then rab_error 409 IDEMPOTENCY_CONFLICT ''idempotency key was reused with different semantics''
          else thenP (onfiles (unlink incoming)) (accepted (rr_job_id row) True)
      | None \<Rightarrow>
          bindP (getP (\<lambda>s. filter (\<lambda>a. \<not> analyzer_available rs (scanner_statuses (w_db (rb_world s))) a) (ap_analyzers profile))) (\<lambda>missing.
          if missing \<noteq> []
          then rab_error 503 ANALYZER_UNAVAILABLE
                 (''profile analyzers are not qualified and available: '' @ join_with '', '' missing)
          else bindP (getP (queue_full rs)) (\<lambda>full.
            if full then rab_error 429 QUEUE_FULL ''analysis queue is at capacity''
            else thenP (enqueue rs sub profile incoming content job_id)
                 (bindP (accepted job_id False) (\<lambda>v. ret (v\<lparr>acc_state := QUEUED\<rparr>)))))))"

definition incoming_path :: "'x rab_service \<Rightarrow> string \<Rightarrow> path" where
  "incoming_path rs incoming_id = rab_upload_root (rs_settings rs) @ [''incoming-'' @ incoming_id]"

definition submit_stream ::
  "'x rab_service \<Rightarrow> submission \<Rightarrow> string \<Rightarrow> string \<Rightarrow> nat \<Rightarrow> (nat \<Rightarrow> 'i \<Rightarrow> bytes \<times> 'i) \<Rightarrow> 'i
   \<Rightarrow> ('x rab_state, analysis_job_accepted) py" where
  "submit_stream rs sub incoming_id job_id fuel rd input =
     bindP (liftP (check_submission rs sub)) (\<lambda>profile.
     tryP (bindP (receive rs sub (incoming_path rs incoming_id) fuel rd input) (\<lambda>content.
             locked_part rs sub profile (incoming_path rs incoming_id) content job_id))
       (\<lambda>e. thenP (onfiles (unlink (incoming_path rs incoming_id))) (raiseP e)))"

subsection \<open>The worker\<close>

text \<open>\<open>Path.resolve\<close> without links: \<open>.\<close> disappears and \<open>..\<close> drops a component.\<close>

fun resolve_from :: "path \<Rightarrow> path \<Rightarrow> path" where
  "resolve_from acc [] = rev acc"
| "resolve_from acc (c # cs) =
     (if c = ''.'' \<or> c = [] then resolve_from acc cs
      else if c = ''..'' then resolve_from (tl acc) cs
      else resolve_from (c # acc) cs)"

definition resolve_path :: "path \<Rightarrow> path" where
  "resolve_path p = resolve_from [] p"

definition remove_upload :: "'x rab_service \<Rightarrow> path \<Rightarrow> ('x rab_state, unit) py" where
  "remove_upload rs upload =
     (let top = resolve_path (rab_upload_root (rs_settings rs)); candidate = resolve_path upload in
      if \<not> below top candidate then ret ()
      else thenP (onfiles (unlink candidate))
           (tryP (onfiles (rmdir (butlast candidate)))
              (\<lambda>e. if e = OSError then ret () else raiseP e)))"

definition failed_message :: "'x rab_service \<Rightarrow> py_exn \<Rightarrow> pystr" where
  "failed_message rs e = asc ''ANALYSIS_FAILED: '' @ ss_exn_text (rs_scans rs) e"

text \<open>The \<open>except\<close> branch: the stored job, or the object in hand, is failed unless it is already.\<close>

definition worker_failed :: "'x rab_service \<Rightarrow> scan_job \<Rightarrow> py_exn \<Rightarrow> ('x rab_state, unit) py" where
  "worker_failed rs job e =
     bindP (getP (\<lambda>s. case db_get (j_job_id job) (w_db (rb_world s)) of Some j \<Rightarrow> j | None \<Rightarrow> w_job (rb_world s))) (\<lambda>current.
     let marked = current\<lparr>j_errors := j_errors current @ [failed_message rs e]\<rparr> in
     bindP (if j_status marked = FAILED then ret marked
            else bindP (onworld (now_time (rs_scans rs))) (\<lambda>t. liftP (transition t FAILED marked))) (\<lambda>final.
     onworld (upd_db (db_save final))))"

text \<open>One round of the loop; the result says whether the worker goes on.\<close>

definition worker_round :: "'x rab_service \<Rightarrow> ('x rab_state, bool) py" where
  "worker_round rs = (\<lambda>s.
     case rb_queue s of
       [] \<Rightarrow> (Inr True, s)
     | item # rest \<Rightarrow>
         (case item of
            None \<Rightarrow> (Inr False, s\<lparr>rb_queue := rest\<rparr>)
          | Some (job, upload) \<Rightarrow>
              thenP
                (finallyP
                  (tryP (thenP (onworld (upd_job (\<lambda>_. job))) (onworld (execute_queued (rs_scans rs) upload)))
                     (worker_failed rs job))
                  (remove_upload rs upload))
                (ret True) (s\<lparr>rb_queue := rest\<rparr>)))"

subsection \<open>Start and shutdown\<close>

definition shutdown_message :: pystr where
  "shutdown_message = asc ''ANALYSIS_FAILED: interrupted by graceful service shutdown''"

definition shutdown_item :: "'x rab_service \<Rightarrow> (scan_job \<times> path) option \<Rightarrow> ('x rab_state, unit) py" where
  "shutdown_item rs item =
     (case item of
        None \<Rightarrow> ret ()
      | Some (job, upload) \<Rightarrow>
          bindP (onworld (now_time (rs_scans rs))) (\<lambda>t.
          bindP (liftP (transition t FAILED (job\<lparr>j_errors := j_errors job @ [shutdown_message]\<rparr>))) (\<lambda>job'.
          thenP (onworld (upd_db (db_save job'))) (remove_upload rs upload))))"

text \<open>The drain loop of \<open>shutdown\<close>; afterwards one \<open>None\<close> is queued for every worker (there are
  workers only when the protocol is enabled).\<close>

function drain_queue :: "'x rab_service \<Rightarrow> 'x rab_state \<Rightarrow> unit res \<times> 'x rab_state" where
  "drain_queue rs s =
     (case rb_queue s of
        [] \<Rightarrow> (Inr (), s)
      | item # rest \<Rightarrow>
          (case shutdown_item rs item (s\<lparr>rb_queue := rest\<rparr>) of
             (Inl e, s') \<Rightarrow> (Inl e, s')
           | (Inr _, s') \<Rightarrow> drain_queue rs (s'\<lparr>rb_queue := rest\<rparr>)))"
  by pat_completeness auto
termination
  by (relation "measure (\<lambda>(rs, s). length (rb_queue s))") auto

declare drain_queue.simps [simp del]

definition shutdown :: "'x rab_service \<Rightarrow> ('x rab_state, unit) py" where
  "shutdown rs =
     thenP (drain_queue rs)
       (updP (\<lambda>s. s\<lparr>rb_queue := rb_queue s @ replicate (if rab_enabled (rs_settings rs) then rab_worker_concurrency (rs_settings rs) else 0) None\<rparr>))"

definition clean_interrupted_uploads :: "'x rab_service \<Rightarrow> nat \<Rightarrow> ('x rab_state, unit) py" where
  "clean_interrupted_uploads rs interrupted_jobs =
     (if interrupted_jobs = 0 then ret ()
      else bindP (getP (\<lambda>s. db_list (w_db (rb_world s)))) (\<lambda>jobs.
        forP (\<lambda>job.
          if interrupted_message \<notin> set (j_errors job) then ret ()
          else bindP (getP (\<lambda>s. rab_job (j_job_id job) (w_db (rb_world s)))) (\<lambda>row.
            case Option.bind row rr_upload_path of
              None \<Rightarrow> ret ()
            | Some upload \<Rightarrow> remove_upload rs upload)) jobs))"

definition start_service :: "'x rab_service \<Rightarrow> (scan_job \<Rightarrow> timestamp) \<Rightarrow> ('x rab_state, nat) py" where
  "start_service rs now =
     bindP (onworld (zoomP w_db (\<lambda>d w. w\<lparr>w_db := d\<rparr>) (reconcile_interrupted now))) (\<lambda>count.
     thenP (clean_interrupted_uploads rs count)
     (thenP (whenP (rab_enabled (rs_settings rs)) (onfiles (mkdir_parents True (rab_upload_root (rs_settings rs)))))
     (ret count)))"

subsection \<open>Authentication\<close>

lemma match_client_sound:
  "match_client supplied scope vs = Inr c \<Longrightarrow>
     \<exists>v. v \<in> set vs \<and> ce_token v = supplied \<and> supplied \<noteq> [] \<and> scope \<in> set (ce_scopes v)
       \<and> ce_client_id v = Some (cl_client_id c) \<and> cl_scopes c = ce_scopes v"
  by (induction supplied scope vs rule: match_client.induct)
    (auto simp: compare_digest_def split: if_splits option.splits)

lemma authenticate_sound:
  assumes "authenticate store authorization scope = Inr c"
  shows "\<exists>entries v. store = Inr entries \<and> v \<in> set entries \<and> ce_token v \<noteq> []
     \<and> authorization = Some (asc ''Bearer '' @ ce_token v) \<and> scope \<in> set (ce_scopes v)
     \<and> ce_client_id v = Some (cl_client_id c) \<and> cl_scopes c = ce_scopes v"
proof -
  from assms obtain a entries where a: "authorization = Some a" "starts_with (asc ''Bearer '') a" "store = Inr entries"
    "match_client (drop 7 a) scope entries = Inr c"
    by (auto simp: authenticate_def Let_def split: option.splits if_splits sum.splits)
  have "length (asc ''Bearer '') = 7" by (simp add: asc_def)
  with a(2) have "take 7 a = asc ''Bearer ''" by (simp add: starts_with_def)
  then have "a = asc ''Bearer '' @ drop 7 a"
    using append_take_drop_id [of 7 a] by simp
  with match_client_sound [OF a(4)] a show ?thesis by metis
qed

lemma match_client_complete:
  assumes "list_all (\<lambda>c. c < 128) supplied" and "supplied \<noteq> []"
    and "list_all (\<lambda>v. list_all (\<lambda>c. c < 128) (ce_token v)) vs"
    and "find (\<lambda>v. ce_token v = supplied) vs = Some v" and "ce_client_id v = Some cid"
  shows "match_client supplied scope vs =
     (if scope \<in> set (ce_scopes v) then Inr \<lparr>cl_client_id = cid, cl_scopes = ce_scopes v\<rparr>
      else Inl (RABProtocolError 403 FORBIDDEN ''client lacks the required scope''))"
  using assms(3,4)
proof (induction vs)
  case (Cons x xs)
  show ?case
  proof (cases "ce_token x = supplied")
    case True
    with Cons.prems assms(1,2,5) show ?thesis by (auto simp: compare_digest_def)
  next
    case False
    with Cons assms(1,2) show ?thesis by (auto simp: compare_digest_def)
  qed
qed simp

text \<open>A credential with a character outside ASCII is no \<open>401\<close> but a \<open>TypeError\<close>.\<close>

lemma authenticate_non_ascii:
  assumes "ce_token v \<noteq> []" and "\<not> list_all (\<lambda>c. c < 128) supplied"
  shows "authenticate (Inr (v # vs)) (Some (asc ''Bearer '' @ supplied)) scope
     = Inl (TypeError ''comparing strings with non-ASCII characters is not supported'')"
  using assms by (simp add: authenticate_def Let_def starts_with_def asc_def compare_digest_def)

subsection \<open>Creating and enqueuing\<close>

lemma create_queued_result:
  "\<exists>job w'. create_queued sv job_id a src req w = (Inr (), w') \<and> w_job w' = job
     \<and> j_job_id job = job_id \<and> j_status job = QUEUED \<and> j_input_artifact job = a \<and> j_source job = src
     \<and> j_requested_scanners job = req
     \<and> w_machine w' = w_machine w \<and> db_rab (w_db w') = db_rab (w_db w)
     \<and> db_get job_id (w_db w') = Some (reload_job job)"
  by (simp add: create_queued_def py_defs now_time_def upd_job_def upd_db_def job_transition_def transition_def
      new_job_def Let_def store.load_save_eq) (simp add: db_save_def)

lemma onfiles_result:
  "onfiles m s = (r, s') \<longleftrightarrow>
     (\<exists>f. m (fst (w_machine (rb_world s))) = (r, f)
       \<and> s' = s\<lparr>rb_world := (rb_world s)\<lparr>w_machine := (f, snd (w_machine (rb_world s)))\<rparr>\<rparr>)"
  by (auto simp: onfiles_def onworld_def onmachine_def onfs_def zoomP_def split: prod.splits)

abbreviation files :: "'x rab_state \<Rightarrow> fs" where
  "files s \<equiv> fst (w_machine (rb_world s))"

abbreviation data_base :: "'x rab_state \<Rightarrow> db" where
  "data_base s \<equiv> w_db (rb_world s)"

lemma mkdir_files: "mkdir p f = (r, f') \<Longrightarrow> file_at q f' = file_at q f"
  by (auto simp: mkdir_def file_at_def split: if_splits)

text \<open>What a successful \<open>enqueue\<close> leaves behind.\<close>

definition upload_path_of :: "'x rab_service \<Rightarrow> string \<Rightarrow> path" where
  "upload_path_of rs job_id = rab_upload_root (rs_settings rs) @ [job_id, ''object'']"

definition enqueued ::
  "'x rab_service \<Rightarrow> submission \<Rightarrow> bytes \<Rightarrow> string \<Rightarrow> 'x rab_state \<Rightarrow> 'x rab_state \<Rightarrow> bool" where
  "enqueued rs sub content job_id s s' \<longleftrightarrow>
     (\<exists>job. rb_queue s' = rb_queue s @ [Some (job, upload_path_of rs job_id)]
        \<and> j_job_id job = job_id \<and> j_status job = QUEUED
        \<and> a_hashes (j_input_artifact job) = hashes_of (ss_digests (rs_scans rs)) content
        \<and> a_byte_size (j_input_artifact job) = int (length content)
        \<and> db_get job_id (data_base s') = Some (reload_job job))
     \<and> rab_job job_id (data_base s') = Some (record_for rs sub content job_id (upload_path_of rs job_id))
     \<and> file_at (upload_path_of rs job_id) (files s') = Some content"

lemma save_rab_result:
  "save_rab_job row d = (Inr (), d') \<Longrightarrow> rab_job (rr_job_id row) d' = Some row \<and> db_jobs d' = db_jobs d"
proof -
  assume run: "save_rab_job row d = (Inr (), d')"
  then have "find (\<lambda>r. rr_job_id r = rr_job_id row) (db_rab d) = None"
    by (auto simp: save_rab_job_def find_None_iff list_ex_iff split: if_splits)
  with run show ?thesis by (auto simp: save_rab_job_def rab_job_def find_append split: if_splits)
qed

lemma write_new_files: "write_new p bs f = (r, f') \<Longrightarrow> file_at q f' = (if r = Inr () \<and> q = p then Some bs else file_at q f)"
  by (auto simp: write_new_def split: if_splits)

lemma onworld_zoom_db:
  "onworld (zoomP w_db (\<lambda>d w. w\<lparr>w_db := d\<rparr>) m) s = (r, s') \<longleftrightarrow>
     (\<exists>d. m (data_base s) = (r, d) \<and> s' = s\<lparr>rb_world := (rb_world s)\<lparr>w_db := d\<rparr>\<rparr>)"
  by (auto simp: onworld_def zoomP_def split: prod.splits)

lemma onworld_now: "onworld (now_time sv) s = (Inr (ss_clock sv (w_ticks (rb_world s))),
    s\<lparr>rb_world := (rb_world s)\<lparr>w_ticks := Suc (w_ticks (rb_world s))\<rparr>\<rparr>)"
  by (simp add: onworld_def zoomP_def now_time_def)

lemma onworld_create:
  "onworld (create_queued sv job_id a src req) s = (r, s') \<Longrightarrow>
     r = Inr () \<and> rb_queue s' = rb_queue s \<and> files s' = files s \<and> db_rab (data_base s') = db_rab (data_base s)
     \<and> j_job_id (w_job (rb_world s')) = job_id \<and> j_status (w_job (rb_world s')) = QUEUED
     \<and> j_input_artifact (w_job (rb_world s')) = a
     \<and> db_get job_id (data_base s') = Some (reload_job (w_job (rb_world s')))"
  using create_queued_result [of sv job_id a src req "rb_world s"]
  by (auto simp: onworld_def zoomP_def)

lemma validate_artifact_id: "validate_input_artifact a = Inr a' \<Longrightarrow> a' = a"
  by (auto simp: validate_input_artifact_def split: if_splits)

lemma db_get_jobs: "db_jobs d' = db_jobs d \<Longrightarrow> db_get i d' = db_get i d"
  by (simp add: db_get_def)

lemma enqueue_result:
  assumes "enqueue rs sub profile incoming content job_id s = (r, s')" and "file_at incoming (files s) = Some content"
  shows "(r = Inr () \<and> enqueued rs sub content job_id s s') \<or> (\<exists>e. r = Inl e \<and> rb_queue s' = rb_queue s)"
proof -
  let ?dir = "rab_upload_root (rs_settings rs) @ [job_id]"
  let ?up = "upload_path_of rs job_id"
  have up: "?dir @ [''object''] = ?up" by (simp add: upload_path_of_def)
  let ?t = "ss_clock (rs_scans rs) (w_ticks (rb_world s))"
  define s0 where "s0 = s\<lparr>rb_world := (rb_world s)\<lparr>w_ticks := Suc (w_ticks (rb_world s))\<rparr>\<rparr>"
  let ?art = "artifact_for rs sub content ?t"
  show ?thesis
  proof (cases "validate_input_artifact ?art")
    case (Inl e)
    with assms(1) show ?thesis by (auto simp: enqueue_def bindP_def onworld_now)
  next
    case (Inr a)
    then have a: "a = ?art" by (rule validate_artifact_id)
    obtain r1 s1 where c: "onworld (create_queued (rs_scans rs) job_id ?art (''rab:'' @ cl_client_id (sub_client sub)) (ap_analyzers profile)) s0 = (r1, s1)"
      by fastforce
    note cr = onworld_create [OF c]
    have q1: "rb_queue s1 = rb_queue s" and f1: "files s1 = files s" using cr by (simp_all add: s0_def)
    let ?k = "thenP (onfiles (mkdir ?dir)) (thenP (onfiles (rename incoming ?up))
        (thenP (onworld (zoomP w_db (\<lambda>d w. w\<lparr>w_db := d\<rparr>) (save_rab_job (record_for rs sub content job_id ?up))))
        (updP (\<lambda>s. s\<lparr>rb_queue := rb_queue s @ [Some (w_job (rb_world s), ?up)]\<rparr>))))"
    have "enqueue rs sub profile incoming content job_id s
        = thenP (onworld (create_queued (rs_scans rs) job_id ?art (''rab:'' @ cl_client_id (sub_client sub)) (ap_analyzers profile))) ?k s0"
      unfolding enqueue_def Let_def up
      by (simp add: bindP_def [of "onworld (now_time (rs_scans rs))"] onworld_now bindP_def [of "liftP _"] Inr a s0_def)
    with assms(1) have rest: "?k s1 = (r, s')"
      using c cr by (simp add: thenP_def bindP_def [of "onworld _"])
    obtain r2 s2 where m: "onfiles (mkdir ?dir) s1 = (r2, s2)" by fastforce
    then have q2: "rb_queue s2 = rb_queue s" and f2: "\<And>p. file_at p (files s2) = file_at p (files s)"
      and w2: "data_base s2 = data_base s1" "w_job (rb_world s2) = w_job (rb_world s1)"
      using q1 f1 by (auto simp: onfiles_result dest: mkdir_files)
    show ?thesis
    proof (cases r2)
      case (Inl e)
      with rest m q2 show ?thesis by (auto simp: thenP_def bindP_def)
    next
      case (Inr u2)
      obtain r3 s3 where n: "onfiles (rename incoming ?up) s2 = (r3, s3)" by fastforce
      then have q3: "rb_queue s3 = rb_queue s" and w3: "data_base s3 = data_base s1" "w_job (rb_world s3) = w_job (rb_world s1)"
        using q2 w2 by (auto simp: onfiles_result)
      show ?thesis
      proof (cases r3)
        case (Inl e)
        with rest m n Inr q3 show ?thesis by (auto simp: thenP_def bindP_def)
      next
        case (Inr u3)
        have f3: "file_at ?up (files s3) = Some content"
          using n Inr f2 [of incoming] assms(2) by (auto simp: onfiles_result rename_def split: if_splits)
        obtain r4 s4 where k: "onworld (zoomP w_db (\<lambda>d w. w\<lparr>w_db := d\<rparr>) (save_rab_job (record_for rs sub content job_id ?up))) s3 = (r4, s4)"
          by fastforce
        then obtain d where d: "save_rab_job (record_for rs sub content job_id ?up) (data_base s3) = (r4, d)"
          "s4 = s3\<lparr>rb_world := (rb_world s3)\<lparr>w_db := d\<rparr>\<rparr>" by (auto simp: onworld_zoom_db)
        show ?thesis
        proof (cases r4)
          case (Inl e)
          with rest m n k \<open>r2 = Inr u2\<close> \<open>r3 = Inr u3\<close> q3 d show ?thesis by (auto simp: thenP_def bindP_def)
        next
          case (Inr u4)
          with rest m n k \<open>r2 = Inr u2\<close> \<open>r3 = Inr u3\<close>
          have s': "r = Inr ()" "s' = s4\<lparr>rb_queue := rb_queue s4 @ [Some (w_job (rb_world s4), ?up)]\<rparr>"
            by (simp_all add: thenP_def bindP_def)
          have sr: "rab_job job_id d = Some (record_for rs sub content job_id ?up)" "db_jobs d = db_jobs (data_base s1)"
            using save_rab_result [of "record_for rs sub content job_id ?up" "data_base s3" d] d(1) Inr w3
            by (auto simp: record_for_def Let_def)
          have "enqueued rs sub content job_id s s'"
            unfolding enqueued_def
            using cr q3 f3 w3 sr db_get_jobs [OF sr(2)]
            by (auto simp: s' d(2) artifact_for_def)
          with s' show ?thesis by simp
        qed
      qed
    qed
  qed
qed

lemma find_job_result:
  "find_job job_id s =
     (case (db_get job_id (data_base s), rab_job job_id (data_base s)) of
        (Some job, Some row) \<Rightarrow> (Inr (job, row), s)
      | _ \<Rightarrow> (Inl (RABProtocolError 404 NOT_FOUND ''analysis job was not found''), s))"
  by (auto simp: find_job_def bindP_def rab_error_def split: option.split)

lemma accepted_result:
  "accepted job_id dup s = (r, s') \<Longrightarrow>
     s' = s \<and> (case (db_get job_id (data_base s), rab_job job_id (data_base s)) of
        (Some job, Some row) \<Rightarrow> r = Inr (accepted_view dup (job, row))
      | _ \<Rightarrow> r = Inl (RABProtocolError 404 NOT_FOUND ''analysis job was not found''))"
  by (auto simp: accepted_def bindP_def find_job_result split: option.splits)

lemma onfiles_queue: "onfiles m s = (r, s') \<Longrightarrow> rb_queue s' = rb_queue s \<and> data_base s' = data_base s \<and> w_job (rb_world s') = w_job (rb_world s)"
  by (auto simp: onfiles_result)

lemma asc_inj [simp]: "asc x = asc y \<longleftrightarrow> x = y"
proof -
  have "inj (of_char :: char \<Rightarrow> nat)" by (simp add: inj_def)
  then show ?thesis by (simp add: asc_def inj_map_eq_map)
qed

declare read_bounded.simps [simp del]

lemma receive_result:
  assumes "receive rs sub incoming (Suc (length bs)) file_read (bs, 0) s = (r, s')"
  shows "rb_queue s' = rb_queue s \<and> data_base s' = data_base s
     \<and> (\<forall>content. r = Inr content \<longrightarrow> content = bs \<and> length bs \<le> rab_maximum_upload_bytes (rs_settings rs)
          \<and> file_at incoming (files s') = Some bs
          \<and> dg_sha256 (ss_digests (rs_scans rs)) bs = lower (sub_expected_sha256 sub))"
proof -
  let ?too = "RABProtocolError 413 OBJECT_TOO_LARGE ''upload exceeds configured maximum''"
  have read: "read_bounded (Suc (length bs)) file_read mib (rab_maximum_upload_bytes (rs_settings rs)) ?too (bs, 0) []
      = (if length bs \<le> rab_maximum_upload_bytes (rs_settings rs) then Inr bs else Inl ?too)"
    using file_stream.read_bounded_exact [of mib "(bs, 0)" "Suc (length bs)" "[]" "rab_maximum_upload_bytes (rs_settings rs)" ?too]
    by (simp add: file_remaining_def mib_def)
  obtain r1 s1 where w1: "onfiles (write_new incoming []) s = (r1, s1)" by fastforce
  obtain r2 s2 where w2: "onfiles (write_file incoming bs) s1 = (r2, s2)" by fastforce
  have f2: "r2 = Inr () \<Longrightarrow> file_at incoming (files s2) = Some bs"
    using w2 by (auto simp: onfiles_result write_file_def split: if_splits)
  show ?thesis
    using assms onfiles_queue [OF w1] onfiles_queue [OF w2] f2
    by (auto simp: receive_def thenP_def bindP_def w1 w2 read compare_digest_def rab_error_def
        split: sum.splits if_splits)
qed

lemma locked_result:
  assumes "locked_part rs sub profile incoming content job_id s = (r, s')"
    and "file_at incoming (files s) = Some content"
  shows "case r of
     Inl e \<Rightarrow> rb_queue s' = rb_queue s
   | Inr acc \<Rightarrow>
       (if acc_duplicate acc
        then rb_queue s' = rb_queue s \<and> data_base s' = data_base s
          \<and> (\<exists>row job. rab_by_idempotency (cl_client_id (sub_client sub)) (idempotency_hash (ss_digests (rs_scans rs)) sub) (data_base s) = Some row
               \<and> rr_fingerprint row = fingerprint_of (ss_digests (rs_scans rs)) sub (dg_sha256 (ss_digests (rs_scans rs)) content)
               \<and> db_get (rr_job_id row) (data_base s) = Some job \<and> acc_job_id acc = j_job_id job)
        else length (rb_queue s) < rab_queue_capacity (rs_settings rs)
          \<and> acc_state acc = QUEUED \<and> acc_job_id acc = job_id \<and> enqueued rs sub content job_id s s')"
proof (cases "rab_by_idempotency (cl_client_id (sub_client sub)) (idempotency_hash (ss_digests (rs_scans rs)) sub) (data_base s)")
  case (Some row)
  obtain r1 s1 where u: "onfiles (unlink incoming) s = (r1, s1)" by fastforce
  obtain r2 s2 where a: "accepted (rr_job_id row) True s1 = (r2, s2)" by fastforce
  show ?thesis
    using assms(1) Some onfiles_queue [OF u] accepted_result [OF a]
    by (auto simp: locked_part_def Let_def bindP_def thenP_def u a rab_error_def accepted_view_def
        split: if_splits sum.splits option.splits)
next
  case None
  obtain r1 s1 where e: "enqueue rs sub profile incoming content job_id s = (r1, s1)" by fastforce
  obtain r2 s2 where a: "accepted job_id False s1 = (r2, s2)" by fastforce
  from enqueue_result [OF e assms(2)] show ?thesis
  proof (elim disjE conjE exE)
    assume ok: "r1 = Inr ()" "enqueued rs sub content job_id s s1"
    then obtain job where job: "j_job_id job = job_id" "db_get job_id (data_base s1) = Some (reload_job job)"
      "rab_job job_id (data_base s1) = Some (record_for rs sub content job_id (upload_path_of rs job_id))"
      by (auto simp: enqueued_def)
    with accepted_result [OF a] have "s2 = s1" "r2 = Inr (accepted_view False (reload_job job, record_for rs sub content job_id (upload_path_of rs job_id)))"
      by auto
    then show ?thesis
      using assms(1) None ok job a
      by (auto simp: locked_part_def Let_def bindP_def thenP_def e rab_error_def accepted_view_def queue_full_def
          split: if_splits sum.splits)
  next
    fix err assume "r1 = Inl err" "rb_queue s1 = rb_queue s"
    then show ?thesis
      using assms(1) None
      by (auto simp: locked_part_def Let_def bindP_def thenP_def e rab_error_def split: if_splits sum.splits)
  qed
qed

subsection \<open>Submission as a whole\<close>

definition submit_spec ::
  "'x rab_service \<Rightarrow> submission \<Rightarrow> string \<Rightarrow> string \<Rightarrow> bytes \<Rightarrow> 'x rab_state \<Rightarrow> analysis_job_accepted res \<times> 'x rab_state \<Rightarrow> bool" where
  "submit_spec rs sub incoming_id job_id bs s out \<longleftrightarrow>
     (let incoming = incoming_path rs incoming_id; dg = ss_digests (rs_scans rs) in
      case out of
        (Inl e, s') \<Rightarrow> rb_queue s' = rb_queue s
          \<and> (s' = s \<or> is_dir incoming (files s') \<or> file_at incoming (files s') = None)
      | (Inr acc, s') \<Rightarrow>
          length bs \<le> rab_maximum_upload_bytes (rs_settings rs)
          \<and> dg_sha256 dg bs = lower (sub_expected_sha256 sub)
          \<and> (if acc_duplicate acc
             then rb_queue s' = rb_queue s \<and> data_base s' = data_base s
               \<and> (\<exists>row job. rab_by_idempotency (cl_client_id (sub_client sub)) (idempotency_hash dg sub) (data_base s) = Some row
                    \<and> rr_fingerprint row = fingerprint_of dg sub (dg_sha256 dg bs)
                    \<and> db_get (rr_job_id row) (data_base s) = Some job \<and> acc_job_id acc = j_job_id job)
             else length (rb_queue s) < rab_queue_capacity (rs_settings rs)
               \<and> acc_state acc = QUEUED \<and> acc_job_id acc = job_id \<and> enqueued rs sub bs job_id s s'))"

lemma unlink_files: "onfiles (unlink p) s = (r, s') \<Longrightarrow> is_dir p (files s') \<or> file_at p (files s') = None"
  by (auto simp: onfiles_result unlink_def split: if_splits)

lemma enqueued_from:
  "enqueued rs sub content job_id s0 s' \<Longrightarrow> rb_queue s0 = rb_queue s \<Longrightarrow> enqueued rs sub content job_id s s'"
  by (simp add: enqueued_def)

lemma submit_result:
  "submit_spec rs sub incoming_id job_id bs s (submit_stream rs sub incoming_id job_id (Suc (length bs)) file_read (bs, 0) s)"
proof (cases "check_submission rs sub")
  case (Inl e)
  then show ?thesis by (simp add: submit_stream_def bindP_def submit_spec_def Let_def)
next
  case (Inr profile)
  let ?in = "incoming_path rs incoming_id"
  let ?fail = "\<lambda>e. thenP (onfiles (unlink ?in)) (raiseP e)"
  let ?body = "bindP (receive rs sub ?in (Suc (length bs)) file_read (bs, 0)) (\<lambda>content.
             locked_part rs sub profile ?in content job_id)"
  obtain r1 s1 where body: "?body s = (r1, s1)" by fastforce
  have run: "submit_stream rs sub incoming_id job_id (Suc (length bs)) file_read (bs, 0) s
      = (case r1 of Inl e \<Rightarrow> ?fail e s1 | Inr v \<Rightarrow> (Inr v, s1))"
    by (simp add: submit_stream_def bindP_def [of "liftP _"] Inr Let_def tryP_def body)
  obtain rr sr where recv: "receive rs sub ?in (Suc (length bs)) file_read (bs, 0) s = (rr, sr)" by fastforce
  note rc = receive_result [OF recv]
  have fail: "submit_spec rs sub incoming_id job_id bs s (?fail e s1)" if "rb_queue s1 = rb_queue s" for e
  proof -
    obtain r2 s2 where u: "onfiles (unlink ?in) s1 = (r2, s2)" by fastforce
    with unlink_files [OF u] onfiles_queue [OF u] that show ?thesis
      by (cases r2) (auto simp: submit_spec_def Let_def thenP_def bindP_def)
  qed
  show ?thesis
  proof (cases rr)
    case (Inl e)
    with body recv have "r1 = Inl e" "s1 = sr" by (simp_all add: bindP_def)
    with rc fail run show ?thesis by simp
  next
    case (Inr content)
    with rc have c: "content = bs" "file_at ?in (files sr) = Some bs" by auto
    from body recv Inr c have lock: "locked_part rs sub profile ?in bs job_id sr = (r1, s1)" by (simp add: bindP_def)
    note lr = locked_result [OF lock c(2)]
    show ?thesis
    proof (cases r1)
      case (Inl e)
      with lr rc fail run show ?thesis by simp
    next
      case (Inr acc)
      with lr rc run \<open>rr = Inr content\<close> c show ?thesis
        by (auto simp: submit_spec_def Let_def intro: enqueued_from)
    qed
  qed
qed

lemma submit_queue_bound:
  assumes "length (rb_queue s) \<le> rab_queue_capacity (rs_settings rs)"
    and "submit_stream rs sub incoming_id job_id (Suc (length bs)) file_read (bs, 0) s = (r, s')"
  shows "length (rb_queue s') \<le> rab_queue_capacity (rs_settings rs)"
  using submit_result [of rs sub incoming_id job_id bs s] assms
  by (auto simp: submit_spec_def Let_def enqueued_def split: sum.splits if_splits)

subsection \<open>Removing an upload\<close>

lemma remove_upload_result:
  assumes "remove_upload rs upload s = (r, s')"
  shows "rb_queue s' = rb_queue s \<and> data_base s' = data_base s \<and> w_job (rb_world s') = w_job (rb_world s)
     \<and> (r = Inr () \<or> r = Inl OSError)
     \<and> (\<forall>p. file_at p (files s') =
          (if r = Inr () \<and> p = resolve_path upload \<and> below (resolve_path (rab_upload_root (rs_settings rs))) p
           then None else file_at p (files s)))"
proof (cases "below (resolve_path (rab_upload_root (rs_settings rs))) (resolve_path upload)")
  case False
  with assms show ?thesis by (auto simp: remove_upload_def Let_def)
next
  case True
  let ?c = "resolve_path upload"
  obtain r1 s1 where u: "onfiles (unlink ?c) s = (r1, s1)" by fastforce
  obtain r2 s2 where d: "onfiles (rmdir (butlast ?c)) s1 = (r2, s2)" by fastforce
  have run: "(r, s') = (case r1 of Inl e \<Rightarrow> (Inl e, s1) | Inr _ \<Rightarrow>
      (case r2 of Inl e \<Rightarrow> if e = OSError then (Inr (), s2) else (Inl e, s2) | Inr v \<Rightarrow> (Inr v, s2)))"
    using assms True u d by (auto simp: remove_upload_def Let_def thenP_def bindP_def tryP_def split: sum.splits)
  have 1: "rb_queue s1 = rb_queue s \<and> data_base s1 = data_base s \<and> w_job (rb_world s1) = w_job (rb_world s)
     \<and> (r1 = Inr () \<or> r1 = Inl OSError)
     \<and> (\<forall>p. file_at p (files s1) = (if r1 = Inr () \<and> p = ?c then None else file_at p (files s)))"
    using u by (auto simp: onfiles_result unlink_def split: if_splits)
  have 2: "rb_queue s2 = rb_queue s1 \<and> data_base s2 = data_base s1 \<and> w_job (rb_world s2) = w_job (rb_world s1)
     \<and> (r2 = Inr () \<or> r2 = Inl OSError) \<and> (\<forall>p. file_at p (files s2) = file_at p (files s1))"
    using d by (auto simp: onfiles_result rmdir_def split: if_splits)
  from 1 2 run True show ?thesis by (elim conjE disjE) simp_all
qed

definition upload_gone :: "'x rab_service \<Rightarrow> path \<Rightarrow> 'x rab_state \<Rightarrow> bool" where
  "upload_gone rs upload s \<longleftrightarrow>
     \<not> below (resolve_path (rab_upload_root (rs_settings rs))) (resolve_path upload)
     \<or> file_at (resolve_path upload) (files s) = None"

lemma remove_upload_gone: "remove_upload rs upload s = (Inr (), s') \<Longrightarrow> upload_gone rs upload s'"
  using remove_upload_result [of rs upload s "Inr ()" s'] by (auto simp: upload_gone_def)

subsection \<open>A round of the worker\<close>

definition stored_terminal :: "string \<Rightarrow> 'x rab_state \<Rightarrow> bool" where
  "stored_terminal job_id s \<longleftrightarrow>
     (case db_get job_id (data_base s) of None \<Rightarrow> False | Some j \<Rightarrow> j_job_id j = job_id \<and> terminal (j_status j))"

lemma execute_step:
  assumes "j_status job = QUEUED" and "processors_ok (rs_scans rs)"
    and "thenP (onworld (upd_job (\<lambda>_. job))) (onworld (execute_queued (rs_scans rs) upload)) s = (r, s')"
  shows "rb_queue s' = rb_queue s \<and> stored_terminal (j_job_id job) s' \<and> (r = Inr () \<or> r = Inl OSError)"
proof -
  let ?w = "(rb_world s)\<lparr>w_job := job\<rparr>"
  obtain w' where run: "execute_queued (rs_scans rs) upload ?w = (r, w')" and s': "s' = s\<lparr>rb_world := w'\<rparr>"
    using assms(3) by (auto simp: thenP_def bindP_def onworld_def zoomP_def upd_job_def split: prod.splits)
  have "job_finished (rs_scans rs) upload (w_job ?w) (r, w')"
    unfolding run [symmetric] by (rule execute_queued_result) (simp_all add: status_of_def assms)
  then show ?thesis
    by (auto simp: job_finished_def s' stored_terminal_def stored_def terminal_def status_of_def)
qed

lemma worker_failed_result:
  assumes "stored_terminal (j_job_id job) s" and "worker_failed rs job e s = (r, s')"
  shows "rb_queue s' = rb_queue s \<and> stored_terminal (j_job_id job) s' \<and> (r = Inr () \<or> (\<exists>m. r = Inl (ValueError m)))"
proof -
  from assms(1) obtain j where j: "db_get (j_job_id job) (data_base s) = Some j" "terminal (j_status j)"
    and id: "j_job_id j = j_job_id job"
    by (auto simp: stored_terminal_def split: option.splits)
  show ?thesis
  proof (cases "j_status j = FAILED")
    case True
    with assms j id show ?thesis
      by (auto simp: worker_failed_def bindP_def Let_def onworld_def zoomP_def upd_db_def stored_terminal_def
          store.load_save_eq terminal_def)
  next
    case False
    with assms j id show ?thesis
      by (auto simp: worker_failed_def bindP_def Let_def onworld_def zoomP_def now_time_def transition_def terminal_def
          stored_terminal_def)
  qed
qed

lemma thenP_eq: "thenP m k s = (case m s of (Inl e, s') \<Rightarrow> (Inl e, s') | (Inr v, s') \<Rightarrow> k s')"
  by (simp add: thenP_def bindP_def)

lemma worker_round_run:
  assumes "rb_queue s = Some (job, upload) # rest"
    and "tryP (thenP (onworld (upd_job (\<lambda>_. job))) (onworld (execute_queued (rs_scans rs) upload)))
      (worker_failed rs job) (s\<lparr>rb_queue := rest\<rparr>) = (r2, s2)"
    and "remove_upload rs upload s2 = (r3, s3)"
  shows "worker_round rs s =
    ((case r3 of Inl e \<Rightarrow> Inl e | Inr _ \<Rightarrow> (case r2 of Inl e \<Rightarrow> Inl e | Inr _ \<Rightarrow> Inr True)), s3)"
proof -
  let ?body = "finallyP (tryP (thenP (onworld (upd_job (\<lambda>_. job))) (onworld (execute_queued (rs_scans rs) upload)))
      (worker_failed rs job)) (remove_upload rs upload)"
  have "?body (s\<lparr>rb_queue := rest\<rparr>) = (case r3 of Inl e \<Rightarrow> (Inl e, s3) | Inr _ \<Rightarrow> (r2, s3))"
    unfolding finallyP_def by (simp add: assms(2,3) split: sum.split)
  moreover have "worker_round rs s = thenP ?body (ret True) (s\<lparr>rb_queue := rest\<rparr>)"
    by (simp add: worker_round_def assms(1))
  ultimately show ?thesis by (simp add: thenP_eq split: sum.split)
qed

lemma worker_round_result:
  assumes "rb_queue s = Some (job, upload) # rest" and "j_status job = QUEUED" and "processors_ok (rs_scans rs)"
    and "worker_round rs s = (r, s')"
  shows "rb_queue s' = rest \<and> stored_terminal (j_job_id job) s'
     \<and> (case r of Inr go_on \<Rightarrow> go_on \<and> upload_gone rs upload s' | Inl e \<Rightarrow> e = OSError \<or> (\<exists>m. e = ValueError m))"
proof -
  let ?s = "s\<lparr>rb_queue := rest\<rparr>"
  let ?run = "thenP (onworld (upd_job (\<lambda>_. job))) (onworld (execute_queued (rs_scans rs) upload))"
  obtain r1 s1 where run: "?run ?s = (r1, s1)" by fastforce
  obtain r2 s2 where tried: "tryP ?run (worker_failed rs job) ?s = (r2, s2)" by fastforce
  obtain r3 s3 where rem: "remove_upload rs upload s2 = (r3, s3)" by fastforce
  note st = execute_step [OF assms(2,3) run]
  have two: "rb_queue s2 = rest \<and> stored_terminal (j_job_id job) s2 \<and> (r2 = Inr () \<or> (\<exists>m. r2 = Inl (ValueError m)))"
  proof (cases r1)
    case (Inl e)
    with tried run have "worker_failed rs job e s1 = (r2, s2)" by (simp add: tryP_def)
    with worker_failed_result [OF _ this] st show ?thesis by simp
  next
    case (Inr u)
    with tried run st show ?thesis by (auto simp: tryP_def)
  qed
  have "s' = s3" and "r = (case r3 of Inl e \<Rightarrow> Inl e | Inr _ \<Rightarrow> (case r2 of Inl e \<Rightarrow> Inl e | Inr _ \<Rightarrow> Inr True))"
    using worker_round_run [OF assms(1) tried rem] assms(4) by simp_all
  with two remove_upload_result [OF rem] remove_upload_gone [of rs upload s2 s3] rem show ?thesis
    by (auto simp: stored_terminal_def split: sum.splits)
qed

subsection \<open>The worker's loop\<close>

text \<open>The first \<open>n\<close> rounds of \<open>_worker\<close>: a raised exception or the \<open>None\<close> item ends the loop.\<close>

fun worker_rounds :: "'x rab_service \<Rightarrow> nat \<Rightarrow> ('x rab_state, bool) py" where
  "worker_rounds rs 0 = ret True"
| "worker_rounds rs (Suc n) =
     bindP (worker_rounds rs n) (\<lambda>go_on. if go_on then worker_round rs else ret False)"

definition pending :: "(scan_job \<times> path) option \<Rightarrow> bool" where
  "pending item \<longleftrightarrow> (case item of None \<Rightarrow> False | Some (job, _) \<Rightarrow> j_status job = QUEUED)"

lemma worker_rounds_queue:
  assumes "list_all pending (rb_queue s)" and "processors_ok (rs_scans rs)"
    and "n \<le> length (rb_queue s)" and "worker_rounds rs n s = (Inr go_on, s')"
  shows "go_on \<and> rb_queue s' = drop n (rb_queue s)"
  using assms(3,4)
proof (induction n arbitrary: go_on s')
  case (Suc n)
  from Suc.prems obtain b s1 where n: "worker_rounds rs n s = (Inr b, s1)"
    and r: "(if b then worker_round rs else ret False) s1 = (Inr go_on, s')"
    by (auto simp: bindP_def split: prod.splits sum.splits)
  from Suc.IH [OF _ n] Suc.prems(1) have b: "b" and q: "rb_queue s1 = drop n (rb_queue s)" by simp_all
  from Suc.prems(1) have q': "rb_queue s1 = rb_queue s ! n # drop (Suc n) (rb_queue s)"
    by (simp add: q Cons_nth_drop_Suc)
  from assms(1) Suc.prems(1) have "pending (rb_queue s ! n)" by (simp add: list_all_length)
  then obtain job upload where item: "rb_queue s ! n = Some (job, upload)" "j_status job = QUEUED"
    by (auto simp: pending_def split: option.splits)
  from r b have "worker_round rs s1 = (Inr go_on, s')" by simp
  from worker_round_result [OF q' [unfolded item(1)] item(2) assms(2) this] show ?case by simp
qed simp

lemma worker_rounds_ends:
  assumes "list_all pending (rb_queue s)" and "processors_ok (rs_scans rs)"
    and "k < length (rb_queue s)" and "rb_queue s ! k = Some (job, upload)"
    and "worker_rounds rs k s = (Inr go_on, s')"
  shows "worker_rounds rs (Suc k) s = worker_round rs s' \<and> stored_terminal (j_job_id job) (snd (worker_round rs s'))"
proof -
  from worker_rounds_queue [OF assms(1,2) _ assms(5)] assms(3) have go: go_on and q: "rb_queue s' = drop k (rb_queue s)" by simp_all
  then have q': "rb_queue s' = Some (job, upload) # drop (Suc k) (rb_queue s)"
    using assms(3,4) by (simp add: Cons_nth_drop_Suc [symmetric])
  from assms(1,3,4) have "j_status job = QUEUED" by (auto simp: list_all_length pending_def split: option.splits)
  moreover obtain r s2 where run: "worker_round rs s' = (r, s2)" by fastforce
  ultimately have "stored_terminal (j_job_id job) s2"
    using worker_round_result [OF q' _ assms(2) run] by simp
  with go assms(5) run show ?thesis by (simp add: bindP_def)
qed

subsection \<open>Shutdown\<close>

definition shut_item :: "'x rab_service \<Rightarrow> 'x rab_state \<Rightarrow> (scan_job \<times> path) option \<Rightarrow> bool" where
  "shut_item rs s item \<longleftrightarrow>
     (case item of None \<Rightarrow> True
      | Some (job, upload) \<Rightarrow> upload_gone rs upload s
          \<and> (case db_get (j_job_id job) (data_base s) of None \<Rightarrow> False
             | Some j \<Rightarrow> j_status j = FAILED \<and> shutdown_message \<in> set (j_errors j)))"

definition stoppable :: "(scan_job \<times> path) option \<Rightarrow> bool" where
  "stoppable item \<longleftrightarrow> item = None \<or> pending item"

lemma shutdown_item_result:
  assumes "stoppable item" and "shutdown_item rs item s = (r, s')"
  shows "rb_queue s' = rb_queue s \<and> (r = Inr () \<or> r = Inl OSError)
     \<and> (r = Inr () \<longrightarrow> shut_item rs s' item)
     \<and> (\<forall>other. shut_item rs s other \<longrightarrow> shut_item rs s' other)"
proof (cases item)
  case None
  with assms show ?thesis by (auto simp: shutdown_item_def shut_item_def)
next
  case (Some p)
  obtain job upload where p: "p = (job, upload)" by fastforce
  with assms(1) Some have q: "j_status job = QUEUED" by (simp add: stoppable_def pending_def)
  let ?w = "rb_world s"
  let ?job = "job\<lparr>j_errors := j_errors job @ [shutdown_message], j_status := FAILED,
     j_updated_at := ss_clock (rs_scans rs) (w_ticks ?w)\<rparr>"
  let ?s = "s\<lparr>rb_world := ?w\<lparr>w_ticks := Suc (w_ticks ?w), w_db := db_save ?job (w_db ?w)\<rparr>\<rparr>"
  have run: "remove_upload rs upload ?s = (r, s')"
    using assms(2) Some p q
    by (simp add: shutdown_item_def bindP_def thenP_def onworld_def zoomP_def now_time_def transition_def upd_db_def)
  note rm = remove_upload_result [OF run]
  have get: "db_get i (data_base s') = (if i = j_job_id job then Some (reload_job ?job) else db_get i (data_base s))" for i
    using rm by (simp add: store.load_save_eq)
  have gone: "upload_gone rs u s \<Longrightarrow> upload_gone rs u s'" for u
    using rm by (auto simp: upload_gone_def)
  show ?thesis
    using rm remove_upload_gone [of rs upload ?s s'] run get gone
    by (auto simp: shut_item_def Some p reload_job_def split: option.splits if_splits)
qed

lemma drain_queue_result:
  assumes "list_all stoppable (rb_queue s)" and "drain_queue rs s = (r, s')"
  shows "(r = Inl OSError \<or> r = Inr () \<and> rb_queue s' = [] \<and> list_all (shut_item rs s') (rb_queue s))
     \<and> (\<forall>item. shut_item rs s item \<longrightarrow> shut_item rs s' item)"
  using assms
proof (induction rs s rule: drain_queue.induct)
  case (1 rs s)
  show ?case
  proof (cases "rb_queue s")
    case Nil
    with "1.prems"(2) show ?thesis by (simp add: drain_queue.simps)
  next
    case (Cons item rest)
    let ?s = "s\<lparr>rb_queue := rest\<rparr>"
    obtain r1 s1 where item: "shutdown_item rs item ?s = (r1, s1)" by fastforce
    from "1.prems"(1) Cons have ok: "stoppable item" "list_all stoppable rest" by simp_all
    note step = shutdown_item_result [OF ok(1) item]
    have same: "shut_item rs ?s x = shut_item rs s x" for x
      by (auto simp: shut_item_def upload_gone_def split: option.split)
    show ?thesis
    proof (cases r1)
      case (Inl e)
      with "1.prems"(2) Cons item have "r = Inl e" "s' = s1" by (simp_all add: drain_queue.simps [of rs s])
      with step same Inl show ?thesis by auto
    next
      case (Inr u)
      have same1: "s1\<lparr>rb_queue := rest\<rparr> = s1" using step by simp
      have run: "drain_queue rs s1 = (r, s')"
        using "1.prems"(2) Cons item Inr same1 by (simp add: drain_queue.simps [of rs s])
      have "(r = Inl OSError \<or> r = Inr () \<and> rb_queue s' = [] \<and> list_all (shut_item rs s') (rb_queue s1))
         \<and> (\<forall>item. shut_item rs s1 item \<longrightarrow> shut_item rs s' item)"
        using "1.IH" [OF Cons _ Inr, of s1] item Inr run ok(2) step same1 by simp
      with step Inr same show ?thesis by (auto simp: Cons)
    qed
  qed
qed

lemma shutdown_result:
  assumes "list_all stoppable (rb_queue s)" and "shutdown rs s = (r, s')"
  shows "r = Inl OSError \<or> r = Inr ()
     \<and> rb_queue s' = replicate (if rab_enabled (rs_settings rs) then rab_worker_concurrency (rs_settings rs) else 0) None
     \<and> list_all (shut_item rs s') (rb_queue s)"
proof -
  obtain r1 s1 where d: "drain_queue rs s = (r1, s1)" by fastforce
  have same: "shut_item rs (s1\<lparr>rb_queue := q\<rparr>) = shut_item rs s1" for q
    by (rule ext) (auto simp: shut_item_def upload_gone_def split: option.split)
  from drain_queue_result [OF assms(1) d] assms(2) d same show ?thesis
    by (auto simp: shutdown_def thenP_eq)
qed

subsection \<open>A concrete service\<close>

definition sample_rab :: "unit rab_service" where
  "sample_rab = \<lparr>rs_settings = \<lparr>rab_enabled = True, rab_upload_root = [''up''], rab_maximum_upload_bytes = 100,
       rab_queue_capacity = 4, rab_worker_concurrency = 2\<rparr>,
     rs_scans = sample_service, rs_profiles = [], rs_raw_output_root = [''raw''],
     rs_generic_probe = (\<lambda>_. (False, PROBED)), rs_printable = (\<lambda>_. True)\<rparr>"

definition sample_rab_state :: "unit rab_state" where
  "sample_rab_state = \<lparr>rb_world = sample_world, rb_queue = [Some (sample_job, [''up'', ''j'', ''object''])]\<rparr>"

lemma sample_processors_ok: "processors_ok (rs_scans sample_rab)"
  by (simp add: processors_ok_def sample_rab_def sample_service_def correlation.job_processor_axioms)

lemma sample_rab_state_queue:
  "rb_queue sample_rab_state = [Some (sample_job, [''up'', ''j'', ''object''])]" "j_status sample_job = QUEUED"
  by (simp_all add: sample_rab_state_def sample_job_def new_job_def)

subsection \<open>Properties of the protocol service\<close>

text \<open>
  C17: whoever is authenticated presented \<open>Bearer \<close> and the non-empty token of a stored credential,
  and gets the client identifier and the scopes of that credential, the required scope among them.
\<close>

theorem authenticate_needs_credential:
  "case authenticate store authorization scope of
     Inl _ \<Rightarrow> True
   | Inr c \<Rightarrow> \<exists>entries v. store = Inr entries \<and> v \<in> set entries \<and> ce_token v \<noteq> []
       \<and> authorization = Some (asc ''Bearer '' @ ce_token v) \<and> scope \<in> set (ce_scopes v)
       \<and> ce_client_id v = Some (cl_client_id c) \<and> cl_scopes c = ce_scopes v"
  using authenticate_sound [of store authorization scope] by (simp split: sum.split)


text \<open>No submission makes the queue longer than its capacity.\<close>

lemma submit_respects_capacity:
  "length (rb_queue (snd (submit_stream rs sub incoming_id job_id (Suc (length bs)) file_read (bs, 0) s)))
     \<le> max (length (rb_queue s)) (rab_queue_capacity (rs_settings rs))"
proof -
  obtain r s' where run: "submit_stream rs sub incoming_id job_id (Suc (length bs)) file_read (bs, 0) s = (r, s')"
    by fastforce
  with submit_result [of rs sub incoming_id job_id bs s] show ?thesis
    by (auto simp: submit_spec_def Let_def enqueued_def split: sum.splits if_splits)
qed

text \<open>
  Removing an upload deletes at most the one file the path resolves to, and only when that
  lies below the resolved upload root; jobs and queue are untouched.
\<close>

lemma remove_upload_confined:
  "case remove_upload rs upload s of (r, s') \<Rightarrow>
     rb_queue s' = rb_queue s \<and> data_base s' = data_base s \<and> (r = Inr () \<or> r = Inl OSError)
     \<and> (\<forall>p. file_at p (files s') =
          (if r = Inr () \<and> p = resolve_path upload \<and> below (resolve_path (rab_upload_root (rs_settings rs))) p
           then None else file_at p (files s)))"
proof -
  obtain r s' where run: "remove_upload rs upload s = (r, s')" by fastforce
  from remove_upload_result [OF run] show ?thesis by (simp only: run prod.case simp_thms)
qed

text \<open>
  C13: a round of the worker takes exactly the first item off the queue and leaves its job stored
  in a terminal state, whatever the analysis does; the worker goes on with the upload removed, or
  dies of an \<open>OSError\<close> or of the \<open>ValueError\<close> of failing a job that had already ended.
\<close>

theorem worker_round_ends_job:
  assumes "rb_queue s = Some (job, upload) # rest" and "j_status job = QUEUED" and "processors_ok (rs_scans rs)"
  shows "case worker_round rs s of (r, s') \<Rightarrow>
     rb_queue s' = rest \<and> stored_terminal (j_job_id job) s'
     \<and> (case r of Inr go_on \<Rightarrow> go_on \<and> upload_gone rs upload s' | Inl e \<Rightarrow> e = OSError \<or> (\<exists>m. e = ValueError m))"
proof -
  obtain r s' where run: "worker_round rs s = (r, s')" by fastforce
  from worker_round_result [OF assms run] show ?thesis by (simp only: run prod.case simp_thms)
qed

theorem worker_round_ends_job_witness:
  "stored_terminal (j_job_id sample_job) (snd (worker_round sample_rab sample_rab_state))"
proof -
  obtain r s' where run: "worker_round sample_rab sample_rab_state = (r, s')" by fastforce
  with worker_round_ends_job [OF sample_rab_state_queue sample_processors_ok] show ?thesis by simp
qed

text \<open>
  C28: no queued job waits for ever. When the queue holds only pending jobs, the job at position
  \<open>k\<close> is stored in a terminal state after \<open>k + 1\<close> rounds of a worker whose first \<open>k\<close> rounds raised
  nothing.
\<close>

theorem queued_job_ends:
  assumes "list_all pending (rb_queue s)" and "processors_ok (rs_scans rs)"
    and "k < length (rb_queue s)" and "rb_queue s ! k = Some (job, upload)"
    and "worker_rounds rs k s = (Inr go_on, s')"
  shows "stored_terminal (j_job_id job) (snd (worker_rounds rs (Suc k) s))"
  using worker_rounds_ends [OF assms] by (simp only:)

theorem queued_job_ends_witness:
  "stored_terminal (j_job_id sample_job) (snd (worker_rounds sample_rab 1 sample_rab_state))"
proof -
  have "list_all pending (rb_queue sample_rab_state)"
    by (simp add: sample_rab_state_queue pending_def)
  from queued_job_ends [OF this sample_processors_ok, of 0 sample_job] show ?thesis
    by (simp add: sample_rab_state_queue)
qed

text \<open>
  C29: a shutdown that is not stopped by an \<open>OSError\<close> of the upload directory takes every pending
  item off the queue, stores each of its jobs \<open>FAILED\<close> with the shutdown message, removes the
  uploads, and leaves in the queue one \<open>None\<close> for each worker.
\<close>

theorem shutdown_fails_pending_jobs:
  assumes "list_all stoppable (rb_queue s)" and "shutdown rs s = (r, s')"
  shows "r = Inl OSError \<or> r = Inr ()
     \<and> rb_queue s' = replicate (if rab_enabled (rs_settings rs) then rab_worker_concurrency (rs_settings rs) else 0) None
     \<and> list_all (shut_item rs s') (rb_queue s)"
  using assms by (rule shutdown_result)

theorem shutdown_fails_pending_jobs_witness:
  "\<exists>s'. shutdown sample_rab sample_rab_state = (Inr (), s') \<and> rb_queue s' = [None, None]
     \<and> shut_item sample_rab s' (Some (sample_job, [''up'', ''j'', ''object'']))"
proof -
  obtain r s' where run: "shutdown sample_rab sample_rab_state = (r, s')" by fastforce
  have stop: "list_all stoppable (rb_queue sample_rab_state)"
    by (simp add: sample_rab_state_queue stoppable_def pending_def)
  have "fst (shutdown sample_rab sample_rab_state) = Inr ()"
    by (simp add: shutdown_def thenP_eq sample_rab_state_def drain_queue.simps shutdown_item_def bindP_def
        onworld_def onfiles_def zoomP_def now_time_def transition_def sample_job_def new_job_def upd_db_def
        remove_upload_def sample_rab_def resolve_path_def below_def tryP_def onmachine_def onfs_def unlink_def rmdir_def
        sample_world_def sample_fs_def is_dir_def Let_def)
  with run have "r = Inr ()" by simp
  with shutdown_fails_pending_jobs [OF stop run] run show ?thesis
    by (simp add: sample_rab_state_queue sample_rab_def numeral_2_eq_2)
qed


end
