(* ===== verification/Executables.thy ===== *)
theory Executables
  imports Scanning
begin

unbundle bit_operations_syntax

section \<open>Executable structure: \<open>analyzers/executable.py\<close>\<close>

text \<open>
  The bounded parsers for Amiga HUNK, DOS MZ with NE and LE/LX, PE, ELF and Mach-O, and the
  analyzer around them. The parsers build records; the functions named \<open>*_value\<close> give the
  dictionaries the code puts into its observations. \<open>struct.unpack_from\<close> of several fields is one
  check of the whole format (\<open>fits\<close>) and the fields read at their offsets.
\<close>

subsection \<open>Limits, tables and readers\<close>

definition MAX_HEADERS :: nat where "MAX_HEADERS = 4096"
definition MAX_SECTIONS :: nat where "MAX_SECTIONS = 1024"
definition MAX_SYMBOLS :: nat where "MAX_SYMBOLS = 100000"
definition MAX_IMPORTS :: nat where "MAX_IMPORTS = 16384"
definition MAX_NAME :: nat where "MAX_NAME = 4096"

definition PE_MACHINES :: "(nat \<times> string) list" where
  "PE_MACHINES = [(0x014C, ''I386''), (0x8664, ''AMD64''), (0x01C0, ''ARM''), (0xAA64, ''ARM64'')]"

definition ELF_MACHINES :: "(nat \<times> string) list" where
  "ELF_MACHINES = [(3, ''I386''), (8, ''MIPS''), (20, ''PPC''), (40, ''ARM''), (62, ''X86_64''), (183, ''AARCH64'')]"

definition HUNK_TYPES :: "(nat \<times> string) list" where
  "HUNK_TYPES = [(0x3E7, ''HUNK_UNIT''), (0x3E8, ''HUNK_NAME''), (0x3E9, ''HUNK_CODE''), (0x3EA, ''HUNK_DATA''),
     (0x3EB, ''HUNK_BSS''), (0x3EC, ''HUNK_RELOC32''), (0x3ED, ''HUNK_RELOC16''), (0x3EE, ''HUNK_RELOC8''),
     (0x3EF, ''HUNK_EXT''), (0x3F0, ''HUNK_SYMBOL''), (0x3F1, ''HUNK_DEBUG''), (0x3F2, ''HUNK_END''),
     (0x3F3, ''HUNK_HEADER''), (0x3F5, ''HUNK_OVERLAY''), (0x3F6, ''HUNK_BREAK''), (0x3F7, ''HUNK_DREL32''),
     (0x3F8, ''HUNK_DREL16''), (0x3F9, ''HUNK_DREL8''), (0x3FC, ''HUNK_RELRELOC32''), (0x3FD, ''HUNK_ABSRELOC16'')]"

record parsed_executable =
  px_format :: string
  px_architecture :: "string option"
  px_observations :: "(string \<times> pyval) list"
  px_assessments :: "assessment list"
  px_errors :: "string list"

datatype endian = Little | Big

definition field :: "endian \<Rightarrow> nat \<Rightarrow> bytes \<Rightarrow> nat \<Rightarrow> nat" where
  "field en n data off = (case en of Little \<Rightarrow> le_at n data off | Big \<Rightarrow> be_at n data off)"

definition fits :: "nat \<Rightarrow> bytes \<Rightarrow> nat \<Rightarrow> unit res" where
  "fits n data off = (if off + n \<le> length data then Inr () else Inl StructError)"

definition need :: "bytes \<Rightarrow> nat \<Rightarrow> nat \<Rightarrow> string \<Rightarrow> unit res" where
  "need data offset n what =
     (if offset > length data \<or> n > length data - offset then Inl (ExecutableError (''truncated '' @ what))
      else Inr ())"

text \<open>\<open>bytes.decode("utf-8", errors="replace")\<close>: each maximal ill-formed part becomes U+FFFD.\<close>

definition cont :: "nat \<Rightarrow> nat \<Rightarrow> bytes \<Rightarrow> nat \<Rightarrow> bool" where
  "cont lo hi bs i \<longleftrightarrow> i < length bs \<and> lo \<le> unat (bs ! i) \<and> unat (bs ! i) \<le> hi"

definition utf8_step :: "byte \<Rightarrow> bytes \<Rightarrow> nat \<times> nat" where
  "utf8_step b0 bs =
     (let b = unat b0; d = (\<lambda>i. unat (bs ! i) mod 64);
          lo = (if b = 0xE0 then 0xA0 else if b = 0xF0 then 0x90 else 0x80);
          hi = (if b = 0xED then 0x9F else if b = 0xF4 then 0x8F else 0xBF)
      in if b < 0x80 then (b, 0)
         else if 0xC2 \<le> b \<and> b \<le> 0xDF then
           (if cont 0x80 0xBF bs 0 then ((b mod 32) * 64 + d 0, 1) else (0xFFFD, 0))
         else if 0xE0 \<le> b \<and> b \<le> 0xEF then
           (if \<not> cont lo hi bs 0 then (0xFFFD, 0)
            else if cont 0x80 0xBF bs 1 then ((b mod 16) * 4096 + d 0 * 64 + d 1, 2) else (0xFFFD, 1))
         else if 0xF0 \<le> b \<and> b \<le> 0xF4 then
           (if \<not> cont lo hi bs 0 then (0xFFFD, 0)
            else if \<not> cont 0x80 0xBF bs 1 then (0xFFFD, 1)
            else if cont 0x80 0xBF bs 2 then ((b mod 8) * 262144 + d 0 * 4096 + d 1 * 64 + d 2, 3) else (0xFFFD, 2))
         else (0xFFFD, 0))"

fun utf8_replace :: "bytes \<Rightarrow> pystr" where
  "utf8_replace [] = []"
| "utf8_replace (b # bs) = (case utf8_step b bs of (c, used) \<Rightarrow> c # utf8_replace (drop used bs))"

declare utf8_replace.simps [simp del]

definition rstrip_nul :: "bytes \<Rightarrow> bytes" where
  "rstrip_nul bs = rev (dropWhile (\<lambda>b. b = 0) (rev bs))"

definition before_nul :: "bytes \<Rightarrow> bytes" where
  "before_nul bs = takeWhile (\<lambda>b. b \<noteq> 0) bs"

definition cstring :: "bytes \<Rightarrow> nat \<Rightarrow> pystr res" where
  "cstring data offset =
     bindE (need data offset 1 ''string'') (\<lambda>_.
     let window = pyslice data offset (min (length data) (offset + MAX_NAME)) in
     if 0 \<notin> set window then Inl (ExecutableError ''unterminated executable string'')
     else Inr (utf8_replace (before_nul window)))"

text \<open>\<open>TABLE.get(key, default)\<close>.\<close>

definition lookup_name :: "(nat \<times> string) list \<Rightarrow> nat \<Rightarrow> string \<Rightarrow> string" where
  "lookup_name table key other = (case map_of table key of Some s \<Rightarrow> s | None \<Rightarrow> other)"

lemma need_Inr [simp]: "need data offset n what = Inr u \<longleftrightarrow> offset + n \<le> length data"
  by (auto simp: need_def)

lemma fits_Inr [simp]: "fits n data off = Inr u \<longleftrightarrow> off + n \<le> length data"
  by (simp add: fits_def)

subsection \<open>Amiga HUNK\<close>

function hunk_resident :: "bytes \<Rightarrow> nat \<Rightarrow> pystr list \<Rightarrow> (nat \<times> pystr list) res" where
  "hunk_resident data cursor names =
     bindE (need data cursor 4 ''HUNK resident-name length'') (\<lambda>_.
     let longs = be_at 4 data cursor; start = cursor + 4 in
     if longs = 0 then Inr (start, names)
     else if longs > MAX_NAME div 4 then Inl (ExecutableError ''HUNK resident name exceeds limit'')
     else bindE (need data start (longs * 4) ''HUNK resident name'') (\<lambda>_.
       hunk_resident data (start + longs * 4)
         (names @ [latin1 (rstrip_nul (pyslice data start (start + longs * 4)))])))"
  by pat_completeness auto
termination by (relation "measure (\<lambda>(data, cursor, _). length data - cursor)") auto

datatype hunk_body =
    Hunk_Block nat
  | Hunk_Relocs "(nat \<times> nat list) list"
  | Hunk_Symbols "(pystr \<times> nat) list"
  | Hunk_End
  | Hunk_Unsupported

record hunk_record =
  hr_type :: nat
  hr_flags :: nat
  hr_index :: nat
  hr_body :: hunk_body

definition hunk_name :: "nat \<Rightarrow> string" where
  "hunk_name ty = lookup_name HUNK_TYPES ty (''HUNK_UNKNOWN_'' @ show_nat ty)"

function hunk_relocs :: "bytes \<Rightarrow> string \<Rightarrow> nat \<Rightarrow> (nat \<times> nat list) list \<Rightarrow> (nat \<times> (nat \<times> nat list) list) res" where
  "hunk_relocs data name cursor groups =
     bindE (need data cursor 4 (name @ '' count'')) (\<lambda>_.
     let count = be_at 4 data cursor; start = cursor + 4 in
     if count = 0 then Inr (start, groups)
     else if count > MAX_SYMBOLS then Inl (ExecutableError ''HUNK relocation count exceeds limit'')
     else bindE (need data start (4 + count * 4) (name @ '' offsets'')) (\<lambda>_.
       bindE (fits (count * 4) data (start + 4)) (\<lambda>_.
       hunk_relocs data name (start + 4 + count * 4)
         (groups @ [(be_at 4 data start, be_words count data (start + 4))]))))"
  by pat_completeness auto
termination by (relation "measure (\<lambda>(data, _, cursor, _). length data - cursor)") auto

function hunk_symbols :: "bytes \<Rightarrow> nat \<Rightarrow> (pystr \<times> nat) list \<Rightarrow> (nat \<times> (pystr \<times> nat) list) res" where
  "hunk_symbols data cursor symbols =
     bindE (need data cursor 4 ''HUNK symbol name length'') (\<lambda>_.
     let longs = be_at 4 data cursor; start = cursor + 4 in
     if longs = 0 then Inr (start, symbols)
     else if length symbols \<ge> MAX_SYMBOLS \<or> longs > MAX_NAME div 4
     then Inl (ExecutableError ''HUNK symbol limit exceeded'')
     else bindE (need data start (longs * 4 + 4) ''HUNK symbol'') (\<lambda>_.
       hunk_symbols data (start + longs * 4 + 4)
         (symbols @ [(latin1 (rstrip_nul (pyslice data start (start + longs * 4))), be_at 4 data (start + longs * 4))])))"
  by pat_completeness auto
termination by (relation "measure (\<lambda>(data, cursor, _). length data - cursor)") auto

declare hunk_resident.simps [simp del] hunk_relocs.simps [simp del] hunk_symbols.simps [simp del]

text \<open>The part of a record after its type word: the body and the position behind it.\<close>

definition hunk_body_at :: "bytes \<Rightarrow> nat \<Rightarrow> nat \<Rightarrow> (hunk_body \<times> nat) res" where
  "hunk_body_at data ty cursor =
     (let name = hunk_name ty in
      if ty \<in> {0x3E9, 0x3EA, 0x3EB, 0x3F1} then
        bindE (need data cursor 4 (name @ '' size'')) (\<lambda>_.
        let longs = be_at 4 data cursor; start = cursor + 4 in
        if ty = 0x3EB then Inr (Hunk_Block longs, start)
        else bindE (need data start (longs * 4) name) (\<lambda>_. Inr (Hunk_Block longs, start + longs * 4)))
      else if ty \<in> {0x3EC, 0x3ED, 0x3EE, 0x3F7, 0x3F8, 0x3F9, 0x3FC, 0x3FD} then
        bindE (hunk_relocs data name cursor []) (\<lambda>(c, groups). Inr (Hunk_Relocs groups, c))
      else if ty = 0x3F0 then
        bindE (hunk_symbols data cursor []) (\<lambda>(c, symbols). Inr (Hunk_Symbols symbols, c))
      else if ty = 0x3F2 then Inr (Hunk_End, cursor)
      else Inr (Hunk_Unsupported, cursor))"

lemma hunk_relocs_forward: "hunk_relocs data name cursor groups = Inr (c, gs) \<Longrightarrow> cursor \<le> c"
proof (induction data name cursor groups rule: hunk_relocs.induct)
  case (1 data name cursor groups)
  from "1.prems" [unfolded hunk_relocs.simps [of data name cursor groups]] "1.IH" show ?case
    by (fastforce simp: Let_def split: if_splits)
qed

lemma hunk_symbols_forward: "hunk_symbols data cursor symbols = Inr (c, ss) \<Longrightarrow> cursor \<le> c"
proof (induction data cursor symbols rule: hunk_symbols.induct)
  case (1 data cursor symbols)
  from "1.prems" [unfolded hunk_symbols.simps [of data cursor symbols]] "1.IH" show ?case
    by (fastforce simp: Let_def split: if_splits)
qed

lemma hunk_body_forward: "hunk_body_at data ty cursor = Inr (b, c) \<Longrightarrow> cursor \<le> c"
  by (auto simp: hunk_body_at_def Let_def split: if_splits prod.splits
      dest: hunk_relocs_forward hunk_symbols_forward)

text \<open>
  The loop over the records: all of them, the number of \<open>HUNK_END\<close> records, and whether the last
  one is of a type the parser does not support.
\<close>

function hunk_records :: "bytes \<Rightarrow> nat \<Rightarrow> nat \<Rightarrow> nat \<Rightarrow> nat \<Rightarrow> hunk_record list \<Rightarrow> (hunk_record list \<times> nat \<times> bool) res" where
  "hunk_records data table_size cursor current ended records =
     (if \<not> cursor < length data then Inr (records, ended, False)
      else
        bindE (need data cursor 4 ''HUNK record'') (\<lambda>_.
        let raw_type = be_at 4 data cursor; ty = raw_type AND 0x3FFFFFFF in
        bindE (hunk_body_at data ty (cursor + 4)) (\<lambda>(body, next_at).
        let records' = records @ [\<lparr>hr_type = ty, hr_flags = drop_bit 30 raw_type, hr_index = current, hr_body = body\<rparr>];
            ended' = (if body = Hunk_End then ended + 1 else ended)
        in if body = Hunk_Unsupported then Inr (records', ended, True)
           else if ended' = table_size then Inr (records', ended', False)
           else if length records' > MAX_HEADERS then Inl (ExecutableError ''HUNK record count exceeds limit'')
           else hunk_records data table_size next_at (if body = Hunk_End then current + 1 else current) ended' records')))"
  by pat_completeness auto
termination
  by (relation "measure (\<lambda>(data, _, cursor, _). length data - cursor)") (auto dest: hunk_body_forward)

declare hunk_records.simps [simp del]

definition hunk_block_value :: "(nat \<times> nat list) \<Rightarrow> pyval" where
  "hunk_block_value g = (case g of (target, offsets) \<Rightarrow>
     PDict [(''target_hunk'', PNat target), (''offsets'', PList (map PNat offsets))])"

definition hunk_symbol_value :: "pystr \<times> nat \<Rightarrow> pyval" where
  "hunk_symbol_value s = (case s of (name, v) \<Rightarrow> PDict [(''name'', PStr name), (''value'', PNat v)])"

definition hunk_record_value :: "hunk_record \<Rightarrow> pyval" where
  "hunk_record_value r =
     PDict ([(''type_id'', PNat (hr_type r)), (''type'', PAsc (hunk_name (hr_type r))),
        (''memory_flags'', PNat (hr_flags r)), (''hunk_index'', PNat (hr_index r))]
      @ (case hr_body r of
           Hunk_Block longs \<Rightarrow> [(''size_longs'', PNat longs), (''size_bytes'', PNat (longs * 4))]
         | Hunk_Relocs groups \<Rightarrow> [(''relocations'', PList (map hunk_block_value groups))]
         | Hunk_Symbols symbols \<Rightarrow> [(''symbols'', PList (map hunk_symbol_value symbols))]
         | Hunk_End \<Rightarrow> []
         | Hunk_Unsupported \<Rightarrow> [(''unsupported'', PBool True)]))"

record hunk_file =
  hf_resident :: "pystr list"
  hf_first :: nat
  hf_last :: nat
  hf_declared :: "(nat \<times> nat) list"
  hf_records :: "hunk_record list"
  hf_unsupported :: bool

text \<open>The header, the table of declared hunks and the records.\<close>

definition read_hunk :: "bytes \<Rightarrow> hunk_file res" where
  "read_hunk data =
     bindE (hunk_resident data 4 []) (\<lambda>(cursor, resident).
     bindE (need data cursor 12 ''HUNK header table'') (\<lambda>_.
     bindE (fits 12 data cursor) (\<lambda>_.
     let table_size = be_at 4 data cursor; first = be_at 4 data (cursor + 4); last = be_at 4 data (cursor + 8);
         start = cursor + 12
     in if table_size = 0 \<or> table_size > MAX_SECTIONS \<or> last < first \<or> last - first + 1 \<noteq> table_size
        then Inl (ExecutableError ''invalid HUNK table range/count'')
        else bindE (need data start (table_size * 4) ''HUNK size table'') (\<lambda>_.
          let declared = map (\<lambda>raw. (raw AND 0x3FFFFFFF, drop_bit 30 raw)) (be_words table_size data start) in
          bindE (hunk_records data table_size (start + table_size * 4) first 0 []) (\<lambda>(records, ended, unsupported).
          if \<not> unsupported \<and> ended \<noteq> table_size
          then Inl (ExecutableError ''HUNK file lacks required HUNK_END records'')
          else Inr \<lparr>hf_resident = resident, hf_first = first, hf_last = last, hf_declared = declared,
                 hf_records = records, hf_unsupported = unsupported\<rparr>)))))"

definition exec_assessment :: "string \<Rightarrow> string \<Rightarrow> confidence \<Rightarrow> string \<Rightarrow> assessment" where
  "exec_assessment ty statement conf evidence =
     \<lparr>as_type = ty, as_analyzer_id = ''executable'', as_statement = asc statement, as_confidence = conf,
      as_evidence_refs = [asc evidence]\<rparr>"

definition parse_hunk :: "bytes \<Rightarrow> parsed_executable res" where
  "parse_hunk data =
     bindE (read_hunk data) (\<lambda>h.
     let message = ''unsupported HUNK record type '' @ show_nat (hr_type (last (hf_records h))) in
     Inr \<lparr>px_format = ''AMIGA_HUNK'', px_architecture = Some ''M68K'',
       px_observations =
         [(''hunk.header'', PDict [(''resident_names'', PList (map PStr (hf_resident h))),
            (''hunk_count'', PNat (length (hf_declared h))), (''first_hunk'', PNat (hf_first h)),
            (''last_hunk'', PNat (hf_last h)),
            (''declared_hunks'', PList (map (\<lambda>(longs, flags).
               PDict [(''size_longs'', PNat longs), (''memory_flags'', PNat flags)]) (hf_declared h)))]),
          (''hunk.records'', PList (map hunk_record_value (hf_records h)))],
       px_assessments = (if hf_unsupported h
          then [exec_assessment ''EXECUTABLE_STRUCTURE_ANOMALY'' message Conf_HIGH ''hunk.records''] else []),
       px_errors = (if hf_unsupported h then [message] else [])\<rparr>)"

subsection \<open>Mach-O\<close>

record macho_slice =
  ms_cpu :: nat
  ms_subtype :: nat
  ms_offset :: nat
  ms_size :: nat
  ms_align :: nat

definition macho_slice_at :: "endian \<Rightarrow> bytes \<Rightarrow> nat \<Rightarrow> macho_slice res" where
  "macho_slice_at en data index =
     (let pos = 8 + index * 20 in
      bindE (fits 20 data pos) (\<lambda>_.
      let offset = field en 4 data (pos + 8); sz = field en 4 data (pos + 12) in
      bindE (need data offset sz ''Mach-O FAT slice'') (\<lambda>_. Inr
        \<lparr>ms_cpu = field en 4 data pos, ms_subtype = field en 4 data (pos + 4), ms_offset = offset, ms_size = sz,
         ms_align = field en 4 data (pos + 16)\<rparr>)))"

definition macho_slices :: "endian \<Rightarrow> bytes \<Rightarrow> macho_slice list res" where
  "macho_slices en data =
     bindE (need data 0 8 ''Mach-O FAT header'') (\<lambda>_.
     bindE (fits 4 data 4) (\<lambda>_.
     let count = field en 4 data 4 in
     if count > 64 then Inl (ExecutableError ''Mach-O FAT architecture count exceeds limit'')
     else bindE (need data 8 (count * 20) ''Mach-O FAT architecture table'') (\<lambda>_.
       mapE (macho_slice_at en data) [0..<count])))"

record macho_load =
  ml_command :: nat
  ml_size :: nat
  ml_offset :: nat

text \<open>\<open>for index in range(commands)\<close>: the argument counts the commands left.\<close>

fun macho_loads :: "endian \<Rightarrow> bytes \<Rightarrow> nat \<Rightarrow> nat \<Rightarrow> macho_load list res" where
  "macho_loads en data 0 cursor = Inr []"
| "macho_loads en data (Suc left) cursor =
     bindE (need data cursor 8 ''Mach-O load command'') (\<lambda>_.
     bindE (fits 8 data cursor) (\<lambda>_.
     let command = field en 4 data cursor; sz = field en 4 data (cursor + 4) in
     if sz < 8 then Inl (ExecutableError ''invalid Mach-O load-command size'')
     else bindE (need data cursor sz ''Mach-O load command'') (\<lambda>_.
       bindE (macho_loads en data left (cursor + sz)) (\<lambda>rest.
       Inr (\<lparr>ml_command = command, ml_size = sz, ml_offset = cursor\<rparr> # rest)))))"

definition indexed :: "(nat \<Rightarrow> 'a \<Rightarrow> pyval) \<Rightarrow> 'a list \<Rightarrow> pyval" where
  "indexed f xs = PList (map (\<lambda>(i, x). f i x) (zip [0..<length xs] xs))"

definition macho_slice_value :: "nat \<Rightarrow> macho_slice \<Rightarrow> pyval" where
  "macho_slice_value i s = PDict [(''index'', PNat i), (''cpu_type'', PNat (ms_cpu s)),
     (''cpu_subtype'', PNat (ms_subtype s)), (''offset'', PNat (ms_offset s)), (''size'', PNat (ms_size s)),
     (''alignment_power'', PNat (ms_align s))]"

definition macho_load_value :: "nat \<Rightarrow> macho_load \<Rightarrow> pyval" where
  "macho_load_value i l = PDict [(''index'', PNat i), (''command'', PNat (ml_command l)), (''size'', PNat (ml_size l)),
     (''offset'', PNat (ml_offset l))]"

definition parse_macho :: "bytes \<Rightarrow> parsed_executable res" where
  "parse_macho data =
     (let raw = be_at 4 data 0 in
      if raw \<in> {0xCAFEBABE, 0xBEBAFECA} then
        bindE (macho_slices (if raw = 0xCAFEBABE then Big else Little) data) (\<lambda>slices. Inr
          \<lparr>px_format = ''MACHO_FAT'', px_architecture = None,
           px_observations = [(''macho.fat_architectures'', indexed macho_slice_value slices)],
           px_assessments = [], px_errors = []\<rparr>)
      else
        let little = raw \<in> {0xCEFAEDFE, 0xCFFAEDFE}; is64 = raw \<in> {0xFEEDFACF, 0xCFFAEDFE};
            en = (if little then Little else Big); header_size = (if is64 then 32 else 28)
        in bindE (need data 0 header_size ''Mach-O header'') (\<lambda>_.
           bindE (fits 24 data 4) (\<lambda>_.
           let cpu = field en 4 data 4; commands = field en 4 data 16; command_bytes = field en 4 data 20 in
           if commands > MAX_HEADERS \<or> command_bytes > length data - header_size
           then Inl (ExecutableError ''Mach-O load-command bounds exceeded'')
           else bindE (macho_loads en data commands header_size) (\<lambda>loads. Inr
             \<lparr>px_format = (if is64 then ''MACHO64'' else ''MACHO32''),
              px_architecture = Some (lookup_name [(7, ''I386''), (0x01000007, ''X86_64''), (12, ''ARM''), (0x0100000C, ''ARM64'')]
                 cpu (''MACH_CPU_'' @ show_nat cpu)),
              px_observations =
                [(''macho.header'', PDict [(''magic'', PAsc (''0x'' @ hex_upper 8 raw)),
                   (''endianness'', PAsc (if little then ''little'' else ''big'')), (''cpu_type'', PNat cpu),
                   (''cpu_subtype'', PNat (field en 4 data 8)), (''file_type'', PNat (field en 4 data 12)),
                   (''load_command_count'', PNat commands), (''load_command_bytes'', PNat command_bytes),
                   (''flags'', PNat (field en 4 data 24))]),
                 (''macho.load_commands'', indexed macho_load_value loads)],
              px_assessments = [], px_errors = []\<rparr>))))"

subsection \<open>PE\<close>

record pe_section =
  ps_name :: pystr
  ps_rva :: nat
  ps_virtual_size :: nat
  ps_raw_offset :: nat
  ps_raw_size :: nat
  ps_flags :: nat

datatype pe_symbol = Pe_Ordinal nat | Pe_Named pystr

definition directory_names :: "string list" where
  "directory_names = [''export'', ''import'', ''resource'', ''exception'', ''security'', ''relocation'', ''debug'',
     ''architecture'', ''global_ptr'', ''tls'', ''load_config'', ''bound_import'', ''iat'', ''delay_import'', ''clr'',
     ''reserved'']"

record pe_directory_row =
  pd_name :: string
  pd_rva :: nat
  pd_size :: nat

definition pe_directory :: "bytes \<Rightarrow> nat \<Rightarrow> nat \<Rightarrow> pe_directory_row res" where
  "pe_directory data directory_start index =
     (let pos = directory_start + index * 8 in
      bindE (need data pos 8 ''PE data directory'') (\<lambda>_. bindE (fits 8 data pos) (\<lambda>_.
      bindE (item_at directory_names index) (\<lambda>name.
      Inr \<lparr>pd_name = name, pd_rva = le_at 4 data pos, pd_size = le_at 4 data (pos + 4)\<rparr>))))"

definition pe_section_at :: "bytes \<Rightarrow> nat \<Rightarrow> nat \<Rightarrow> pe_section res" where
  "pe_section_at data section_offset index =
     (let row = section_offset + index * 40 in
      bindE (need data row 40 ''PE section header'') (\<lambda>_.
      bindE (fits 16 data (row + 8)) (\<lambda>_.
      bindE (fits 4 data (row + 36)) (\<lambda>_.
      let raw_size = le_at 4 data (row + 16); raw_offset = le_at 4 data (row + 20) in
      if raw_size \<noteq> 0 \<and> (raw_offset > length data \<or> raw_size > length data - raw_offset)
      then Inl (ExecutableError (''PE section '' @ show_nat index @ '' raw range lies outside file''))
      else Inr \<lparr>ps_name = map (\<lambda>b. if unat b < 128 then unat b else 0xFFFD) (before_nul (pyslice data row (row + 8))),
             ps_rva = le_at 4 data (row + 12), ps_virtual_size = le_at 4 data (row + 8),
             ps_raw_offset = raw_offset, ps_raw_size = raw_size, ps_flags = le_at 4 data (row + 36)\<rparr>))))"

fun rva_offset :: "bytes \<Rightarrow> pe_section list \<Rightarrow> nat \<Rightarrow> nat res" where
  "rva_offset data [] rva = Inl (ExecutableError (''PE RVA 0x'' @ hex_lower 0 rva @ '' is not mapped by a section''))"
| "rva_offset data (s # rest) rva =
     (if ps_rva s \<le> rva \<and> rva < ps_rva s + max (ps_virtual_size s) (ps_raw_size s)
      then let v = ps_raw_offset s + rva - ps_rva s in bindE (need data v 1 ''PE RVA'') (\<lambda>_. Inr v)
      else rva_offset data rest rva)"

text \<open>The two loops \<open>for _ in range(MAX_IMPORTS): ... else: raise\<close>; the count is what is left of the range.\<close>

fun pe_thunks :: "bytes \<Rightarrow> pe_section list \<Rightarrow> nat \<Rightarrow> nat \<Rightarrow> nat \<Rightarrow> pe_symbol list res" where
  "pe_thunks data sections width 0 cursor = Inl (ExecutableError ''PE import symbol count exceeds limit'')"
| "pe_thunks data sections width (Suc left) cursor =
     bindE (need data cursor width ''PE import thunk'') (\<lambda>_.
     let v = le_at width data cursor in
     if v = 0 then Inr []
     else bindE
       (if bit v (8 * width - 1) then Inr (Pe_Ordinal (v AND 0xFFFF))
        else bindE (rva_offset data sections v) (\<lambda>name_at.
          bindE (need data name_at 2 ''PE import hint'') (\<lambda>_.
          bindE (cstring data (name_at + 2)) (\<lambda>name. Inr (Pe_Named name))))) (\<lambda>symbol.
       bindE (pe_thunks data sections width left (cursor + width)) (\<lambda>rest. Inr (symbol # rest))))"

fun pe_imports :: "bytes \<Rightarrow> pe_section list \<Rightarrow> nat \<Rightarrow> nat \<Rightarrow> nat \<Rightarrow> (pystr \<times> pe_symbol list) list res" where
  "pe_imports data sections width 0 cursor = Inl (ExecutableError ''PE import descriptor count exceeds limit'')"
| "pe_imports data sections width (Suc left) cursor =
     bindE (need data cursor 20 ''PE import descriptor'') (\<lambda>_.
     bindE (fits 20 data cursor) (\<lambda>_.
     let original = le_at 4 data cursor; name_rva = le_at 4 data (cursor + 12); thunk = le_at 4 data (cursor + 16) in
     if original = 0 \<and> name_rva = 0 \<and> thunk = 0 then Inr []
     else
       bindE (rva_offset data sections name_rva) (\<lambda>library_at.
       bindE (cstring data library_at) (\<lambda>library.
       bindE (rva_offset data sections (if original \<noteq> 0 then original else thunk)) (\<lambda>thunks_at.
       bindE (pe_thunks data sections width MAX_IMPORTS thunks_at) (\<lambda>symbols.
       bindE (pe_imports data sections width left (cursor + 20)) (\<lambda>rest.
       Inr ((library, symbols) # rest))))))))"

definition pe_export_at :: "bytes \<Rightarrow> pe_section list \<Rightarrow> nat \<Rightarrow> nat \<Rightarrow> nat \<Rightarrow> nat \<Rightarrow> (pystr \<times> nat) res" where
  "pe_export_at data sections ordinal_base names_at ordinals_at index =
     (let name_slot = names_at + index * 4; ordinal_slot = ordinals_at + index * 2 in
      bindE (need data name_slot 4 ''PE export name pointer'') (\<lambda>_.
      bindE (need data ordinal_slot 2 ''PE export ordinal'') (\<lambda>_.
      bindE (fits 4 data name_slot) (\<lambda>_.
      bindE (fits 2 data ordinal_slot) (\<lambda>_.
      bindE (rva_offset data sections (le_at 4 data name_slot)) (\<lambda>pos.
      bindE (cstring data pos) (\<lambda>name.
      Inr (name, ordinal_base + le_at 2 data ordinal_slot))))))))"

definition pe_exports :: "bytes \<Rightarrow> pe_section list \<Rightarrow> nat \<Rightarrow> (pystr \<times> nat) list res" where
  "pe_exports data sections rva =
     bindE (rva_offset data sections rva) (\<lambda>pos.
     bindE (need data pos 40 ''PE export directory'') (\<lambda>_.
     bindE (fits 24 data (pos + 16)) (\<lambda>_.
     let ordinal_base = le_at 4 data (pos + 16); function_count = le_at 4 data (pos + 20);
         name_count = le_at 4 data (pos + 24); names_rva = le_at 4 data (pos + 32); ordinals_rva = le_at 4 data (pos + 36)
     in if function_count > MAX_SYMBOLS \<or> name_count > MAX_SYMBOLS
        then Inl (ExecutableError ''PE export count exceeds limit'')
        else
          bindE (rva_offset data sections names_rva) (\<lambda>names_at.
          bindE (rva_offset data sections ordinals_rva) (\<lambda>ordinals_at.
          mapE (pe_export_at data sections ordinal_base names_at ordinals_at) [0..<name_count])))))"

record pe_image =
  pi_machine :: nat
  pi_timestamp :: nat
  pi_characteristics :: nat
  pi_is64 :: bool
  pi_optional :: nat
  pi_optional_size :: nat
  pi_entry :: nat
  pi_image_base :: nat
  pi_subsystem :: nat
  pi_dll_characteristics :: nat
  pi_directories :: "pe_directory_row list"
  pi_sections :: "pe_section list"
  pi_imports :: "(pystr \<times> pe_symbol list) list"
  pi_exports :: "(pystr \<times> nat) list"

text \<open>\<open>len(directories) > i and directories[i]["rva"]\<close>.\<close>

definition directory_rva :: "pe_directory_row list \<Rightarrow> nat \<Rightarrow> nat option" where
  "directory_rva directories i =
     (if i < length directories \<and> pd_rva (directories ! i) \<noteq> 0 then Some (pd_rva (directories ! i)) else None)"

definition read_pe :: "bytes \<Rightarrow> nat \<Rightarrow> pe_image res" where
  "read_pe data offset =
     bindE (need data offset 24 ''PE COFF header'') (\<lambda>_.
     bindE (fits 20 data (offset + 4)) (\<lambda>_.
     let section_count = le_at 2 data (offset + 6); optional_size = le_at 2 data (offset + 20);
         optional = offset + 24
     in if section_count > MAX_SECTIONS then Inl (ExecutableError ''PE section count exceeds limit'')
        else
        bindE (need data optional optional_size ''PE optional header'') (\<lambda>_.
        bindE (fits 2 data optional) (\<lambda>_.
        let magic = le_at 2 data optional; is64 = (magic = 0x20B) in
        if magic \<notin> {0x10B, 0x20B}
        then Inl (ExecutableError (''unsupported PE optional-header magic 0x'' @ hex_lower 4 magic))
        else if optional_size < (if is64 then 112 else 96)
        then Inl (ExecutableError ''truncated PE optional header'')
        else
          bindE (unpack_le 4 data (optional + 16)) (\<lambda>entry.
          bindE (if is64 then unpack_le 8 data (optional + 24) else unpack_le 4 data (optional + 28)) (\<lambda>image_base.
          bindE (fits 4 data (optional + 68)) (\<lambda>_.
          bindE (unpack_le 4 data (optional + (if is64 then 108 else 92))) (\<lambda>declared.
          let directory_count = min declared 16;
              directory_start = optional + (if is64 then 112 else 96);
              width = (if is64 then 8 else 4)
          in bindE (mapE (pe_directory data directory_start) [0..<directory_count]) (\<lambda>directories.
             bindE (mapE (pe_section_at data (optional + optional_size)) [0..<section_count]) (\<lambda>sections.
             bindE (case directory_rva directories 1 of None \<Rightarrow> Inr []
                | Some rva \<Rightarrow> bindE (rva_offset data sections rva) (pe_imports data sections width MAX_IMPORTS)) (\<lambda>imports.
             bindE (case directory_rva directories 0 of None \<Rightarrow> Inr []
                | Some rva \<Rightarrow> pe_exports data sections rva) (\<lambda>exports.
             Inr \<lparr>pi_machine = le_at 2 data (offset + 4), pi_timestamp = le_at 4 data (offset + 8),
               pi_characteristics = le_at 2 data (offset + 22), pi_is64 = is64, pi_optional = optional,
               pi_optional_size = optional_size, pi_entry = entry, pi_image_base = image_base,
               pi_subsystem = le_at 2 data (optional + 68), pi_dll_characteristics = le_at 2 data (optional + 70),
               pi_directories = directories, pi_sections = sections,
               pi_imports = imports, pi_exports = exports\<rparr>))))))))))))"

text \<open>Where the sections and the security directory end, and what lies behind them.\<close>

definition pe_overlay_start :: "pe_image \<Rightarrow> nat" where
  "pe_overlay_start p =
     (let ends = map (\<lambda>s. ps_raw_offset s + ps_raw_size s) (pi_sections p);
          max_raw = (if ends = [] then pi_optional p + pi_optional_size p else foldr max (tl ends) (hd ends));
          security_end = (if directory_rva (pi_directories p) 4 = None then 0
             else pd_rva (pi_directories p ! 4) + pd_size (pi_directories p ! 4))
      in max max_raw security_end)"

definition pe_section_value :: "nat \<Rightarrow> pe_section \<Rightarrow> pyval" where
  "pe_section_value i s = PDict [(''index'', PNat i), (''name'', PStr (ps_name s)), (''rva'', PNat (ps_rva s)),
     (''virtual_size'', PNat (ps_virtual_size s)), (''raw_offset'', PNat (ps_raw_offset s)),
     (''raw_size'', PNat (ps_raw_size s)), (''characteristics'', PNat (ps_flags s))]"

definition pe_directory_value :: "nat \<Rightarrow> pe_directory_row \<Rightarrow> pyval" where
  "pe_directory_value i d = PDict [(''index'', PNat i), (''name'', PAsc (pd_name d)),
     (''rva'', PNat (pd_rva d)), (''size'', PNat (pd_size d))]"

definition pe_symbol_value :: "pe_symbol \<Rightarrow> pyval" where
  "pe_symbol_value s = (case s of Pe_Ordinal n \<Rightarrow> PNat n | Pe_Named n \<Rightarrow> PStr n)"

definition parse_pe :: "bytes \<Rightarrow> nat \<Rightarrow> parsed_executable res" where
  "parse_pe data offset =
     bindE (read_pe data offset) (\<lambda>p.
     let start = pe_overlay_start p; overlay = length data - start in
     Inr \<lparr>px_format = (if pi_is64 p then ''PE32+'' else ''PE32''),
       px_architecture = Some (lookup_name PE_MACHINES (pi_machine p) (''COFF_MACHINE_0x'' @ hex_upper 4 (pi_machine p))),
       px_observations =
         [(''pe.coff'', PDict [(''dos_header_present'', PBool True), (''pe_signature'', PAsc (''PE'' @ [char_of (92::nat)] @ ''0'' @ [char_of (92::nat)] @ ''0'')),
            (''machine'', PNat (pi_machine p)), (''timestamp_raw'', PNat (pi_timestamp p)),
            (''characteristics'', PNat (pi_characteristics p)), (''section_count'', PNat (length (pi_sections p)))]),
          (''pe.optional'', PDict [(''entry_point_rva'', PNat (pi_entry p)),
            (''image_base'', PNat (pi_image_base p)), (''subsystem'', PNat (pi_subsystem p)),
            (''dll_characteristics'', PNat (pi_dll_characteristics p))]),
          (''pe.sections'', indexed pe_section_value (pi_sections p)),
          (''pe.data_directories'', indexed pe_directory_value (pi_directories p)),
          (''pe.imports'', PList (map (\<lambda>(library, symbols). PDict [(''library'', PStr library),
             (''symbols'', PList (map pe_symbol_value symbols))]) (pi_imports p))),
          (''pe.exports'', PList (map (\<lambda>(name, ordinal). PDict [(''name'', PStr name), (''ordinal'', PNat ordinal)]) (pi_exports p))),
          (''pe.overlay'', PDict [(''present'', PBool (overlay > 0)), (''offset'', PNat start), (''size'', PNat overlay)])],
       px_assessments = [], px_errors = []\<rparr>)"

subsection \<open>DOS MZ, NE, LE and LX\<close>

record mz_header =
  mh_last_bytes :: nat
  mh_pages :: nat
  mh_relocations :: nat
  mh_header_paragraphs :: nat
  mh_initial_ss :: nat
  mh_initial_sp :: nat
  mh_initial_ip :: nat
  mh_initial_cs :: nat
  mh_reloc_offset :: nat
  mh_new_offset :: nat

definition read_mz_header :: "bytes \<Rightarrow> mz_header res" where
  "read_mz_header data =
     bindE (need data 0 64 ''DOS MZ header'') (\<lambda>_.
     bindE (fits 8 data 2) (\<lambda>_.
     bindE (fits 8 data 14) (\<lambda>_.
     bindE (unpack_le 2 data 24) (\<lambda>reloc_offset.
     bindE (unpack_le 4 data 60) (\<lambda>new_offset.
     Inr \<lparr>mh_last_bytes = le_at 2 data 2, mh_pages = le_at 2 data 4, mh_relocations = le_at 2 data 6,
       mh_header_paragraphs = le_at 2 data 8, mh_initial_ss = le_at 2 data 14, mh_initial_sp = le_at 2 data 16,
       mh_initial_ip = le_at 2 data 18, mh_initial_cs = le_at 2 data 20, mh_reloc_offset = reloc_offset,
       mh_new_offset = new_offset\<rparr>)))))"

text \<open>The two dictionaries are built in the order of their keys; each value is one checked read.\<close>

definition ne_extension :: "bytes \<Rightarrow> nat \<Rightarrow> (string \<times> pyval) list res" where
  "ne_extension data new =
     bindE (byte_at data (new + 2)) (\<lambda>linker_major.
     bindE (byte_at data (new + 3)) (\<lambda>linker_minor.
     bindE (unpack_le 2 data (new + 20)) (\<lambda>entry_ip.
     bindE (unpack_le 2 data (new + 22)) (\<lambda>entry_cs.
     bindE (unpack_le 2 data (new + 28)) (\<lambda>segments.
     bindE (unpack_le 2 data (new + 30)) (\<lambda>modules.
     bindE (byte_at data (new + 54)) (\<lambda>target_os.
     bindE (unpack_le 2 data (new + 12)) (\<lambda>flags.
     Inr [(''header_offset'', PNat new), (''linker_version'', PList [PNat linker_major, PNat linker_minor]),
       (''entry_ip'', PNat entry_ip), (''entry_cs'', PNat entry_cs),
       (''segment_count'', PNat segments), (''module_reference_count'', PNat modules),
       (''target_os'', PNat target_os), (''flags'', PNat flags)]))))))))"

definition le_extension :: "bytes \<Rightarrow> nat \<Rightarrow> (string \<times> pyval) list res" where
  "le_extension data new =
     bindE (byte_at data (new + 2)) (\<lambda>byte_order.
     bindE (byte_at data (new + 3)) (\<lambda>word_order.
     bindE (unpack_le 2 data (new + 10)) (\<lambda>target_os.
     bindE (unpack_le 4 data (new + 16)) (\<lambda>module_flags.
     bindE (unpack_le 4 data (new + 68)) (\<lambda>objects.
     bindE (unpack_le 4 data (new + 24)) (\<lambda>entry_object.
     bindE (unpack_le 4 data (new + 28)) (\<lambda>entry_offset.
     Inr [(''header_offset'', PNat new), (''byte_order'', PNat byte_order), (''word_order'', PNat word_order),
       (''target_os'', PNat target_os), (''module_flags'', PNat module_flags), (''object_count'', PNat objects),
       (''entry_object'', PNat entry_object), (''entry_offset'', PNat entry_offset)])))))))"

definition mz_header_value :: "mz_header \<Rightarrow> pyval" where
  "mz_header_value h =
     PDict [(''dos_header_present'', PBool True), (''pages'', PNat (mh_pages h)),
       (''last_page_bytes'', PNat (mh_last_bytes h)), (''header_paragraphs'', PNat (mh_header_paragraphs h)),
       (''relocation_count'', PNat (mh_relocations h)), (''relocation_table_offset'', PNat (mh_reloc_offset h)),
       (''initial_cs'', PNat (mh_initial_cs h)), (''initial_ip'', PNat (mh_initial_ip h)),
       (''initial_ss'', PNat (mh_initial_ss h)), (''initial_sp'', PNat (mh_initial_sp h)),
       (''new_header_offset'', PNat (mh_new_offset h))]"

text \<open>The new header, when there is one: the kind, the architecture and the extension.\<close>

definition mz_extension :: "bytes \<Rightarrow> nat \<Rightarrow> (string \<times> string \<times> (string \<times> pyval) list) res" where
  "mz_extension data new =
     (let signature = pyslice data new (new + 4) in
      if take 2 signature = ascb ''NE'' then
        bindE (need data new 64 ''NE header'') (\<lambda>_.
        bindE (ne_extension data new) (\<lambda>extension. Inr (''NE'', ''X86_16'', extension)))
      else if take 2 signature \<in> {ascb ''LE'', ascb ''LX''} then
        let kind = (if take 2 signature = ascb ''LE'' then ''LE'' else ''LX'') in
        bindE (need data new 176 (kind @ '' header'')) (\<lambda>_.
        bindE (unpack_le 2 data (new + 8)) (\<lambda>cpu.
        bindE (le_extension data new) (\<lambda>extension.
        Inr (kind, lookup_name [(1, ''I286''), (2, ''I386''), (3, ''I486''), (4, ''I586'')] cpu ''UNKNOWN'', extension))))
      else Inr (''DOS_MZ'', ''X86_16'', []))"

definition mz_result :: "mz_header \<Rightarrow> string \<times> string \<times> (string \<times> pyval) list \<Rightarrow> parsed_executable" where
  "mz_result h ext = (case ext of (kind, architecture, extension) \<Rightarrow>
     \<lparr>px_format = kind, px_architecture = Some architecture,
      px_observations = (''mz.header'', mz_header_value h)
        # (if extension = [] then [] else [(lower kind @ ''.header'', PDict extension)]),
      px_assessments = [], px_errors = []\<rparr>)"

definition parse_mz :: "bytes \<Rightarrow> parsed_executable res" where
  "parse_mz data =
     bindE (read_mz_header data) (\<lambda>h.
     let new = mh_new_offset h in
     if mh_relocations h > MAX_HEADERS \<or> mh_reloc_offset h + mh_relocations h * 4 > length data
     then Inl (ExecutableError ''MZ relocation table lies outside file or exceeds limit'')
     else if new = 0 then Inr (mz_result h (''DOS_MZ'', ''X86_16'', []))
     else bindE (need data new 2 ''new executable header'') (\<lambda>_.
       if pyslice data new (new + 4) = ascb ''PE'' @ [0, 0] then parse_pe data new
       else bindE (mz_extension data new) (\<lambda>ext. Inr (mz_result h ext))))"

subsection \<open>ELF\<close>

record elf_program =
  ep_type :: nat
  ep_flags :: nat
  ep_offset :: nat
  ep_vaddr :: nat
  ep_filesz :: nat
  ep_memsz :: nat
  ep_align :: nat

record elf_section =
  es_name :: nat
  es_type :: nat
  es_flags :: nat
  es_offset :: nat
  es_size :: nat
  es_link :: nat
  es_entsize :: nat

record elf_dynamic =
  ed_symbol_count :: nat
  ed_needed :: "pystr list"
  ed_soname :: "pystr option"
  ed_rpath :: "pystr option"
  ed_runpath :: "pystr option"
  ed_build_id :: "string option"

record elf_header =
  eh_endian :: endian
  eh_is64 :: bool
  eh_object_type :: nat
  eh_machine :: nat
  eh_version :: nat
  eh_entry :: nat
  eh_phoff :: nat
  eh_shoff :: nat
  eh_flags :: nat
  eh_ehsize :: nat
  eh_phentsize :: nat
  eh_phnum :: nat
  eh_shentsize :: nat
  eh_shnum :: nat
  eh_shstrndx :: nat

text \<open>The header's fields; the address-sized ones are 8 or 4 bytes.\<close>

definition elf_fields :: "endian \<Rightarrow> bool \<Rightarrow> bytes \<Rightarrow> elf_header" where
  "elf_fields en is64 data =
     (let w = (if is64 then 8 else 4); f = 24 + 3 * w in
      \<lparr>eh_endian = en, eh_is64 = is64, eh_object_type = field en 2 data 16, eh_machine = field en 2 data 18,
       eh_version = field en 4 data 20, eh_entry = field en w data 24, eh_phoff = field en w data (24 + w),
       eh_shoff = field en w data (24 + 2 * w), eh_flags = field en 4 data f, eh_ehsize = field en 2 data (f + 4),
       eh_phentsize = field en 2 data (f + 6), eh_phnum = field en 2 data (f + 8),
       eh_shentsize = field en 2 data (f + 10), eh_shnum = field en 2 data (f + 12),
       eh_shstrndx = field en 2 data (f + 14)\<rparr>)"

definition elf_header_of :: "bytes \<Rightarrow> elf_header res" where
  "elf_header_of data =
     bindE (need data 0 16 ''ELF identification'') (\<lambda>_.
     bindE (byte_at data 4) (\<lambda>elf_class.
     bindE (byte_at data 5) (\<lambda>encoding.
     if elf_class \<notin> {1, 2} \<or> encoding \<notin> {1, 2} then Inl (ExecutableError ''invalid ELF class or byte order'')
     else
       let is64 = (elf_class = 2); h = elf_fields (if encoding = 1 then Little else Big) is64 data in
       bindE (need data 0 (if is64 then 64 else 52) ''ELF header'') (\<lambda>_.
       bindE (fits (if is64 then 48 else 36) data 16) (\<lambda>_.
       if eh_phnum h > MAX_HEADERS \<or> eh_shnum h > MAX_SECTIONS
       then Inl (ExecutableError ''ELF header count exceeds limit'')
       else if eh_phnum h \<noteq> 0 \<and> eh_phentsize h < (if is64 then 56 else 32)
            \<or> eh_shnum h \<noteq> 0 \<and> eh_shentsize h < (if is64 then 64 else 40)
       then Inl (ExecutableError ''invalid ELF entry size'')
       else
         bindE (need data (eh_phoff h) (eh_phentsize h * eh_phnum h) ''ELF program-header table'') (\<lambda>_.
         bindE (need data (eh_shoff h) (eh_shentsize h * eh_shnum h) ''ELF section-header table'') (\<lambda>_.
         Inr h)))))))"

definition elf_program_at :: "elf_header \<Rightarrow> bytes \<Rightarrow> nat \<Rightarrow> elf_program res" where
  "elf_program_at h data index =
     (let row = eh_phoff h + index * eh_phentsize h; en = eh_endian h;
          p = (if eh_is64 h
               then \<lparr>ep_type = field en 4 data row, ep_flags = field en 4 data (row + 4), ep_offset = field en 8 data (row + 8),
                  ep_vaddr = field en 8 data (row + 16), ep_filesz = field en 8 data (row + 32),
                  ep_memsz = field en 8 data (row + 40), ep_align = field en 8 data (row + 48)\<rparr>
               else \<lparr>ep_type = field en 4 data row, ep_flags = field en 4 data (row + 24), ep_offset = field en 4 data (row + 4),
                  ep_vaddr = field en 4 data (row + 8), ep_filesz = field en 4 data (row + 16),
                  ep_memsz = field en 4 data (row + 20), ep_align = field en 4 data (row + 28)\<rparr>)
      in bindE (fits (if eh_is64 h then 56 else 32) data row) (\<lambda>_.
         bindE (if ep_filesz p \<noteq> 0 then need data (ep_offset p) (ep_filesz p) ''ELF segment'' else Inr ()) (\<lambda>_.
         Inr p)))"

text \<open>The interpreter: the last \<open>PT_INTERP\<close> segment with contents.\<close>

definition elf_interpreter :: "bytes \<Rightarrow> elf_program list \<Rightarrow> pystr option" where
  "elf_interpreter data programs =
     fold (\<lambda>p acc. if ep_type p = 3 \<and> ep_filesz p \<noteq> 0
        then Some (utf8_replace (rstrip_nul (pyslice data (ep_offset p) (ep_offset p + ep_filesz p)))) else acc)
       programs None"

definition elf_section_at :: "elf_header \<Rightarrow> bytes \<Rightarrow> nat \<Rightarrow> elf_section res" where
  "elf_section_at h data index =
     (let row = eh_shoff h + index * eh_shentsize h; en = eh_endian h;
          s = (if eh_is64 h
               then \<lparr>es_name = field en 4 data row, es_type = field en 4 data (row + 4), es_flags = field en 8 data (row + 8),
                  es_offset = field en 8 data (row + 24), es_size = field en 8 data (row + 32),
                  es_link = field en 4 data (row + 40), es_entsize = field en 8 data (row + 56)\<rparr>
               else \<lparr>es_name = field en 4 data row, es_type = field en 4 data (row + 4), es_flags = field en 4 data (row + 8),
                  es_offset = field en 4 data (row + 16), es_size = field en 4 data (row + 20),
                  es_link = field en 4 data (row + 24), es_entsize = field en 4 data (row + 36)\<rparr>)
      in bindE (fits (if eh_is64 h then 64 else 40) data row) (\<lambda>_.
         bindE (if es_type s \<noteq> 8 \<and> es_size s \<noteq> 0 then need data (es_offset s) (es_size s) ''ELF section'' else Inr ()) (\<lambda>_.
         Inr s)))"

definition section_bytes :: "bytes \<Rightarrow> elf_section \<Rightarrow> bytes" where
  "section_bytes data s = pyslice data (es_offset s) (es_offset s + es_size s)"

definition elf_strings :: "elf_header \<Rightarrow> bytes \<Rightarrow> elf_section list \<Rightarrow> bytes res" where
  "elf_strings h data sections =
     (if eh_shnum h \<noteq> 0 \<and> eh_shstrndx h < eh_shnum h
      then bindE (item_at sections (eh_shstrndx h)) (\<lambda>s. Inr (if es_type s = 3 then section_bytes data s else []))
      else Inr [])"

text \<open>The string of a table from an offset up to its NUL, decoded and cut.\<close>

definition table_string :: "bytes \<Rightarrow> nat \<Rightarrow> pystr" where
  "table_string strings v = take MAX_NAME (utf8_replace (before_nul (drop v strings)))"

definition section_name :: "bytes \<Rightarrow> nat \<Rightarrow> pystr" where
  "section_name strings v =
     (if v \<ge> length strings then asc (''<name:'' @ show_nat v @ ''>'') else table_string strings v)"

definition elf_build_id :: "endian \<Rightarrow> bytes \<Rightarrow> string option \<Rightarrow> string option res" where
  "elf_build_id en note old =
     bindE (fits 12 note 0) (\<lambda>_.
     let namesz = field en 4 note 0; descsz = field en 4 note 4; ntype = field en 4 note 8;
         desc_at = 12 + (namesz + 3) div 4 * 4
     in if ntype = 3 \<and> desc_at + descsz \<le> length note
        then Inr (Some (bytes_hex (pyslice note desc_at (desc_at + descsz)))) else Inr old)"

definition elf_entry :: "elf_header \<Rightarrow> bytes \<Rightarrow> bytes \<Rightarrow> elf_section \<Rightarrow> nat \<Rightarrow> elf_dynamic \<Rightarrow> elf_dynamic res" where
  "elf_entry h data dynstr s index d =
     (let row = es_offset s + index * es_entsize s; w = (if eh_is64 h then 8 else 4); en = eh_endian h;
          tag = signed_of (8 * w) (field en w data row); v = field en w data (row + w)
      in bindE (fits (2 * w) data row) (\<lambda>_.
         if tag \<notin> {1, 14, 15, 29} then Inr d
         else if v \<ge> length dynstr then Inl (ExecutableError ''ELF dynamic string offset lies outside table'')
         else let t = table_string dynstr v in
           Inr (if tag = 1 then d\<lparr>ed_needed := ed_needed d @ [t]\<rparr>
                else if tag = 14 then d\<lparr>ed_soname := Some t\<rparr>
                else if tag = 15 then d\<lparr>ed_rpath := Some t\<rparr>
                else d\<lparr>ed_runpath := Some t\<rparr>)))"

definition elf_scan_section :: "elf_header \<Rightarrow> bytes \<Rightarrow> elf_section list \<Rightarrow> bytes \<Rightarrow> elf_section \<Rightarrow> elf_dynamic \<Rightarrow> elf_dynamic res" where
  "elf_scan_section h data sections strings s d0 =
     (let d1 = (if es_type s \<in> {2, 11} \<and> es_entsize s \<noteq> 0
                then d0\<lparr>ed_symbol_count := ed_symbol_count d0 + es_size s div es_entsize s\<rparr> else d0)
      in bindE (if es_type s = 7 \<and> section_name strings (es_name s) = asc ''.note.gnu.build-id'' \<and> es_size s \<ge> 16
                then bindE (elf_build_id (eh_endian h) (section_bytes data s) (ed_build_id d1)) (\<lambda>b. Inr (d1\<lparr>ed_build_id := b\<rparr>))
                else Inr d1) (\<lambda>d.
         if es_type s \<noteq> 6 \<or> es_entsize s = 0 \<or> es_link s \<ge> length sections then Inr d
         else bindE (item_at sections (es_link s)) (\<lambda>linked.
           if es_type linked \<noteq> 3 then Inr d
           else let dynstr = section_bytes data linked; count = es_size s div es_entsize s in
             if count > MAX_SYMBOLS then Inl (ExecutableError ''ELF dynamic entry count exceeds limit'')
             else foldE (elf_entry h data dynstr s) [0..<count] d)))"

definition empty_dynamic :: elf_dynamic where
  "empty_dynamic = \<lparr>ed_symbol_count = 0, ed_needed = [], ed_soname = None, ed_rpath = None, ed_runpath = None,
     ed_build_id = None\<rparr>"

record elf_image =
  ei_header :: elf_header
  ei_programs :: "elf_program list"
  ei_sections :: "elf_section list"
  ei_strings :: bytes
  ei_dynamic :: elf_dynamic

definition read_elf :: "bytes \<Rightarrow> elf_image res" where
  "read_elf data =
     bindE (elf_header_of data) (\<lambda>h.
     bindE (mapE (elf_program_at h data) [0..<eh_phnum h]) (\<lambda>programs.
     bindE (mapE (elf_section_at h data) [0..<eh_shnum h]) (\<lambda>sections.
     bindE (elf_strings h data sections) (\<lambda>strings.
     bindE (foldE (elf_scan_section h data sections strings) sections empty_dynamic) (\<lambda>d.
     if ed_symbol_count d > MAX_SYMBOLS then Inl (ExecutableError ''ELF symbol count exceeds limit'')
     else Inr \<lparr>ei_header = h, ei_programs = programs, ei_sections = sections, ei_strings = strings, ei_dynamic = d\<rparr>)))))"

definition elf_program_value :: "nat \<Rightarrow> elf_program \<Rightarrow> pyval" where
  "elf_program_value i p = PDict [(''index'', PNat i), (''type'', PNat (ep_type p)), (''flags'', PNat (ep_flags p)),
     (''offset'', PNat (ep_offset p)), (''virtual_address'', PNat (ep_vaddr p)), (''file_size'', PNat (ep_filesz p)),
     (''memory_size'', PNat (ep_memsz p)), (''alignment'', PNat (ep_align p))]"

definition elf_section_value :: "bytes \<Rightarrow> nat \<Rightarrow> elf_section \<Rightarrow> pyval" where
  "elf_section_value strings i s = PDict [(''index'', PNat i), (''name'', PStr (section_name strings (es_name s))),
     (''type'', PNat (es_type s)), (''flags'', PNat (es_flags s)), (''offset'', PNat (es_offset s)),
     (''size'', PNat (es_size s))]"

definition opt_str :: "pystr option \<Rightarrow> pyval" where
  "opt_str v = (case v of None \<Rightarrow> PNone | Some s \<Rightarrow> PStr s)"

definition parse_elf :: "bytes \<Rightarrow> parsed_executable res" where
  "parse_elf data =
     bindE (read_elf data) (\<lambda>e.
     bindE (byte_at data 7) (\<lambda>os_abi.
     let h = ei_header e; d = ei_dynamic e;
         names = map (\<lambda>s. section_name (ei_strings e) (es_name s)) (ei_sections e)
     in Inr \<lparr>px_format = (if eh_is64 h then ''ELF64'' else ''ELF32''),
       px_architecture = Some (lookup_name ELF_MACHINES (eh_machine h) (''ELF_MACHINE_'' @ show_nat (eh_machine h))),
       px_observations =
         [(''elf.header'', PDict [(''class'', PNat (if eh_is64 h then 2 else 1)),
            (''endianness'', PAsc (case eh_endian h of Little \<Rightarrow> ''little'' | Big \<Rightarrow> ''big'')),
            (''os_abi'', PNat os_abi), (''object_type'', PNat (eh_object_type h)),
            (''machine'', PNat (eh_machine h)), (''version'', PNat (eh_version h)), (''entry_point'', PNat (eh_entry h)),
            (''flags'', PNat (eh_flags h)), (''header_size'', PNat (eh_ehsize h))]),
          (''elf.program_headers'', indexed elf_program_value (ei_programs e)),
          (''elf.sections'', indexed (elf_section_value (ei_strings e)) (ei_sections e)),
          (''elf.interpreter'', opt_str (elf_interpreter data (ei_programs e))),
          (''elf.dynamic'', PDict [(''needed'', PList (map PStr (ed_needed d))), (''soname'', opt_str (ed_soname d)),
            (''rpath'', opt_str (ed_rpath d)), (''runpath'', opt_str (ed_runpath d))]),
          (''elf.symbol_count'', PNat (ed_symbol_count d)),
          (''elf.build_id'', case ed_build_id d of None \<Rightarrow> PNone | Some b \<Rightarrow> PAsc b)],
       px_assessments = (if eh_object_type h \<in> {2, 3} \<and> asc ''.symtab'' \<notin> set names
          then [exec_assessment ''LIKELY_STRIPPED'' ''ELF executable/shared object has no static symbol table''
                  Conf_MEDIUM ''elf.sections''] else []),
       px_errors = []\<rparr>))"

subsection \<open>Dispatch and the analyzer\<close>

definition parse_executable :: "bytes \<Rightarrow> parsed_executable option res" where
  "parse_executable data =
     (let magic = (if length data \<ge> 4 then be_at 4 data 0 else 0) in
      if length data \<ge> 4 \<and> take 4 data = 0x7F # ascb ''ELF'' then map_sum id Some (parse_elf data)
      else if length data \<ge> 4 \<and> magic = 0x3F3 then map_sum id Some (parse_hunk data)
      else if magic \<in> {0xFEEDFACE, 0xFEEDFACF, 0xCEFAEDFE, 0xCFFAEDFE, 0xCAFEBABE, 0xBEBAFECA}
      then map_sum id Some (parse_macho data)
      else if length data \<ge> 2 \<and> take 2 data = ascb ''MZ'' then map_sum id Some (parse_mz data)
      else Inr None)"

text \<open>What the analyzer makes of a file's bytes: the status, the errors and the parse.\<close>

definition examine :: "nat \<Rightarrow> bytes \<Rightarrow> (string \<times> string list \<times> parsed_executable option) res" where
  "examine max_bytes data =
     (if length data > max_bytes
      then Inr (''unsupported_limit'', [''executable parser byte limit exceeded: '' @ show_nat (length data) @ '' > ''
             @ show_nat max_bytes], None)
      else case parse_executable data of
        Inl (ExecutableError msg) \<Rightarrow> Inr (''corrupt'', [msg], None)
      | Inl e \<Rightarrow> Inl e
      | Inr None \<Rightarrow> Inr (''not_applicable'', [], None)
      | Inr (Some p) \<Rightarrow> if px_errors p \<noteq> [] then Inr (''partial_unsupported'', px_errors p, Some p)
                       else Inr (''complete'', [], Some p))"

definition executable_observations :: "timestamp \<Rightarrow> parsed_executable \<Rightarrow> observation list" where
  "executable_observations started p =
     map (\<lambda>(kind, v). \<lparr>o_type = kind, o_value = v, o_analyzer_id = ''executable'', o_evidence_refs = [],
            o_source = Some (asc ''avbox-bounded-parser''), o_observed_at = Some started, o_confidence = Some ''exact''\<rparr>)
       (filter (\<lambda>(_, v). v \<noteq> PNone)
          ((''executable.format'', PAsc (px_format p))
           # (''executable.architecture'', case px_architecture p of None \<Rightarrow> PNone | Some a \<Rightarrow> PAsc a)
           # px_observations p))"

definition executable_analyze :: "nat \<Rightarrow> timestamp \<Rightarrow> timestamp \<Rightarrow> input_artifact \<Rightarrow> path \<Rightarrow> string \<Rightarrow> (fs, analyzer_result) py" where
  "executable_analyze max_bytes started completed artifact source job_id =
     bindP (read_file source) (\<lambda>data.
     bindP (liftP (examine max_bytes data)) (\<lambda>(status, errors, parsed). ret
       \<lparr>ar_analyzer_id = ''executable'', ar_analyzer_class = EXECUTABLE_ANALYZER,
        ar_product = ''AVBox Bounded Executable Structure'',
        ar_implementation = Some ''avbox.analyzers.executable.ExecutableAnalyzer'', ar_product_version = Some (asc ''1''),
        ar_engine_version = None, ar_definition_state = [], ar_qualification_state = Some QUALIFIED,
        ar_started_at = Some started, ar_completed_at = completed, ar_duration_seconds = Some (completed - started),
        ar_execution_profile = ''avbox-built-in-read-only-bounded'', ar_native_status = status,
        ar_native_exit_code = None, ar_normalized_verdict = None,
        ar_observations = (case parsed of None \<Rightarrow> [] | Some p \<Rightarrow> executable_observations started p),
        ar_findings = [], ar_assessments = (case parsed of None \<Rightarrow> [] | Some p \<Rightarrow> px_assessments p),
        ar_raw_output = None, ar_errors = map asc errors, ar_structural_validation = None\<rparr>))"

definition executable_probe :: probe_result where
  "executable_probe = \<lparr>pb_available = True, pb_detail = asc ''built-in bounded PE/ELF/MZ/HUNK parser'',
     pb_state = PROBED, pb_version = Some (asc ''1''), pb_definition_state = []\<rparr>"

subsection \<open>Which exceptions escape\<close>

definition executable_error :: "py_exn \<Rightarrow> bool" where
  "executable_error e \<longleftrightarrow> (\<exists>m. e = ExecutableError m)"

definition parse_failure :: "py_exn \<Rightarrow> bool" where
  "parse_failure e \<longleftrightarrow> executable_error e \<or> e = StructError"

lemma executable_error_simps [simp]:
  "executable_error (ExecutableError m)" "\<not> executable_error StructError" "parse_failure (ExecutableError m)"
  by (simp_all add: executable_error_def parse_failure_def)

named_theorems exec_intros \<open>rules showing that a parser raises only executable errors\<close>

lemma raises_mapE [exec_intros]: "(\<And>x. x \<in> set xs \<Longrightarrow> raises_only P (f x)) \<Longrightarrow> raises_only P (mapE f xs)"
  by (induction xs) (auto intro!: raises_only_bindE)

lemma raises_foldE [exec_intros]: "(\<And>x s. x \<in> set xs \<Longrightarrow> raises_only P (f x s)) \<Longrightarrow> raises_only P (foldE f xs s)"
  by (induction xs arbitrary: s) (auto intro!: raises_only_bindE)

lemma need_raises [exec_intros]:
  "raises_only executable_error (need data offset n what)" "raises_only parse_failure (need data offset n what)"
  by (simp_all add: need_def)

lemma fits_raises [exec_intros]:
  "off + n \<le> length data \<Longrightarrow> raises_only P (fits n data off)" "raises_only parse_failure (fits n data off)"
  by (simp_all add: fits_def parse_failure_def)

lemma read_raises [exec_intros]:
  "off + n \<le> length data \<Longrightarrow> raises_only P (unpack_le n data off)"
  "i < length data \<Longrightarrow> raises_only P (byte_at data i)"
  "i < length xs \<Longrightarrow> raises_only P (item_at xs i)"
  by simp_all

lemma weaken_raises: "raises_only executable_error m \<Longrightarrow> raises_only parse_failure m"
  by (erule raises_only_mono) (simp add: parse_failure_def)

lemma cstring_raises [exec_intros]: "raises_only executable_error (cstring data offset)"
  unfolding cstring_def Let_def by (auto intro!: raises_only_bindE exec_intros)

lemma rva_offset_raises [exec_intros]: "raises_only executable_error (rva_offset data sections rva)"
  by (induction data sections rva rule: rva_offset.induct) (auto simp: Let_def intro!: raises_only_bindE exec_intros)

lemma hunk_resident_raises: "raises_only executable_error (hunk_resident data cursor names)"
proof (induction data cursor names rule: hunk_resident.induct)
  case (1 data cursor names)
  show ?case unfolding hunk_resident.simps [of data cursor names] Let_def
    by (intro raises_only_bindE raises_only_if exec_intros) (use 1 in \<open>auto simp: Let_def\<close>)
qed

lemma hunk_relocs_raises: "raises_only executable_error (hunk_relocs data name cursor groups)"
proof (induction data name cursor groups rule: hunk_relocs.induct)
  case (1 data name cursor groups)
  show ?case unfolding hunk_relocs.simps [of data name cursor groups] Let_def
    by (intro raises_only_bindE raises_only_if exec_intros) (use 1 in \<open>auto simp: Let_def\<close>)
qed

lemma hunk_symbols_raises: "raises_only executable_error (hunk_symbols data cursor symbols)"
proof (induction data cursor symbols rule: hunk_symbols.induct)
  case (1 data cursor symbols)
  show ?case unfolding hunk_symbols.simps [of data cursor symbols] Let_def
    by (intro raises_only_bindE raises_only_if exec_intros) (use 1 in \<open>auto simp: Let_def\<close>)
qed

lemma hunk_body_raises: "raises_only executable_error (hunk_body_at data ty cursor)"
  unfolding hunk_body_at_def Let_def
  by (intro raises_only_bindE raises_only_if exec_intros hunk_relocs_raises hunk_symbols_raises)
    (auto split: prod.splits)

lemma hunk_records_raises: "raises_only executable_error (hunk_records data table_size cursor current ended records)"
proof (induction "length data - cursor" arbitrary: cursor current ended records rule: less_induct)
  case less
  show ?case unfolding hunk_records.simps [of data table_size cursor current ended records] Let_def
    by (intro raises_only_bindE raises_only_if exec_intros hunk_body_raises)
      (auto split: prod.split intro!: raises_only_if less dest!: hunk_body_forward)
qed

lemma read_hunk_raises: "raises_only executable_error (read_hunk data)"
  unfolding read_hunk_def Let_def
  by (intro raises_only_bindE raises_only_if exec_intros hunk_resident_raises)
    (auto split: prod.splits intro!: raises_only_bindE raises_only_if exec_intros hunk_records_raises)

lemma parse_hunk_raises: "raises_only executable_error (parse_hunk data)"
  unfolding parse_hunk_def Let_def by (intro raises_only_bindE read_hunk_raises) simp

lemma macho_slices_raises: "raises_only executable_error (macho_slices en data)"
  unfolding macho_slices_def Let_def
  by (auto simp: macho_slice_at_def Let_def intro!: raises_only_bindE exec_intros)

lemma macho_loads_raises: "raises_only executable_error (macho_loads en data left cursor)"
  by (induction en data left cursor rule: macho_loads.induct) (auto simp: Let_def intro!: raises_only_bindE exec_intros)

lemma parse_macho_raises: "raises_only executable_error (parse_macho data)"
  unfolding parse_macho_def Let_def
  by (intro raises_only_if raises_only_bindE exec_intros macho_slices_raises macho_loads_raises)
    (simp_all split: if_splits)

lemma pe_thunks_raises: "raises_only executable_error (pe_thunks data sections width left cursor)"
proof (induction left arbitrary: cursor)
  case (Suc left)
  show ?case unfolding pe_thunks.simps Let_def
    by (intro raises_only_bindE raises_only_if exec_intros Suc.IH) simp_all
qed simp

lemma pe_imports_raises: "raises_only executable_error (pe_imports data sections width left cursor)"
proof (induction left arbitrary: cursor)
  case (Suc left)
  show ?case unfolding pe_imports.simps Let_def
    by (intro raises_only_bindE raises_only_if exec_intros pe_thunks_raises Suc.IH) simp_all
qed simp

lemma pe_exports_raises: "raises_only executable_error (pe_exports data sections rva)"
  unfolding pe_exports_def pe_export_at_def Let_def
  by (intro raises_only_bindE raises_only_if exec_intros) simp_all

lemma pe_directory_raises: "index < 16 \<Longrightarrow> raises_only executable_error (pe_directory data start index)"
  unfolding pe_directory_def Let_def
  by (intro raises_only_bindE exec_intros) (simp_all add: directory_names_def)

lemma pe_section_raises: "raises_only executable_error (pe_section_at data start index)"
  unfolding pe_section_at_def Let_def by (intro raises_only_bindE raises_only_if exec_intros) simp_all

lemma raises_only_option:
  "(\<And>x. d = Some x \<Longrightarrow> raises_only P (f x)) \<Longrightarrow> raises_only P (case d of None \<Rightarrow> Inr v | Some x \<Rightarrow> f x)"
  by (cases d) simp_all

text \<open>
  The one read of a PE file that nothing guards is that of the optional header's magic: it raises
  \<open>struct.error\<close> when the file ends less than 26 bytes behind the signature.
\<close>

definition or_struct_error :: "bool \<Rightarrow> py_exn \<Rightarrow> bool" where
  "or_struct_error b e \<longleftrightarrow> executable_error e \<or> e = StructError \<and> b"

lemma allow_struct_error: "raises_only executable_error m \<Longrightarrow> raises_only (or_struct_error b) m"
  by (erule raises_only_mono) (simp add: or_struct_error_def)

lemma read_pe_raises: "raises_only (or_struct_error (length data < offset + 26)) (read_pe data offset)"
proof -
  have magic: "raises_only (or_struct_error (length data < offset + 26)) (fits 2 data (offset + 24))"
    by (simp add: fits_def or_struct_error_def)
  show ?thesis
    unfolding read_pe_def Let_def
    by (intro raises_only_bindE raises_only_if raises_only_option magic exec_intros allow_struct_error [OF need_raises(1)]
        allow_struct_error [OF rva_offset_raises] allow_struct_error [OF pe_imports_raises]
        allow_struct_error [OF pe_exports_raises] allow_struct_error [OF pe_directory_raises]
        allow_struct_error [OF pe_section_raises])
      (auto simp: or_struct_error_def split: if_splits)
qed

lemma parse_pe_raises: "raises_only (or_struct_error (length data < offset + 26)) (parse_pe data offset)"
  unfolding parse_pe_def Let_def by (intro raises_only_bindE read_pe_raises) simp

definition pe_cut_short :: "bytes \<Rightarrow> bool" where
  "pe_cut_short data \<longleftrightarrow>
     (let new = le_at 4 data 60 in
      64 \<le> length data \<and> take 2 data = ascb ''MZ''
      \<and> pyslice data new (new + 4) = ascb ''PE'' @ [0, 0] \<and> length data < new + 26)"

lemma read_mz_header_raises: "raises_only executable_error (read_mz_header data)"
  unfolding read_mz_header_def by (intro raises_only_bindE exec_intros) simp_all

lemma read_mz_header_new: "read_mz_header data = Inr h \<Longrightarrow> 64 \<le> length data \<and> mh_new_offset h = le_at 4 data 60"
  by (auto simp: read_mz_header_def)

lemma mz_extension_raises: "raises_only executable_error (mz_extension data new)"
  unfolding mz_extension_def ne_extension_def le_extension_def Let_def
  by (intro raises_only_bindE raises_only_if exec_intros) simp_all

lemma parse_mz_raises:
  assumes "take 2 data = ascb ''MZ''"
  shows "raises_only (or_struct_error (pe_cut_short data)) (parse_mz data)"
proof -
  have pe: "raises_only (or_struct_error (pe_cut_short data)) (parse_pe data (mh_new_offset h))"
    if "read_mz_header data = Inr h" "pyslice data (mh_new_offset h) (mh_new_offset h + 4) = ascb ''PE'' @ [0, 0]" for h
    using parse_pe_raises [of data "mh_new_offset h"] read_mz_header_new [OF that(1)] that(2) assms
    by (simp add: pe_cut_short_def Let_def)
  show ?thesis
    unfolding parse_mz_def Let_def
    by (intro raises_only_bindE raises_only_if pe allow_struct_error [OF read_mz_header_raises]
        allow_struct_error [OF mz_extension_raises] allow_struct_error [OF need_raises(1)])
      (simp_all add: or_struct_error_def)
qed

text \<open>
  The tables of an ELF file are guarded by their entry sizes, and a build-id note by its size; only
  a dynamic section may declare entries shorter than the two words the parser reads.
\<close>

definition word_size :: "elf_header \<Rightarrow> nat" where
  "word_size h = (if eh_is64 h then 8 else 4)"

lemma elf_header_raises: "raises_only executable_error (elf_header_of data)"
  unfolding elf_header_of_def Let_def
  by (intro raises_only_bindE raises_only_if exec_intros) (simp_all split: if_splits)

lemma elf_fields_is64 [simp]: "eh_is64 (elf_fields en is64 data) = is64"
  by (simp add: elf_fields_def Let_def)

lemma elf_header_tables:
  assumes "elf_header_of data = Inr h"
  shows "eh_phnum h = 0 \<or> (if eh_is64 h then 56 else 32) \<le> eh_phentsize h"
    and "eh_shnum h = 0 \<or> (if eh_is64 h then 64 else 40) \<le> eh_shentsize h"
    and "eh_phoff h + eh_phentsize h * eh_phnum h \<le> length data"
    and "eh_shoff h + eh_shentsize h * eh_shnum h \<le> length data"
    and "16 \<le> length data"
  using assms unfolding elf_header_of_def Let_def
  by (simp_all del: insert_iff split: if_splits) (auto simp: not_less)

lemma row_within:
  fixes start entry upper :: nat
  assumes "start + entry * n \<le> upper" and "i < n" and "k \<le> entry"
  shows "start + i * entry + k \<le> upper"
proof -
  have "i * entry + entry \<le> entry * n"
    using mult_le_mono2 [of "Suc i" n entry] \<open>i < n\<close> by (simp add: mult.commute)
  then show ?thesis using assms by linarith
qed

lemma elf_program_raises:
  assumes "elf_header_of data = Inr h" and "index < eh_phnum h"
  shows "raises_only executable_error (elf_program_at h data index)"
  using row_within [OF elf_header_tables(3) [OF assms(1)] assms(2)] elf_header_tables(1) [OF assms(1)] assms(2)
  unfolding elf_program_at_def Let_def by (intro raises_only_bindE raises_only_if exec_intros) simp_all

lemma elf_section_raises:
  assumes "elf_header_of data = Inr h" and "index < eh_shnum h"
  shows "raises_only executable_error (elf_section_at h data index)"
  using row_within [OF elf_header_tables(4) [OF assms(1)] assms(2)] elf_header_tables(2) [OF assms(1)] assms(2)
  unfolding elf_section_at_def Let_def by (intro raises_only_bindE raises_only_if exec_intros) simp_all

lemma elf_section_within: "elf_section_at h data i = Inr s \<Longrightarrow> es_type s = 8 \<or> es_size s = 0 \<or> es_offset s + es_size s \<le> length data"
  by (auto simp: elf_section_at_def Let_def split: if_splits)

definition short_entries :: "elf_header \<Rightarrow> elf_section \<Rightarrow> bool" where
  "short_entries h s \<longleftrightarrow> es_type s = 6 \<and> es_entsize s < 2 * word_size h"

lemma elf_entry_raises:
  assumes "es_offset s + index * es_entsize s + 2 * word_size h \<le> length data"
  shows "raises_only executable_error (elf_entry h data dynstr s index d)"
  using assms unfolding elf_entry_def Let_def
  by (intro raises_only_bindE raises_only_if exec_intros) (simp_all add: word_size_def)

lemma elf_scan_raises:
  assumes within: "es_type s = 8 \<or> es_size s = 0 \<or> es_offset s + es_size s \<le> length data"
    and long: "\<not> short_entries h s"
  shows "raises_only executable_error (elf_scan_section h data sections strings s d)"
proof -
  have ident: "12 \<le> length (section_bytes data s)" if "es_type s = 7" "16 \<le> es_size s"
    using that within by (auto simp: section_bytes_def)
  have entry: "raises_only executable_error (elf_entry h data dynstr s i e)"
    if "es_type s = 6" "i < es_size s div es_entsize s" for dynstr i e
  proof (rule elf_entry_raises)
    have size: "es_entsize s * (es_size s div es_entsize s) \<le> es_size s"
      by (simp add: times_div_less_eq_dividend)
    from that within have "es_offset s + es_size s \<le> length data"
      by (cases "es_size s = 0") auto
    with size have "es_offset s + es_entsize s * (es_size s div es_entsize s) \<le> length data" by linarith
    from row_within [OF this that(2)] long that(1)
    show "es_offset s + i * es_entsize s + 2 * word_size h \<le> length data"
      by (simp add: short_entries_def)
  qed
  show ?thesis
    unfolding elf_scan_section_def elf_build_id_def Let_def
    by (intro raises_only_bindE raises_only_if exec_intros entry) (use ident in auto)
qed

definition elf_short_dynamic :: "bytes \<Rightarrow> bool" where
  "elf_short_dynamic data \<longleftrightarrow>
     (case elf_header_of data of Inl _ \<Rightarrow> False
      | Inr h \<Rightarrow> (case mapE (elf_section_at h data) [0..<eh_shnum h] of Inl _ \<Rightarrow> False
                | Inr sections \<Rightarrow> list_ex (short_entries h) sections))"

lemma mapE_all: "mapE f xs = Inr ys \<Longrightarrow> (\<And>x y. f x = Inr y \<Longrightarrow> P y) \<Longrightarrow> list_all P ys"
  by (induction xs arbitrary: ys) auto

lemma mapE_length: "mapE f xs = Inr ys \<Longrightarrow> length ys = length xs"
  by (induction xs arbitrary: ys) auto

lemma elf_strings_raises:
  "length sections = eh_shnum h \<Longrightarrow> raises_only executable_error (elf_strings h data sections)"
  by (simp add: elf_strings_def)

lemma read_elf_raises: "raises_only (or_struct_error (elf_short_dynamic data)) (read_elf data)"
proof (cases "elf_short_dynamic data")
  case True
  have all: "raises_only (or_struct_error True) m" if "raises_only parse_failure m" for m :: "'a res"
    using that by (rule raises_only_mono) (auto simp: or_struct_error_def parse_failure_def)
  have scan: "raises_only parse_failure (elf_scan_section h data sections strings s d)" for h sections strings s d
    unfolding elf_scan_section_def elf_build_id_def elf_entry_def Let_def
    by (intro raises_only_bindE raises_only_if exec_intros) (simp_all add: parse_failure_def)
  have "raises_only (or_struct_error True) (read_elf data)"
    unfolding read_elf_def
    by (intro raises_only_bindE raises_only_if allow_struct_error [OF elf_header_raises] raises_mapE raises_foldE
        allow_struct_error [OF elf_program_raises] allow_struct_error [OF elf_section_raises] all [OF scan]
        allow_struct_error [OF elf_strings_raises])
      (auto simp: or_struct_error_def dest: mapE_length)
  then show ?thesis using True by simp
next
  case False
  have scan: "raises_only executable_error (elf_scan_section h data sections strings s d)"
    if "elf_header_of data = Inr h" "mapE (elf_section_at h data) [0..<eh_shnum h] = Inr sections" "s \<in> set sections"
    for h sections strings s d
  proof (rule elf_scan_raises)
    show "es_type s = 8 \<or> es_size s = 0 \<or> es_offset s + es_size s \<le> length data"
      using mapE_all [OF that(2), where P = "\<lambda>s. es_type s = 8 \<or> es_size s = 0 \<or> es_offset s + es_size s \<le> length data"]
        elf_section_within that(3) by (fastforce simp: list_all_iff)
    show "\<not> short_entries h s"
      using False that by (auto simp: elf_short_dynamic_def list_ex_iff)
  qed
  have "raises_only executable_error (read_elf data)"
    unfolding read_elf_def
    by (intro raises_only_bindE raises_only_if elf_header_raises raises_mapE raises_foldE
        elf_program_raises elf_section_raises scan elf_strings_raises)
      (auto dest: mapE_length)
  then show ?thesis by (rule allow_struct_error)
qed

lemma read_elf_header: "read_elf data = Inr e \<Longrightarrow> 16 \<le> length data"
  by (auto simp: read_elf_def dest: elf_header_tables(5) split: if_splits)

lemma parse_elf_raises: "raises_only (or_struct_error (elf_short_dynamic data)) (parse_elf data)"
  unfolding parse_elf_def Let_def
  by (intro raises_only_bindE read_elf_raises) (auto dest: read_elf_header)

lemma raises_only_map_sum [simp]: "raises_only P (map_sum id f m) = raises_only P m"
  by (cases m) simp_all

lemma parse_executable_raises:
  "raises_only (or_struct_error (pe_cut_short data \<or> take 4 data = 0x7F # ascb ''ELF'' \<and> elf_short_dynamic data))
     (parse_executable data)"
proof -
  have more: "raises_only (or_struct_error c) m" if "raises_only (or_struct_error b) m" "b \<Longrightarrow> c" for b c and m :: "'a res"
    using that(1) by (rule raises_only_mono) (use that(2) in \<open>auto simp: or_struct_error_def\<close>)
  show ?thesis
    unfolding parse_executable_def Let_def
    by (intro raises_only_if)
      (auto intro: more [OF parse_elf_raises] more [OF parse_mz_raises] allow_struct_error [OF parse_hunk_raises]
        allow_struct_error [OF parse_macho_raises])
qed

subsection \<open>HUNK records are numbered by the hunks that ended\<close>

definition hunk_ends :: "hunk_record list \<Rightarrow> nat" where
  "hunk_ends rs = length (filter (\<lambda>r. hr_body r = Hunk_End) rs)"

definition well_numbered :: "nat \<Rightarrow> hunk_record list \<Rightarrow> bool" where
  "well_numbered first rs \<longleftrightarrow>
     list_all (\<lambda>i. hr_index (rs ! i) = first + hunk_ends (take i rs)) [0..<length rs]"

lemma hunk_ends_append [simp]: "hunk_ends (xs @ ys) = hunk_ends xs + hunk_ends ys"
  by (simp add: hunk_ends_def)

lemma hunk_ends_Nil [simp]: "hunk_ends [] = 0"
  by (simp add: hunk_ends_def)

lemma hunk_ends_single [simp]: "hunk_ends [r] = (if hr_body r = Hunk_End then 1 else 0)"
  by (simp add: hunk_ends_def)

lemma well_numbered_snoc:
  "well_numbered first (rs @ [r]) \<longleftrightarrow> well_numbered first rs \<and> hr_index r = first + hunk_ends rs"
  by (auto simp: well_numbered_def list_all_iff nth_append less_Suc_eq)

lemma well_numbered_Nil [simp]: "well_numbered first []"
  by (simp add: well_numbered_def)

definition hunk_loop_ok :: "nat \<Rightarrow> nat \<Rightarrow> hunk_record list \<times> nat \<times> bool \<Rightarrow> bool" where
  "hunk_loop_ok table_size first out \<longleftrightarrow> (case out of (records, ended, unsupported) \<Rightarrow>
     well_numbered first records \<and> ended = hunk_ends records \<and> ended \<le> table_size
     \<and> length records \<le> MAX_HEADERS + 1
     \<and> list_all (\<lambda>r. hr_index r < first + table_size) records)"

lemma hunk_records_ok:
  assumes "ended < table_size" and "current = first + ended"
    and "hunk_loop_ok table_size first (records, ended, False)" and "length records \<le> MAX_HEADERS"
  shows "ensures (hunk_loop_ok table_size first) (hunk_records data table_size cursor current ended records)"
  using assms
proof (induction "length data - cursor" arbitrary: cursor current ended records rule: less_induct)
  case less
  note prems = less.prems
  have more: "length data - next_at < length data - cursor"
    if "\<not> \<not> cursor < length data" "hunk_body_at data ty (cursor + 4) = Inr (body, next_at)" for ty body next_at
    using that by (auto dest: hunk_body_forward)
  show ?case unfolding hunk_records.simps [of data table_size cursor current ended records] Let_def
    by (intro ensures_if ensures_bindE)
      (use prems in \<open>auto split: prod.split simp: hunk_loop_ok_def well_numbered_snoc
         intro!: ensures_if less.hyps more\<close>)
qed

definition hunk_file_ok :: "hunk_file \<Rightarrow> bool" where
  "hunk_file_ok h \<longleftrightarrow>
     well_numbered (hf_first h) (hf_records h)
     \<and> length (hf_declared h) = hf_last h - hf_first h + 1 \<and> length (hf_declared h) \<le> MAX_SECTIONS
     \<and> hunk_ends (hf_records h) \<le> length (hf_declared h)
     \<and> length (hf_records h) \<le> MAX_HEADERS + 1
     \<and> list_all (\<lambda>r. hf_first h \<le> hr_index r \<and> hr_index r \<le> hf_last h) (hf_records h)
     \<and> (if hf_unsupported h then True else hunk_ends (hf_records h) = length (hf_declared h))"

lemma well_numbered_first: "well_numbered first rs \<Longrightarrow> r \<in> set rs \<Longrightarrow> first \<le> hr_index r"
  by (auto simp: well_numbered_def list_all_iff in_set_conv_nth)

lemma read_hunk_ok: "ensures hunk_file_ok (read_hunk data)"
proof -
  have start: "ensures (hunk_loop_ok n first) (hunk_records data n cursor first 0 [])" if "n \<noteq> 0" for n first cursor
    using that by (intro hunk_records_ok) (simp_all add: hunk_loop_ok_def)
  have step: "ensures hunk_file_ok (if \<not> unsupported \<and> ended \<noteq> n
          then Inl (ExecutableError m)
          else Inr \<lparr>hf_resident = resident, hf_first = first, hf_last = last, hf_declared = declared,
                 hf_records = records, hf_unsupported = unsupported\<rparr>)"
    if "hunk_loop_ok n first (records, ended, unsupported)" "length declared = n" "\<not> (n = 0 \<or> n > MAX_SECTIONS \<or> last < first \<or> last - first + 1 \<noteq> n)"
    for n first last records ended unsupported m resident declared
    using that well_numbered_first [of first records] by (auto simp: hunk_loop_ok_def hunk_file_ok_def list_all_iff)
  show ?thesis
    unfolding read_hunk_def Let_def
    apply (rule ensures_bindE)
    apply (simp only: split_paired_all prod.case)
    apply (rule ensures_bindE)
    apply (rule ensures_bindE)
    apply (rule ensures_if, simp)
    apply (rule ensures_bindE)
    apply (rule ensures_bindE)
    apply (simp only: split_paired_all prod.case)
    apply (rule step)
      apply (erule ensuresD [OF start, rotated], simp)
     apply (simp add: be_words_def)
    apply assumption
    done
qed

subsection \<open>Ranges inside the file\<close>

definition pe_ok :: "bytes \<Rightarrow> pe_image \<Rightarrow> bool" where
  "pe_ok data p \<longleftrightarrow>
     length (pi_sections p) \<le> MAX_SECTIONS \<and> length (pi_directories p) \<le> 16
     \<and> list_all (\<lambda>s. ps_raw_size s = 0 \<or> ps_raw_offset s + ps_raw_size s \<le> length data) (pi_sections p)
     \<and> pi_optional p + pi_optional_size p \<le> length data
     \<and> length (pi_imports p) < MAX_IMPORTS \<and> list_all (\<lambda>(_, symbols). length symbols < MAX_IMPORTS) (pi_imports p)
     \<and> length (pi_exports p) \<le> MAX_SYMBOLS"

lemma pe_section_within: "pe_section_at data off i = Inr s \<Longrightarrow> ps_raw_size s = 0 \<or> ps_raw_offset s + ps_raw_size s \<le> length data"
  by (auto simp: pe_section_at_def Let_def split: if_splits)

lemma pe_thunks_length: "pe_thunks data sections width left cursor = Inr symbols \<Longrightarrow> length symbols < left"
  by (induction data sections width left cursor arbitrary: symbols rule: pe_thunks.induct)
    (auto simp: Let_def split: if_splits)

lemma pe_imports_step:
  assumes "pe_imports data sections width (Suc left) cursor = Inr libs"
  obtains "libs = []"
    | library symbols rest c where "libs = (library, symbols) # rest"
        "pe_thunks data sections width MAX_IMPORTS c = Inr symbols"
        "pe_imports data sections width left (cursor + 20) = Inr rest"
  using assms by (auto simp: Let_def simp del: pe_thunks.simps pe_imports.simps(1) split: if_splits)

lemma pe_imports_length:
  "pe_imports data sections width left cursor = Inr libs \<Longrightarrow>
     length libs < left \<and> list_all (\<lambda>(_, symbols). length symbols < MAX_IMPORTS) libs"
proof (induction left arbitrary: cursor libs)
  case (Suc left)
  from Suc.prems show ?case
  proof (cases rule: pe_imports_step)
    case (2 library symbols rest c)
    with Suc.IH [OF 2(3)] pe_thunks_length [OF 2(2)] show ?thesis by simp
  qed simp
qed simp

lemma pe_exports_length: "pe_exports data sections rva = Inr exports \<Longrightarrow> length exports \<le> MAX_SYMBOLS"
  by (auto simp: pe_exports_def Let_def split: if_splits dest: mapE_length)

lemma read_pe_ok: "ensures (pe_ok data) (read_pe data offset)"
proof -
  have secs: "length sections = length idx \<and> list_all (\<lambda>s. ps_raw_size s = 0 \<or> ps_raw_offset s + ps_raw_size s \<le> length data) sections"
    if "mapE (pe_section_at data off) idx = Inr sections" for off idx sections
    using that by (intro conjI mapE_length mapE_all [OF that pe_section_within])
  have libs: "length libs < MAX_IMPORTS \<and> list_all (\<lambda>(_, symbols). length symbols < MAX_IMPORTS) libs"
    if "(case d of None \<Rightarrow> Inr [] | Some rva \<Rightarrow> bindE (rva_offset data sections rva) (pe_imports data sections width MAX_IMPORTS)) = Inr libs"
    for d sections width libs
    using that by (auto split: option.splits dest: pe_imports_length simp: MAX_IMPORTS_def)
  have exports: "length es \<le> MAX_SYMBOLS"
    if "(case d of None \<Rightarrow> Inr [] | Some rva \<Rightarrow> pe_exports data sections rva) = Inr es" for d sections es
    using that by (auto split: option.splits dest: pe_exports_length)
  show ?thesis
    unfolding read_pe_def Let_def
    by (intro ensures_bindE ensures_if)
      (auto simp: pe_ok_def dest!: secs libs exports dest: mapE_length)
qed

fun macho_tiled :: "nat \<Rightarrow> nat \<Rightarrow> macho_load list \<Rightarrow> bool" where
  "macho_tiled end_at cursor [] \<longleftrightarrow> True"
| "macho_tiled end_at cursor (l # rest) \<longleftrightarrow>
     ml_offset l = cursor \<and> 8 \<le> ml_size l \<and> cursor + ml_size l \<le> end_at \<and> macho_tiled end_at (cursor + ml_size l) rest"

lemma macho_loads_ok: "macho_loads en data left cursor = Inr loads \<Longrightarrow> length loads = left \<and> macho_tiled (length data) cursor loads"
proof (induction left arbitrary: cursor loads)
  case (Suc left)
  then show ?case by (auto simp: Let_def split: if_splits)
qed simp

lemma macho_slices_ok:
  "macho_slices en data = Inr slices \<Longrightarrow>
     length slices \<le> 64 \<and> list_all (\<lambda>s. ms_offset s + ms_size s \<le> length data) slices"
  by (auto simp: macho_slices_def macho_slice_at_def Let_def split: if_splits dest: mapE_length intro: mapE_all)

definition elf_ok :: "bytes \<Rightarrow> elf_image \<Rightarrow> bool" where
  "elf_ok data e \<longleftrightarrow>
     length (ei_programs e) = eh_phnum (ei_header e) \<and> eh_phnum (ei_header e) \<le> MAX_HEADERS
     \<and> length (ei_sections e) = eh_shnum (ei_header e) \<and> eh_shnum (ei_header e) \<le> MAX_SECTIONS
     \<and> list_all (\<lambda>p. ep_filesz p = 0 \<or> ep_offset p + ep_filesz p \<le> length data) (ei_programs e)
     \<and> list_all (\<lambda>s. es_type s = 8 \<or> es_size s = 0 \<or> es_offset s + es_size s \<le> length data) (ei_sections e)
     \<and> ed_symbol_count (ei_dynamic e) \<le> MAX_SYMBOLS"

lemma elf_header_limits: "elf_header_of data = Inr h \<Longrightarrow> eh_phnum h \<le> MAX_HEADERS \<and> eh_shnum h \<le> MAX_SECTIONS"
  unfolding elf_header_of_def Let_def by (simp split: if_splits)

lemma elf_program_within: "elf_program_at h data i = Inr p \<Longrightarrow> ep_filesz p = 0 \<or> ep_offset p + ep_filesz p \<le> length data"
  by (auto simp: elf_program_at_def Let_def split: if_splits)

lemma read_elf_ok: "ensures (elf_ok data) (read_elf data)"
  unfolding read_elf_def Let_def
  by (intro ensures_bindE ensures_if)
    (auto simp: elf_ok_def not_less dest: mapE_length elf_header_limits
      elim!: mapE_all [OF _ elf_program_within] mapE_all [OF _ elf_section_within])

text \<open>The \<open>struct.error\<close> of an MZ file is real: an optional header of less than two bytes at the end.\<close>

lemma read_pe_short_optional:
  assumes "le_at 2 data (offset + 20) = n" and "n < 2" and "length data = offset + 24 + n"
    and "le_at 2 data (offset + 6) \<le> MAX_SECTIONS"
  shows "read_pe data offset = Inl StructError"
  using assms by (simp add: read_pe_def Let_def need_def fits_def)

subsection \<open>Properties of the executable parsers\<close>

text \<open>
  C30: parsing any bytes gives a result, no result, or an \<open>ExecutableError\<close>, and no index or
  \<open>struct\<close> read of the parsers leaves the file, in two cases excepted, which raise \<open>struct.error\<close>: a PE
  file that ends before the magic of its optional header, and an ELF file with a dynamic section
  whose entry size is smaller than the two words of an entry. The loops over HUNK records,
  relocations and symbols end on every input.
\<close>

theorem parse_executable_contained:
  "case parse_executable data of
     Inr _ \<Rightarrow> True
   | Inl e \<Rightarrow> executable_error e
       \<or> e = StructError \<and> (pe_cut_short data \<or> take 4 data = 0x7F # ascb ''ELF'' \<and> elf_short_dynamic data)"
  using parse_executable_raises [of data]
  by (simp add: raises_only_def or_struct_error_def split: sum.splits)

text \<open>
  C14: in a HUNK file that is accepted the table declares \<open>last - first + 1\<close> hunks, at most 1024;
  every record carries the number of the hunk it is in, which is the first one plus the
  \<open>HUNK_END\<close> records before it and lies between the first and the last; there are at most 4097
  records, and exactly one \<open>HUNK_END\<close> for each declared hunk unless the parser met a record type
  it does not support.
\<close>

theorem read_hunk_numbered:
  "case read_hunk data of
     Inl _ \<Rightarrow> True
   | Inr h \<Rightarrow>
       length (hf_declared h) = hf_last h - hf_first h + 1 \<and> length (hf_declared h) \<le> 1024
       \<and> well_numbered (hf_first h) (hf_records h)
       \<and> list_all (\<lambda>r. hf_first h \<le> hr_index r \<and> hr_index r \<le> hf_last h) (hf_records h)
       \<and> length (hf_records h) \<le> 4097
       \<and> (if hf_unsupported h then hunk_ends (hf_records h) \<le> length (hf_declared h)
          else hunk_ends (hf_records h) = length (hf_declared h))"
  using read_hunk_ok [of data]
  by (auto simp: ensures_def hunk_file_ok_def MAX_SECTIONS_def MAX_HEADERS_def split: sum.splits)

text \<open>
  Whatever the counts and offsets in the file say, the sections of a PE file, the segments and
  the sections (but for \<open>SHT_NOBITS\<close>) of an ELF file and the slices of a fat Mach-O file lie
  inside the file, Mach-O load commands follow each other without gaps and end inside it, and the
  numbers of sections, directories, imports, exports, segments and symbols keep their limits.
\<close>

lemma executable_tables_within:
  "(case read_pe data offset of Inl _ \<Rightarrow> True | Inr p \<Rightarrow> pe_ok data p)
   \<and> (case read_elf data of Inl _ \<Rightarrow> True | Inr e \<Rightarrow> elf_ok data e)
   \<and> (case macho_slices en data of Inl _ \<Rightarrow> True | Inr slices \<Rightarrow>
        length slices \<le> 64 \<and> list_all (\<lambda>s. ms_offset s + ms_size s \<le> length data) slices)
   \<and> (case macho_loads en data n cursor of Inl _ \<Rightarrow> True | Inr loads \<Rightarrow>
        length loads = n \<and> macho_tiled (length data) cursor loads)"
  using read_pe_ok [of data offset] read_elf_ok [of data]
  by (auto simp: ensures_def split: sum.splits dest: macho_slices_ok macho_loads_ok)


end
