(* ===== verification/Structural.thy ===== *)
theory Structural
  imports Scanning Partitions Disk_Images
begin

unbundle bit_operations_syntax

section \<open>Structural validation: \<open>analyzers/structural.py\<close>\<close>

text \<open>
  The validators for Amiga disks, FAT volumes, RDB tables, ISO 9660 images and LHA archives. The
  validators read the bytes of the source; the clock readings of \<open>_result\<close> and the artifact come
  in a context. The recursion of \<open>walk\<close> and \<open>_fat_directory\<close> is bounded by Python's recursion
  limit: \<open>depth\<close> is the number of nested calls left.
\<close>

record validation_context =
  vc_artifact :: input_artifact
  vc_now :: timestamp
  vc_duration :: duration

definition validator_id :: string where "validator_id = ''structural-validator''"
definition validator_version :: string where "validator_version = ''1.0.0''"

subsection \<open>Readers and checksums\<close>

definition st_le16 :: "bytes \<Rightarrow> nat \<Rightarrow> nat" where "st_le16 data offset = le_at 2 data offset"
definition st_le32 :: "bytes \<Rightarrow> nat \<Rightarrow> nat" where "st_le32 data offset = le_at 4 data offset"
definition st_be32 :: "bytes \<Rightarrow> nat \<Rightarrow> nat" where "st_be32 data offset = be_at 4 data offset"

text \<open>\<open>int.from_bytes(data[offset:offset+4], "big", signed=True)\<close> of a slice that may be short.\<close>

definition sbe32 :: "bytes \<Rightarrow> nat \<Rightarrow> int" where
  "sbe32 data offset =
     (let s = pyslice data offset (offset + 4) in if s = [] then 0 else signed_of (8 * length s) (be_int s))"

definition block_checksum :: "bytes \<Rightarrow> bool" where
  "block_checksum block \<longleftrightarrow> length block = 512 \<and> sum_list (be_words 128 block 0) AND 0xFFFFFFFF = 0"

definition boot_step :: "nat \<Rightarrow> nat \<Rightarrow> nat" where
  "boot_step value previous =
     (let reached = (previous + value) AND 0xFFFFFFFF
      in if reached < previous then (reached + 1) AND 0xFFFFFFFF else reached)"

definition amiga_boot_checksum :: "bytes \<Rightarrow> bool" where
  "amiga_boot_checksum block \<longleftrightarrow>
     length block = 1024 \<and> fold boot_step (be_words 256 block 0) 0 = 0xFFFFFFFF"

definition fat_bpb_plausible :: "bytes \<Rightarrow> bool res" where
  "fat_bpb_plausible data =
     (if length data \<ge> 512 \<and> st_le16 data 11 \<in> {512, 1024, 2048, 4096}
      then bindE (byte_at data 13) (\<lambda>spc. Inr (spc \<noteq> 0)) else Inr False)"

definition fat_value :: "bytes \<Rightarrow> nat \<Rightarrow> fat_variant \<Rightarrow> nat" where
  "fat_value fat cluster variant =
     (if variant = FAT12 then
        let pos = cluster + cluster div 2; v = st_le16 fat pos in
        if pos + 2 > length fat then 1 else if odd cluster then drop_bit 4 v else v AND 0xFFF
      else
        let width = (if variant = FAT16 then 2 else 4); pos = cluster * width; v = le_at width fat pos in
        if pos + width > length fat then 1 else if variant = FAT16 then v else v AND 0x0FFFFFFF)"

definition crc16_bit :: "nat \<Rightarrow> nat" where
  "crc16_bit crc = drop_bit 1 crc XOR (if odd crc then 0xA001 else 0)"

definition crc16_byte :: "byte \<Rightarrow> nat \<Rightarrow> nat" where
  "crc16_byte b crc = (crc16_bit ^^ 8) (crc XOR unat b)"

definition crc16 :: "bytes \<Rightarrow> nat" where
  "crc16 data = fold crc16_byte data 0"

definition rdb_finding :: "string \<Rightarrow> string" where
  "rdb_finding error =
     (let l = lower error in
      if substring ''cycle'' l then ''RDB_POINTER_CYCLE''
      else if substring ''overlap'' l then ''RDB_PARTITION_OVERLAP''
      else if substring ''outside'' l then ''RDB_POINTER_OR_PARTITION_OUT_OF_RANGE''
      else if substring ''part block'' l then ''RDB_PART_CHECKSUM_OR_STRUCTURE_INVALID''
      else if substring ''geometry'' l then ''RDB_PARTITION_GEOMETRY_INVALID''
      else ''RDB_STRUCTURE_WARNING'')"

subsection \<open>\<open>_result\<close>\<close>

definition structural_state_value :: "structural_state \<Rightarrow> string" where
  "structural_state_value s = (case s of VALID \<Rightarrow> ''VALID'' | VALID_WITH_WARNINGS \<Rightarrow> ''VALID_WITH_WARNINGS''
     | DAMAGED \<Rightarrow> ''DAMAGED'' | CORRUPT \<Rightarrow> ''CORRUPT'' | TRUNCATED \<Rightarrow> ''TRUNCATED'' | NON_STANDARD \<Rightarrow> ''NON_STANDARD''
     | PARTIAL \<Rightarrow> ''PARTIAL'' | S_UNSUPPORTED \<Rightarrow> ''UNSUPPORTED'' | S_UNKNOWN \<Rightarrow> ''UNKNOWN'')"

text \<open>\<open>list(dict.fromkeys(xs))\<close>: the first occurrence of every value, in order.\<close>

fun unique_values :: "'a list \<Rightarrow> 'a list" where
  "unique_values [] = []"
| "unique_values (x # xs) = x # filter (\<lambda>y. y \<noteq> x) (unique_values xs)"

definition validation_result ::
  "validation_context \<Rightarrow> string \<Rightarrow> string option \<Rightarrow> structural_state \<Rightarrow> (string \<times> pyval) list \<Rightarrow> string list \<Rightarrow> string
   \<Rightarrow> structural_validation" where
  "validation_result c fmt variant state observations findings completeness =
     (let unique = unique_values findings in
      \<lparr>sv_validator = validator_id, sv_format = fmt, sv_variant = variant, sv_state = state,
       sv_observations = map (\<lambda>(k, v). \<lparr>o_type = k, o_value = v, o_analyzer_id = validator_id, o_evidence_refs = [],
          o_source = Some (asc ''read-only-validator''), o_observed_at = Some (vc_now c), o_confidence = Some ''exact''\<rparr>)
          observations,
       sv_findings = map (\<lambda>v. \<lparr>f_type = v, f_analyzer_id = validator_id, f_native_name = None,
          f_normalized_verdict = None, f_evidence_refs = map (asc \<circ> fst) observations\<rparr>) unique,
       sv_assessments = (if state = VALID then []
          else [\<lparr>as_type = ''MEDIA_STRUCTURALLY_DAMAGED'', as_analyzer_id = validator_id,
             as_statement = asc (fmt @ '' structural validation state is '' @ structural_state_value state),
             as_confidence = Conf_HIGH, as_evidence_refs = map asc unique\<rparr>]),
       sv_completeness = completeness, sv_confidence = Conf_HIGH,
       sv_source_sha256 = h_sha256 (a_hashes (vc_artifact c)), sv_validator_version = validator_version,
       sv_duration_seconds = vc_duration c, sv_error_state = None,
       sv_limit_state = (if completeness = ''PARTIAL_LIMIT'' then Some ''VALIDATION_BYTE_LIMIT'' else None)\<rparr>)"

definition over_limit :: "validation_context \<Rightarrow> string \<Rightarrow> string option \<Rightarrow> structural_validation" where
  "over_limit c fmt variant = validation_result c fmt variant PARTIAL [] [''VALIDATION_BYTE_LIMIT''] ''PARTIAL_LIMIT''"

subsection \<open>Amiga disks\<close>

text \<open>The variables of \<open>_walk_adf\<close> that its nested functions share.\<close>

record adf_scan =
  as_seen :: "nat set"
  as_nodes :: nat

definition scan_block :: "bytes \<Rightarrow> nat \<Rightarrow> bytes res" where
  "scan_block data key =
     (if key < 2 \<or> key \<ge> length data div 512 then Inl (DiskImageError ''ADF block pointer lies outside image'')
      else Inr (pyslice data (key * 512) ((key + 1) * 512)))"

text \<open>The pointers of a file header, from the first data block on; the result is the total reached.\<close>

fun scan_pointers :: "bytes \<Rightarrow> bool \<Rightarrow> nat \<Rightarrow> nat \<Rightarrow> nat list \<Rightarrow> nat set \<Rightarrow> nat \<Rightarrow> nat set \<Rightarrow> (nat \<times> nat set) res" where
  "scan_pointers data ofs key wanted [] own reached seen = Inr (reached, seen)"
| "scan_pointers data ofs key wanted (p # ps) own reached seen =
     (if p = 0 then scan_pointers data ofs key wanted ps own reached seen
      else if p \<in> own \<or> p \<in> seen then Inl (DiskImageError ''cyclic ADF file block list'')
      else bindE (scan_block data p) (\<lambda>payload.
        let count = st_be32 payload 12 in
        bindE
          (if ofs
           then if st_be32 payload 0 \<noteq> 8 \<or> st_be32 payload 4 \<noteq> key \<or> count > 488 \<or> \<not> block_checksum payload
                then Inl (DiskImageError ''invalid OFS data block'') else Inr (reached + count)
           else Inr (reached + 512)) (\<lambda>reached'.
        if reached' \<ge> wanted then Inr (reached', insert p seen)
        else scan_pointers data ofs key wanted ps (insert p own) reached' (insert p seen))))"

definition header_pointers :: "bytes \<Rightarrow> nat list" where
  "header_pointers header = map (\<lambda>i. st_be32 header (308 - 4 * i)) [0..<72]"

definition scan_adf_file :: "bytes \<Rightarrow> bool \<Rightarrow> nat \<Rightarrow> bytes \<Rightarrow> adf_scan \<Rightarrow> adf_scan res" where
  "scan_adf_file data ofs key header st =
     bindE (scan_pointers data ofs key (st_be32 header 324) (header_pointers header) {} 0 (as_seen st)) (\<lambda>(reached, seen).
     if reached < st_be32 header 324 then Inl (DiskImageError ''truncated ADF file'') else Inr (st\<lparr>as_seen := seen\<rparr>))"

text \<open>
  One hash chain; \<open>walk\<close> is the call for a subdirectory. Every round counts a node, so one more
  round than the node limit is enough fuel.
\<close>

fun scan_hash_chain ::
  "(bytes \<Rightarrow> adf_scan \<Rightarrow> adf_scan res) \<Rightarrow> nat \<Rightarrow> bytes \<Rightarrow> bool \<Rightarrow> nat \<Rightarrow> nat set \<Rightarrow> nat \<Rightarrow> adf_scan \<Rightarrow> adf_scan res" where
  "scan_hash_chain walk max_nodes data ofs fuel chained key st =
     (if key = 0 then Inr st
      else case fuel of
        0 \<Rightarrow> Inl OutOfFuel
      | Suc fuel' \<Rightarrow>
          let st1 = st\<lparr>as_nodes := as_nodes st + 1\<rparr> in
          if as_nodes st1 > max_nodes then Inl (DiskImageError ''ADF validation node limit'')
          else if key \<in> chained \<or> key \<in> as_seen st then Inl (DiskImageError ''cyclic ADF directory hash chain'')
          else
            let st2 = st1\<lparr>as_seen := insert key (as_seen st1)\<rparr> in
            bindE (scan_block data key) (\<lambda>header.
            if st_be32 header 0 \<noteq> 2 \<or> \<not> block_checksum header then Inl (DiskImageError ''invalid ADF entry header'')
            else
              bindE
                (if sbe32 header 508 = 2 then walk header st2
                 else if sbe32 header 508 = -3 then scan_adf_file data ofs key header st2
                 else Inr st2) (\<lambda>st3.
              scan_hash_chain walk max_nodes data ofs fuel' (insert key chained) (st_be32 header 496) st3)))"

declare scan_hash_chain.simps [simp del]

fun scan_directory :: "nat \<Rightarrow> nat \<Rightarrow> bytes \<Rightarrow> bool \<Rightarrow> bytes \<Rightarrow> adf_scan \<Rightarrow> adf_scan res" where
  "scan_directory 0 max_nodes data ofs directory st = Inl RecursionError"
| "scan_directory (Suc depth) max_nodes data ofs directory st =
     foldE (\<lambda>i st. scan_hash_chain (scan_directory depth max_nodes data ofs) max_nodes data ofs (max_nodes + 1) {}
              (st_be32 directory (24 + 4 * i)) st) [0..<72] st"

definition walk_adf :: "nat \<Rightarrow> nat \<Rightarrow> bytes \<Rightarrow> bool \<Rightarrow> unit res" where
  "walk_adf depth max_nodes data ofs =
     bindE (scan_block data 880) (\<lambda>rblock.
     bindE (scan_directory depth max_nodes data ofs rblock \<lparr>as_seen = {880}, as_nodes = 0\<rparr>) (\<lambda>_. Inr ()))"

definition walk_finding :: "string \<Rightarrow> string" where
  "walk_finding message =
     (let l = lower message in
      if substring ''cyclic'' l then ''ADF_CHAIN_LOOP''
      else if substring ''outside'' l then ''ADF_BLOCK_REFERENCE_OUT_OF_RANGE''
      else if substring ''truncated'' l then ''ADF_DATA_CHAIN_TRUNCATED''
      else ''ADF_BLOCK_STRUCTURE_INVALID'')"

text \<open>The disk type byte, where the image has one, and the variant it names.\<close>

definition dos_type :: "bytes \<Rightarrow> nat option res" where
  "dos_type data = (if length data > 3 then bindE (byte_at data 3) (\<lambda>v. Inr (Some v)) else Inr None)"

definition adf_variant :: "nat option \<Rightarrow> string option" where
  "adf_variant ty = Option.bind ty
     (map_of [(0, ''OFS''), (1, ''FFS''), (2, ''OFS_INTL''), (3, ''FFS_INTL''), (4, ''OFS_DIRCACHE''), (5, ''FFS_DIRCACHE'')])"

definition bitmap_findings :: "bytes \<Rightarrow> bytes \<Rightarrow> string list" where
  "bitmap_findings data rblock =
     concat (map (\<lambda>key.
         if key \<ge> 1760 then [''ADF_BLOCK_REFERENCE_OUT_OF_RANGE'']
         else if \<not> block_checksum (pyslice data (key * 512) ((key + 1) * 512)) then [''ADF_BITMAP_CHECKSUM_MISMATCH'']
         else [])
       (filter (\<lambda>key. key \<noteq> 0) (map (\<lambda>i. st_be32 rblock (316 + 4 * i)) [0..<24])))"

definition adf_validate :: "validation_context \<Rightarrow> nat \<Rightarrow> nat \<Rightarrow> bytes \<Rightarrow> structural_validation res" where
  "adf_validate c depth max_nodes data =
     bindE (dos_type data) (\<lambda>ty.
     let size_valid = (length data = 901120); variant = adf_variant ty;
          boot_valid = (length data \<ge> 1024 \<and> amiga_boot_checksum (take 1024 data));
          findings1 = (if size_valid then [] else if length data < 901120 then [''ADF_IMAGE_TRUNCATED''] else [''ADF_NON_STANDARD_SIZE''])
             @ (if boot_valid then [] else [''BOOTBLOCK_CHECKSUM_MISMATCH'']);
          obs1 = [(''ADF_SIZE_VALID'', PBool size_valid),
             (''ADF_DOSTYPE'', case ty of Some v \<Rightarrow> PAsc (''DOS'' @ [char_of (92::nat)] @ show_nat v) | None \<Rightarrow> PNone),
             (''ADF_BOOTBLOCK_CHECKSUM_VALID'', PBool boot_valid)]
      in if \<not> size_valid \<or> variant \<notin> {Some ''OFS'', Some ''FFS''}
         then Inr (validation_result c ''ADF'' variant (if length data < 901120 then TRUNCATED else NON_STANDARD) obs1 findings1 ''COMPLETE'')
         else
           let rblock = pyslice data (880 * 512) (881 * 512);
               root_valid = (st_be32 rblock 0 = 2 \<and> sbe32 rblock 508 = 1 \<and> block_checksum rblock);
               bitmap = bitmap_findings data rblock;
               findings2 = findings1 @ (if root_valid then [] else [''ROOTBLOCK_CHECKSUM_MISMATCH'']) @ bitmap
           in bindE (case walk_adf depth max_nodes data (variant = Some ''OFS'') of
                Inr _ \<Rightarrow> Inr []
              | Inl (DiskImageError m) \<Rightarrow> Inr [walk_finding m]
              | Inl e \<Rightarrow> Inl e) (\<lambda>walk.
              let findings = findings2 @ walk in
              Inr (validation_result c ''ADF'' variant (if findings = [] then VALID else DAMAGED)
                (obs1 @ [(''ADF_ROOTBLOCK_CHECKSUM_VALID'', PBool root_valid), (''ADF_BITMAP_VALID'', PBool (bitmap = [])),
                   (''ADF_BLOCK_REFERENCE_VALID'', PBool (walk = []))]) findings ''COMPLETE'')))"

subsection \<open>FAT volumes\<close>

record fat_geometry =
  fg_data :: bytes
  fg_fat :: bytes
  fg_variant :: fat_variant
  fg_first_data :: nat
  fg_spc :: nat
  fg_bps :: nat
  fg_clusters :: nat
  fg_max_nodes :: nat

text \<open>The mutable arguments of \<open>_fat_chain\<close> and \<open>_fat_directory\<close>.\<close>

record fat_scan =
  fv_used :: "nat \<Rightarrow> pystr option"
  fv_reachable :: "nat set"
  fv_findings :: "string list"
  fv_dirs :: "nat set"

definition flag :: "string \<Rightarrow> fat_scan \<Rightarrow> fat_scan" where
  "flag f st = st\<lparr>fv_findings := fv_findings st @ [f]\<rparr>"

definition eof_mark :: "fat_variant \<Rightarrow> nat" where
  "eof_mark v = (case v of FAT12 \<Rightarrow> 0xFF8 | FAT16 \<Rightarrow> 0xFFF8 | FAT32 \<Rightarrow> 0x0FFFFFF8)"

definition own_cluster :: "pystr \<Rightarrow> nat \<Rightarrow> fat_scan \<Rightarrow> fat_scan" where
  "own_cluster owner current st =
     st\<lparr>fv_reachable := insert current (fv_reachable st), fv_used := (fv_used st)(current \<mapsto> owner)\<rparr>"

definition cluster_slice :: "fat_geometry \<Rightarrow> nat \<Rightarrow> bytes" where
  "cluster_slice g current =
     (let offset = (fg_first_data g + (current - 2) * fg_spc g) * fg_bps g
      in pyslice (fg_data g) offset (offset + fg_spc g * fg_bps g))"

text \<open>The loop \<open>while current >= 2\<close>: it goes on only while the clusters seen keep the node limit.\<close>

function fat_follow :: "fat_geometry \<Rightarrow> pystr \<Rightarrow> nat \<Rightarrow> nat list \<Rightarrow> bytes \<Rightarrow> fat_scan \<Rightarrow> bytes \<times> fat_scan" where
  "fat_follow g owner current seen out st =
     (if current < 2 then (out, st)
      else if current \<in> set seen then (out, flag ''FAT_CLUSTER_CHAIN_LOOP'' st)
      else if current \<ge> fg_clusters g + 2 then (out, flag ''FAT_CLUSTER_OUT_OF_RANGE'' st)
      else if fv_used st current \<notin> {None, Some owner} then (out, flag ''FAT_CROSSLINK_DETECTED'' st)
      else
        let seen' = current # seen; st' = own_cluster owner current st; out' = out @ cluster_slice g current;
            v = fat_value (fg_fat g) current (fg_variant g)
        in if v \<ge> eof_mark (fg_variant g) then (out', st')
           else if v < 2 \<or> v \<ge> fg_clusters g + 2 then (out', flag ''FAT_CLUSTER_REFERENCE_INVALID'' st')
           else if length seen' > fg_max_nodes g then (out', flag ''FAT_CHAIN_LIMIT'' st')
           else fat_follow g owner v seen' out' st')"
  by pat_completeness auto
termination by (relation "measure (\<lambda>(g, _, _, seen, _). fg_max_nodes g + 1 - length seen)") auto

declare fat_follow.simps [simp del]

definition fat_chain :: "fat_geometry \<Rightarrow> nat \<Rightarrow> pystr \<Rightarrow> nat option \<Rightarrow> fat_scan \<Rightarrow> bytes \<times> fat_scan" where
  "fat_chain g start owner wanted st =
     (case fat_follow g owner start [] [] st of (out, st') \<Rightarrow>
        (case wanted of
           None \<Rightarrow> (out, st')
         | Some w \<Rightarrow> (take w out, if length out < w then flag ''FAT_FILE_CHAIN_TRUNCATED'' st' else st')))"

text \<open>One row of a directory; \<open>scan\<close> is the call for a subdirectory, \<open>None\<close> ends the directory.\<close>

definition row_name :: "bytes \<Rightarrow> pystr" where
  "row_name row = strip_space (ascii_replace (take 11 row))"

definition row_start :: "bytes \<Rightarrow> nat" where
  "row_start row = st_le16 row 26 OR push_bit 16 (st_le16 row 20)"

definition tree_row :: "fat_geometry \<Rightarrow> (bytes \<Rightarrow> pystr \<Rightarrow> fat_scan \<Rightarrow> fat_scan res) \<Rightarrow> pystr \<Rightarrow> bytes \<Rightarrow> fat_scan \<Rightarrow> fat_scan option res" where
  "tree_row g scan prefix row st =
     bindE (byte_at row 0) (\<lambda>first.
     if first = 0 then Inr None
     else if first = 0xE5 then Inr (Some st)
     else bindE (byte_at row 11) (\<lambda>attributes.
       let start = row_start row; owner = prefix @ asc ''/'' @ row_name row
       in if attributes = 0x0F \<or> bit attributes 3 then Inr (Some st)
          else if row_name row \<in> {asc ''.'', asc ''..''} then Inr (Some st)
          else if bit attributes 4 then
            if start \<in> fv_dirs st then Inr (Some (flag ''FAT_DIRECTORY_LOOP'' st))
            else (case fat_chain g start owner None (st\<lparr>fv_dirs := insert start (fv_dirs st)\<rparr>) of (child, st') \<Rightarrow>
                    bindE (scan child owner st') (\<lambda>st''. Inr (Some st'')))
          else Inr (Some (snd (fat_chain g start owner (Some (st_le32 row 28)) st)))))"

fun tree_rows :: "fat_geometry \<Rightarrow> (bytes \<Rightarrow> pystr \<Rightarrow> fat_scan \<Rightarrow> fat_scan res) \<Rightarrow> pystr \<Rightarrow> bytes list \<Rightarrow> fat_scan \<Rightarrow> fat_scan res" where
  "tree_rows g scan prefix [] st = Inr st"
| "tree_rows g scan prefix (row # rows) st =
     bindE (tree_row g scan prefix row st) (\<lambda>more.
     case more of None \<Rightarrow> Inr st | Some st' \<Rightarrow> tree_rows g scan prefix rows st')"

definition directory_rows :: "nat \<Rightarrow> bytes \<Rightarrow> bytes list" where
  "directory_rows max_nodes directory =
     map (\<lambda>i. pyslice directory (32 * i) (32 * i + 32)) [0..<min (length directory) (max_nodes * 32) div 32]"

fun fat_directory :: "nat \<Rightarrow> fat_geometry \<Rightarrow> bytes \<Rightarrow> pystr \<Rightarrow> fat_scan \<Rightarrow> fat_scan res" where
  "fat_directory 0 g directory prefix st = Inl RecursionError"
| "fat_directory (Suc depth) g directory prefix st =
     tree_rows g (fat_directory depth g) prefix (directory_rows (fg_max_nodes g) directory) st"

record fat_bpb =
  fb_bps :: nat
  fb_spc :: nat
  fb_reserved :: nat
  fb_copies :: nat
  fb_roots :: nat
  fb_total :: nat
  fb_fat_size :: nat

definition fat_bpb_of :: "bytes \<Rightarrow> fat_bpb res" where
  "fat_bpb_of data =
     bindE (byte_at data 13) (\<lambda>spc. bindE (byte_at data 16) (\<lambda>copies. Inr
       \<lparr>fb_bps = st_le16 data 11, fb_spc = spc, fb_reserved = st_le16 data 14, fb_copies = copies, fb_roots = st_le16 data 17,
        fb_total = (if st_le16 data 19 \<noteq> 0 then st_le16 data 19 else st_le32 data 32),
        fb_fat_size = (if st_le16 data 22 \<noteq> 0 then st_le16 data 22 else st_le32 data 36)\<rparr>))"

definition bpb_root_sectors :: "fat_bpb \<Rightarrow> nat" where
  "bpb_root_sectors b = (if fb_bps b \<noteq> 0 then (fb_roots b * 32 + fb_bps b - 1) div fb_bps b else 0)"

definition bpb_first_data :: "fat_bpb \<Rightarrow> nat" where
  "bpb_first_data b = fb_reserved b + fb_copies b * fb_fat_size b + bpb_root_sectors b"

definition bpb_clusters :: "fat_bpb \<Rightarrow> nat" where
  "bpb_clusters b =
     (if fb_spc b \<noteq> 0 \<and> fb_total b \<ge> bpb_first_data b then (fb_total b - bpb_first_data b) div fb_spc b else 0)"

definition bpb_variant :: "fat_bpb \<Rightarrow> fat_variant" where
  "bpb_variant b = (if bpb_clusters b < 4085 then FAT12 else if bpb_clusters b < 65525 then FAT16 else FAT32)"

definition bpb_valid :: "bytes \<Rightarrow> fat_bpb \<Rightarrow> bool" where
  "bpb_valid data b \<longleftrightarrow> fb_bps b \<in> {512, 1024, 2048, 4096} \<and> fb_spc b > 0 \<and> fb_spc b AND (fb_spc b - 1) = 0
     \<and> fb_reserved b > 0 \<and> fb_copies b \<in> {1, 2} \<and> fb_total b > bpb_first_data b
     \<and> fb_total b * fb_bps b \<le> length data \<and> fb_fat_size b > 0"

definition fat_copy :: "bytes \<Rightarrow> fat_bpb \<Rightarrow> nat \<Rightarrow> bytes" where
  "fat_copy data b i =
     pyslice data ((fb_reserved b + i * fb_fat_size b) * fb_bps b) ((fb_reserved b + (i + 1) * fb_fat_size b) * fb_bps b)"

definition geometry_of :: "nat \<Rightarrow> bytes \<Rightarrow> fat_bpb \<Rightarrow> fat_geometry" where
  "geometry_of max_nodes data b =
     \<lparr>fg_data = data, fg_fat = fat_copy data b 0, fg_variant = bpb_variant b, fg_first_data = bpb_first_data b,
      fg_spc = fb_spc b, fg_bps = fb_bps b, fg_clusters = bpb_clusters b, fg_max_nodes = max_nodes\<rparr>"

definition allocated_clusters :: "fat_geometry \<Rightarrow> nat list" where
  "allocated_clusters g = filter (\<lambda>c. fat_value (fg_fat g) c (fg_variant g) \<noteq> 0) [2..<fg_clusters g + 2]"

text \<open>The directory tree: the root's bytes are a chain on FAT32 and a fixed area otherwise.\<close>

definition fat_tree :: "nat \<Rightarrow> fat_geometry \<Rightarrow> fat_bpb \<Rightarrow> fat_scan \<Rightarrow> fat_scan res" where
  "fat_tree depth g b st =
     (let root_start = (fb_reserved b + fb_copies b * fb_fat_size b) * fb_bps b in
      case (if fg_variant g = FAT32 then fat_chain g (st_le32 (fg_data g) 44) (asc ''<root>'') None st
            else (pyslice (fg_data g) root_start (root_start + bpb_root_sectors b * fb_bps b), st)) of
        (rblock, st') \<Rightarrow> fat_directory depth g rblock [] st')"

definition orphans :: "fat_geometry \<Rightarrow> fat_scan \<Rightarrow> nat list" where
  "orphans g st =
     filter (\<lambda>c. c \<notin> fv_reachable st \<and> \<not> (fg_variant g = FAT32 \<and> c = 2)) (allocated_clusters g)"

definition fat_validate :: "validation_context \<Rightarrow> nat \<Rightarrow> nat \<Rightarrow> bytes \<Rightarrow> structural_validation res" where
  "fat_validate c depth max_nodes data =
     bindE (fat_bpb_of data) (\<lambda>b.
     let variant = variant_name (bpb_variant b); valid = bpb_valid data b;
         obs1 = [(''FAT_BPB_VALID'', PBool valid), (''FAT_VARIANT'', PAsc variant)]
     in if \<not> valid
        then Inr (validation_result c ''FAT'' (Some variant)
               (if fb_total b * max (fb_bps b) 1 > length data then TRUNCATED else CORRUPT)
               obs1 [''FAT_BPB_INCONSISTENT''] ''COMPLETE'')
        else
          let g = geometry_of max_nodes data b;
              copies_valid = (fb_copies b < 2 \<or> fat_copy data b 0 = fat_copy data b 1);
              findings1 = (if copies_valid then [] else [''FAT_COPIES_MISMATCH''])
          in bindE (fat_tree depth g b \<lparr>fv_used = (\<lambda>_. None), fv_reachable = {}, fv_findings = findings1, fv_dirs = {}\<rparr>) (\<lambda>st.
             let lost = orphans g st;
                 chain_valid = (\<not> list_ex (\<lambda>f. substring ''CHAIN'' f \<or> substring ''CLUSTER'' f) (fv_findings st));
                 findings = fv_findings st @ (if lost \<noteq> [] then [''FAT_ORPHAN_CLUSTERS_PRESENT''] else [])
             in Inr (validation_result c ''FAT'' (Some variant) (if findings = [] then VALID else DAMAGED)
                  (obs1 @ [(''FAT_COPIES_CONSISTENT'', PBool copies_valid), (''FAT_CHAIN_VALID'', PBool chain_valid),
                     (''FAT_ORPHAN_CLUSTERS'', PNat (length lost))]) findings ''COMPLETE'')))"

subsection \<open>RDB tables\<close>

definition rdb_validate :: "validation_context \<Rightarrow> bytes \<Rightarrow> structural_validation res" where
  "rdb_validate c data =
     bindE (case parse_partition_table data 256 of
          Inr None \<Rightarrow> Inr ([], [''RDB_IDENTIFIER_INVALID''])
        | Inr (Some t) \<Rightarrow> Inr ([(''RDB_CHECKSUM_VALID'', PBool True)], map rdb_finding (table_errors t))
        | Inl (PartitionTableError m) \<Rightarrow>
            Inr ([(''RDB_CHECKSUM_VALID'', PBool False)],
              [if substring ''checksum'' (lower m) then ''RDB_CHECKSUM_MISMATCH'' else ''RDB_STRUCTURE_INVALID''])
        | Inl e \<Rightarrow> Inl e) (\<lambda>(obs, findings).
     Inr (validation_result c ''RDB/HDF'' (Some ''RDB'') (if findings = [] then VALID else DAMAGED)
       ([(''RDB_FILESYSTEM_CODE_EXECUTION'', PBool False), (''RDB_EMBEDDED_FILESYSTEM_CODE'', PAsc ''DATA_ONLY'')] @ obs)
       findings ''COMPLETE''))"

subsection \<open>ISO 9660\<close>

text \<open>The volume descriptors: their number, the primary one, the terminator, a finding.\<close>

fun iso_descriptors :: "bytes \<Rightarrow> nat list \<Rightarrow> nat \<Rightarrow> bytes option \<Rightarrow> (nat \<times> bytes option \<times> bool \<times> string list) res" where
  "iso_descriptors data [] n pvd = Inr (n, pvd, False, [])"
| "iso_descriptors data (sector # rest) n pvd =
     (let block = pyslice data (sector * 2048) (sector * 2048 + 2048) in
      if length block \<noteq> 2048 then Inr (n, pvd, False, [''ISO_TRUNCATED_DESCRIPTOR''])
      else
        bindE (if pyslice block 1 6 \<noteq> ascb ''CD001'' then Inr True else bindE (byte_at block 6) (\<lambda>version. Inr (version \<noteq> 1)))
          (\<lambda>invalid.
        if invalid then Inr (n, pvd, False, [''ISO_VOLUME_DESCRIPTOR_INVALID''])
        else bindE (byte_at block 0) (\<lambda>ty.
          let pvd' = (if ty = 1 then Some block else pvd) in
          if ty = 255 then Inr (n + 1, pvd', True, []) else iso_descriptors data rest (n + 1) pvd')))"

text \<open>The records of one directory. The stack of directories to visit has its top first.\<close>

function iso_rows :: "bytes \<Rightarrow> nat \<Rightarrow> nat \<Rightarrow> nat \<Rightarrow> nat \<Rightarrow> bytes list \<Rightarrow> string list \<Rightarrow> (nat \<times> bytes list \<times> string list) res" where
  "iso_rows directory bs image_size pos nodes pending findings =
     (if \<not> pos < length directory then Inr (nodes, pending, findings)
      else
        bindE (byte_at directory pos) (\<lambda>row_len.
        if row_len = 0 then
          if bs = 0 then Inl ZeroDivisionError
          else iso_rows directory bs image_size ((pos div bs + 1) * bs) (nodes + 1) pending findings
        else if row_len < 34 \<or> pos + row_len > length directory
        then Inr (nodes + 1, pending, findings @ [''ISO_DIRECTORY_RECORD_MALFORMED''])
        else
          let row = pyslice directory pos (pos + row_len); child_extent = st_le32 row 2; child_length = st_le32 row 10
          in bindE (byte_at row 32) (\<lambda>name_len.
             if 33 + name_len > row_len
             then Inr (nodes + 1, pending, findings @ [''ISO_DIRECTORY_RECORD_MALFORMED''])
             else bindE (byte_at row 25) (\<lambda>flags.
               iso_rows directory bs image_size (pos + row_len) (nodes + 1)
                 (if bit flags 1 \<and> pyslice row 33 (33 + name_len) \<notin> {[0], [1]} then row # pending else pending)
                 (if child_extent * bs > image_size \<or> child_length > image_size - child_extent * bs
                  then findings @ [''ISO_FILE_EXTENT_OUT_OF_RANGE''] else findings)))))"
  by pat_completeness auto
termination
proof (relation "measure (\<lambda>(directory, _, _, pos, _). length directory - pos)", goal_cases)
  case (2 directory bs image_size pos nodes pending findings row_len)
  then have "pos < (pos div bs + 1) * bs"
    using dividend_less_div_times [of bs pos] by (simp add: mult.commute)
  with 2 show ?case by simp
qed auto

declare iso_rows.simps [simp del]

lemma iso_rows_progress:
  "iso_rows directory bs image_size pos nodes pending findings = Inr (n, p, f) \<Longrightarrow>
     nodes \<le> n \<and> (n = nodes \<longrightarrow> p = pending)"
proof (induction directory bs image_size pos nodes pending findings arbitrary: n p f rule: iso_rows.induct)
  case (1 directory bs image_size pos nodes pending findings)
  from "1.prems" [unfolded iso_rows.simps [of directory bs image_size pos]] "1.IH" show ?case
    by (fastforce simp: Let_def split: if_splits)
qed

function iso_walk :: "bytes \<Rightarrow> nat \<Rightarrow> nat \<Rightarrow> bytes list \<Rightarrow> (nat \<times> nat) list \<Rightarrow> nat \<Rightarrow> string list \<Rightarrow> string list res" where
  "iso_walk data bs max_nodes pending seen nodes findings =
     (if pending = [] \<or> \<not> nodes < max_nodes
      then Inr (if pending \<noteq> [] \<or> nodes \<ge> max_nodes then findings @ [''ISO_DIRECTORY_NODE_LIMIT''] else findings)
      else
        let record = hd pending; rest = tl pending; extent = st_le32 record 2; len = st_le32 record 10;
            offset = extent * bs; seen' = (extent, len) # seen
        in if (extent, len) \<in> set seen then iso_walk data bs max_nodes rest seen nodes findings
           else if offset > length data \<or> len > length data - offset
           then iso_walk data bs max_nodes rest seen' nodes (findings @ [''ISO_DIRECTORY_EXTENT_OUT_OF_RANGE''])
           else bindE (iso_rows (pyslice data offset (offset + len)) bs (length data) 0 nodes rest findings) (\<lambda>(n, p, f).
             iso_walk data bs max_nodes p seen' n f))"
  by pat_completeness auto
termination
proof (relation "inv_image (less_than <*lex*> less_than) (\<lambda>(_, _, max_nodes, pending, _, nodes, _). (max_nodes - nodes, length pending))",
    goal_cases)
  case (4 data bs max_nodes pending seen nodes findings rc rest extent len offset seen' out n pf p f)
  then have "nodes \<le> n \<and> (n = nodes \<longrightarrow> p = tl pending)"
    using iso_rows_progress by blast
  with 4 show ?case by (cases pending) auto
qed (auto intro: diff_less)

declare iso_walk.simps [simp del]

definition iso_validate :: "validation_context \<Rightarrow> nat \<Rightarrow> bytes \<Rightarrow> structural_validation res" where
  "iso_validate c max_nodes data =
     bindE (iso_descriptors data [16..<min (length data div 2048) 144] 0 None) (\<lambda>(descriptors, pvd, terminator, findings0).
      let obs1 = [(''ISO_PVD_VALID'', PBool (pvd \<noteq> None)), (''ISO_DESCRIPTOR_TERMINATOR_PRESENT'', PBool terminator),
             (''ISO_DESCRIPTOR_COUNT'', PNat descriptors)];
          findings1 = findings0 @ (if pvd = None then [''ISO_PRIMARY_VOLUME_DESCRIPTOR_MISSING''] else [])
             @ (if terminator then [] else [''ISO_DESCRIPTOR_TERMINATOR_MISSING''])
      in bindE (case pvd of
           None \<Rightarrow> Inr (obs1, findings1)
         | Some block \<Rightarrow>
             let bs = st_le16 block 128;
                 findings2 = findings1 @ (if bs \<noteq> 2048 then [''ISO_LOGICAL_BLOCK_SIZE_INVALID''] else [])
                   @ (if st_le32 block 80 * max bs 1 > length data then [''ISO_VOLUME_SPACE_OUT_OF_RANGE''] else [])
             in bindE (iso_walk data bs max_nodes [pyslice block 156 190] [] 0 findings2) (\<lambda>findings.
                Inr (obs1 @ [(''ISO_LOGICAL_BLOCK_SIZE'', PNat bs)], findings))) (\<lambda>(obs, findings).
         Inr (validation_result c ''ISO9660'' (Some ''base'')
           (if list_ex (substring ''TRUNCATED'') findings then TRUNCATED else if findings = [] then VALID else DAMAGED)
           obs findings ''COMPLETE'')))"

subsection \<open>LHA\<close>

text \<open>What one round of the member loop finds: the loop ends, or goes on behind the member.\<close>

datatype lha_step =
    Lha_Stop "(string \<times> pyval) list" "string list"
  | Lha_Next "(string \<times> pyval) list" "string list" nat

definition lha_member :: "bytes \<Rightarrow> nat \<Rightarrow> nat \<Rightarrow> lha_step res" where
  "lha_member data pos members =
     (if pos + 22 > length data then Inr (Lha_Stop [] [''LHA_ARCHIVE_TRUNCATED''])
      else
        bindE (byte_at data pos) (\<lambda>header_size.
        let end_at = pos + header_size + 2 in
        if header_size < 22 \<or> end_at > length data then Inr (Lha_Stop [] [''LHA_HEADER_MALFORMED''])
        else
          let header = pyslice data pos end_at; method_name = ascii_replace (pyslice header 2 7);
              obs = [(''LHA_MEMBER_'' @ show_nat members @ ''_METHOD'', PStr method_name)]
          in if method_name \<noteq> asc ''-lh0-'' then Inr (Lha_Stop obs [''LHA_METHOD_UNSUPPORTED''])
             else
               bindE (byte_at header 1) (\<lambda>header_sum.
               bindE (byte_at header 21) (\<lambda>name_len.
               let checksum = (if sum_list (map unat (pyslice header 2 (2 + header_size))) AND 0xFF \<noteq> header_sum
                     then [''LHA_HEADER_CHECKSUM_MISMATCH''] else []);
                   packed = st_le32 header 7; crc_pos = 22 + name_len; payload_end = end_at + packed
               in Inr (if crc_pos + 2 > length header then Lha_Stop obs (checksum @ [''LHA_HEADER_MALFORMED''])
                  else if payload_end > length data then Lha_Stop obs (checksum @ [''LHA_ARCHIVE_TRUNCATED''])
                  else Lha_Next obs (checksum
                      @ (if crc16 (pyslice data end_at payload_end) \<noteq> st_le16 header crc_pos then [''LHA_MEMBER_CRC_MISMATCH''] else []))
                      payload_end)))))"

lemma lha_member_forward: "lha_member data pos members = Inr (Lha_Next obs f next_at) \<Longrightarrow> pos < next_at \<and> next_at \<le> length data"
  by (auto simp: lha_member_def Let_def split: if_splits)

function lha_members :: "bytes \<Rightarrow> nat \<Rightarrow> nat \<Rightarrow> nat \<Rightarrow> (nat \<times> (string \<times> pyval) list \<times> string list) res" where
  "lha_members data max_nodes pos members =
     (if \<not> pos < length data then Inr (members, [], [])
      else bindE (byte_at data pos) (\<lambda>first.
        if \<not> (first \<noteq> 0 \<and> members < max_nodes) then Inr (members, [], [])
        else bindE (lha_member data pos members) (\<lambda>step.
          case step of
            Lha_Stop obs findings \<Rightarrow> Inr (members, obs, findings)
          | Lha_Next obs findings next_at \<Rightarrow>
              bindE (lha_members data max_nodes next_at (members + 1)) (\<lambda>(n, obs', findings').
                Inr (n, obs @ obs', findings @ findings')))))"
  by pat_completeness auto
termination
  by (relation "measure (\<lambda>(data, _, pos, _). length data - pos)") (auto dest: lha_member_forward)

declare lha_members.simps [simp del]

definition lha_validate :: "validation_context \<Rightarrow> nat \<Rightarrow> bytes \<Rightarrow> structural_validation res" where
  "lha_validate c max_nodes data =
     bindE (lha_members data max_nodes 0 0) (\<lambda>(members, obs, findings). Inr
       (validation_result c ''LHA'' (Some ''-lh0-'')
          (if ''LHA_ARCHIVE_TRUNCATED'' \<in> set findings then TRUNCATED else if findings = [] then VALID else DAMAGED)
          (obs @ [(''LHA_MEMBER_COUNT'', PNat members)]) findings ''COMPLETE''))"

subsection \<open>Dispatch and the analyzer\<close>

record validator =
  va_max_bytes :: nat
  va_max_nodes :: nat
  va_depth :: nat

definition structural_validate :: "validator \<Rightarrow> validation_context \<Rightarrow> bytes \<Rightarrow> structural_validation option res" where
  "structural_validate va c data =
     (let head_bytes = take 65536 data; big = (length data > va_max_bytes va) in
      if take 3 head_bytes = ascb ''DOS'' then
        if big then Inr (Some (over_limit c ''ADF'' None))
        else map_sum id Some (adf_validate c (va_depth va) (va_max_nodes va) data)
      else
        bindE (if length head_bytes \<ge> 512 \<and> pyslice head_bytes 510 512 = [0x55, 0xAA] then fat_bpb_plausible head_bytes
               else Inr False) (\<lambda>fat.
      if fat then
        if big then Inr (Some (over_limit c ''FAT'' None))
        else map_sum id Some (fat_validate c (va_depth va) (va_max_nodes va) data)
      else if list_ex (\<lambda>i. pyslice head_bytes (i * 512) (i * 512 + 4) = ascb ''RDSK'') [0..<min 16 (length head_bytes div 512)]
      then map_sum id Some (rdb_validate c data)
      else if length head_bytes \<ge> 0x8006 \<and> pyslice head_bytes 0x8001 0x8006 = ascb ''CD001''
      then map_sum id Some (iso_validate c (va_max_nodes va) data)
      else if length head_bytes \<ge> 22 \<and> pyslice head_bytes 2 7 = ascb ''-lh0-'' then
        if big then Inr (Some (over_limit c ''LHA'' (Some ''-lh0-'')))
        else map_sum id Some (lha_validate c (va_max_nodes va) data)
      else Inr None))"

definition qualified_format :: "structural_validation \<Rightarrow> bool" where
  "qualified_format v \<longleftrightarrow> sv_format v \<in> {''ADF'', ''FAT'', ''RDB/HDF'', ''ISO9660'', ''LHA''}
     \<and> sv_variant v \<notin> {Some ''OFS_INTL'', Some ''FFS_INTL'', Some ''OFS_DIRCACHE'', Some ''FFS_DIRCACHE''}"

definition structural_result :: "timestamp \<Rightarrow> timestamp \<Rightarrow> duration \<Rightarrow> structural_validation option \<Rightarrow> analyzer_result" where
  "structural_result started completed elapsed v =
     \<lparr>ar_analyzer_id = validator_id, ar_analyzer_class = STRUCTURAL_VALIDATOR,
      ar_product = ''AVBox Retro Media Structural Validator'',
      ar_implementation = Some ''avbox.analyzers.structural.StructuralValidator'',
      ar_product_version = Some (asc validator_version), ar_engine_version = None, ar_definition_state = [],
      ar_qualification_state = Some (case v of None \<Rightarrow> PROBED | Some x \<Rightarrow> if qualified_format x then QUALIFIED else PROBED),
      ar_started_at = Some started, ar_completed_at = completed, ar_duration_seconds = Some elapsed,
      ar_execution_profile = ''built-in-userspace-read-only-bounded'',
      ar_native_status = (case v of None \<Rightarrow> ''unsupported'' | Some x \<Rightarrow> lower (structural_state_value (sv_state x))),
      ar_native_exit_code = None, ar_normalized_verdict = None,
      ar_observations = (case v of None \<Rightarrow> [] | Some x \<Rightarrow> sv_observations x),
      ar_findings = (case v of None \<Rightarrow> [] | Some x \<Rightarrow> sv_findings x),
      ar_assessments = (case v of None \<Rightarrow> [] | Some x \<Rightarrow> sv_assessments x),
      ar_raw_output = None, ar_errors = [], ar_structural_validation = v\<rparr>"

definition structural_analyze ::
  "validator \<Rightarrow> timestamp \<Rightarrow> timestamp \<Rightarrow> timestamp \<Rightarrow> duration \<Rightarrow> duration \<Rightarrow> input_artifact \<Rightarrow> path \<Rightarrow> string
   \<Rightarrow> (fs, analyzer_result) py" where
  "structural_analyze va started now completed validated elapsed artifact source job_id =
     bindP (read_file source) (\<lambda>data.
     bindP (liftP (structural_validate va \<lparr>vc_artifact = artifact, vc_now = now, vc_duration = validated\<rparr> data)) (\<lambda>v.
     ret (structural_result started completed elapsed v)))"

definition structural_probe :: probe_result where
  "structural_probe = \<lparr>pb_available = True, pb_detail = asc ''built-in read-only validators'', pb_state = PROBED,
     pb_version = Some (asc validator_version), pb_definition_state = []\<rparr>"

subsection \<open>Checksums\<close>

text \<open>One round of the boot checksum adds with end-around carry.\<close>

lemma boot_step_carry:
  assumes "t < 2 ^ 32" and "v < 2 ^ 32"
  shows "boot_step v t = (if t + v < 2 ^ 32 then t + v else t + v - (2 ^ 32 - 1))"
proof -
  have mask: "x AND 0xFFFFFFFF = x mod 2 ^ 32" for x :: nat
    using take_bit_eq_mod [of 32 x] by (simp add: take_bit_eq_mask mask_eq_exp_minus_1)
  show ?thesis
  proof (cases "t + v < 2 ^ 32")
    case True
    then show ?thesis by (simp add: boot_step_def mask)
  next
    case False
    then have "(t + v) mod 2 ^ 32 = t + v - 2 ^ 32" using assms by (simp add: mod_if)
    moreover have "t + v - 2 ^ 32 < t" and "t + v - 2 ^ 32 + 1 < 2 ^ 32" using False assms by linarith+
    ultimately show ?thesis using False by (simp add: boot_step_def mask Let_def)
  qed
qed

lemma boot_step_mod:
  assumes "t < 2 ^ 32" and "v < 2 ^ 32"
  shows "boot_step v t < 2 ^ 32 \<and> boot_step v t mod (2 ^ 32 - 1) = (t + v) mod (2 ^ 32 - 1)
     \<and> (boot_step v t = 0 \<longleftrightarrow> t + v = 0)"
proof (cases "t + v < 2 ^ 32")
  case True
  then show ?thesis using assms by (simp add: boot_step_carry)
next
  case False
  have "(t + v) mod (2 ^ 32 - 1) = (t + v - (2 ^ 32 - 1)) mod (2 ^ 32 - 1)"
    using False by (intro le_mod_geq) simp
  then show ?thesis using False assms by (simp add: boot_step_carry)
qed

lemma boot_fold:
  assumes "t < 2 ^ 32" and "list_all (\<lambda>v. v < 2 ^ 32) vs"
  shows "fold boot_step vs t < 2 ^ 32 \<and> fold boot_step vs t mod (2 ^ 32 - 1) = (t + sum_list vs) mod (2 ^ 32 - 1)
     \<and> (fold boot_step vs t = 0 \<longleftrightarrow> t + sum_list vs = 0)"
  using assms
proof (induction vs arbitrary: t)
  case (Cons v vs)
  then have v: "v < 2 ^ 32" by simp
  note step = boot_step_mod [OF Cons.prems(1) v]
  have ih: "fold boot_step vs (boot_step v t) < 2 ^ 32
     \<and> fold boot_step vs (boot_step v t) mod (2 ^ 32 - 1) = (boot_step v t + sum_list vs) mod (2 ^ 32 - 1)
     \<and> (fold boot_step vs (boot_step v t) = 0 \<longleftrightarrow> boot_step v t + sum_list vs = 0)"
    using step Cons.prems(2) by (intro Cons.IH) simp_all
  have "(boot_step v t + sum_list vs) mod (2 ^ 32 - 1) = (t + v + sum_list vs) mod (2 ^ 32 - 1)"
    using step by (metis mod_add_left_eq)
  with ih step show ?case by (simp add: add.assoc)
qed simp

lemma be_words_bound: "list_all (\<lambda>v. v < 2 ^ 32) (be_words n block off)"
  using be_at_bound [of 4 block] by (auto simp: be_words_def list_all_iff)

lemma boot_checksum_iff:
  "amiga_boot_checksum block \<longleftrightarrow>
     length block = 1024 \<and> sum_list (be_words 256 block 0) \<noteq> 0 \<and> (2 ^ 32 - 1) dvd sum_list (be_words 256 block 0)"
proof -
  let ?f = "fold boot_step (be_words 256 block 0) 0" and ?s = "sum_list (be_words 256 block 0)"
  have f: "?f < 2 ^ 32" "?f mod (2 ^ 32 - 1) = ?s mod (2 ^ 32 - 1)" "?f = 0 \<longleftrightarrow> ?s = 0"
    using boot_fold [of 0 "be_words 256 block 0"] be_words_bound [of 256 block 0] by simp_all
  have "?f = 2 ^ 32 - 1 \<longleftrightarrow> ?s \<noteq> 0 \<and> (2 ^ 32 - 1) dvd ?s"
  proof
    assume "?f = 2 ^ 32 - 1"
    with f show "?s \<noteq> 0 \<and> (2 ^ 32 - 1) dvd ?s" by (simp add: mod_0_imp_dvd)
  next
    assume s: "?s \<noteq> 0 \<and> (2 ^ 32 - 1) dvd ?s"
    then have "?f \<noteq> 0" "?f mod (2 ^ 32 - 1) = 0" using f(2,3) by (simp_all add: mod_eq_0_iff_dvd)
    with f(1) show "?f = 2 ^ 32 - 1"
      by (metis One_nat_def Suc_pred diff_less less_Suc_eq mod_less zero_less_numeral zero_less_power zero_neq_one less_numeral_extra(1))
  qed
  then show ?thesis by (simp add: amiga_boot_checksum_def)
qed

text \<open>CRC-16: a round is injective, so a changed byte is never missed.\<close>

lemma xor_bound: "x < 65536 \<Longrightarrow> y < 65536 \<Longrightarrow> x XOR y < (65536 :: nat)"
proof -
  assume "x < 65536" and "y < 65536"
  then have "take_bit 16 x = x" "take_bit 16 y = y" by (simp_all add: take_bit_nat_eq_self_iff)
  then have "take_bit 16 (x XOR y) = x XOR y" by (simp only: take_bit_xor)
  then have "x XOR y < 2 ^ 16" by (simp only: take_bit_nat_eq_self_iff)
  then show ?thesis by simp
qed

lemma crc16_bit_bound: "c < 65536 \<Longrightarrow> crc16_bit c < 65536"
  unfolding crc16_bit_def by (intro xor_bound) (simp_all add: drop_bit_eq_div)

lemma bit_top: "c < 65536 \<Longrightarrow> bit (crc16_bit c) 15 \<longleftrightarrow> odd c"
proof -
  assume c: "c < 65536"
  then have "\<not> bit c 16" by (simp add: bit_iff_odd)
  moreover have "bit (0xA001 :: nat) 15" by (simp add: bit_iff_odd)
  ultimately show ?thesis by (auto simp: crc16_bit_def bit_xor_iff bit_drop_bit_eq)
qed

lemma crc16_bit_inj: "c < 65536 \<Longrightarrow> d < 65536 \<Longrightarrow> crc16_bit c = crc16_bit d \<Longrightarrow> c = d"
proof -
  assume c: "c < 65536" and d: "d < 65536" and eq: "crc16_bit c = crc16_bit d"
  from bit_top [OF c] bit_top [OF d] eq have odd: "odd c = odd d" by simp
  let ?k = "(if odd c then 0xA001 else 0) :: nat"
  have "drop_bit 1 c = crc16_bit c XOR ?k" by (simp add: crc16_bit_def xor.assoc)
  also have "\<dots> = crc16_bit d XOR ?k" by (simp add: eq)
  also have "\<dots> = drop_bit 1 d" by (simp add: crc16_bit_def odd xor.assoc)
  finally have "c div 2 = d div 2" by (simp add: drop_bit_eq_div)
  with odd show "c = d" by presburger
qed

lemma crc16_bits: 
  "c < 65536 \<Longrightarrow> (crc16_bit ^^ n) c < 65536"
  "c < 65536 \<Longrightarrow> d < 65536 \<Longrightarrow> (crc16_bit ^^ n) c = (crc16_bit ^^ n) d \<longleftrightarrow> c = d"
proof -
  show bound: "(crc16_bit ^^ n) c < 65536" if "c < 65536" for c n
    using that by (induction n) (auto intro: crc16_bit_bound)
  show "(crc16_bit ^^ n) c = (crc16_bit ^^ n) d \<longleftrightarrow> c = d" if "c < 65536" "d < 65536"
    using that
  proof (induction n)
    case (Suc n)
    with bound [OF Suc.prems(1), of n] bound [OF Suc.prems(2), of n] show ?case
      by (auto dest: crc16_bit_inj)
  qed simp
qed

lemma byte_xor_bound: "c < 65536 \<Longrightarrow> c XOR unat (b :: byte) < 65536"
proof -
  have "unat b < 256" using unsigned_less [of b] by simp
  then show "c < 65536 \<Longrightarrow> c XOR unat b < 65536" by (intro xor_bound) simp_all
qed

lemma crc16_byte_bound: "c < 65536 \<Longrightarrow> crc16_byte b c < 65536"
  unfolding crc16_byte_def by (intro crc16_bits byte_xor_bound)

lemma xor_cancel: "(x :: nat) XOR z = y XOR z \<longleftrightarrow> x = y"
  by (metis xor.assoc xor.right_neutral xor_self_eq)

lemma crc16_byte_inj:
  "c < 65536 \<Longrightarrow> d < 65536 \<Longrightarrow> crc16_byte b c = crc16_byte b d \<longleftrightarrow> c = d"
  "c < 65536 \<Longrightarrow> crc16_byte a c = crc16_byte b c \<longleftrightarrow> a = b"
  unfolding crc16_byte_def
  by (simp_all only: crc16_bits(2) byte_xor_bound xor_cancel)
    (metis word_unat_eq_iff xor.commute xor_cancel)

lemma crc16_fold: "c < 65536 \<Longrightarrow> fold crc16_byte bs c < 65536"
  by (induction bs arbitrary: c) (simp_all add: crc16_byte_bound)

lemma crc16_fold_inj: "c < 65536 \<Longrightarrow> d < 65536 \<Longrightarrow> fold crc16_byte bs c = fold crc16_byte bs d \<longleftrightarrow> c = d"
  by (induction bs arbitrary: c d) (simp_all add: crc16_byte_bound crc16_byte_inj)

lemma crc16_byte_unrolled:
  "crc16_byte b c = crc16_bit (crc16_bit (crc16_bit (crc16_bit (crc16_bit (crc16_bit (crc16_bit (crc16_bit (c XOR unat b))))))))"
  by (simp add: crc16_byte_def numeral_eq_Suc)

text \<open>The check value of CRC-16/ARC, the variant LHA uses.\<close>

lemma crc16_check_value: "crc16 (ascb ''123456789'') = 0xBB3D"
  by (simp add: crc16_def crc16_byte_unrolled crc16_bit_def drop_bit_eq_div ascb_def)

lemma crc16_one_byte: "crc16 (xs @ a # ys) = crc16 (xs @ b # ys) \<longleftrightarrow> a = b"
proof -
  have "fold crc16_byte xs 0 < 65536" by (rule crc16_fold) simp
  then show ?thesis by (simp add: crc16_def crc16_fold_inj crc16_byte_bound crc16_byte_inj)
qed

subsection \<open>What a validation says\<close>

lemma unique_values_Nil [simp]: "unique_values xs = [] \<longleftrightarrow> xs = []"
  by (cases xs) simp_all

definition sound_validation :: "validation_context \<Rightarrow> structural_validation \<Rightarrow> bool" where
  "sound_validation c v \<longleftrightarrow>
     (if sv_findings v = [] then sv_state v \<in> {VALID, NON_STANDARD} else sv_state v \<noteq> VALID)
     \<and> (sv_state v = VALID \<longleftrightarrow> sv_assessments v = [])
     \<and> list_all (\<lambda>f. f_normalized_verdict f = None) (sv_findings v)
     \<and> sv_source_sha256 v = h_sha256 (a_hashes (vc_artifact c))"

lemma sound_result:
  "(if findings = [] then state \<in> {VALID, NON_STANDARD} else state \<noteq> VALID) \<Longrightarrow> sound_validation c (validation_result c fmt variant state obs findings cs)"
  by (auto simp: sound_validation_def validation_result_def Let_def list_all_iff split: if_splits)

lemma adf_sound: "ensures (sound_validation c) (adf_validate c depth max_nodes data)"
  unfolding adf_validate_def Let_def
  by (intro ensures_bindE ensures_if) (auto intro!: sound_result split: if_splits)

lemma fat_sound: "ensures (sound_validation c) (fat_validate c depth max_nodes data)"
  unfolding fat_validate_def Let_def
  by (intro ensures_if ensures_bindE) (auto intro!: sound_result)

lemma rdb_sound: "ensures (sound_validation c) (rdb_validate c data)"
  unfolding rdb_validate_def by (intro ensures_bindE) (auto intro!: sound_result split: prod.split)

lemma iso_sound: "ensures (sound_validation c) (iso_validate c max_nodes data)"
  unfolding iso_validate_def Let_def
  by (intro ensures_bindE, simp only: split_paired_all prod.case, intro ensures_bindE,
    simp only: split_paired_all prod.case, simp add: sound_result)

lemma lha_sound: "ensures (sound_validation c) (lha_validate c max_nodes data)"
  unfolding lha_validate_def
  by (intro ensures_bindE, simp only: split_paired_all prod.case) (auto intro!: sound_result)

lemma ensures_map_Some [simp]:
  "ensures (\<lambda>r. case r of None \<Rightarrow> True | Some v \<Rightarrow> Q v) (map_sum id Some m) = ensures Q m"
  by (cases m) simp_all

lemma structural_sound:
  "ensures (\<lambda>r. case r of None \<Rightarrow> True | Some v \<Rightarrow> sound_validation c v) (structural_validate va c data)"
  unfolding structural_validate_def Let_def
  by (intro ensures_if ensures_bindE)
    (simp_all add: adf_sound fat_sound rdb_sound iso_sound lha_sound over_limit_def sound_result)

subsection \<open>The walk over an Amiga disk ends\<close>

definition walk_error :: "py_exn \<Rightarrow> bool" where
  "walk_error e \<longleftrightarrow> (\<exists>m. e = DiskImageError m) \<or> e = RecursionError"

lemma scan_block_raises: "raises_only walk_error (scan_block data key)"
  by (simp add: scan_block_def walk_error_def)

lemma scan_pointers_raises: "raises_only walk_error (scan_pointers data ofs key wanted ps own n seen)"
  by (induction ps arbitrary: own n seen)
    (auto simp: Let_def walk_error_def intro!: raises_only_bindE scan_block_raises)

lemma scan_adf_file_raises: "raises_only walk_error (scan_adf_file data ofs key header st)"
  unfolding scan_adf_file_def
  by (intro raises_only_bindE scan_pointers_raises) (auto simp: walk_error_def)

lemma scan_adf_file_nodes: "scan_adf_file data ofs key header st = Inr st' \<Longrightarrow> as_nodes st' = as_nodes st"
  by (auto simp: scan_adf_file_def split: if_splits)

text \<open>A call keeps the count of nodes between what it was and the limit, and raises only walk errors.\<close>

definition walk_ok :: "nat \<Rightarrow> adf_scan \<Rightarrow> adf_scan res \<Rightarrow> bool" where
  "walk_ok max_nodes st out \<longleftrightarrow>
     raises_only walk_error out \<and> ensures (\<lambda>st'. as_nodes st \<le> as_nodes st' \<and> as_nodes st' \<le> max_nodes) out"

lemma walk_ok_bind:
  assumes "walk_ok n st m" and "\<And>st'. as_nodes st \<le> as_nodes st' \<Longrightarrow> as_nodes st' \<le> n \<Longrightarrow> walk_ok n st' (f st')"
  shows "walk_ok n st (bindE m f)"
proof (cases m)
  case (Inl e)
  with assms(1) show ?thesis by (simp add: walk_ok_def)
next
  case (Inr st')
  with assms(1) have "as_nodes st \<le> as_nodes st'" "as_nodes st' \<le> n" by (simp_all add: walk_ok_def)
  with assms(2) [OF this] Inr show ?thesis by (cases "f st'") (auto simp: walk_ok_def)
qed

lemma walk_ok_from: "walk_ok n st' out \<Longrightarrow> as_nodes st \<le> as_nodes st' \<Longrightarrow> walk_ok n st out"
  by (cases out) (auto simp: walk_ok_def)

lemma walk_ok_block: "(\<And>b. walk_ok n st (f b)) \<Longrightarrow> walk_ok n st (bindE (scan_block data key) f)"
  using scan_block_raises [of data key] by (cases "scan_block data key") (auto simp: walk_ok_def)

lemma walk_ok_if: "(b \<Longrightarrow> walk_ok n st x) \<Longrightarrow> (\<not> b \<Longrightarrow> walk_ok n st y) \<Longrightarrow> walk_ok n st (if b then x else y)"
  and walk_ok_Inl: "walk_error e \<Longrightarrow> walk_ok n st (Inl e)"
  and walk_ok_Inr: "as_nodes st \<le> n \<Longrightarrow> walk_ok n st (Inr st)"
  by (simp_all add: walk_ok_def)

lemma scan_adf_file_ok: "as_nodes st \<le> n \<Longrightarrow> walk_ok n st (scan_adf_file data ofs key header st)"
  using scan_adf_file_raises [of data ofs key header st] scan_adf_file_nodes [of data ofs key header st]
  by (cases "scan_adf_file data ofs key header st") (simp_all add: walk_ok_def)

lemma scan_hash_chain_ok:
  assumes walk: "\<And>h st. as_nodes st \<le> n \<Longrightarrow> walk_ok n st (walk h st)"
  shows "as_nodes st \<le> n \<Longrightarrow> n < fuel + as_nodes st \<Longrightarrow> walk_ok n st (scan_hash_chain walk n data ofs fuel chained key st)"
proof (induction fuel arbitrary: chained key st)
  case 0
  then show ?case by simp
next
  case (Suc fuel)
  let ?st1 = "st\<lparr>as_nodes := as_nodes st + 1\<rparr>"
  let ?st2 = "?st1\<lparr>as_seen := insert key (as_seen ?st1)\<rparr>"
  have step: "walk_ok n st
     (bindE (scan_block data key) (\<lambda>header.
            if st_be32 header 0 \<noteq> 2 \<or> \<not> block_checksum header then Inl (DiskImageError ''invalid ADF entry header'')
            else
              bindE
                (if sbe32 header 508 = 2 then walk header ?st2
                 else if sbe32 header 508 = -3 then scan_adf_file data ofs key header ?st2
                 else Inr ?st2) (\<lambda>st3.
              scan_hash_chain walk n data ofs fuel (insert key chained) (st_be32 header 496) st3)))"
    if le: "\<not> n < as_nodes ?st1"
  proof (rule walk_ok_block)
    fix header
    have "walk_ok n ?st2 (if sbe32 header 508 = 2 then walk header ?st2
                 else if sbe32 header 508 = -3 then scan_adf_file data ofs key header ?st2 else Inr ?st2)"
      using walk [of ?st2 header] scan_adf_file_ok [of ?st2 n data ofs key header] le by (simp add: walk_ok_def)
    then have "walk_ok n ?st2 (bindE
                (if sbe32 header 508 = 2 then walk header ?st2
                 else if sbe32 header 508 = -3 then scan_adf_file data ofs key header ?st2
                 else Inr ?st2) (\<lambda>st3.
              scan_hash_chain walk n data ofs fuel (insert key chained) (st_be32 header 496) st3))"
      using Suc.prems by (intro walk_ok_bind Suc.IH) simp_all
    then have "walk_ok n st (bindE
                (if sbe32 header 508 = 2 then walk header ?st2
                 else if sbe32 header 508 = -3 then scan_adf_file data ofs key header ?st2
                 else Inr ?st2) (\<lambda>st3.
              scan_hash_chain walk n data ofs fuel (insert key chained) (st_be32 header 496) st3))"
      by (rule walk_ok_from) simp
    then show "walk_ok n st
         (if st_be32 header 0 \<noteq> 2 \<or> \<not> block_checksum header then Inl (DiskImageError ''invalid ADF entry header'')
          else bindE
                (if sbe32 header 508 = 2 then walk header ?st2
                 else if sbe32 header 508 = -3 then scan_adf_file data ofs key header ?st2
                 else Inr ?st2) (\<lambda>st3.
              scan_hash_chain walk n data ofs fuel (insert key chained) (st_be32 header 496) st3))"
      by (simp add: walk_ok_def walk_error_def)
  qed
  show ?case
    unfolding scan_hash_chain.simps [of walk n data ofs "Suc fuel"] nat.case Let_def
    by (intro walk_ok_if walk_ok_Inl walk_ok_Inr step) (use Suc.prems in \<open>simp_all add: walk_error_def\<close>)
qed

lemma walk_ok_fold:
  assumes "\<And>i st. as_nodes st \<le> n \<Longrightarrow> walk_ok n st (f i st)"
  shows "as_nodes st \<le> n \<Longrightarrow> walk_ok n st (foldE f xs st)"
proof (induction xs arbitrary: st)
  case (Cons x xs)
  then show ?case by (simp add: assms walk_ok_bind)
qed (simp add: walk_ok_def)

lemma scan_directory_ok: "as_nodes st \<le> n \<Longrightarrow> walk_ok n st (scan_directory depth n data ofs d st)"
proof (induction depth arbitrary: d st)
  case (Suc depth)
  show ?case unfolding scan_directory.simps
    using Suc.prems by (intro walk_ok_fold scan_hash_chain_ok Suc.IH) simp_all
qed (simp add: walk_ok_def walk_error_def)

lemma walk_adf_raises: "raises_only walk_error (walk_adf depth n data ofs)"
  unfolding walk_adf_def
  by (intro raises_only_bindE scan_block_raises)
    (use scan_directory_ok [of "\<lparr>as_seen = {880}, as_nodes = 0\<rparr>" n depth data ofs] in \<open>simp_all add: walk_ok_def\<close>)

subsection \<open>Which exceptions escape a validation\<close>

text \<open>
  Every index the validators use is shown to be in range; what is left is the recursion of the two
  tree walks and the division by an ISO block size.
\<close>

abbreviation only_recursion :: "py_exn \<Rightarrow> bool" where
  "only_recursion \<equiv> (\<lambda>e. e = RecursionError)"

abbreviation only_division :: "py_exn \<Rightarrow> bool" where
  "only_division \<equiv> (\<lambda>e. e = ZeroDivisionError)"

lemma raises_reads:
  "i < length data \<Longrightarrow> raises_only P (byte_at data i)"
  by simp

lemma dos_type_raises: "raises_only P (dos_type data)"
  by (simp add: dos_type_def)

lemma adf_escapes: "raises_only only_recursion (adf_validate c depth max_nodes data)"
proof -
  have "raises_only only_recursion (case walk_adf depth max_nodes data ofs of
      Inr _ \<Rightarrow> Inr [] | Inl (DiskImageError m) \<Rightarrow> Inr [walk_finding m] | Inl e \<Rightarrow> Inl e)" for ofs
    using walk_adf_raises [of depth max_nodes data ofs]
    by (auto simp: walk_error_def raises_only_def split: sum.splits)
  then show ?thesis
    unfolding adf_validate_def Let_def
    by (intro raises_only_bindE raises_only_if dos_type_raises) simp_all
qed

lemma tree_row_raises:
  assumes "length row = 32" and "\<And>d p st. raises_only P (scan d p st)"
  shows "raises_only P (tree_row g scan prefix row st)"
  using assms by (auto simp: tree_row_def Let_def intro!: raises_only_bindE split: prod.split)

lemma tree_rows_raises:
  assumes "\<And>d p st. raises_only P (scan d p st)"
  shows "list_all (\<lambda>row. length row = 32) rows \<Longrightarrow> raises_only P (tree_rows g scan prefix rows st)"
  by (induction rows arbitrary: st)
    (auto intro!: raises_only_bindE tree_row_raises assms split: option.split)

lemma directory_rows_length: "list_all (\<lambda>row. length row = 32) (directory_rows max_nodes d)"
proof -
  have "32 * i + 32 \<le> length d" if "i < min (length d) (max_nodes * 32) div 32" for i
    using that by linarith
  then show ?thesis by (auto simp: directory_rows_def list_all_iff)
qed

lemma fat_directory_raises: "raises_only only_recursion (fat_directory depth g d prefix st)"
  by (induction depth arbitrary: d prefix st) (simp_all add: tree_rows_raises directory_rows_length)

lemma fat_escapes: "17 \<le> length data \<Longrightarrow> raises_only only_recursion (fat_validate c depth max_nodes data)"
  unfolding fat_validate_def Let_def fat_bpb_of_def fat_tree_def
  by (intro raises_only_bindE raises_only_if) (auto split: prod.split intro: fat_directory_raises)

lemma rdb_escapes: "raises_only P (rdb_validate c data)"
  using partition_table_raises [of data 256] unfolding rdb_validate_def
  by (auto simp: raises_only_def split: sum.splits option.splits py_exn.splits)

lemma iso_descriptors_raises: "raises_only P (iso_descriptors data sectors n pvd)"
proof (induction sectors arbitrary: n pvd)
  case (Cons sector rest)
  show ?case unfolding iso_descriptors.simps Let_def
    by (intro raises_only_if raises_only_bindE raises_reads Cons.IH) simp_all
qed simp

lemma row_index:
  "\<not> (v < 34 \<or> length d < pos + v) \<Longrightarrow> i < 34 \<Longrightarrow> raises_only P (byte_at (pyslice d pos (pos + v)) i)"
  by (intro raises_reads) auto

lemma iso_rows_raises: "raises_only only_division (iso_rows directory bs image_size pos nodes pending findings)"
proof (induction directory bs image_size pos nodes pending findings rule: iso_rows.induct)
  case (1 directory bs image_size pos nodes pending findings)
  show ?case unfolding iso_rows.simps [of directory bs image_size pos] Let_def
    by (intro raises_only_bindE raises_only_if row_index raises_reads; (simp; fail)?) (use 1 in \<open>simp_all add: Let_def\<close>)
qed

lemma iso_walk_raises: "raises_only only_division (iso_walk data bs max_nodes pending seen nodes findings)"
proof (induction data bs max_nodes pending seen nodes findings rule: iso_walk.induct)
  case (1 data bs max_nodes pending seen nodes findings)
  note IH = "1.IH"(1,2) [OF _ refl refl refl refl refl refl]
    "1.IH"(3) [OF _ refl refl refl refl refl refl _ _ _ refl refl]
  show ?case unfolding iso_walk.simps [of data bs max_nodes pending] Let_def
    by (intro raises_only_if raises_only_bindE iso_rows_raises raises_only_simps(2);
        (simp only: split_paired_all prod.case)?; (rule IH; assumption)?)
qed

lemma iso_escapes: "raises_only only_division (iso_validate c max_nodes data)"
  unfolding iso_validate_def Let_def
  by (intro raises_only_bindE iso_descriptors_raises)
    (auto split: prod.split option.split intro!: raises_only_bindE iso_walk_raises)

lemma lha_member_raises: "raises_only P (lha_member data pos members)" if "pos < length data"
  using that unfolding lha_member_def Let_def
  by (intro raises_only_if raises_only_bindE raises_reads) auto

lemma lha_members_raises: "raises_only P (lha_members data max_nodes pos members)"
proof (induction data max_nodes pos members rule: lha_members.induct)
  case (1 data max_nodes pos members)
  show ?case unfolding lha_members.simps [of data max_nodes pos members]
    by (intro raises_only_if raises_only_bindE raises_reads)
      (use 1 in \<open>auto split: lha_step.split prod.split intro!: raises_only_bindE lha_member_raises\<close>)
qed

lemma lha_escapes: "raises_only P (lha_validate c max_nodes data)"
  unfolding lha_validate_def by (intro raises_only_bindE lha_members_raises) (simp split: prod.split)

text \<open>The bytes that lead to the Amiga, FAT and ISO validators.\<close>

definition tree_walked :: "bytes \<Rightarrow> bool" where
  "tree_walked data \<longleftrightarrow>
     take 3 data = ascb ''DOS'' \<or> 512 \<le> length data \<and> pyslice data 510 512 = [0x55, 0xAA]"

definition iso_marked :: "bytes \<Rightarrow> bool" where
  "iso_marked data \<longleftrightarrow> 0x8006 \<le> length data \<and> pyslice data 0x8001 0x8006 = ascb ''CD001''"

definition validation_escape :: "bytes \<Rightarrow> py_exn \<Rightarrow> bool" where
  "validation_escape data e \<longleftrightarrow>
     e = RecursionError \<and> tree_walked data \<or> e = ZeroDivisionError \<and> iso_marked data"

lemma head_slice: "b \<le> 65536 \<Longrightarrow> pyslice (take 65536 data) a b = pyslice data a b"
  by (simp add: pyslice_def drop_take min_def)

lemma structural_escapes: "raises_only (validation_escape data) (structural_validate va c data)"
proof -
  have some: "raises_only P (map_sum id Some m) = raises_only P m" for P :: "py_exn \<Rightarrow> bool" and m :: "structural_validation res"
    by (cases m) simp_all
  have dos: "take 3 (take 65536 data) = take 3 data" by simp
  have tree: "raises_only (validation_escape data) m" if "tree_walked data" "raises_only only_recursion m" for m :: "structural_validation res"
    using that(2) by (rule raises_only_mono) (simp add: validation_escape_def that(1))
  have iso: "raises_only (validation_escape data) m" if "iso_marked data" "raises_only only_division m" for m :: "structural_validation res"
    using that(2) by (rule raises_only_mono) (simp add: validation_escape_def that(1))
  have adf: "raises_only (validation_escape data) (adf_validate c d n data)" if "take 3 data = ascb ''DOS''" for d n
    by (rule tree [OF _ adf_escapes]) (simp add: tree_walked_def that)
  have fat: "raises_only (validation_escape data) (fat_validate c d n data)"
    if "512 \<le> length data" "pyslice data 510 512 = [0x55, 0xAA]" for d n
    by (rule tree [OF _ fat_escapes]) (use that in \<open>simp_all add: tree_walked_def\<close>)
  have cd: "raises_only (validation_escape data) (iso_validate c n data)"
    if "0x8006 \<le> length data" "pyslice data 0x8001 0x8006 = ascb ''CD001''" for n
    by (rule iso [OF _ iso_escapes]) (use that in \<open>simp add: iso_marked_def\<close>)
  have marked: "512 \<le> length data \<and> pyslice data 510 512 = [0x55, 0xAA]"
    if "(if 512 \<le> length data \<and> pyslice data 510 512 = [0x55, 0xAA] then fat_bpb_plausible hs else Inr False) = Inr True" for hs
    using that by (simp split: if_splits)
  show ?thesis
    unfolding structural_validate_def Let_def
    by (intro raises_only_if raises_only_bindE)
      (auto simp: some rdb_escapes lha_escapes fat_bpb_plausible_def head_slice
        dest: marked intro!: raises_only_bindE raises_reads adf fat cd split: if_splits)
qed

subsection \<open>An archive written by the format's rules\<close>

record lha_item =
  li_meta :: bytes
  li_name :: bytes
  li_payload :: bytes

fun le_bytes :: "nat \<Rightarrow> nat \<Rightarrow> bytes" where
  "le_bytes 0 v = []"
| "le_bytes (Suc n) v = of_nat v # le_bytes n (v div 256)"

definition lha_body :: "lha_item \<Rightarrow> bytes" where
  "lha_body it = ascb ''-lh0-'' @ le_bytes 4 (length (li_payload it)) @ li_meta it @ [of_nat (length (li_name it))]
     @ li_name it @ le_bytes 2 (crc16 (li_payload it))"

definition lha_header :: "lha_item \<Rightarrow> bytes" where
  "lha_header it = of_nat (length (lha_body it)) # of_nat (sum_list (map unat (lha_body it))) # lha_body it"

definition lha_archive :: "lha_item list \<Rightarrow> bytes" where
  "lha_archive items = concat (map (\<lambda>it. lha_header it @ li_payload it) items)"

text \<open>Ten bytes of size, time and attributes, a name that fits the header, a payload that fits 32 bits.\<close>

definition lha_item_ok :: "lha_item \<Rightarrow> bool" where
  "lha_item_ok it \<longleftrightarrow> length (li_meta it) = 10 \<and> length (li_name it) \<le> 233 \<and> length (li_payload it) < 2 ^ 32"

lemma length_le_bytes [simp]: "length (le_bytes n v) = n"
  by (induction n arbitrary: v) simp_all

lemma unat_byte: "unat (of_nat v :: byte) = v mod 256"
  by (simp add: unat_of_nat)

lemma le_int_le_bytes: "le_int (le_bytes n v) = v mod 256 ^ n"
  by (induction n arbitrary: v) (simp_all add: unat_byte mod_mult2_eq)

lemma length_lha_body: "lha_item_ok it \<Longrightarrow> length (lha_body it) = 22 + length (li_name it)"
  by (simp add: lha_body_def lha_item_ok_def ascb_def)

lemma pyslice_shift: "pyslice (pre @ xs) (length pre + a) (length pre + b) = pyslice xs a b"
  by (simp add: pyslice_def)

lemma pyslice_left: "b \<le> length xs \<Longrightarrow> pyslice (xs @ ys) a b = pyslice xs a b"
  by (simp add: pyslice_def)

lemma pyslice_mid: "pyslice (xs @ ys @ zs) (length xs) (length xs + length ys) = ys"
  by (simp add: pyslice_def)

lemma pyslice_suffix: "xs = p @ c \<Longrightarrow> length p = a \<Longrightarrow> b = a + length c \<Longrightarrow> pyslice xs a b = c"
  by (simp add: pyslice_def)

lemma crc16_bound: "crc16 bs < 65536"
  unfolding crc16_def by (rule crc16_fold) simp

lemma lha_header_fields:
  assumes "lha_item_ok it"
  defines "h \<equiv> lha_header it"
  shows "length h = 24 + length (li_name it)" and "unat (h ! 0) = 22 + length (li_name it)"
    and "pyslice h 2 7 = ascb ''-lh0-''"
    and "sum_list (map unat (pyslice h 2 (2 + (22 + length (li_name it))))) AND 0xFF = unat (h ! 1)"
    and "st_le32 h 7 = length (li_payload it)" and "unat (h ! 21) = length (li_name it)"
    and "st_le16 h (22 + length (li_name it)) = crc16 (li_payload it)"
proof -
  note len = length_lha_body [OF assms(1)]
  let ?n = "length (li_name it)"
  have n: "?n < 234" "length (li_meta it) = 10" "length (li_payload it) < 2 ^ 32"
    using assms(1) by (auto simp: lha_item_ok_def)
  have ab: "length (ascb ''-lh0-'') = 5" by (simp add: ascb_def)
  show "length h = 24 + ?n" using len by (simp add: h_def lha_header_def)
  have "unat (h ! 0) = length (lha_body it) mod 256"
    unfolding h_def lha_header_def nth_Cons_0 by (rule unat_byte)
  then show "unat (h ! 0) = 22 + ?n" using len n by simp
  show "pyslice h 2 7 = ascb ''-lh0-''"
    using ab by (simp add: h_def lha_header_def lha_body_def pyslice_def)
  have "pyslice h 2 (2 + (22 + ?n)) = lha_body it" using len by (simp add: h_def lha_header_def pyslice_def)
  moreover have "x AND 0xFF = x mod 256" for x :: nat
    using take_bit_eq_mod [of 8 x] by (simp add: take_bit_eq_mask mask_eq_exp_minus_1)
  ultimately show "sum_list (map unat (pyslice h 2 (2 + (22 + ?n)))) AND 0xFF = unat (h ! 1)"
    by (simp add: h_def lha_header_def unat_byte)
  have "pyslice h 7 11 = le_bytes 4 (length (li_payload it))"
    using ab by (simp add: h_def lha_header_def lha_body_def pyslice_def)
  then show "st_le32 h 7 = length (li_payload it)"
    using n(3) by (simp add: st_le32_def le_at_def le_int_le_bytes)
  have split: "h = (of_nat (length (lha_body it)) # of_nat (sum_list (map unat (lha_body it)))
      # ascb ''-lh0-'' @ le_bytes 4 (length (li_payload it)) @ li_meta it) @ of_nat ?n # li_name it @ le_bytes 2 (crc16 (li_payload it))"
    by (simp add: h_def lha_header_def lha_body_def)
  show "unat (h ! 21) = ?n"
    unfolding split using ab n by (simp add: nth_append unat_byte)
  have "pyslice h (22 + ?n) (24 + ?n) = le_bytes 2 (crc16 (li_payload it))"
  proof -
    let ?p = "of_nat (length (lha_body it)) # of_nat (sum_list (map unat (lha_body it)))
      # ascb ''-lh0-'' @ le_bytes 4 (length (li_payload it)) @ li_meta it @ of_nat ?n # li_name it"
    have "h = ?p @ le_bytes 2 (crc16 (li_payload it))" and "length ?p = 22 + ?n"
      using ab n by (simp_all add: h_def lha_header_def lha_body_def)
    then show ?thesis by (rule pyslice_suffix) simp
  qed
  then show "st_le16 h (22 + ?n) = crc16 (li_payload it)"
    using crc16_bound [of "li_payload it"] by (simp add: st_le16_def le_at_def le_int_le_bytes)
qed

lemma ascii_method: "ascii_replace (ascb ''-lh0-'') = asc ''-lh0-''"
  by (simp add: ascii_replace_def ascb_def asc_def)

definition method_obs :: "nat \<Rightarrow> string \<times> pyval" where
  "method_obs m = (''LHA_MEMBER_'' @ show_nat m @ ''_METHOD'', PStr (asc ''-lh0-''))"

lemma lha_member_item:
  assumes ok: "lha_item_ok it"
  shows "lha_member (pre @ (lha_header it @ li_payload it) @ post) (length pre) m
     = Inr (Lha_Next [method_obs m] []
         (length pre + length (lha_header it @ li_payload it)))"
proof -
  let ?h = "lha_header it" and ?data = "pre @ (lha_header it @ li_payload it) @ post"
  note f = lha_header_fields [OF ok]
  have h0: "byte_at ?data (length pre) = Inr (unat (?h ! 0))"
    using f(1) by (cases ?h) (simp_all add: nth_append byte_at_def)
  have h1: "byte_at ?h 1 = Inr (unat (?h ! 1))" and h21: "byte_at ?h 21 = Inr (unat (?h ! 21))"
    using f(1) by simp_all
  have hd: "pyslice ?data (length pre) (length pre + (22 + length (li_name it)) + 2) = ?h"
    using pyslice_mid [of pre ?h "li_payload it @ post"] f(1) by (simp add: add.commute add.left_commute)
  have pay: "pyslice ?data (length pre + (22 + length (li_name it)) + 2)
      (length pre + (22 + length (li_name it)) + 2 + length (li_payload it)) = li_payload it"
    using pyslice_mid [of "pre @ ?h" "li_payload it" post] f(1) by (simp add: add.commute add.left_commute)
  have size: "length ?data = length pre + 24 + length (li_name it) + length (li_payload it) + length post"
    using f(1) by simp
  show ?thesis
    unfolding lha_member_def Let_def h0 bindE_simps f(2) hd f(3,5) h1 h21 bindE_simps f(6) ascii_method f(4) pay f(7)
      method_obs_def
    using f(1) size by (simp del: append_assoc)
qed

lemma lha_members_archive:
  assumes "list_all lha_item_ok items" and "m + length items \<le> max_nodes"
    and "tail = [] \<or> hd tail = 0"
  shows "lha_members (pre @ lha_archive items @ tail) max_nodes (length pre) m
     = Inr (m + length items, map method_obs [m..<m + length items], [])"
  using assms
proof (induction items arbitrary: pre m)
  case Nil
  then show ?case by (cases tail) (simp_all add: lha_members.simps lha_archive_def)
next
  case (Cons it items)
  let ?e = "lha_header it @ li_payload it"
  have ok: "lha_item_ok it" using Cons.prems(1) by simp
  have data: "pre @ lha_archive (it # items) @ tail = (pre @ ?e) @ lha_archive items @ tail"
    by (simp add: lha_archive_def)
  have step: "lha_member ((pre @ ?e) @ lha_archive items @ tail) (length pre) m
     = Inr (Lha_Next [method_obs m] [] (length (pre @ ?e)))"
    using lha_member_item [OF ok, of pre "lha_archive items @ tail" m] by simp
  have rest: "lha_members ((pre @ ?e) @ lha_archive items @ tail) max_nodes (length (pre @ ?e)) (m + 1)
     = Inr (m + 1 + length items, map method_obs [m + 1..<m + 1 + length items], [])"
    using Cons.prems by (intro Cons.IH) simp_all
  have first: "((pre @ ?e) @ lha_archive items @ tail) ! length pre \<noteq> 0"
  proof
    assume "((pre @ ?e) @ lha_archive items @ tail) ! length pre = 0"
    then have "lha_header it ! 0 = 0"
      using lha_header_fields(1) [OF ok] by (simp add: nth_append lha_header_def)
    with lha_header_fields(2) [OF ok] show False by simp
  qed
  have len: "length pre < length ((pre @ ?e) @ lha_archive items @ tail)" "m < max_nodes"
    using lha_header_fields(1) [OF ok] Cons.prems(2) by simp_all
  have upt: "[m..<m + length (it # items)] = m # [m + 1..<m + 1 + length items]"
    by (simp add: upt_conv_Cons del: upt_Suc)
  show ?case
    unfolding data lha_members.simps [of _ max_nodes "length pre" m] step bindE_simps lha_step.case rest
    using first len upt by (simp del: upt_Suc add: unat_eq_0)
qed

lemma lha_archive_valid:
  assumes "list_all lha_item_ok items" and "length items \<le> max_nodes" and "tail = [] \<or> hd tail = 0"
  shows "map_sum id sv_state (lha_validate c max_nodes (lha_archive items @ tail)) = Inr VALID
     \<and> map_sum id fst (lha_members (lha_archive items @ tail) max_nodes 0 0) = Inr (length items)"
  using lha_members_archive [OF assms(1) _ assms(3), of 0 max_nodes "[]"] assms(2)
  by (simp add: lha_validate_def validation_result_def Let_def)

subsection \<open>Clusters and their owners\<close>

definition owners_ok :: "fat_geometry \<Rightarrow> fat_scan \<Rightarrow> bool" where
  "owners_ok g st \<longleftrightarrow> fv_reachable st = dom (fv_used st)
     \<and> fv_reachable st \<subseteq> {2..<fg_clusters g + 2}"

lemma owners_flag [simp]: "owners_ok g (flag f st) = owners_ok g st"
  by (simp add: owners_ok_def flag_def)

lemma owners_dirs [simp]: "owners_ok g (st\<lparr>fv_dirs := d\<rparr>) = owners_ok g st"
  by (simp add: owners_ok_def)

lemma owners_own: "owners_ok g st \<Longrightarrow> 2 \<le> c \<Longrightarrow> c < fg_clusters g + 2 \<Longrightarrow> owners_ok g (own_cluster owner c st)"
  by (auto simp: owners_ok_def own_cluster_def)

lemma fat_follow_owners: "owners_ok g st \<Longrightarrow> owners_ok g (snd (fat_follow g owner current seen out st))"
proof (induction g owner current seen out st rule: fat_follow.induct)
  case (1 g owner current seen out st)
  note own = owners_own [OF "1.prems", of current owner]
  show ?case
    unfolding fat_follow.simps [of g owner current] Let_def
    using "1.prems" own "1.IH" by (auto simp: Let_def)
qed

lemma fat_chain_owners: "owners_ok g st \<Longrightarrow> owners_ok g (snd (fat_chain g start owner wanted st))"
  using fat_follow_owners [of g st owner start "[]" "[]"]
  by (auto simp: fat_chain_def split: prod.split option.split)

lemma fat_chain_owners': "fat_chain g start owner wanted st = (out, st') \<Longrightarrow> owners_ok g st \<Longrightarrow> owners_ok g st'"
  using fat_chain_owners [of g st start owner wanted] by simp

lemma tree_rows_owners:
  assumes "\<And>d p st. owners_ok g st \<Longrightarrow> ensures (owners_ok g) (scan d p st)"
  shows "owners_ok g st \<Longrightarrow> ensures (owners_ok g) (tree_rows g scan prefix rows st)"
proof (induction rows arbitrary: st)
  case (Cons row rows)
  have sub: "owners_ok g st''" if "scan d p st' = Inr st''" "owners_ok g st'" for d p st' st''
    using assms [OF that(2)] that(1) by (rule ensuresD)
  have row: "ensures (\<lambda>r. case r of None \<Rightarrow> True | Some st' \<Rightarrow> owners_ok g st') (tree_row g scan prefix row st)"
    unfolding tree_row_def Let_def
    by (intro ensures_bindE ensures_if)
      (use Cons.prems fat_chain_owners [OF Cons.prems] in
        \<open>auto split: prod.split intro!: ensures_bindE dest: fat_chain_owners' elim!: sub\<close>)
  show ?case
    unfolding tree_rows.simps
  proof (rule ensures_bindE)
    fix r assume "tree_row g scan prefix row st = Inr r"
    with row Cons show "ensures (owners_ok g) (case r of None \<Rightarrow> Inr st | Some st' \<Rightarrow> tree_rows g scan prefix rows st')"
      by (cases r) simp_all
  qed
qed simp

lemma fat_directory_owners: "owners_ok g st \<Longrightarrow> ensures (owners_ok g) (fat_directory depth g d prefix st)"
  by (induction depth arbitrary: d prefix st) (simp_all add: tree_rows_owners)

lemma fat_tree_owners: "owners_ok g st \<Longrightarrow> ensures (owners_ok g) (fat_tree depth g b st)"
  by (auto simp: fat_tree_def Let_def split: prod.split intro!: fat_directory_owners dest: fat_chain_owners')

lemma state_of_result [simp]: "sv_state (validation_result c fmt variant state obs findings cs) = state"
  by (simp add: validation_result_def Let_def)

text \<open>Findings are only ever added.\<close>

definition grows :: "fat_scan \<Rightarrow> fat_scan \<Rightarrow> bool" where
  "grows st st' \<longleftrightarrow> (fv_findings st \<noteq> [] \<longrightarrow> fv_findings st' \<noteq> [])"

lemma grows_basic [simp]: "grows st st" "grows st (flag f st')" "grows (flag f st) st' = (fv_findings st' \<noteq> [])"
  by (simp_all add: grows_def flag_def)

lemma grows_trans: "grows a b \<Longrightarrow> grows b c \<Longrightarrow> grows a c"
  by (auto simp: grows_def)

lemma fat_follow_grows: "grows st (snd (fat_follow g owner current seen out st))"
proof (induction g owner current seen out st rule: fat_follow.induct)
  case (1 g owner current seen out st)
  have own: "grows st (own_cluster owner current st)" by (simp add: grows_def own_cluster_def)
  show ?case
    unfolding fat_follow.simps [of g owner current] Let_def
    using own "1.IH" by (auto simp: Let_def intro: grows_trans)
qed

lemma fat_chain_grows: "fat_chain g start owner wanted st = (out, st') \<Longrightarrow> grows st st'"
  using fat_follow_grows [of st g owner start "[]" "[]"]
  by (auto simp: fat_chain_def grows_def flag_def split: prod.splits option.splits if_splits)

lemma tree_rows_grows:
  assumes "\<And>d p st. ensures (grows st) (scan d p st)"
  shows "ensures (grows st) (tree_rows g scan prefix rows st)"
proof (induction rows arbitrary: st)
  case (Cons row rows)
  have row: "ensures (\<lambda>r. case r of None \<Rightarrow> True | Some st' \<Rightarrow> grows st st') (tree_row g scan prefix row st)"
  proof -
    have sub: "grows st st''"
      if "fat_chain g start owner None (st\<lparr>fv_dirs := d\<rparr>) = (child, st')" "scan child owner st' = Inr st''"
      for start owner d child st' st''
    proof -
      have "grows (st\<lparr>fv_dirs := d\<rparr>) st'" using that(1) by (rule fat_chain_grows)
      moreover have "grows st' st''" using assms that(2) by (rule ensuresD)
      ultimately show ?thesis by (simp add: grows_def)
    qed
    have "grows st (snd (fat_chain g start owner w st))" for start owner w
      by (cases "fat_chain g start owner w st") (simp add: fat_chain_grows)
    with sub show ?thesis
      unfolding tree_row_def Let_def
      by (intro ensures_bindE ensures_if) (auto split: prod.split intro!: ensures_bindE)
  qed
  show ?case
    unfolding tree_rows.simps
  proof (rule ensures_bindE)
    fix r assume r: "tree_row g scan prefix row st = Inr r"
    show "ensures (grows st) (case r of None \<Rightarrow> Inr st | Some st' \<Rightarrow> tree_rows g scan prefix rows st')"
    proof (cases r)
      case (Some st')
      with row r have "grows st st'" by simp
      then have "ensures (grows st) (tree_rows g scan prefix rows st')"
        using Cons.IH [of st'] by (auto simp: ensures_def split: sum.splits intro: grows_trans)
      with Some show ?thesis by simp
    qed simp
  qed
qed simp

lemma fat_directory_grows: "ensures (grows st) (fat_directory depth g d prefix st)"
  by (induction depth arbitrary: d prefix st) (simp_all add: tree_rows_grows)

lemma fat_tree_grows: "ensures (grows st) (fat_tree depth g b st)"
proof -
  have "ensures (grows st) (fat_directory depth g out [] st')"
    if "fat_chain g a o' None st = (out, st')" for a o' out st'
    using fat_chain_grows [OF that] fat_directory_grows [of st' depth g out "[]"]
    by (auto simp: ensures_def split: sum.splits intro: grows_trans)
  then show ?thesis
    by (auto simp: fat_tree_def Let_def fat_directory_grows split: prod.split)
qed

subsection \<open>What a volume without findings holds\<close>

text \<open>
  The specification of a sound volume, on the bytes alone. A chain is the list of the clusters from a
  start up to an end mark, each named by the one before it; the entries are those of the rows up to
  the first free one that are not deleted, a long name, a label or a dot entry, in the root directory
  and in every directory reached from it.
\<close>

definition fat_chain_is :: "fat_geometry \<Rightarrow> nat \<Rightarrow> nat list \<Rightarrow> bool" where
  "fat_chain_is g start cs \<longleftrightarrow>
     (if start < 2 then cs = []
      else cs \<noteq> [] \<and> hd cs = start \<and> distinct cs \<and> set cs \<subseteq> {2..<fg_clusters g + 2}
        \<and> successively (\<lambda>a b. fat_value (fg_fat g) a (fg_variant g) = b \<and> b < eof_mark (fg_variant g)) cs
        \<and> eof_mark (fg_variant g) \<le> fat_value (fg_fat g) (last cs) (fg_variant g))"

definition chain_bytes :: "fat_geometry \<Rightarrow> nat list \<Rightarrow> bytes" where
  "chain_bytes g cs = concat (map (cluster_slice g) cs)"

definition row_skipped :: "bytes \<Rightarrow> bool" where
  "row_skipped row \<longleftrightarrow> unat (row ! 0) = 0xE5 \<or> unat (row ! 11) = 0x0F \<or> bit (unat (row ! 11)) 3
     \<or> row_name row \<in> {asc ''.'', asc ''..''}"

definition row_directory :: "bytes \<Rightarrow> bool" where
  "row_directory row \<longleftrightarrow> bit (unat (row ! 11)) 4"

definition row_size :: "bytes \<Rightarrow> nat option" where
  "row_size row = (if row_directory row then None else Some (st_le32 row 28))"

definition row_path :: "pystr \<Rightarrow> bytes \<Rightarrow> pystr" where
  "row_path prefix row = prefix @ asc ''/'' @ row_name row"

definition live_rows :: "bytes list \<Rightarrow> bytes list" where
  "live_rows rows = filter (\<lambda>row. \<not> row_skipped row) (takeWhile (\<lambda>row. unat (row ! 0) \<noteq> 0) rows)"

inductive fat_entry :: "fat_geometry \<Rightarrow> bytes list \<Rightarrow> pystr \<Rightarrow> pystr \<Rightarrow> nat \<Rightarrow> nat option \<Rightarrow> bool" for g where
  here: "row \<in> set (live_rows rows) \<Longrightarrow> fat_entry g rows prefix (row_path prefix row) (row_start row) (row_size row)"
| below: "row \<in> set (live_rows rows) \<Longrightarrow> row_directory row \<Longrightarrow> fat_chain_is g (row_start row) cs \<Longrightarrow>
    fat_entry g (directory_rows (fg_max_nodes g) (chain_bytes g cs)) (row_path prefix row) path start wanted \<Longrightarrow>
    fat_entry g rows prefix path start wanted"

lemma live_rows_simps [simp]:
  "live_rows [] = []"
  "unat (row ! 0) = 0 \<Longrightarrow> live_rows (row # rows) = []"
  "unat (row ! 0) \<noteq> 0 \<Longrightarrow> live_rows (row # rows) = (if row_skipped row then [] else [row]) @ live_rows rows"
  by (simp_all add: live_rows_def)

lemma fat_entry_mono:
  assumes "fat_entry g xs prefix path start wanted" and "set (live_rows xs) \<subseteq> set (live_rows ys)"
  shows "fat_entry g ys prefix path start wanted"
  using assms(1)
proof cases
  case (here row)
  with assms(2) show ?thesis by (auto intro: fat_entry.here)
next
  case (below row cs)
  with assms(2) have "row \<in> set (live_rows ys)" by blast
  then show ?thesis using below(2-4) by (rule fat_entry.below)
qed

lemma fat_entry_split:
  assumes "set (live_rows rows) = set (live_rows xs) \<union> set (live_rows ys)"
  shows "fat_entry g rows prefix path start wanted \<longleftrightarrow> fat_entry g xs prefix path start wanted \<or> fat_entry g ys prefix path start wanted"
proof
  assume "fat_entry g rows prefix path start wanted"
  then show "fat_entry g xs prefix path start wanted \<or> fat_entry g ys prefix path start wanted"
  proof cases
    case (here row)
    with assms show ?thesis by (auto intro: fat_entry.here)
  next
    case (below row cs)
    with assms have "row \<in> set (live_rows xs) \<or> row \<in> set (live_rows ys)" by simp
    with fat_entry.below [OF _ below(2-4)] show ?thesis by blast
  qed
next
  assume either: "fat_entry g xs prefix path start wanted \<or> fat_entry g ys prefix path start wanted"
  have sub: "set (live_rows xs) \<subseteq> set (live_rows rows)" "set (live_rows ys) \<subseteq> set (live_rows rows)"
    using assms by simp_all
  from either show "fat_entry g rows prefix path start wanted"
    using fat_entry_mono [OF _ sub(1)] fat_entry_mono [OF _ sub(2)] by blast
qed

lemma fat_entry_path: "fat_entry g rows prefix path start wanted \<Longrightarrow> \<exists>rest. path = prefix @ asc ''/'' @ rest"
  by (induction rule: fat_entry.induct) (auto simp: row_path_def)

lemma fat_chain_step:
  assumes "fat_chain_is g start (c # xs)"
  shows "c = start \<and> 2 \<le> start
     \<and> (if xs = [] then eof_mark (fg_variant g) \<le> fat_value (fg_fat g) start (fg_variant g)
        else fat_value (fg_fat g) start (fg_variant g) < eof_mark (fg_variant g)
          \<and> fat_chain_is g (fat_value (fg_fat g) start (fg_variant g)) xs)"
  using assms by (cases xs) (auto simp: fat_chain_is_def split: if_splits)

lemma fat_chain_Nil: "fat_chain_is g start [] \<longleftrightarrow> start < 2"
  by (simp add: fat_chain_is_def)

lemma fat_chain_unique: "fat_chain_is g start cs \<Longrightarrow> fat_chain_is g start ds \<Longrightarrow> cs = ds"
proof (induction cs arbitrary: start ds)
  case Nil
  then show ?case by (cases ds) (auto simp: fat_chain_Nil dest: fat_chain_step)
next
  case (Cons c cs)
  note c = fat_chain_step [OF Cons.prems(1)]
  with Cons.prems(2) obtain ds' where ds: "ds = c # ds'"
    by (cases ds) (auto simp: fat_chain_Nil dest: fat_chain_step)
  note d = fat_chain_step [OF Cons.prems(2) [unfolded ds]]
  show ?case
  proof (cases "cs = []")
    case True
    with c d ds show ?thesis by (auto split: if_splits)
  next
    case False
    with c d have "fat_chain_is g (fat_value (fg_fat g) start (fg_variant g)) cs"
      "fat_chain_is g (fat_value (fg_fat g) start (fg_variant g)) ds'"
      by (auto split: if_splits)
    from Cons.IH [OF this] ds show ?thesis by simp
  qed
qed

text \<open>A chain followed without a finding is complete, is new or the owner's own, and is recorded.\<close>

definition follows :: "fat_geometry \<Rightarrow> pystr \<Rightarrow> nat list \<Rightarrow> fat_scan \<Rightarrow> fat_scan \<Rightarrow> bool" where
  "follows g owner cs st st' \<longleftrightarrow>
     fv_findings st' = fv_findings st \<and> fv_used st' = (\<lambda>c. if c \<in> set cs then Some owner else fv_used st c)
     \<and> (\<forall>c\<in>set cs. fv_used st c \<in> {None, Some owner})"

lemma fat_follow_clean:
  "fat_follow g owner current seen out st = (out', st') \<Longrightarrow> fv_findings st' = [] \<Longrightarrow>
     \<exists>cs. fat_chain_is g current cs \<and> set cs \<inter> set seen = {} \<and> out' = out @ chain_bytes g cs \<and> follows g owner cs st st'"
proof (induction g owner current seen out st arbitrary: out' st' rule: fat_follow.induct)
  case (1 g owner current seen out st)
  let ?v = "fat_value (fg_fat g) current (fg_variant g)"
  note run = "1.prems"(1) [unfolded fat_follow.simps [of g owner current] Let_def]
  have flagged: False if "st' = flag x y" for x y
    using that "1.prems"(2) by (simp add: flag_def)
  show ?case
  proof (cases "current < 2")
    case True
    with run show ?thesis
      by (intro exI [of _ "[]"]) (simp add: fat_chain_is_def chain_bytes_def follows_def)
  next
    case False
    with run flagged have ok: "current \<notin> set seen" "current < fg_clusters g + 2" "fv_used st current \<in> {None, Some owner}"
      by (auto split: if_splits)
    show ?thesis
    proof (cases "eof_mark (fg_variant g) \<le> ?v")
      case True
      with run False ok have "out' = out @ cluster_slice g current" "st' = own_cluster owner current st" by auto
      with True False ok show ?thesis
        by (intro exI [of _ "[current]"]) (auto simp: fat_chain_is_def chain_bytes_def follows_def own_cluster_def)
    next
      case more: False
      with run False ok flagged have next_ok: "\<not> (?v < 2 \<or> ?v \<ge> fg_clusters g + 2)" "\<not> length (current # seen) > fg_max_nodes g"
        and rec: "fat_follow g owner ?v (current # seen) (out @ cluster_slice g current) (own_cluster owner current st) = (out', st')"
        by (auto split: if_splits)
      from "1.IH" [OF False ok(1) _ _ refl refl refl refl more next_ok rec "1.prems"(2)] ok
      obtain cs where cs: "fat_chain_is g ?v cs" "set cs \<inter> set (current # seen) = {}"
        "out' = (out @ cluster_slice g current) @ chain_bytes g cs" "follows g owner cs (own_cluster owner current st) st'"
        by auto
      with next_ok have "cs \<noteq> []" "hd cs = ?v" by (auto simp: fat_chain_is_def split: if_splits)
      with cs False ok next_ok more show ?thesis
        by (intro exI [of _ "current # cs"], cases cs)
          (auto simp: fat_chain_is_def chain_bytes_def follows_def own_cluster_def fun_eq_iff split: if_splits)
    qed
  qed
qed

definition size_reached :: "fat_geometry \<Rightarrow> nat option \<Rightarrow> nat list \<Rightarrow> bool" where
  "size_reached g wanted cs \<longleftrightarrow> (case wanted of None \<Rightarrow> True | Some n \<Rightarrow> n \<le> length (chain_bytes g cs))"

lemma fat_chain_clean:
  assumes "fat_chain g start owner wanted st = (out, st')" and "fv_findings st' = []"
  shows "\<exists>cs. fat_chain_is g start cs \<and> size_reached g wanted cs \<and> follows g owner cs st st' \<and> (wanted = None \<longrightarrow> out = chain_bytes g cs)"
proof -
  obtain o1 s1 where run: "fat_follow g owner start [] [] st = (o1, s1)" by fastforce
  from assms run have s1: "fv_findings s1 = []" "st' = s1"
    by (auto simp: fat_chain_def flag_def split: option.splits if_splits)
  from fat_follow_clean [OF run s1(1)] obtain cs where
    cs: "fat_chain_is g start cs" "o1 = chain_bytes g cs" "follows g owner cs st s1" by auto
  have "size_reached g wanted cs" "wanted = None \<longrightarrow> out = chain_bytes g cs"
    using assms run cs(2) by (auto simp: fat_chain_def size_reached_def flag_def split: option.splits if_splits)
  with cs s1 show ?thesis by blast
qed

text \<open>
  A part of the walk accounts for the entries \<open>P\<close>: it keeps the owners there were, each of the
  entries has a complete chain that its path owns, and every new owner is one of them.
\<close>

definition accounts :: "fat_geometry \<Rightarrow> (pystr \<Rightarrow> nat \<Rightarrow> nat option \<Rightarrow> bool) \<Rightarrow> fat_scan \<Rightarrow> fat_scan \<Rightarrow> bool" where
  "accounts g P st st' \<longleftrightarrow>
     fv_used st \<subseteq>\<^sub>m fv_used st'
     \<and> (\<forall>path start wanted. P path start wanted \<longrightarrow>
          (\<exists>cs. fat_chain_is g start cs \<and> size_reached g wanted cs \<and> (\<forall>c\<in>set cs. fv_used st' c = Some path)))
     \<and> (\<forall>c. fv_used st' c \<noteq> None \<longrightarrow> fv_used st c \<noteq> None
          \<or> (\<exists>path start wanted cs. P path start wanted \<and> fat_chain_is g start cs \<and> c \<in> set cs))"

lemma accounts_none: "(\<And>p s z. \<not> P p s z) \<Longrightarrow> accounts g P st st"
  by (simp add: accounts_def)

lemma accounts_trans:
  assumes "accounts g P st st1" and "accounts g Q st1 st2"
    and "\<And>p s z. R p s z \<longleftrightarrow> P p s z \<or> Q p s z"
  shows "accounts g R st st2"
proof -
  have keep: "fv_used st2 c = Some p" if "fv_used st1 c = Some p" for c p
    using assms(2) that by (auto simp: accounts_def map_le_def dom_def)
  have "fv_used st \<subseteq>\<^sub>m fv_used st2"
    using assms(1,2) by (auto simp: accounts_def intro: map_le_trans)
  moreover have "\<exists>cs. fat_chain_is g start cs \<and> size_reached g wanted cs \<and> (\<forall>c\<in>set cs. fv_used st2 c = Some path)"
    if "R path start wanted" for path start wanted
    using that assms keep unfolding accounts_def by meson
  moreover have "fv_used st c \<noteq> None \<or> (\<exists>path start wanted cs. R path start wanted \<and> fat_chain_is g start cs \<and> c \<in> set cs)"
    if "fv_used st2 c \<noteq> None" for c
    using that assms unfolding accounts_def by meson
  ultimately show ?thesis by (simp add: accounts_def)
qed

lemma accounts_chain:
  assumes "fat_chain_is g start cs" and "size_reached g wanted cs" and "follows g path cs st st'"
  shows "accounts g (\<lambda>p s z. p = path \<and> s = start \<and> z = wanted) st st'"
  using assms by (auto simp: accounts_def follows_def map_le_def dom_def split: if_splits)

lemma accounts_dirs [simp]: "accounts g P (st\<lparr>fv_dirs := d\<rparr>) st' = accounts g P st st'"
  by (simp add: accounts_def)

lemma fat_entry_none: "live_rows rows = [] \<Longrightarrow> \<not> fat_entry g rows prefix path start wanted"
  by (auto elim: fat_entry.cases)

lemma fat_entry_row:
  assumes "unat (row ! 0) \<noteq> 0" and "\<not> row_skipped row"
  shows "fat_entry g [row] prefix path start wanted \<longleftrightarrow>
     (path = row_path prefix row \<and> start = row_start row \<and> wanted = row_size row)
     \<or> (row_directory row \<and> (\<exists>cs. fat_chain_is g (row_start row) cs
          \<and> fat_entry g (directory_rows (fg_max_nodes g) (chain_bytes g cs)) (row_path prefix row) path start wanted))"
    (is "?lhs \<longleftrightarrow> ?here \<or> ?below")
proof
  assume ?lhs
  then show "?here \<or> ?below" by cases (use assms in auto)
next
  have live: "row \<in> set (live_rows [row])" using assms by simp
  assume "?here \<or> ?below"
  with fat_entry.here [OF live] fat_entry.below [OF live] show ?lhs by blast
qed

lemma tree_row_cases:
  assumes "length row = 32"
  shows "tree_row g scan prefix row st =
     (if unat (row ! 0) = 0 then Inr None
      else if row_skipped row then Inr (Some st)
      else if row_directory row then
        if row_start row \<in> fv_dirs st then Inr (Some (flag ''FAT_DIRECTORY_LOOP'' st))
        else (case fat_chain g (row_start row) (row_path prefix row) None (st\<lparr>fv_dirs := insert (row_start row) (fv_dirs st)\<rparr>) of
                (child, st') \<Rightarrow> bindE (scan child (row_path prefix row) st') (\<lambda>st''. Inr (Some st'')))
      else Inr (Some (snd (fat_chain g (row_start row) (row_path prefix row) (row_size row) st))))"
  using assms by (simp add: tree_row_def row_skipped_def row_directory_def row_path_def row_size_def Let_def)

text \<open>The walk of a subdirectory, as the induction over the depth supplies it.\<close>

definition walks :: "fat_geometry \<Rightarrow> (bytes \<Rightarrow> pystr \<Rightarrow> fat_scan \<Rightarrow> fat_scan res) \<Rightarrow> bool" where
  "walks g scan \<longleftrightarrow> (\<forall>d p st st'. ensures (grows st) (scan d p st)
     \<and> (scan d p st = Inr st' \<longrightarrow> fv_findings st' = [] \<longrightarrow> accounts g (fat_entry g (directory_rows (fg_max_nodes g) d) p) st st'))"

lemma grows_clean: "grows st st' \<Longrightarrow> fv_findings st' = [] \<Longrightarrow> fv_findings st = []"
  by (auto simp: grows_def)

lemma tree_row_accounts:
  assumes row: "length row = 32" and walks: "walks g scan"
    and run: "tree_row g scan prefix row st = Inr (Some st')" and clean: "fv_findings st' = []"
  shows "unat (row ! 0) \<noteq> 0 \<and> accounts g (fat_entry g [row] prefix) st st'"
proof -
  note run = run [unfolded tree_row_cases [OF row]]
  have first: "unat (row ! 0) \<noteq> 0" using run by (auto split: if_splits)
  consider (skipped) "row_skipped row" | (directory) "\<not> row_skipped row" "row_directory row"
    | (plain) "\<not> row_skipped row" "\<not> row_directory row" by blast
  then have "accounts g (fat_entry g [row] prefix) st st'"
  proof cases
    case skipped
    with run first have "st' = st" by simp
    moreover have "\<not> fat_entry g [row] prefix p s z" for p s z
      using skipped first by (intro fat_entry_none) simp
    ultimately show ?thesis by (simp add: accounts_none)
  next
    case directory
    let ?st = "st\<lparr>fv_dirs := insert (row_start row) (fv_dirs st)\<rparr>"
    obtain child st1 where chain: "fat_chain g (row_start row) (row_path prefix row) None ?st = (child, st1)" by fastforce
    with run first directory clean have scan: "scan child (row_path prefix row) st1 = Inr st'"
      by (auto simp: flag_def split: if_splits)
    have "grows st1 st'" using walks by (auto simp: walks_def intro: ensuresD [OF _ scan])
    then have "fv_findings st1 = []" using clean by (rule grows_clean)
    from fat_chain_clean [OF chain this] obtain cs where cs: "fat_chain_is g (row_start row) cs"
      "size_reached g None cs" "follows g (row_path prefix row) cs ?st st1" "child = chain_bytes g cs" by auto
    have below: "accounts g (fat_entry g (directory_rows (fg_max_nodes g) (chain_bytes g cs)) (row_path prefix row)) st1 st'"
      using walks scan clean cs(4) by (auto simp: walks_def)
    have here: "accounts g (\<lambda>p s z. p = row_path prefix row \<and> s = row_start row \<and> z = None) st st1"
      using accounts_chain [OF cs(1-3)] by simp
    have "fat_entry g [row] prefix p s z \<longleftrightarrow> (p = row_path prefix row \<and> s = row_start row \<and> z = None)
        \<or> fat_entry g (directory_rows (fg_max_nodes g) (chain_bytes g cs)) (row_path prefix row) p s z" for p s z
    proof -
      have "(\<exists>ds. fat_chain_is g (row_start row) ds \<and> Q ds) \<longleftrightarrow> Q cs" for Q
        using cs(1) fat_chain_unique by blast
      then show ?thesis
        using fat_entry_row [OF first directory(1), of g prefix p s z] directory(2) by (simp add: row_size_def)
    qed
    then show ?thesis by (rule accounts_trans [OF here below])
  next
    case plain
    obtain out st1 where chain: "fat_chain g (row_start row) (row_path prefix row) (row_size row) st = (out, st1)" by fastforce
    with run first plain have st': "st' = st1" by simp
    from fat_chain_clean [OF chain clean [unfolded st']] obtain cs where cs: "fat_chain_is g (row_start row) cs"
      "size_reached g (row_size row) cs" "follows g (row_path prefix row) cs st st1" by auto
    from accounts_chain [OF this] show ?thesis
      unfolding st' using fat_entry_row [OF first plain(1), of g prefix] plain(2) by (simp add: accounts_def)
  qed
  with first show ?thesis by simp
qed

lemma tree_rows_accounts:
  assumes walks: "walks g scan"
  shows "list_all (\<lambda>row. length row = 32) rows \<Longrightarrow> tree_rows g scan prefix rows st = Inr st' \<Longrightarrow> fv_findings st' = [] \<Longrightarrow>
    accounts g (fat_entry g rows prefix) st st'"
proof (induction rows arbitrary: st)
  case Nil
  then show ?case by (simp add: accounts_none fat_entry_none)
next
  case (Cons row rows)
  from Cons.prems(2) obtain more where more: "tree_row g scan prefix row st = Inr more"
    and rest: "(case more of None \<Rightarrow> Inr st | Some st1 \<Rightarrow> tree_rows g scan prefix rows st1) = Inr st'" by auto
  show ?case
  proof (cases more)
    case None
    with more Cons.prems(1) have "unat (row ! 0) = 0"
      by (auto simp: tree_row_cases split: if_splits prod.splits)
    with None rest show ?thesis by (simp add: accounts_none fat_entry_none)
  next
    case (Some st1)
    then have rows: "tree_rows g scan prefix rows st1 = Inr st'" using rest by simp
    have "ensures (grows st1) (tree_rows g scan prefix rows st1)"
      by (rule tree_rows_grows) (use walks in \<open>simp add: walks_def\<close>)
    from grows_clean [OF ensuresD [OF this rows] Cons.prems(3)] have st1: "fv_findings st1 = []" .
    from tree_row_accounts [OF _ walks more [unfolded Some] st1] Cons.prems(1)
    have row: "unat (row ! 0) \<noteq> 0" "accounts g (fat_entry g [row] prefix) st st1" by simp_all
    have "accounts g (fat_entry g rows prefix) st1 st'" using Cons rows by simp
    from accounts_trans [OF row(2) this fat_entry_split] row(1) show ?thesis by simp
  qed
qed

lemma fat_directory_accounts: "walks g (fat_directory depth g)"
proof (induction depth)
  case (Suc depth)
  then show ?case
    unfolding walks_def [of g "fat_directory (Suc depth) g"]
    by (auto intro: tree_rows_accounts [OF Suc directory_rows_length] tree_rows_grows fat_directory_grows)
qed (simp add: walks_def)

definition root_rows :: "fat_geometry \<Rightarrow> fat_bpb \<Rightarrow> nat list \<Rightarrow> bytes list" where
  "root_rows g b rcs =
     directory_rows (fg_max_nodes g)
       (if fg_variant g = FAT32 then chain_bytes g rcs
        else let start = (fb_reserved b + fb_copies b * fb_fat_size b) * fb_bps b
             in pyslice (fg_data g) start (start + bpb_root_sectors b * fb_bps b))"

text \<open>
  A sound volume: the root directory of FAT32 is a complete chain; every entry of the tree has a
  complete chain, long enough for its size and apart from the root's; entries with different paths
  share no cluster; and an allocated cluster is in one of these chains, cluster 2 of FAT32 excepted.
\<close>

definition fat_volume_sound :: "fat_geometry \<Rightarrow> fat_bpb \<Rightarrow> bool" where
  "fat_volume_sound g b \<longleftrightarrow>
     (\<exists>rcs.
        (if fg_variant g = FAT32 then fat_chain_is g (st_le32 (fg_data g) 44) rcs else rcs = [])
        \<and> (\<forall>path start wanted. fat_entry g (root_rows g b rcs) [] path start wanted \<longrightarrow>
             (\<exists>cs. fat_chain_is g start cs \<and> size_reached g wanted cs \<and> set cs \<inter> set rcs = {}))
        \<and> (\<forall>path start wanted cs path' start' wanted' cs'.
             fat_entry g (root_rows g b rcs) [] path start wanted \<and> fat_chain_is g start cs
             \<and> fat_entry g (root_rows g b rcs) [] path' start' wanted' \<and> fat_chain_is g start' cs' \<and> path \<noteq> path'
             \<longrightarrow> set cs \<inter> set cs' = {})
        \<and> (\<forall>c\<in>set (allocated_clusters g). c \<in> set rcs \<or> fg_variant g = FAT32 \<and> c = 2
             \<or> (\<exists>path start wanted cs. fat_entry g (root_rows g b rcs) [] path start wanted
                   \<and> fat_chain_is g start cs \<and> c \<in> set cs)))"

lemma root_not_entry: "\<not> fat_entry g rows [] (asc ''<root>'') start wanted"
  using fat_entry_path [of g rows "[]" "asc ''<root>''"] by (auto simp: asc_def)

lemma fat_tree_sound:
  assumes run: "fat_tree depth g b \<lparr>fv_used = (\<lambda>_. None), fv_reachable = {}, fv_findings = [], fv_dirs = {}\<rparr> = Inr st"
    and clean: "fv_findings st = []" and lost: "orphans g st = []"
    and own: "owners_ok g st"
  shows "fat_volume_sound g b"
proof -
  let ?st0 = "\<lparr>fv_used = (\<lambda>_. None), fv_reachable = {}, fv_findings = [], fv_dirs = {}\<rparr> :: fat_scan"
  obtain rcs d st1 where rcs: "if fg_variant g = FAT32 then fat_chain_is g (st_le32 (fg_data g) 44) rcs else rcs = []"
      "fv_used st1 = (\<lambda>c. if c \<in> set rcs then Some (asc ''<root>'') else None)"
    and walk: "fat_directory depth g d [] st1 = Inr st" and rows: "directory_rows (fg_max_nodes g) d = root_rows g b rcs"
  proof (cases "fg_variant g = FAT32")
    case True
    obtain out s1 where chain: "fat_chain g (st_le32 (fg_data g) 44) (asc ''<root>'') None ?st0 = (out, s1)" by fastforce
    with run True have walk: "fat_directory depth g out [] s1 = Inr st" by (simp add: fat_tree_def)
    from grows_clean [OF ensuresD [OF fat_directory_grows walk] clean] have "fv_findings s1 = []" .
    from fat_chain_clean [OF chain this] obtain cs where "fat_chain_is g (st_le32 (fg_data g) 44) cs"
      "follows g (asc ''<root>'') cs ?st0 s1" "out = chain_bytes g cs" by auto
    with True walk show ?thesis by (intro that [of cs s1 out]) (simp_all add: follows_def root_rows_def cong: if_cong)
  next
    case False
    with run show ?thesis by (intro that [of "[]" ?st0]) (auto simp: fat_tree_def root_rows_def Let_def)
  qed
  let ?entry = "fat_entry g (root_rows g b rcs) []"
  have acc: "accounts g ?entry st1 st"
    using fat_directory_accounts [of g depth] walk clean unfolding walks_def rows [symmetric] by blast
  have root_kept: "fv_used st c = Some (asc ''<root>'')" if "c \<in> set rcs" for c
  proof -
    have "fv_used st1 \<subseteq>\<^sub>m fv_used st" using acc by (simp add: accounts_def)
    with that rcs(2) show ?thesis by (auto simp: map_le_def dom_def)
  qed
  have owned: "\<exists>cs. fat_chain_is g start cs \<and> size_reached g wanted cs \<and> (\<forall>c\<in>set cs. fv_used st c = Some path)"
    if "?entry path start wanted" for path start wanted
    using acc that by (simp add: accounts_def)
  have owner: "fv_used st c = Some path" if "?entry path start wanted" "fat_chain_is g start cs" "c \<in> set cs" for path start wanted cs c
    using owned [OF that(1)] fat_chain_unique [OF that(2)] that(3) by blast
  have "\<exists>cs. fat_chain_is g start cs \<and> size_reached g wanted cs \<and> set cs \<inter> set rcs = {}"
    if e: "?entry path start wanted" for path start wanted
    using owned [OF e] root_kept root_not_entry e by (metis disjoint_iff option.inject)
  moreover have "set cs \<inter> set cs' = {}"
    if "?entry path start wanted" "fat_chain_is g start cs" "?entry path' start' wanted'" "fat_chain_is g start' cs'" "path \<noteq> path'"
    for path start wanted cs path' start' wanted' cs'
    using owner [OF that(1,2)] owner [OF that(3,4)] that(5) by fastforce
  moreover have "c \<in> set rcs \<or> fg_variant g = FAT32 \<and> c = 2
      \<or> (\<exists>path start wanted cs. ?entry path start wanted \<and> fat_chain_is g start cs \<and> c \<in> set cs)"
    if "c \<in> set (allocated_clusters g)" for c
  proof (cases "fg_variant g = FAT32 \<and> c = 2")
    case False
    with lost that own have "fv_used st c \<noteq> None"
      by (auto simp: orphans_def filter_empty_conv owners_ok_def)
    with acc rcs(2) show ?thesis unfolding accounts_def by (metis (full_types))
  qed simp
  ultimately show ?thesis
    unfolding fat_volume_sound_def using rcs(1) by (intro exI [of _ rcs]) blast
qed

definition fat_accepted :: "nat \<Rightarrow> bytes \<Rightarrow> bool" where
  "fat_accepted max_nodes data \<longleftrightarrow>
     (\<exists>b. fat_bpb_of data = Inr b \<and> bpb_valid data b \<and> (fb_copies b < 2 \<or> fat_copy data b 0 = fat_copy data b 1)
        \<and> fat_volume_sound (geometry_of max_nodes data b) b)"

lemma fat_valid: "ensures (\<lambda>v. if sv_state v = VALID then fat_accepted max_nodes data else True) (fat_validate c depth max_nodes data)"
  unfolding fat_validate_def Let_def
proof (rule ensures_bindE, rule ensures_if, simp, rule ensures_bindE)
  fix b st
  let ?g = "geometry_of max_nodes data b"
  let ?copies = "fb_copies b < 2 \<or> fat_copy data b 0 = fat_copy data b 1"
  let ?start = "\<lambda>fs. \<lparr>fv_used = (\<lambda>_. None), fv_reachable = {}, fv_findings = fs, fv_dirs = {}\<rparr>"
  assume b: "fat_bpb_of data = Inr b" and v: "\<not> \<not> bpb_valid data b"
    and run: "fat_tree depth ?g b (?start (if ?copies then [] else [''FAT_COPIES_MISMATCH''])) = Inr st"
  have own: "owners_ok ?g st"
    by (rule ensuresD [OF fat_tree_owners run]) (simp add: owners_ok_def)
  have copies: "fv_findings st \<noteq> []" if "\<not> ?copies"
    using ensuresD [OF fat_tree_grows run] that by (auto simp: grows_def)
  have "fat_accepted max_nodes data" if f: "fv_findings st = []" and o': "orphans ?g st = []"
  proof -
    have c: ?copies using copies f by blast
    with run have "fat_tree depth ?g b (?start []) = Inr st" by simp
    from fat_tree_sound [OF this f o' own] b v c show ?thesis by (auto simp: fat_accepted_def)
  qed
  then show "ensures (\<lambda>v. if sv_state v = VALID then fat_accepted max_nodes data else True)
     (Inr (validation_result c ''FAT'' (Some (variant_name (bpb_variant b)))
        (if fv_findings st @ (if orphans ?g st \<noteq> [] then [''FAT_ORPHAN_CLUSTERS_PRESENT''] else []) = [] then VALID else DAMAGED)
        ([(''FAT_BPB_VALID'', PBool (bpb_valid data b)), (''FAT_VARIANT'', PAsc (variant_name (bpb_variant b)))]
         @ [(''FAT_COPIES_CONSISTENT'', PBool ?copies),
            (''FAT_CHAIN_VALID'', PBool (\<not> list_ex (\<lambda>f. substring ''CHAIN'' f \<or> substring ''CLUSTER'' f) (fv_findings st))),
            (''FAT_ORPHAN_CLUSTERS'', PNat (length (orphans ?g st)))])
        (fv_findings st @ (if orphans ?g st \<noteq> [] then [''FAT_ORPHAN_CLUSTERS_PRESENT''] else [])) ''COMPLETE''))"
    by (simp split: if_splits)
qed

subsection \<open>Two limits of the validators\<close>

text \<open>An LHA archive is called valid although the member limit kept the validator from reading it.\<close>

lemma lha_limit_is_silent: "map_sum id sv_state (lha_validate c 0 data) = Inr VALID"
  by (simp add: lha_validate_def lha_members.simps validation_result_def Let_def)

text \<open>A logical block size of 0 in the descriptor and a zero byte in the root directory: an uncaught division.\<close>

lemma iso_zero_block_size: "iso_rows (0 # directory) 0 n 0 nodes pending findings = Inl ZeroDivisionError"
  by (simp add: iso_rows.simps)

definition sample_item :: lha_item where
  "sample_item = \<lparr>li_meta = replicate 10 0, li_name = ascb ''A'', li_payload = ascb ''hello''\<rparr>"

subsection \<open>Properties of structural validation\<close>

text \<open>
  The validator never claims more than it found. A validation with findings is never \<open>VALID\<close>;
  one without is \<open>VALID\<close> or, for an Amiga disk of a variant that is not walked, \<open>NON_STANDARD\<close>;
  every other state carries an assessment. It names the artifact's digest, and neither a finding
  nor the analyzer's result carries a security verdict.
\<close>

lemma structural_never_overclaims:
  "case structural_validate va c data of
     Inl _ \<Rightarrow> True
   | Inr None \<Rightarrow> True
   | Inr (Some v) \<Rightarrow>
       (if sv_findings v = [] then sv_state v \<in> {VALID, NON_STANDARD} else sv_state v \<noteq> VALID)
       \<and> (sv_state v = VALID \<longleftrightarrow> sv_assessments v = [])
       \<and> sv_source_sha256 v = h_sha256 (a_hashes (vc_artifact c))
       \<and> list_all (\<lambda>f. f_normalized_verdict f = None) (sv_findings v)
       \<and> ar_normalized_verdict (structural_result started completed elapsed (Some v)) = None"
  using structural_sound [of c va data]
  by (auto simp: ensures_def sound_validation_def structural_result_def split: sum.splits option.splits)

text \<open>
  C31: validating any bytes ends, no index of a validator leaves what it reads, and of all exceptions
  only two escape: the \<open>RecursionError\<close> of too deep a directory tree, in data that starts like an
  Amiga disk or carries the boot signature of a FAT volume, and the \<open>ZeroDivisionError\<close> of a block
  size of 0, in an ISO 9660 image. Damaged chains, loops and tables are findings; the fuel of the hash
  chains never runs out.
\<close>

theorem structural_contained:
  "case structural_validate va c data of
     Inr _ \<Rightarrow> True
   | Inl e \<Rightarrow> e = RecursionError \<and> tree_walked data \<or> e = ZeroDivisionError \<and> iso_marked data"
  using structural_escapes [of data va c] by (simp add: raises_only_def validation_escape_def split: sum.splits)


text \<open>
  C15: an archive of \<open>-lh0-\<close> members written by the rules of the format (sizes, header sum,
  little-endian fields, CRC-16 of the payload), followed by nothing or a zero byte, is found
  \<open>VALID\<close> with exactly its members, as long as they keep the node limit.
\<close>

theorem lha_archive_accepted:
  assumes "list_all lha_item_ok items" and "length items \<le> max_nodes" and "tail = [] \<or> hd tail = 0"
  shows "map_sum id sv_state (lha_validate c max_nodes (lha_archive items @ tail)) = Inr VALID
     \<and> map_sum id fst (lha_members (lha_archive items @ tail) max_nodes 0 0) = Inr (length items)"
  using assms by (rule lha_archive_valid)

theorem lha_archive_accepted_witness:
  "map_sum id fst (lha_members (lha_archive [sample_item, sample_item] @ [0]) 9 0 0) = Inr 2"
proof -
  have "list_all lha_item_ok [sample_item, sample_item]"
    by (simp add: lha_item_ok_def sample_item_def ascb_def)
  then show ?thesis using lha_archive_accepted [of "[sample_item, sample_item]" 9 "[0]"] by simp
qed

text \<open>
  C16: the two bit-level checksums mean what they should. The boot block's loop with its carry test
  accepts exactly the 1024-byte blocks whose 256 big-endian words have a non-zero sum divisible by
  \<open>2 ^ 32 - 1\<close>; the CRC-16 is the one of the published variant (its check value is \<open>0xBB3D\<close>); and no
  change of a single byte of a member leaves it as it was.
\<close>

theorem checksums_exact:
  "(amiga_boot_checksum block \<longleftrightarrow>
      length block = 1024 \<and> sum_list (be_words 256 block 0) \<noteq> 0 \<and> (2 ^ 32 - 1) dvd sum_list (be_words 256 block 0))
   \<and> crc16 (ascb ''123456789'') = 0xBB3D
   \<and> (crc16 (xs @ a # ys) = crc16 (xs @ b # ys) \<longleftrightarrow> a = b)"
  using boot_checksum_iff crc16_check_value crc16_one_byte by blast


end
