(* ===== verification/Settings.thy ===== *)
theory Settings
  imports Models
begin

section \<open>Settings: \<open>config/settings.py\<close>\<close>

text \<open>
  The configuration as records, the bounds that pydantic checks on every field, the two validators
  that guard what the service exposes (\<open>APISettings\<close>) and what it trusts
  (\<open>RABCorrelationSettings\<close>), and \<open>from_yaml\<close>. A path is its text; a float is a rational.
\<close>

record path_settings =
  ps_state :: pystr
  ps_staging :: pystr
  ps_jobs :: pystr
  ps_quarantine :: pystr
  ps_scratch :: pystr
  ps_raw_output :: pystr
  ps_rules :: pystr
  ps_registry :: pystr

record storage_settings =
  st_sqlite_path :: pystr
  st_clean_bytes_retention_hours :: int
  st_minimum_free_gib :: int

record quarantine_settings =
  qs_enabled :: bool
  qs_content_addressed :: bool
  qs_immutable_after_admission :: bool

record runtime_settings =
  rt_worker_concurrency :: int
  rt_default_timeout_seconds :: int
  rt_memory_limit_mib :: int
  rt_maximum_file_bytes :: int
  rt_use_bubblewrap :: bool
  rt_default_file_detectors :: "pystr list"
  rt_strings_min_length :: int
  rt_strings_max_length :: int
  rt_strings_max_count :: int
  rt_strings_max_total_chars :: int
  rt_strings_max_source_bytes :: int
  rt_metadata_max_fields :: int
  rt_metadata_max_value_length :: int
  rt_metadata_max_total_chars :: int
  rt_max_recursion_depth :: int
  rt_max_children_per_object :: int
  rt_max_total_children :: int
  rt_max_single_child_bytes :: int
  rt_max_total_extracted_bytes :: int
  rt_max_expansion_ratio :: rat
  rt_max_member_name_bytes :: int
  rt_max_path_depth :: int
  rt_max_extraction_time_seconds :: int
  rt_max_partitions_per_disk :: int
  rt_max_materialized_partition_bytes :: int
  rt_max_total_materialized_partition_bytes :: int
  rt_max_executable_parser_bytes :: int
  rt_max_document_parser_bytes :: int
  rt_max_document_components :: int
  rt_max_document_xml_depth :: int
  rt_max_rtf_group_depth :: int
  rt_max_structural_validation_bytes :: int
  rt_max_structural_validation_nodes :: int

record api_settings =
  api_host :: string
  api_port :: int
  api_explicit_lan_exposure :: bool

record logging_settings =
  lg_level :: string
  lg_json_output :: bool

record preservation_settings =
  pr_external_manifests_enabled :: bool
  pr_bootstrap_import_enabled :: bool

record rab_export_settings =
  re_enabled :: bool
  re_endpoint :: "pystr option"
  re_export_directory :: pystr

record rab_correlation_settings =
  rc_enabled :: bool
  rc_endpoint :: "pystr option"
  rc_credential_file :: "pystr option"
  rc_provider_id :: pystr
  rc_provider_version :: pystr
  rc_connect_timeout_seconds :: rat
  rc_request_timeout_seconds :: rat
  rc_total_deadline_seconds :: rat
  rc_maximum_response_bytes :: int
  rc_max_exact_records :: int
  rc_max_occurrences :: int
  rc_max_similarity_candidates :: int
  rc_max_provenance_records :: int
  rc_max_metadata_string_length :: int
  rc_max_correlated_objects_per_job :: int
  rc_max_similarity_queries_per_job :: int

record rab_protocol_settings =
  rp_enabled :: bool
  rp_credential_file :: pystr
  rp_profiles_file :: pystr
  rp_upload_root :: pystr
  rp_maximum_upload_bytes :: int
  rp_queue_capacity :: int
  rp_worker_concurrency :: int

record app_settings =
  app_paths :: path_settings
  app_storage :: storage_settings
  app_quarantine :: quarantine_settings
  app_runtime :: runtime_settings
  app_api :: api_settings
  app_web_enabled :: bool
  app_logging :: logging_settings
  app_preservation :: preservation_settings
  app_rab :: rab_export_settings
  app_rab_correlation :: rab_correlation_settings
  app_rab_protocol :: rab_protocol_settings

subsection \<open>Defaults\<close>

definition default_storage :: "pystr \<Rightarrow> storage_settings" where
  "default_storage p = \<lparr>st_sqlite_path = p, st_clean_bytes_retention_hours = 0, st_minimum_free_gib = 5\<rparr>"

definition default_quarantine :: quarantine_settings where
  "default_quarantine = \<lparr>qs_enabled = True, qs_content_addressed = True, qs_immutable_after_admission = True\<rparr>"

definition default_runtime :: runtime_settings where
  "default_runtime =
     \<lparr>rt_worker_concurrency = 2, rt_default_timeout_seconds = 300, rt_memory_limit_mib = 1024,
      rt_maximum_file_bytes = 1024 * 1024 * 1024, rt_use_bubblewrap = True,
      rt_default_file_detectors = map asc [''clamav'', ''yara'', ''yara-x'', ''loki'', ''maldet''],
      rt_strings_min_length = 4, rt_strings_max_length = 4096, rt_strings_max_count = 2000,
      rt_strings_max_total_chars = 200000, rt_strings_max_source_bytes = 16 * 1024 * 1024,
      rt_metadata_max_fields = 256, rt_metadata_max_value_length = 4096, rt_metadata_max_total_chars = 200000,
      rt_max_recursion_depth = 3, rt_max_children_per_object = 100, rt_max_total_children = 1000,
      rt_max_single_child_bytes = 64 * 1024 * 1024, rt_max_total_extracted_bytes = 512 * 1024 * 1024,
      rt_max_expansion_ratio = 100, rt_max_member_name_bytes = 4096, rt_max_path_depth = 32,
      rt_max_extraction_time_seconds = 300, rt_max_partitions_per_disk = 32,
      rt_max_materialized_partition_bytes = 256 * 1024 * 1024,
      rt_max_total_materialized_partition_bytes = 512 * 1024 * 1024,
      rt_max_executable_parser_bytes = 64 * 1024 * 1024, rt_max_document_parser_bytes = 64 * 1024 * 1024,
      rt_max_document_components = 10000, rt_max_document_xml_depth = 64, rt_max_rtf_group_depth = 256,
      rt_max_structural_validation_bytes = 256 * 1024 * 1024, rt_max_structural_validation_nodes = 100000\<rparr>"

definition default_api :: api_settings where
  "default_api = \<lparr>api_host = ''127.0.0.1'', api_port = 8080, api_explicit_lan_exposure = False\<rparr>"

definition default_logging :: logging_settings where
  "default_logging = \<lparr>lg_level = ''INFO'', lg_json_output = True\<rparr>"

definition default_preservation_settings :: preservation_settings where
  "default_preservation_settings = \<lparr>pr_external_manifests_enabled = True, pr_bootstrap_import_enabled = True\<rparr>"

definition default_rab_correlation :: rab_correlation_settings where
  "default_rab_correlation =
     \<lparr>rc_enabled = False, rc_endpoint = None, rc_credential_file = None, rc_provider_id = asc ''production-rab'',
      rc_provider_version = asc ''1'', rc_connect_timeout_seconds = 2, rc_request_timeout_seconds = 10,
      rc_total_deadline_seconds = 30, rc_maximum_response_bytes = 1024 * 1024, rc_max_exact_records = 20,
      rc_max_occurrences = 100, rc_max_similarity_candidates = 20, rc_max_provenance_records = 50,
      rc_max_metadata_string_length = 4096, rc_max_correlated_objects_per_job = 1000,
      rc_max_similarity_queries_per_job = 100\<rparr>"

subsection \<open>Validation\<close>

text \<open>\<open>Field(ge=lo, le=hi)\<close>.\<close>

definition in_range :: "'a::linorder \<Rightarrow> 'a \<Rightarrow> 'a \<Rightarrow> bool" where
  "in_range lo hi v \<longleftrightarrow> lo \<le> v \<and> v \<le> hi"

definition storage_fields_ok :: "storage_settings \<Rightarrow> bool" where
  "storage_fields_ok s \<longleftrightarrow> 0 \<le> st_clean_bytes_retention_hours s \<and> 1 \<le> st_minimum_free_gib s"

definition runtime_fields_ok :: "runtime_settings \<Rightarrow> bool" where
  "runtime_fields_ok s \<longleftrightarrow>
     in_range 1 64 (rt_worker_concurrency s) \<and> 1 \<le> rt_default_timeout_seconds s \<and> 64 \<le> rt_memory_limit_mib s
     \<and> 1 \<le> rt_maximum_file_bytes s \<and> in_range 2 1024 (rt_strings_min_length s) \<and> in_range 4 65536 (rt_strings_max_length s)
     \<and> in_range 1 100000 (rt_strings_max_count s) \<and> in_range 64 10000000 (rt_strings_max_total_chars s)
     \<and> 1024 \<le> rt_strings_max_source_bytes s \<and> in_range 1 10000 (rt_metadata_max_fields s)
     \<and> in_range 32 1000000 (rt_metadata_max_value_length s) \<and> in_range 128 10000000 (rt_metadata_max_total_chars s)
     \<and> in_range 0 32 (rt_max_recursion_depth s) \<and> in_range 1 10000 (rt_max_children_per_object s)
     \<and> in_range 1 100000 (rt_max_total_children s) \<and> 1 \<le> rt_max_single_child_bytes s \<and> 1 \<le> rt_max_total_extracted_bytes s
     \<and> in_range 1 1000000 (rt_max_expansion_ratio s) \<and> in_range 1 65536 (rt_max_member_name_bytes s)
     \<and> in_range 1 256 (rt_max_path_depth s) \<and> 1 \<le> rt_max_extraction_time_seconds s
     \<and> in_range 1 256 (rt_max_partitions_per_disk s) \<and> 1 \<le> rt_max_materialized_partition_bytes s
     \<and> 1 \<le> rt_max_total_materialized_partition_bytes s \<and> 1024 \<le> rt_max_executable_parser_bytes s
     \<and> 1024 \<le> rt_max_document_parser_bytes s \<and> in_range 1 100000 (rt_max_document_components s)
     \<and> in_range 1 1024 (rt_max_document_xml_depth s) \<and> in_range 1 10000 (rt_max_rtf_group_depth s)
     \<and> 1024 \<le> rt_max_structural_validation_bytes s \<and> in_range 1 10000000 (rt_max_structural_validation_nodes s)"

definition logging_fields_ok :: "logging_settings \<Rightarrow> bool" where
  "logging_fields_ok s \<longleftrightarrow> lg_level s \<in> {''DEBUG'', ''INFO'', ''WARNING'', ''ERROR'', ''CRITICAL''}"

definition rab_correlation_fields_ok :: "rab_correlation_settings \<Rightarrow> bool" where
  "rab_correlation_fields_ok s \<longleftrightarrow>
     0 < rc_connect_timeout_seconds s \<and> rc_connect_timeout_seconds s \<le> 60
     \<and> 0 < rc_request_timeout_seconds s \<and> rc_request_timeout_seconds s \<le> 300
     \<and> 0 < rc_total_deadline_seconds s \<and> rc_total_deadline_seconds s \<le> 600
     \<and> in_range 1024 (16 * 1024 * 1024) (rc_maximum_response_bytes s) \<and> in_range 1 1000 (rc_max_exact_records s)
     \<and> in_range 1 10000 (rc_max_occurrences s) \<and> in_range 1 1000 (rc_max_similarity_candidates s)
     \<and> in_range 1 1000 (rc_max_provenance_records s) \<and> in_range 32 65536 (rc_max_metadata_string_length s)
     \<and> in_range 1 100000 (rc_max_correlated_objects_per_job s) \<and> in_range 0 100000 (rc_max_similarity_queries_per_job s)"

definition rab_protocol_fields_ok :: "rab_protocol_settings \<Rightarrow> bool" where
  "rab_protocol_fields_ok s \<longleftrightarrow>
     1 \<le> rp_maximum_upload_bytes s \<and> in_range 1 10000 (rp_queue_capacity s) \<and> in_range 1 16 (rp_worker_concurrency s)"

text \<open>
  \<open>ip_address\<close>: an IPv4 address is four decimal numbers below 256 without leading zeros; what an
  IPv6 text means is the parameter \<open>v6\<close> (\<open>None\<close> when it is not an address, else whether it is a
  loopback address).
\<close>

fun split_char :: "char \<Rightarrow> string \<Rightarrow> string \<Rightarrow> string list" where
  "split_char c cur [] = [rev cur]"
| "split_char c cur (x # xs) = (if x = c then rev cur # split_char c [] xs else split_char c (x # cur) xs)"

definition ascii_digit :: "char \<Rightarrow> bool" where
  "ascii_digit c \<longleftrightarrow> (let n = of_char c :: nat in 48 \<le> n \<and> n \<le> 57)"

definition decimal_value :: "string \<Rightarrow> nat" where
  "decimal_value s = foldl (\<lambda>acc c. 10 * acc + (of_char c - 48)) 0 s"

definition octet :: "string \<Rightarrow> nat option" where
  "octet s =
     (if s \<noteq> [] \<and> list_all ascii_digit s \<and> length s \<le> 3 \<and> (s = ''0'' \<or> hd s \<noteq> CHR ''0'') \<and> decimal_value s \<le> 255
      then Some (decimal_value s) else None)"

definition ipv4 :: "string \<Rightarrow> nat list option" where
  "ipv4 s =
     (let parts = split_char (CHR ''.'') [] s; octets = map octet parts
      in if length parts = 4 \<and> list_all (\<lambda>v. v \<noteq> None) octets then Some (map the octets) else None)"

definition is_loopback :: "(string \<Rightarrow> bool option) \<Rightarrow> string \<Rightarrow> bool option" where
  "is_loopback v6 host = (case ipv4 host of Some octets \<Rightarrow> Some (hd octets = 127) | None \<Rightarrow> v6 host)"

definition require_explicit_lan_opt_in :: "(string \<Rightarrow> bool option) \<Rightarrow> api_settings \<Rightarrow> api_settings res" where
  "require_explicit_lan_opt_in v6 s =
     (case is_loopback v6 (api_host s) of
        None \<Rightarrow> Inl (ValueError ''does not appear to be an IPv4 or IPv6 address'')
      | Some loopback \<Rightarrow>
          if \<not> loopback \<and> \<not> api_explicit_lan_exposure s
          then Inl (ValueError ''non-loopback API binding requires explicit_lan_exposure=true'')
          else Inr s)"

definition require_trusted_endpoint :: "rab_correlation_settings \<Rightarrow> rab_correlation_settings res" where
  "require_trusted_endpoint s =
     (if rc_enabled s then
        (if \<not> (case rc_endpoint s of None \<Rightarrow> False | Some url \<Rightarrow>
               url \<noteq> [] \<and> (starts_with (asc ''https://'') url \<or> starts_with (asc ''http://127.0.0.1'') url))
         then Inl (ValueError ''enabled RAB correlation requires configured HTTPS endpoint'')
         else if rc_credential_file s = None
         then Inl (ValueError ''enabled RAB correlation requires credential_file'')
         else Inr s)
      else Inr s)"

text \<open>
  A model is built when its fields pass, and then its validator; pydantic reports every failure,
  a \<open>ValueError\<close> of a validator included, as \<open>ValidationError\<close>.
\<close>

definition validated :: "bool \<Rightarrow> 'a res \<Rightarrow> 'a res" where
  "validated fields_ok r = (if \<not> fields_ok then Inl ValidationError else case r of Inl _ \<Rightarrow> Inl ValidationError | Inr s \<Rightarrow> Inr s)"

definition validate_api :: "(string \<Rightarrow> bool option) \<Rightarrow> api_settings \<Rightarrow> api_settings res" where
  "validate_api v6 s = validated (in_range 1 65535 (api_port s)) (require_explicit_lan_opt_in v6 s)"

definition validate_rab_correlation :: "rab_correlation_settings \<Rightarrow> rab_correlation_settings res" where
  "validate_rab_correlation s = validated (rab_correlation_fields_ok s) (require_trusted_endpoint s)"

definition validate_app :: "(string \<Rightarrow> bool option) \<Rightarrow> app_settings \<Rightarrow> app_settings res" where
  "validate_app v6 s =
     bindE (validate_api v6 (app_api s)) (\<lambda>_.
     bindE (validate_rab_correlation (app_rab_correlation s)) (\<lambda>_.
     validated (storage_fields_ok (app_storage s) \<and> runtime_fields_ok (app_runtime s) \<and> logging_fields_ok (app_logging s)
         \<and> rab_protocol_fields_ok (app_rab_protocol s)) (Inr s)))"

text \<open>
  \<open>from_yaml\<close>: \<open>load\<close> is \<open>yaml.safe_load\<close> and \<open>typed\<close> reads the mapping into the typed fields.
\<close>

definition from_yaml ::
  "(string \<Rightarrow> bool option) \<Rightarrow> (bytes \<Rightarrow> pyval res) \<Rightarrow> (pyval \<Rightarrow> app_settings res) \<Rightarrow> bytes \<Rightarrow> app_settings res" where
  "from_yaml v6 load typed stream =
     bindE (load stream) (\<lambda>data.
     case data of
       PDict _ \<Rightarrow> bindE (typed data) (validate_app v6)
     | _ \<Rightarrow> Inl (ValueError ''configuration root must be a mapping''))"

subsection \<open>The container budget\<close>

definition budget_of :: "runtime_settings \<Rightarrow> extraction_budget" where
  "budget_of s =
     \<lparr>b_max_recursion_depth = nat (rt_max_recursion_depth s),
      b_max_children_per_object = nat (rt_max_children_per_object s),
      b_max_total_children = nat (rt_max_total_children s),
      b_max_single_child_bytes = nat (rt_max_single_child_bytes s),
      b_max_total_extracted_bytes = nat (rt_max_total_extracted_bytes s),
      b_max_expansion_ratio = rt_max_expansion_ratio s,
      b_max_member_name_bytes = nat (rt_max_member_name_bytes s),
      b_max_path_depth = nat (rt_max_path_depth s),
      b_max_extraction_time_seconds = nat (rt_max_extraction_time_seconds s),
      b_max_partitions_per_disk = nat (rt_max_partitions_per_disk s),
      b_max_materialized_partition_bytes = nat (rt_max_materialized_partition_bytes s),
      b_max_total_materialized_partition_bytes = nat (rt_max_total_materialized_partition_bytes s)\<rparr>"

subsection \<open>What validation guarantees\<close>

lemma validated_Inr [simp]: "validated ok r = Inr s \<longleftrightarrow> ok \<and> r = Inr s"
  by (auto simp: validated_def split: sum.splits)

lemma validate_app_same: "validate_app v6 s = Inr s' \<Longrightarrow> s' = s"
  by (auto simp: validate_app_def)

text \<open>The shipped defaults are accepted.\<close>

lemma defaults_valid:
  "storage_fields_ok (default_storage p)" "runtime_fields_ok default_runtime" "logging_fields_ok default_logging"
  "rab_correlation_fields_ok default_rab_correlation" "require_trusted_endpoint default_rab_correlation = Inr default_rab_correlation"
  by (simp_all add: storage_fields_ok_def default_storage_def runtime_fields_ok_def default_runtime_def in_range_def
      logging_fields_ok_def default_logging_def rab_correlation_fields_ok_def default_rab_correlation_def
      require_trusted_endpoint_def)

definition exposure_ok :: "(string \<Rightarrow> bool option) \<Rightarrow> app_settings \<Rightarrow> bool" where
  "exposure_ok v6 s \<longleftrightarrow>
     api_explicit_lan_exposure (app_api s)
     \<or> (case ipv4 (api_host (app_api s)) of Some octets \<Rightarrow> hd octets = 127 | None \<Rightarrow> v6 (api_host (app_api s)) = Some True)"

definition correlation_ok :: "app_settings \<Rightarrow> bool" where
  "correlation_ok s \<longleftrightarrow>
     (if rc_enabled (app_rab_correlation s) then
        rc_credential_file (app_rab_correlation s) \<noteq> None
        \<and> (case rc_endpoint (app_rab_correlation s) of None \<Rightarrow> False
           | Some url \<Rightarrow> starts_with (asc ''https://'') url \<or> starts_with (asc ''http://127.0.0.1'') url)
      else True)"

lemma validate_app_ok:
  assumes "validate_app v6 s = Inr s'"
  shows "exposure_ok v6 s' \<and> correlation_ok s' \<and> runtime_fields_ok (app_runtime s')"
proof -
  from assms validate_app_same [OF assms]
  have "require_explicit_lan_opt_in v6 (app_api s') = Inr (app_api s')"
    and rest: "require_trusted_endpoint (app_rab_correlation s') = Inr (app_rab_correlation s')" "runtime_fields_ok (app_runtime s')"
    by (auto simp: validate_app_def validate_api_def validate_rab_correlation_def require_explicit_lan_opt_in_def
        require_trusted_endpoint_def split: option.splits if_splits)
  then have "exposure_ok v6 s'"
    by (auto simp: require_explicit_lan_opt_in_def exposure_ok_def is_loopback_def split: option.splits if_splits)
  moreover from rest have "correlation_ok s'"
    by (auto simp: require_trusted_endpoint_def correlation_ok_def split: option.splits if_splits)
  ultimately show ?thesis using rest by simp
qed


text \<open>The endpoint test is a prefix test: a host that only starts like the loopback address passes.\<close>

lemma prefix_endpoint_accepted:
  "require_trusted_endpoint (default_rab_correlation\<lparr>rc_enabled := True, rc_credential_file := Some (asc ''token''),
      rc_endpoint := Some (asc ''http://127.0.0.1.example.org'')\<rparr>)
   = Inr (default_rab_correlation\<lparr>rc_enabled := True, rc_credential_file := Some (asc ''token''),
      rc_endpoint := Some (asc ''http://127.0.0.1.example.org'')\<rparr>)"
  by (simp add: require_trusted_endpoint_def default_rab_correlation_def starts_with_def asc_def)

end
