(* ===== verification/Patterns.thy ===== *)
theory Patterns
  imports Prelude "HOL-Library.Sublist"
begin

section \<open>Regular expressions: the patterns of \<open>re\<close>\<close>

text \<open>
  A backtracking matcher for the constructs of Python's \<open>re\<close> that the document parsers use, the
  searches built on it, and the proof that it finds exactly what the patterns mean.
\<close>

subsection \<open>Patterns and how they are matched\<close>

text \<open>
  The constructs of Python's \<open>re\<close> that the program's patterns use. A repetition is always over one
  character class; \<open>Lazily\<close> is \<open>*?\<close>, \<open>Edge\<close> is \<open>\b\<close> with the word characters given, and the two
  line anchors are those of \<open>re.MULTILINE\<close>.
\<close>

datatype 'a rx =
    Eps
  | One "'a \<Rightarrow> bool"
  | Opt "'a rx"
  | Many "'a \<Rightarrow> bool" nat
  | Lazily "'a \<Rightarrow> bool"
  | Seq "'a rx" "'a rx"
  | Alt "'a rx" "'a rx"
  | Group "'a rx"
  | Edge "'a \<Rightarrow> bool"
  | Line_Start 'a
  | Line_End 'a
  | Not_Next "'a \<Rightarrow> bool"

text \<open>Where a match is: what was read (in reverse), what is ahead, and the groups closed so far.\<close>

type_synonym 'a cursor = "'a list \<times> 'a list \<times> 'a list list"

definition advance :: "nat \<Rightarrow> 'a cursor \<Rightarrow> 'a cursor" where
  "advance n c = (case c of (done_part, ahead, gs) \<Rightarrow> (rev (take n ahead) @ done_part, drop n ahead, gs))"

definition next_is :: "('a \<Rightarrow> bool) \<Rightarrow> 'a list \<Rightarrow> bool" where
  "next_is p xs = (case xs of [] \<Rightarrow> False | x # _ \<Rightarrow> p x)"

definition run_length :: "('a \<Rightarrow> bool) \<Rightarrow> 'a cursor \<Rightarrow> nat" where
  "run_length p c = length (takeWhile p (fst (snd c)))"

text \<open>
  Backtracking: all the ways a pattern can match at a place, the preferred one first. A greedy
  repetition prefers the longest run, a lazy one the shortest.
\<close>

fun rx_run :: "'a rx \<Rightarrow> 'a cursor \<Rightarrow> 'a cursor list" where
  "rx_run Eps c = [c]"
| "rx_run (One p) c = (if next_is p (fst (snd c)) then [advance 1 c] else [])"
| "rx_run (Opt r) c = rx_run r c @ [c]"
| "rx_run (Many p n) c = map (\<lambda>k. advance k c) (rev [n..<Suc (run_length p c)])"
| "rx_run (Lazily p) c = map (\<lambda>k. advance k c) [0..<Suc (run_length p c)]"
| "rx_run (Seq r s) c = concat (map (rx_run s) (rx_run r c))"
| "rx_run (Alt r s) c = rx_run r c @ rx_run s c"
| "rx_run (Group r) c =
     map (\<lambda>(b, a, gs). (b, a, gs @ [take (length (fst (snd c)) - length a) (fst (snd c))])) (rx_run r c)"
| "rx_run (Edge w) c = (if next_is w (fst c) \<noteq> next_is w (fst (snd c)) then [c] else [])"
| "rx_run (Line_Start x) c = (if fst c = [] \<or> next_is ((=) x) (fst c) then [c] else [])"
| "rx_run (Line_End x) c = (if fst (snd c) = [] \<or> next_is ((=) x) (fst (snd c)) then [c] else [])"
| "rx_run (Not_Next p) c = (if next_is p (fst (snd c)) then [] else [c])"

fun literal :: "'a list \<Rightarrow> 'a rx" where
  "literal [] = Eps"
| "literal (x # xs) = Seq (One ((=) x)) (literal xs)"

text \<open>A pattern as the list of its parts.\<close>

fun sequence :: "'a rx list \<Rightarrow> 'a rx" where
  "sequence [] = Eps"
| "sequence [r] = r"
| "sequence (r # rs) = Seq r (sequence rs)"

text \<open>\<open>re.match\<close> and \<open>re.search\<close>.\<close>

definition rx_match :: "'a rx \<Rightarrow> 'a list \<Rightarrow> 'a list \<Rightarrow> 'a cursor option" where
  "rx_match r behind ahead = (case rx_run r (behind, ahead, []) of [] \<Rightarrow> None | c # _ \<Rightarrow> Some c)"

fun rx_search :: "'a rx \<Rightarrow> 'a list \<Rightarrow> 'a list \<Rightarrow> 'a cursor option" where
  "rx_search r behind [] = rx_match r behind []"
| "rx_search r behind (x # xs) =
     (case rx_match r behind (x # xs) of Some c \<Rightarrow> Some c | None \<Rightarrow> rx_search r (x # behind) xs)"

text \<open>
  \<open>re.finditer\<close> for a pattern that never matches the empty string: the matched texts with their
  groups, each search going on where the last match ended.
\<close>

function rx_all :: "'a rx \<Rightarrow> 'a list \<Rightarrow> 'a list \<Rightarrow> ('a list \<times> 'a list list) list" where
  "rx_all r behind [] = []"
| "rx_all r behind (x # xs) =
     (case rx_match r behind (x # xs) of
        Some (b, a, gs) \<Rightarrow>
          if length a < length (x # xs) then (take (length (x # xs) - length a) (x # xs), gs) # rx_all r b a
          else rx_all r (x # behind) xs
      | None \<Rightarrow> rx_all r (x # behind) xs)"
  by pat_completeness auto
termination by (relation "measure (\<lambda>(r, b, a). length a)") auto

definition found :: "'a rx \<Rightarrow> 'a list \<Rightarrow> bool" where
  "found r xs \<longleftrightarrow> rx_search r [] xs \<noteq> None"

definition rx_texts :: "'a rx \<Rightarrow> 'a list \<Rightarrow> 'a list list" where
  "rx_texts r xs = map fst (rx_all r [] xs)"

definition occurrences_of :: "'a rx \<Rightarrow> 'a list \<Rightarrow> nat" where
  "occurrences_of r xs = length (rx_all r [] xs)"

text \<open>
  What a pattern means, without the order of preference: \<open>rx_lang r c c'\<close> when \<open>r\<close> can take \<open>c\<close> to
  \<open>c'\<close>.
\<close>

inductive rx_lang :: "'a rx \<Rightarrow> 'a cursor \<Rightarrow> 'a cursor \<Rightarrow> bool" where
  lang_eps: "rx_lang Eps c c"
| lang_one: "p x \<Longrightarrow> rx_lang (One p) (b, x # a, gs) (x # b, a, gs)"
| lang_opt: "rx_lang r c c' \<Longrightarrow> rx_lang (Opt r) c c'"
| lang_skip: "rx_lang (Opt r) c c"
| lang_many: "list_all p u \<Longrightarrow> n \<le> length u \<Longrightarrow> rx_lang (Many p n) (b, u @ a, gs) (rev u @ b, a, gs)"
| lang_lazily: "list_all p u \<Longrightarrow> rx_lang (Lazily p) (b, u @ a, gs) (rev u @ b, a, gs)"
| lang_seq: "rx_lang r c c' \<Longrightarrow> rx_lang s c' c'' \<Longrightarrow> rx_lang (Seq r s) c c''"
| lang_left: "rx_lang r c c' \<Longrightarrow> rx_lang (Alt r s) c c'"
| lang_right: "rx_lang s c c' \<Longrightarrow> rx_lang (Alt r s) c c'"
| lang_group: "rx_lang r (b, u @ a, gs) (rev u @ b, a, hs) \<Longrightarrow> rx_lang (Group r) (b, u @ a, gs) (rev u @ b, a, hs @ [u])"
| lang_edge: "next_is w b \<noteq> next_is w a \<Longrightarrow> rx_lang (Edge w) (b, a, gs) (b, a, gs)"
| lang_line_start: "b = [] \<or> hd b = x \<Longrightarrow> rx_lang (Line_Start x) (b, a, gs) (b, a, gs)"
| lang_line_end: "a = [] \<or> hd a = x \<Longrightarrow> rx_lang (Line_End x) (b, a, gs) (b, a, gs)"
| lang_not_next: "\<not> next_is p a \<Longrightarrow> rx_lang (Not_Next p) (b, a, gs) (b, a, gs)"

inductive_simps rx_lang_simps [simp]:
  "rx_lang Eps c c'" "rx_lang (Opt r) c c'" "rx_lang (Seq r s) c c'" "rx_lang (Alt r s) c c'"

inductive_cases lang_oneE: "rx_lang (One p) c c'"
inductive_cases lang_manyE: "rx_lang (Many p n) c c'"
inductive_cases lang_lazilyE: "rx_lang (Lazily p) c c'"
inductive_cases lang_groupE: "rx_lang (Group r) c c'"
inductive_cases lang_anchorE: "rx_lang (Edge w) c c'" "rx_lang (Line_Start x) c c'" "rx_lang (Line_End x) c c'"
  "rx_lang (Not_Next p) c c'"

text \<open>A match reads a part of what is ahead.\<close>

definition reads_to :: "'a cursor \<Rightarrow> 'a cursor \<Rightarrow> bool" where
  "reads_to c c' \<longleftrightarrow> (\<exists>u. fst (snd c) = u @ fst (snd c') \<and> fst c' = rev u @ fst c)"

lemma reads_to_simps [simp]:
  "reads_to (b, u @ a, gs) (rev u @ b, a, hs)" "reads_to (b, a, gs) (b, a, hs)" "reads_to c c"
  "reads_to (b, x # a, gs) (x # b, a, hs)"
  by (auto simp: reads_to_def intro: exI [of _ "[x]"])

lemma reads_to_trans: "reads_to c c' \<Longrightarrow> reads_to c' c'' \<Longrightarrow> reads_to c c''"
  by (auto simp: reads_to_def)

lemma rx_lang_reads: "rx_lang r c c' \<Longrightarrow> reads_to c c'"
  by (induction rule: rx_lang.induct) (auto intro: reads_to_trans)

lemma take_run: "list_all p (take k xs) \<and> k \<le> length xs \<longleftrightarrow> k \<le> length (takeWhile p xs)"
proof (induction xs arbitrary: k)
  case (Cons x xs)
  then show ?case by (cases k) auto
qed auto

lemma advance_run:
  "c' \<in> (\<lambda>k. advance k (b, a, gs)) ` {k. n \<le> k \<and> k \<le> length (takeWhile p a)}
     \<longleftrightarrow> (\<exists>u rest. a = u @ rest \<and> list_all p u \<and> n \<le> length u \<and> c' = (rev u @ b, rest, gs))"
  (is "?l \<longleftrightarrow> ?r")
proof
  assume ?l
  then obtain k where k: "n \<le> k" "k \<le> length (takeWhile p a)" "c' = advance k (b, a, gs)" by blast
  with take_run [of p k a] show ?r
    by (intro exI [of _ "take k a"] exI [of _ "drop k a"]) (simp add: advance_def)
next
  assume ?r
  then obtain u rest where u: "a = u @ rest" "list_all p u" "n \<le> length u" "c' = (rev u @ b, rest, gs)" by blast
  then have "length u \<le> length (takeWhile p a)" using take_run [of p "length u" a] by simp
  with u show ?l by (auto simp: advance_def intro!: image_eqI [of _ _ "length u"])
qed

lemma runs_set:
  "set (map f (rev [n..<Suc m])) = f ` {k. n \<le> k \<and> k \<le> m}"
  "set (map f [0..<Suc m]) = f ` {k. 0 \<le> k \<and> k \<le> m}"
  by (auto simp del: upt_Suc)

lemma rx_run_lang: "c' \<in> set (rx_run r c) \<longleftrightarrow> rx_lang r c c'"
proof (induction r arbitrary: c c')
  case (One p)
  show ?case by (cases c rule: prod_cases3) (auto simp: advance_def next_is_def split: list.split elim: lang_oneE intro: lang_one)
next
  case (Many p n)
  obtain b a gs where c: "c = (b, a, gs)" by (cases c rule: prod_cases3)
  have "c' \<in> set (rx_run (Many p n) c) \<longleftrightarrow> c' \<in> (\<lambda>k. advance k (b, a, gs)) ` {k. n \<le> k \<and> k \<le> length (takeWhile p a)}"
    by (simp only: rx_run.simps runs_set run_length_def c fst_conv snd_conv)
  then show ?case unfolding advance_run c by (auto elim: lang_manyE intro: lang_many)
next
  case (Lazily p)
  obtain b a gs where c: "c = (b, a, gs)" by (cases c rule: prod_cases3)
  have "c' \<in> set (rx_run (Lazily p) c) \<longleftrightarrow> c' \<in> (\<lambda>k. advance k (b, a, gs)) ` {k. 0 \<le> k \<and> k \<le> length (takeWhile p a)}"
    by (simp only: rx_run.simps runs_set run_length_def c fst_conv snd_conv)
  then show ?case unfolding advance_run c by (auto elim: lang_lazilyE intro: lang_lazily)
next
  case (Group r)
  obtain b a gs where c: "c = (b, a, gs)" by (cases c rule: prod_cases3)
  show ?case
  proof
    assume "c' \<in> set (rx_run (Group r) c)"
    then obtain b' a' hs where m: "rx_lang r c (b', a', hs)" "c' = (b', a', hs @ [take (length a - length a') a])"
      using Group.IH by (auto simp: c)
    with rx_lang_reads [OF m(1)] show "rx_lang (Group r) c c'" by (auto simp: c reads_to_def intro: lang_group)
  next
    assume "rx_lang (Group r) c c'"
    then obtain u a' hs where "a = u @ a'" "c' = (rev u @ b, a', hs @ [u])" "rx_lang r (b, u @ a', gs) (rev u @ b, a', hs)"
      by (auto simp: c elim: lang_groupE)
    then show "c' \<in> set (rx_run (Group r) c)" using Group.IH [of "(rev u @ b, a', hs)" c] by (force simp: c)
  qed
next
  case (Seq r s)
  have "c' \<in> set (rx_run (Seq r s) c) \<longleftrightarrow> (\<exists>m. m \<in> set (rx_run r c) \<and> c' \<in> set (rx_run s m))" by (simp add: Bex_def)
  then show ?case by (simp only: Seq.IH rx_lang_simps split_paired_Ex)
qed (auto simp: next_is_def hd_conv_nth split: list.splits if_splits elim!: lang_anchorE
  intro: lang_edge lang_line_start lang_line_end lang_not_next)


subsection \<open>What searching finds\<close>

lemma rx_match_lang:
  "rx_match r b xs = Some c \<Longrightarrow> rx_lang r (b, xs, []) c"
  "rx_match r b xs = None \<longleftrightarrow> (\<nexists>c. rx_lang r (b, xs, []) c)"
  by (auto simp: rx_match_def simp flip: rx_run_lang split: list.splits)

lemma every_split: "(\<forall>u v. x # xs = u @ v \<longrightarrow> P u v) \<longleftrightarrow> P [] (x # xs) \<and> (\<forall>u v. xs = u @ v \<longrightarrow> P (x # u) v)"
proof -
  have "x # xs = u @ v \<longleftrightarrow> (u = [] \<and> v = x # xs) \<or> (\<exists>u'. u = x # u' \<and> xs = u' @ v)" for u v by (cases u) auto
  then show ?thesis by (simp only: imp_disjL all_conj_distrib) auto
qed

text \<open>A search fails only if the pattern matches nowhere.\<close>

lemma rx_search_None: "rx_search r b xs = None \<longleftrightarrow> (\<forall>u v. xs = u @ v \<longrightarrow> (\<nexists>c. rx_lang r (rev u @ b, v, []) c))"
proof (induction r b xs rule: rx_search.induct)
  case (2 r b x xs)
  have "rx_search r b (x # xs) = None \<longleftrightarrow> rx_match r b (x # xs) = None \<and> rx_search r (x # b) xs = None"
    by (simp split: option.split)
  also have "\<dots> \<longleftrightarrow> (\<nexists>c. rx_lang r (b, x # xs, []) c)
      \<and> (\<forall>u v. xs = u @ v \<longrightarrow> (\<nexists>c. rx_lang r (rev (x # u) @ b, v, []) c))"
    using 2 rx_match_lang(2) [of r b "x # xs"] by (auto split: option.splits)
  also have "\<dots> \<longleftrightarrow> (\<forall>u v. x # xs = u @ v \<longrightarrow> (\<nexists>c. rx_lang r (rev u @ b, v, []) c))"
    unfolding every_split [of x xs "\<lambda>u v. \<nexists>c. rx_lang r (rev u @ b, v, []) c"] by simp
  finally show ?case .
qed (simp add: rx_match_lang)

lemma rx_search_Some:
  "rx_search r b xs = Some c \<Longrightarrow> \<exists>u v. xs = u @ v \<and> rx_lang r (rev u @ b, v, []) c"
proof (induction r b xs rule: rx_search.induct)
  case (2 r b x xs)
  show ?case
  proof (cases "rx_match r b (x # xs)")
    case None
    with 2 obtain u v where "xs = u @ v" "rx_lang r (rev u @ x # b, v, []) c" by auto
    then show ?thesis by (intro exI [of _ "x # u"] exI [of _ v]) simp
  next
    case (Some c')
    with 2 have "rx_match r b (x # xs) = Some c" by simp
    from rx_match_lang(1) [OF this] show ?thesis by (intro exI [of _ "[]"] exI [of _ "x # xs"]) simp
  qed
qed (auto dest: rx_match_lang(1))

lemma found_iff: "found r xs \<longleftrightarrow> (\<exists>u v c. xs = u @ v \<and> rx_lang r (rev u, v, []) c)"
  using rx_search_None [of r "[]" xs] by (auto simp: found_def)

text \<open>The texts found by \<open>finditer\<close> are matches, not empty, one after the other.\<close>

lemma rx_all_sound:
  "(t, gs) \<in> set (rx_all r b xs) \<Longrightarrow>
     t \<noteq> [] \<and> (\<exists>u v. xs = u @ t @ v \<and> rx_lang r (rev u @ b, t @ v, []) (rev t @ rev u @ b, v, gs))"
proof (induction r b xs rule: rx_all.induct)
  case (2 r b x xs)
  have skip: "t \<noteq> [] \<and> (\<exists>u v. x # xs = u @ t @ v \<and> rx_lang r (rev u @ b, t @ v, []) (rev t @ rev u @ b, v, gs))"
    if "t \<noteq> [] \<and> (\<exists>u v. xs = u @ t @ v \<and> rx_lang r (rev u @ x # b, t @ v, []) (rev t @ rev u @ x # b, v, gs))"
  proof -
    from that obtain u v where "t \<noteq> []" "xs = u @ t @ v" "rx_lang r (rev u @ x # b, t @ v, []) (rev t @ rev u @ x # b, v, gs)" by blast
    then show ?thesis by (intro conjI exI [of _ "x # u"] exI [of _ v]) simp_all
  qed
  show ?case
  proof (cases "rx_match r b (x # xs)")
    case None
    with 2 skip show ?thesis by simp
  next
    case (Some c)
    obtain b' a hs where c: "c = (b', a, hs)" by (cases c rule: prod_cases3)
    from Some have lang: "rx_lang r (b, x # xs, []) (b', a, hs)" unfolding c by (rule rx_match_lang)
    from rx_lang_reads [OF this] obtain w where w: "x # xs = w @ a" "b' = rev w @ b" by (auto simp: reads_to_def)
    show ?thesis
    proof (cases "length a < length (x # xs)")
      case False
      with 2 Some c skip show ?thesis by simp
    next
      case True
      then have "w \<noteq> []" using w by auto
      have "take (length (x # xs) - length a) (x # xs) = w" unfolding w(1) by simp
      then have "rx_all r b (x # xs) = (w, hs) # rx_all r b' a" using Some c True by simp
      with 2(4) have "(t, gs) = (w, hs) \<or> (t, gs) \<in> set (rx_all r b' a)" by simp
      then show ?thesis
      proof
        assume "(t, gs) = (w, hs)"
        with lang w \<open>w \<noteq> []\<close> show ?thesis by (intro conjI exI [of _ "[]"] exI [of _ a]) simp_all
      next
        assume "(t, gs) \<in> set (rx_all r b' a)"
        with 2(2) [OF Some [unfolded c] refl refl True] obtain u v where "t \<noteq> []" "a = u @ t @ v" "rx_lang r (rev u @ b', t @ v, []) (rev t @ rev u @ b', v, gs)"
          by auto
        with w show ?thesis by (intro conjI exI [of _ "w @ u"] exI [of _ v]) simp_all
      qed
    qed
  qed
qed simp

lemma rx_all_count: "length (rx_all r b xs) \<le> length xs"
proof (induction r b xs rule: rx_all.induct)
  case (2 r b x xs)
  then show ?case by (force split: option.splits prod.splits)
qed simp

subsection \<open>Groups are parts of the text\<close>

fun groups_of :: "'a rx \<Rightarrow> nat" where
  "groups_of (Seq r s) = groups_of r + groups_of s"
| "groups_of (Alt r s) = groups_of r"
| "groups_of (Group r) = groups_of r + 1"
| "groups_of _ = 0"

text \<open>The patterns in which every match closes the same number of groups.\<close>

fun fixed_groups :: "'a rx \<Rightarrow> bool" where
  "fixed_groups (Opt r) \<longleftrightarrow> fixed_groups r \<and> groups_of r = 0"
| "fixed_groups (Seq r s) \<longleftrightarrow> fixed_groups r \<and> fixed_groups s"
| "fixed_groups (Alt r s) \<longleftrightarrow> fixed_groups r \<and> fixed_groups s \<and> groups_of r = groups_of s"
| "fixed_groups (Group r) \<longleftrightarrow> fixed_groups r"
| "fixed_groups _ \<longleftrightarrow> True"

lemma rx_lang_group_count:
  "rx_lang r c c' \<Longrightarrow> fixed_groups r \<Longrightarrow> length (snd (snd c')) = length (snd (snd c)) + groups_of r"
  by (induction rule: rx_lang.induct) auto

lemma rx_lang_groups:
  "rx_lang r c c' \<Longrightarrow> \<exists>hs. snd (snd c') = snd (snd c) @ hs \<and> (\<forall>h \<in> set hs. sublist h (fst (snd c)))"
proof (induction rule: rx_lang.induct)
  case (lang_seq r c c' s c'')
  from rx_lang_reads [OF lang_seq.hyps(1)] have "sublist (fst (snd c')) (fst (snd c))"
    by (auto simp: reads_to_def)
  with lang_seq.IH show ?case by auto (metis sublist_order.order.trans)
next
  case (lang_group r b u a gs hs)
  then obtain ks where "hs = gs @ ks" "\<forall>h \<in> set ks. sublist h (u @ a)" by auto
  then show ?case by auto
qed auto

lemma rx_all_group:
  assumes "(t, gs) \<in> set (rx_all r [] xs)" and "fixed_groups r"
  shows "length gs = groups_of r \<and> (\<forall>g \<in> set gs. sublist g xs)"
proof -
  from rx_all_sound [OF assms(1)] obtain u v where
    xs: "xs = u @ t @ v" and lang: "rx_lang r (rev u @ [], t @ v, []) (rev t @ rev u @ [], v, gs)" by blast
  from rx_lang_groups [OF lang] have "\<forall>g \<in> set gs. sublist g (t @ v)" by simp
  moreover have "sublist (t @ v) xs" unfolding xs by simp
  ultimately show ?thesis using rx_lang_group_count [OF lang assms(2)] sublist_order.order.trans by auto
qed

lemma rx_search_group:
  assumes "rx_search r [] xs = Some (b, a, gs)" and "fixed_groups r"
  shows "length gs = groups_of r \<and> (\<forall>g \<in> set gs. sublist g xs)"
proof -
  from rx_search_Some [OF assms(1)] obtain u v where
    xs: "xs = u @ v" and lang: "rx_lang r (rev u @ [], v, []) (b, a, gs)" by blast
  from rx_lang_groups [OF lang] have "\<forall>g \<in> set gs. sublist g v" by simp
  moreover have "sublist v xs" unfolding xs by simp
  ultimately show ?thesis using rx_lang_group_count [OF lang assms(2)] sublist_order.order.trans by auto
qed

lemma rx_match_group:
  assumes "rx_match r [] xs = Some (b, a, gs)" and "fixed_groups r"
  shows "length gs = groups_of r \<and> (\<forall>g \<in> set gs. sublist g xs)"
  using rx_lang_groups [OF rx_match_lang(1) [OF assms(1)]] rx_lang_group_count [OF rx_match_lang(1) [OF assms(1)] assms(2)]
  by simp

end
