(* ===== verification/Documents.thy ===== *)
theory Documents
  imports Patterns Settings Executables Disk_Images "HOL-Library.AList" "HOL-Library.List_Lexorder"
begin

unbundle bit_operations_syntax

section \<open>Documents: \<open>analyzers/document.py\<close>\<close>

text \<open>
  What the bounded document parsers produce: the observations, the assessments and the embedded
  objects that the container layer extracts; and the two parsers of flat files, RTF and PDF, with
  what they report and raise. Compound files are in \<open>Compound_Files\<close>, packages, the dispatch and the
  analyzer in \<open>Packages\<close>.
\<close>

record document_child =
  dc_name :: pystr
  dc_data :: bytes
  dc_metadata :: "(string \<times> pyval) list"

record parsed_document =
  pd_format :: string
  pd_observations :: "(string \<times> pyval) list"
  pd_assessments :: "assessment list"
  pd_children :: "document_child list"
  pd_errors :: "pystr list"
  pd_partial :: "string option"

text \<open>
  A readable stream is what its reads of one MiB give: the chunks, then the end of the file or an
  exception. A member of a ZIP archive carries the attributes the code looks at.
\<close>

type_synonym byte_source = "bytes list \<times> py_exn option"

record zip_member =
  zm_filename :: pystr
  zm_flag_bits :: nat
  zm_external_attr :: nat
  zm_file_size :: nat
  zm_open :: "byte_source res"

subsection \<open>Byte classes, text and shared pieces\<close>

definition byte_space :: "byte \<Rightarrow> bool" where
  "byte_space b \<longleftrightarrow> 9 \<le> unat b \<and> unat b \<le> 13 \<or> unat b = 32"

definition byte_digit :: "byte \<Rightarrow> bool" where
  "byte_digit b \<longleftrightarrow> 48 \<le> unat b \<and> unat b \<le> 57"

definition byte_letter :: "byte \<Rightarrow> bool" where
  "byte_letter b \<longleftrightarrow> 65 \<le> unat b \<and> unat b \<le> 90 \<or> 97 \<le> unat b \<and> unat b \<le> 122"

definition byte_word :: "byte \<Rightarrow> bool" where
  "byte_word b \<longleftrightarrow> byte_letter b \<or> byte_digit b \<or> unat b = 0x5F"

definition upper_byte :: "byte \<Rightarrow> byte" where
  "upper_byte b = (if 97 \<le> unat b \<and> unat b \<le> 122 then b - 32 else b)"

definition MAX_STRING :: nat where
  "MAX_STRING = 4096"

text \<open>A pattern text matched under \<open>(?i)\<close>.\<close>

definition any_case :: "string \<Rightarrow> byte rx" where
  "any_case s = sequence (map (\<lambda>c. One (\<lambda>b. upper_byte b = upper_byte (of_char c))) s)"

definition url_char :: "byte \<Rightarrow> bool" where
  "url_char b \<longleftrightarrow> \<not> byte_space b \<and> b \<notin> set (ascb ''<>[](){}'') \<and> unat b > 0x1F"

definition URL_rx :: "byte rx" where
  "URL_rx = sequence [Edge byte_word, Alt (Seq (any_case ''http'') (Opt (any_case ''s''))) (any_case ''ftp''),
     literal (ascb ''://''), Many url_char 1]"

text \<open>\<open>sorted({item.decode("utf-8", "replace")[:MAX_STRING] for item in URL.findall(data)})\<close>.\<close>

definition urls_of :: "bytes \<Rightarrow> pystr list" where
  "urls_of data = sort (remdups (map (\<lambda>t. take MAX_STRING (utf8_replace t)) (rx_texts URL_rx data)))"

text \<open>\<open>int(digits)\<close>, which refuses more than 4300 digits.\<close>

definition int_of_digits :: "bytes \<Rightarrow> nat res" where
  "int_of_digits ds =
     (if length ds > 4300 then Inl (ValueError ''Exceeds the limit (4300 digits) for integer string conversion'')
      else Inr (foldl (\<lambda>acc b. 10 * acc + (unat b - 48)) 0 ds))"

definition doc_assessment :: "string \<Rightarrow> pystr \<Rightarrow> confidence \<Rightarrow> string list \<Rightarrow> assessment" where
  "doc_assessment ty statement conf refs =
     \<lparr>as_type = ty, as_analyzer_id = ''document'', as_statement = statement, as_confidence = conf,
      as_evidence_refs = map asc refs\<rparr>"

text \<open>An assessment under its condition.\<close>

definition assess_if :: "bool \<Rightarrow> string \<Rightarrow> string \<Rightarrow> string list \<Rightarrow> assessment list" where
  "assess_if b ty statement refs = (if b then [doc_assessment ty (asc statement) Conf_HIGH refs] else [])"

definition ascii_text :: "bytes \<Rightarrow> string" where
  "ascii_text bs = map (\<lambda>b. char_of (unat b)) bs"

text \<open>
  What the parsers take from outside: \<open>zlib\<close> (the output of at most that many bytes and whether input
  is left over; \<open>None\<close> when it raises), the stack frames that are left, \<open>zipfile\<close> (the test of the whole
  file and the members, in order), \<open>ElementTree\<close> (an \<open>ExternalError ''ParseError''\<close> for malformed XML) and
  \<open>str\<close> of an exception and \<open>str.lower\<close>.
\<close>

datatype xml_tree = Element (xml_attrib: "(pystr \<times> pystr) list") (xml_children: "xml_tree list")

record document_env =
  de_inflate :: "bytes \<Rightarrow> int \<Rightarrow> (bytes \<times> bool) option"
  de_frames :: nat
  de_is_zipfile :: "bytes \<Rightarrow> bool"
  de_zip_members :: "bytes \<Rightarrow> zip_member list res"
  de_xml :: "bytes \<Rightarrow> xml_tree res"
  de_exn_text :: "py_exn \<Rightarrow> pystr"
  de_lower :: "pystr \<Rightarrow> pystr"

subsection \<open>RTF: \<open>_parse_rtf\<close>\<close>

definition rtf_signature :: "byte rx" where
  "rtf_signature = sequence [Many byte_space 0, literal ([0x7B, 0x5C] @ ascb ''rtf''), Group (Many byte_digit 1)]"

definition control_word :: "byte rx" where
  "control_word = Seq (One ((=) 0x5C)) (Group (Many byte_letter 1))"

text \<open>The loop over the bytes: depth, maximum depth and the anomaly that ended it.\<close>

fun rtf_groups :: "int \<Rightarrow> bool \<Rightarrow> nat \<Rightarrow> int \<Rightarrow> int \<Rightarrow> bytes \<Rightarrow> int \<times> int \<times> string option" where
  "rtf_groups limit escaped binary_remaining depth maximum [] = (depth, maximum, None)"
| "rtf_groups limit escaped binary_remaining depth maximum (b # bs) =
     (if binary_remaining > 0 then rtf_groups limit escaped (binary_remaining - 1) depth maximum bs
      else if escaped then rtf_groups limit False 0 depth maximum bs
      else if b = 0x5C then rtf_groups limit True 0 depth maximum bs
      else if b = 0x7B then
        (if max maximum (depth + 1) > limit then (depth + 1, max maximum (depth + 1), Some ''RTF nesting limit exceeded'')
         else rtf_groups limit False 0 (depth + 1) (max maximum (depth + 1)) bs)
      else if b = 0x7D then
        (if depth - 1 < 0 then (depth - 1, maximum, Some ''RTF unmatched closing group'')
         else rtf_groups limit False 0 (depth - 1) maximum bs)
      else rtf_groups limit False 0 depth maximum bs)"

definition rtf_structure :: "int \<Rightarrow> bytes \<Rightarrow> int \<times> string option" where
  "rtf_structure limit data =
     (case rtf_groups limit False 0 0 0 data of (depth, maximum, anomaly) \<Rightarrow>
        (maximum, if anomaly = None \<and> depth \<noteq> 0 then Some ''RTF unbalanced groups'' else anomaly))"

text \<open>\<open>Counter(words).most_common(n)\<close>: by falling count, words met first before the others.\<close>

definition most_common :: "nat \<Rightarrow> 'a list \<Rightarrow> ('a \<times> nat) list" where
  "most_common n xs = take n (sort_key (\<lambda>(_, c). - int c) (map (\<lambda>w. (w, count_list xs w)) (rev (remdups (rev xs)))))"

definition opt_asc :: "string option \<Rightarrow> pyval" where
  "opt_asc s = (case s of None \<Rightarrow> PNone | Some t \<Rightarrow> PAsc t)"

definition rtf_words :: "bytes \<Rightarrow> string list" where
  "rtf_words data = map (\<lambda>(_, gs). ascii_text (hd gs)) (rx_all control_word [] data)"

definition parse_rtf :: "runtime_settings \<Rightarrow> bytes \<Rightarrow> parsed_document res" where
  "parse_rtf limits data =
     (case rx_match rtf_signature [] data of
        None \<Rightarrow> Inl (DocumentError ''invalid RTF signature'')
      | Some (_, _, version) \<Rightarrow>
          let words = rtf_words data; counts = count_list words; urls = urls_of data
          in case rtf_structure (rt_max_rtf_group_depth limits) data of (maximum, anomaly) \<Rightarrow>
          bindE (int_of_digits (hd version)) (\<lambda>n.
          Inr \<lparr>pd_format = ''RTF'',
            pd_observations =
              [(''rtf.version'', PNat n), (''rtf.maximum_group_depth'', PInt maximum),
               (''rtf.control_word_count'', PNat (length words)),
               (''rtf.control_word_statistics'', PDict (map (\<lambda>(w, c). (w, PNat c)) (most_common 64 words))),
               (''rtf.font_table_present'', PBool (''fonttbl'' \<in> set words)),
               (''rtf.color_table_present'', PBool (''colortbl'' \<in> set words)),
               (''rtf.object_group_count'', PNat (counts ''object'')),
               (''rtf.objdata_present'', PBool (''objdata'' \<in> set words)),
               (''rtf.pict_present'', PBool (''pict'' \<in> set words)),
               (''rtf.field_present'', PBool (''field'' \<in> set words)),
               (''rtf.hyperlink_targets'', PList (map PStr urls)),
               (''rtf.unicode_escape_count'', PNat (counts ''u'')),
               (''rtf.binary_declaration_count'', PNat (counts ''bin'')),
               (''rtf.structural_anomaly'', opt_asc anomaly)],
            pd_assessments =
              assess_if (counts ''object'' \<noteq> 0 \<or> counts ''objdata'' \<noteq> 0) ''EMBEDDED_OBJECT_PRESENT''
                ''RTF contains object/objdata structures'' [''rtf.object_group_count'', ''rtf.objdata_present'']
              @ assess_if (urls \<noteq> []) ''EXTERNAL_REFERENCE_PRESENT'' ''RTF contains URL values; none were fetched''
                  [''rtf.hyperlink_targets'']
              @ (case anomaly of None \<Rightarrow> [] | Some a \<Rightarrow>
                   [doc_assessment ''DOCUMENT_STRUCTURE_ANOMALY'' (asc a) Conf_HIGH [''rtf.structural_anomaly'']]),
            pd_children = [],
            pd_errors = (case anomaly of None \<Rightarrow> [] | Some a \<Rightarrow> [asc a]),
            pd_partial = (case anomaly of None \<Rightarrow> None
              | Some a \<Rightarrow> if substring ''limit'' a then Some ''partial_limit'' else Some ''partial_error'')\<rparr>))"

subsection \<open>PDF: \<open>_parse_pdf\<close>\<close>

definition PDF_OBJECT :: "byte rx" where
  "PDF_OBJECT = sequence [Group (Many byte_digit 1), Many byte_space 1, Group (Many byte_digit 1), Many byte_space 1,
     literal (ascb ''obj''), Edge byte_word, Group (Lazily (\<lambda>_. True)), Edge byte_word, literal (ascb ''endobj''), Edge byte_word]"

definition pdf_header :: "byte rx" where
  "pdf_header = sequence [literal (ascb ''%PDF-''), Group (sequence [One byte_digit, literal (ascb ''.''), One byte_digit])]"

text \<open>A name after another, with any space between: \<open>/S\s*/URI\<close> and its like.\<close>

definition spaced :: "string \<Rightarrow> string \<Rightarrow> byte rx" where
  "spaced a b = sequence [literal (ascb a), Many byte_space 0, literal (ascb b)]"

definition pdf_line_break :: "byte rx" where
  "pdf_line_break = Seq (Opt (One ((=) 13))) (One ((=) 10))"

definition stream_start :: "byte rx" where
  "stream_start = sequence [Edge byte_word, literal (ascb ''stream''), pdf_line_break]"

definition xref_line :: "byte rx" where
  "xref_line = sequence [Line_Start 10, literal (ascb ''xref''), Many byte_space 0, Line_End 10]"

definition page_type :: "byte rx" where
  "page_type = sequence [spaced ''/Type'' ''/Page'', Not_Next ((=) 0x73), Edge byte_word]"

definition embedded_type :: "byte rx" where
  "embedded_type = Seq (spaced ''/Type'' ''/EmbeddedFile'') (Edge byte_word)"

definition stream_body :: "byte rx" where
  "stream_body = sequence [literal (ascb ''stream''), pdf_line_break, Group (Lazily (\<lambda>_. True)), pdf_line_break,
     literal (ascb ''endstream'')]"

definition holds_text :: "string \<Rightarrow> bytes \<Rightarrow> bool" where
  "holds_text s data \<longleftrightarrow> substring (ascb s) data"

text \<open>\<open>data[-4096:]\<close>.\<close>

definition last_bytes :: "nat \<Rightarrow> bytes \<Rightarrow> bytes" where
  "last_bytes n data = drop (length data - n) data"

text \<open>The bodies by object number; a number that comes again keeps its place and takes the new body.\<close>

definition pdf_bodies :: "(bytes \<times> bytes list) list \<Rightarrow> (nat \<times> bytes) list res" where
  "pdf_bodies objects = foldE (\<lambda>(_, gs) acc. bindE (int_of_digits (gs ! 0)) (\<lambda>n. Inr (AList.update n (gs ! 2) acc))) objects []"

definition pdf_child :: "document_env \<Rightarrow> runtime_settings \<Rightarrow> nat \<times> bytes \<Rightarrow> document_child option" where
  "pdf_child env limits object =
     (case object of (number, body) \<Rightarrow>
      if \<not> found embedded_type body then None
      else case rx_search stream_body [] body of
        None \<Rightarrow> None
      | Some (_, _, gs) \<Rightarrow>
          let keep = (\<lambda>payload. if int (length payload) \<le> rt_max_single_child_bytes limits
                then Some \<lparr>dc_name = asc (''pdf-embedded-'' @ show_nat number @ ''.bin''), dc_data = payload,
                       dc_metadata = [(''pdf_object'', PNat number)]\<rparr>
                else None)
          in if holds_text ''/FlateDecode'' body then
               (case de_inflate env (hd gs) (rt_max_single_child_bytes limits + 1) of
                  None \<Rightarrow> None
                | Some (output, left_over) \<Rightarrow> if left_over then None else keep output)
             else keep (hd gs))"

definition pdf_facts :: "bytes \<Rightarrow> string \<Rightarrow> nat \<Rightarrow> (string \<times> pyval) list" where
  "pdf_facts data version objects =
     (let has = (\<lambda>s. holds_text s data) in
      [(''pdf.version'', PAsc version),
       (''pdf.eof_marker_present'', PBool (holds_text ''%%EOF'' (last_bytes 4096 data))),
       (''pdf.indirect_object_count'', PNat objects),
       (''pdf.stream_count'', PNat (occurrences_of stream_start data)),
       (''pdf.xref_table_present'', PBool (found xref_line data)),
       (''pdf.xref_stream_present'', PBool (has ''/Type/XRef'' \<or> has ''/Type /XRef'')),
       (''pdf.trailer_present'', PBool (has ''trailer'')),
       (''pdf.encryption_present'', PBool (has ''/Encrypt'')),
       (''pdf.metadata_present'', PBool (has ''/Metadata'' \<or> has ''/Info'')),
       (''pdf.xmp_present'', PBool (has ''application/rdf+xml'' \<or> has ''<x:xmpmeta'')),
       (''pdf.names_tree_present'', PBool (has ''/Names'')),
       (''pdf.javascript_present'', PBool (has ''/JavaScript'' \<or> has ''/JS'')),
       (''pdf.javascript_action_present'', PBool (found (spaced ''/S'' ''/JavaScript'') data)),
       (''pdf.open_action_present'', PBool (has ''/OpenAction'')),
       (''pdf.additional_actions_present'', PBool (found (Seq (literal (ascb ''/AA'')) (Edge byte_word)) data)),
       (''pdf.launch_action_present'', PBool (found (spaced ''/S'' ''/Launch'') data)),
       (''pdf.uri_action_present'', PBool (found (spaced ''/S'' ''/URI'') data)),
       (''pdf.acroform_present'', PBool (has ''/AcroForm'')),
       (''pdf.xfa_present'', PBool (has ''/XFA'')),
       (''pdf.signature_structure_present'', PBool (has ''/Sig'' \<or> has ''/Type/Sig'')),
       (''pdf.object_stream_count'', PNat (occurrences_of (spaced ''/Type'' ''/ObjStm'') data)),
       (''pdf.page_count'', PNat (occurrences_of page_type data)),
       (''pdf.incremental_update_sections'',
          PNat (max (occurrences_of (literal (ascb ''%%EOF'')) data) (occurrences_of (literal (ascb ''startxref'')) data)))])"

definition parse_pdf :: "document_env \<Rightarrow> runtime_settings \<Rightarrow> bytes \<Rightarrow> parsed_document res" where
  "parse_pdf env limits data =
     (case rx_match pdf_header [] data of
        None \<Rightarrow> Inl (DocumentError ''invalid PDF header'')
      | Some (_, _, version) \<Rightarrow>
          let objects = rx_all PDF_OBJECT [] data
          in if int (length objects) > rt_max_document_components limits then Inl (DocumentError ''PDF object count limit exceeded'')
          else bindE (pdf_bodies objects) (\<lambda>bodies.
          let urls = urls_of data;
              children = List.map_filter (pdf_child env limits) bodies;
              obs = pdf_facts data (ascii_text (hd version)) (length objects)
                @ map (\<lambda>u. (''document.external_url'', PStr u)) (take (nat (rt_metadata_max_fields limits)) urls)
                @ [(''pdf.embedded_file_count'', PNat (length children)),
                   (''pdf.embedded_file_structure_present'', PBool (children \<noteq> [] \<or> holds_text ''/EmbeddedFiles'' data))];
              active = list_ex (\<lambda>(k, v). k \<in> {''pdf.javascript_present'', ''pdf.launch_action_present''} \<and> v = PBool True) obs;
              encrypted = holds_text ''/Encrypt'' data;
              updates = occurrences_of (literal (ascb ''%%EOF'')) data > 1 \<or> occurrences_of (literal (ascb ''startxref'')) data > 1;
              eof_missing = \<not> holds_text ''%%EOF'' (last_bytes 4096 data)
          in Inr \<lparr>pd_format = ''PDF'', pd_observations = obs,
               pd_assessments =
                 assess_if active ''ACTIVE_CONTENT_PRESENT'' ''PDF contains active-content structures''
                   [''pdf.javascript_present'', ''pdf.launch_action_present'']
                 @ assess_if (children \<noteq> []) ''EMBEDDED_OBJECT_PRESENT''
                     ''PDF contains bounded extractable embedded file payloads'' [''pdf.embedded_file_count'']
                 @ assess_if (urls \<noteq> []) ''EXTERNAL_REFERENCE_PRESENT''
                     ''PDF contains external URL values; none were fetched'' [''document.external_url'']
                 @ assess_if encrypted ''ENCRYPTED_DOCUMENT''
                     ''PDF contains encryption metadata; no password was attempted'' [''pdf.encryption_present'']
                 @ assess_if updates ''INCREMENTAL_PDF_UPDATES''
                     ''PDF contains multiple update terminators'' [''pdf.incremental_update_sections'']
                 @ assess_if eof_missing ''DOCUMENT_STRUCTURE_ANOMALY'' ''PDF EOF marker absent'' [''pdf.eof_marker_present''],
               pd_children = children,
               pd_errors = (if eof_missing then [asc ''PDF EOF marker absent''] else [])
                 @ (if encrypted then [asc ''PDF encryption prevents complete content inspection''] else []),
               pd_partial = (if encrypted then Some ''partial_unsupported''
                 else if eof_missing then Some ''partial_error'' else None)\<rparr>))"

subsection \<open>The nesting of an RTF file\<close>

text \<open>The braces that are not escaped, as steps of the depth, and the depths after each of them.\<close>

fun brace_steps :: "bool \<Rightarrow> bytes \<Rightarrow> int list" where
  "brace_steps escaped [] = []"
| "brace_steps escaped (b # bs) =
     (if escaped then brace_steps False bs
      else if b = 0x5C then brace_steps True bs
      else if b = 0x7B then 1 # brace_steps False bs
      else if b = 0x7D then -1 # brace_steps False bs
      else brace_steps False bs)"

fun depths :: "int \<Rightarrow> int list \<Rightarrow> int list" where
  "depths d [] = []"
| "depths d (s # ss) = (d + s) # depths (d + s) ss"

definition out_of_range :: "int \<Rightarrow> int \<Rightarrow> bool" where
  "out_of_range limit d \<longleftrightarrow> d < 0 \<or> limit < d"

fun through_first :: "('a \<Rightarrow> bool) \<Rightarrow> 'a list \<Rightarrow> 'a list" where
  "through_first p [] = []"
| "through_first p (x # xs) = (if p x then [x] else x # through_first p xs)"

lemma rtf_groups_exact:
  assumes "0 \<le> depth" "depth \<le> limit" "depth \<le> maximum" "maximum \<le> limit"
  shows "rtf_groups limit escaped 0 depth maximum bs =
     (let ds = depths depth (brace_steps escaped bs) in
      case List.find (out_of_range limit) ds of
        None \<Rightarrow> (last (depth # ds), foldl max maximum ds, None)
      | Some d \<Rightarrow> (d, foldl max maximum (through_first (out_of_range limit) ds),
          Some (if d < 0 then ''RTF unmatched closing group'' else ''RTF nesting limit exceeded'')))"
  using assms
proof (induction bs arbitrary: escaped depth maximum)
  case (Cons b bs)
  consider "escaped" | "\<not> escaped" "b = 0x5C" | "\<not> escaped" "b = 0x7B" | "\<not> escaped" "b = 0x7D"
    | "\<not> escaped" "b \<noteq> 0x5C" "b \<noteq> 0x7B" "b \<noteq> 0x7D" by blast
  then show ?case
  proof cases
    case 3
    show ?thesis
    proof (cases "limit < depth + 1")
      case True
      with 3 Cons.prems show ?thesis by (simp add: out_of_range_def max_def)
    next
      case False
      then have "out_of_range limit (depth + 1) = False" "(max maximum (depth + 1) > limit) = False"
        using Cons.prems by (auto simp: out_of_range_def)
      with 3 Cons.prems Cons.IH [of "depth + 1" "max maximum (depth + 1)" False] show ?thesis
        by (simp add: Let_def split: option.split)
    qed
  next
    case 4
    show ?thesis
    proof (cases "depth - 1 < 0")
      case True
      with 4 Cons.prems show ?thesis by (simp add: out_of_range_def max_def)
    next
      case False
      then have "out_of_range limit (depth - 1) = False" "(depth - 1 < 0) = False" "max maximum (depth - 1) = maximum"
        using Cons.prems by (auto simp: out_of_range_def)
      with 4 Cons.prems Cons.IH [of "depth - 1" maximum False] show ?thesis
        by (simp add: Let_def split: option.split)
    qed
  qed (use Cons in \<open>simp_all add: Let_def\<close>)
qed simp

subsection \<open>URLs\<close>

definition url_text :: "bytes \<Rightarrow> bool" where
  "url_text t \<longleftrightarrow>
     list_ex (\<lambda>scheme. starts_with (ascb (scheme @ ''://'')) (map upper_byte t)
         \<and> length (scheme @ ''://'') < length t \<and> list_all url_char (drop (length (scheme @ ''://'')) t))
       [''HTTP'', ''HTTPS'', ''FTP'']"

lemma lang_literal: "rx_lang (literal s) (b, a, gs) c' \<longleftrightarrow> (\<exists>rest. a = s @ rest \<and> c' = (rev s @ b, rest, gs))"
proof (induction s arbitrary: b a)
  case (Cons x s)
  then show ?case by (auto elim!: lang_oneE) (auto intro!: exI lang_one)
qed auto


lemma lang_any_case:
  "rx_lang (any_case s) (b, a, gs) c' \<Longrightarrow>
     \<exists>u rest. a = u @ rest \<and> map upper_byte u = map upper_byte (ascb s) \<and> c' = (rev u @ b, rest, gs)"
proof (induction s arbitrary: b a)
  case (Cons x s)
  show ?case
  proof (cases s)
    case Nil
    with Cons.prems show ?thesis
      by (auto simp: any_case_def ascb_def elim!: lang_oneE)
  next
    case (Cons y ys)
    then have "any_case (x # s) = Seq (One (\<lambda>b. upper_byte b = upper_byte (of_char x))) (any_case s)"
      by (simp add: any_case_def)
    with Cons.prems obtain z a' where z: "a = z # a'" "upper_byte z = upper_byte (of_char x)"
        "rx_lang (any_case s) (z # b, a', gs) c'"
      by (auto elim!: lang_oneE)
    from Cons.IH [OF z(3)] obtain u rest where "a' = u @ rest" "map upper_byte u = map upper_byte (ascb s)"
        "c' = (rev u @ z # b, rest, gs)" by blast
    with z show ?thesis by (intro exI [of _ "z # u"] exI [of _ rest]) (simp add: ascb_def)
  qed
qed (simp add: any_case_def ascb_def)


lemma url_text_intro:
  assumes "map upper_byte u = ascb scheme" and "scheme \<in> {''HTTP'', ''HTTPS'', ''FTP''}"
    and "list_all url_char w" and "1 \<le> length w"
  shows "url_text (u @ ascb ''://'' @ w)"
proof -
  have "length u = length scheme" using arg_cong [OF assms(1), of length] by (simp add: ascb_def)
  moreover have "map upper_byte (ascb ''://'') = ascb ''://''" by (simp add: ascb_def upper_byte_def)
  moreover have "w \<noteq> []" using assms(4) by auto
  ultimately have "starts_with (ascb (scheme @ ''://'')) (map upper_byte (u @ ascb ''://'' @ w))
      \<and> length (scheme @ ''://'') < length (u @ ascb ''://'' @ w)
      \<and> list_all url_char (drop (length (scheme @ ''://'')) (u @ ascb ''://'' @ w))"
    using assms by (simp add: starts_with_def ascb_def)
  with assms(2) show ?thesis unfolding url_text_def by auto
qed

lemma url_rx_text:
  assumes "rx_lang URL_rx (b, xs, gs) c'"
  shows "\<exists>t v. xs = t @ v \<and> url_text t \<and> c' = (rev t @ b, v, gs)"
proof -
  let ?scheme = "Alt (Seq (any_case ''http'') (Opt (any_case ''s''))) (any_case ''ftp'')"
  from assms obtain c1 c2 c3 where parts: "rx_lang (Edge byte_word) (b, xs, gs) c1" "rx_lang ?scheme c1 c2"
      "rx_lang (literal (ascb ''://'')) c2 c3" "rx_lang (Many url_char 1) c3 c'"
    unfolding URL_rx_def sequence.simps by (auto simp del: literal.simps rx_lang_simps(2,4) simp: ascb_def)
  have c1: "c1 = (b, xs, gs)" using parts(1) by (auto elim: lang_anchorE)
  have "\<exists>u rest s. xs = u @ rest \<and> map upper_byte u = ascb s \<and> s \<in> {''HTTP'', ''HTTPS'', ''FTP''} \<and> c2 = (rev u @ b, rest, gs)"
  proof -
    from parts(2) have "rx_lang (Seq (any_case ''http'') (Opt (any_case ''s''))) (b, xs, gs) c2 \<or> rx_lang (any_case ''ftp'') (b, xs, gs) c2"
      unfolding c1 by simp
    then show ?thesis
    proof
      assume "rx_lang (any_case ''ftp'') (b, xs, gs) c2"
      moreover have "map upper_byte (ascb ''ftp'') = ascb ''FTP''" by (simp add: ascb_def upper_byte_def)
      ultimately obtain u rest where "xs = u @ rest" "map upper_byte u = ascb ''FTP''" "c2 = (rev u @ b, rest, gs)"
        using lang_any_case [of "''ftp''"] by metis
      then show ?thesis by blast
    next
      assume "rx_lang (Seq (any_case ''http'') (Opt (any_case ''s''))) (b, xs, gs) c2"
      then obtain m where m: "rx_lang (any_case ''http'') (b, xs, gs) m" "rx_lang (any_case ''s'') m c2 \<or> m = c2" by auto
      have upper: "map upper_byte (ascb ''http'') = ascb ''HTTP''" "map upper_byte (ascb ''s'') = ascb ''S''"
        by (simp_all add: ascb_def upper_byte_def)
      from lang_any_case [OF m(1)] upper obtain u rest where u: "xs = u @ rest" "map upper_byte u = ascb ''HTTP''" "m = (rev u @ b, rest, gs)"
        by metis
      from m(2) show ?thesis
      proof
        assume "m = c2"
        with u show ?thesis by blast
      next
        assume "rx_lang (any_case ''s'') m c2"
        from lang_any_case [OF this [unfolded u(3)]] upper obtain u2 r2 where "rest = u2 @ r2" "map upper_byte u2 = ascb ''S''"
            "c2 = (rev u2 @ rev u @ b, r2, gs)" by metis
        with u show ?thesis by (intro exI [of _ "u @ u2"] exI [of _ r2] exI [of _ "''HTTPS''"]) (simp add: ascb_def)
      qed
    qed
  qed
  then obtain u rest s where u: "xs = u @ rest" "map upper_byte u = ascb s" "s \<in> {''HTTP'', ''HTTPS'', ''FTP''}" "c2 = (rev u @ b, rest, gs)"
    by blast
  from parts(3) obtain r2 where r2: "rest = ascb ''://'' @ r2" "c3 = (rev (ascb ''://'') @ rev u @ b, r2, gs)"
    unfolding u(4) lang_literal by blast
  from parts(4) obtain w v where w: "r2 = w @ v" "list_all url_char w" "1 \<le> length w" "c' = (rev w @ rev (ascb ''://'') @ rev u @ b, v, gs)"
    unfolding r2(2) by (auto elim: lang_manyE)
  from url_text_intro [OF u(2,3) w(2,3)] u r2 w show ?thesis
    by (intro exI [of _ "u @ ascb ''://'' @ w"] exI [of _ v]) simp
qed

lemma rx_all_none:
  assumes "\<And>b xs c. rx_lang r (b, xs, []) c \<Longrightarrow> length (fst (snd c)) < length xs"
  shows "rx_all r b xs = [] \<longleftrightarrow> rx_search r b xs = None"
proof (induction xs arbitrary: b)
  case Nil
  have "rx_match r b [] = None" using assms [of b "[]"] by (auto simp: rx_match_lang(2))
  then show ?case by simp
next
  case (Cons x xs)
  show ?case
  proof (cases "rx_match r b (x # xs)")
    case None
    with Cons.IH show ?thesis by simp
  next
    case (Some c)
    from assms [OF rx_match_lang(1) [OF Some]] Some show ?thesis by (cases c rule: prod_cases3) simp
  qed
qed

lemma url_rx_reads: "rx_lang URL_rx (b, xs, gs) c \<Longrightarrow> length (fst (snd c)) < length xs"
  using url_rx_text [of b xs gs c] by (auto simp: url_text_def)

text \<open>The URLs reported: sorted, each the text of a URL of the file, and none only if there is none.\<close>

lemma urls_of_exact:
  "sorted (urls_of data) \<and> distinct (urls_of data)
     \<and> (\<forall>u \<in> set (urls_of data). \<exists>t. sublist t data \<and> url_text t \<and> u = take MAX_STRING (utf8_replace t))
     \<and> (urls_of data = [] \<longleftrightarrow> \<not> found URL_rx data)"
proof (intro conjI ballI)
  fix u assume "u \<in> set (urls_of data)"
  then obtain t gs where t: "(t, gs) \<in> set (rx_all URL_rx [] data)" "u = take MAX_STRING (utf8_replace t)"
    by (auto simp: urls_of_def rx_texts_def)
  from rx_all_sound [OF t(1)] obtain p v where data: "data = p @ t @ v"
    and lang: "rx_lang URL_rx (rev p @ [], t @ v, []) (rev t @ rev p @ [], v, gs)" by blast
  from url_rx_text [OF lang] obtain t' where "t @ v = t' @ v" "url_text t'" by auto
  with data t(2) show "\<exists>t. sublist t data \<and> url_text t \<and> u = take MAX_STRING (utf8_replace t)" by auto
next
  show "urls_of data = [] \<longleftrightarrow> \<not> found URL_rx data"
  proof -
    have "rx_all URL_rx [] data = [] \<longleftrightarrow> rx_search URL_rx [] data = None" by (rule rx_all_none) (rule url_rx_reads)
    moreover have "sort xs = [] \<longleftrightarrow> xs = []" for xs :: "pystr list" by (metis length_0_conv length_sort)
    ultimately show ?thesis by (simp only: urls_of_def rx_texts_def found_def map_is_Nil_conv remdups_eq_nil_iff not_not)
  qed
qed (simp_all add: urls_of_def)

subsection \<open>What the PDF parser extracts\<close>

definition digits_error :: "py_exn \<Rightarrow> bool" where
  "digits_error e \<longleftrightarrow> e = ValueError ''Exceeds the limit (4300 digits) for integer string conversion''"

lemma int_of_digits_raises: "raises_only digits_error (int_of_digits ds)"
  by (simp add: int_of_digits_def digits_error_def)

lemma pdf_object_groups: "fixed_groups PDF_OBJECT" "groups_of PDF_OBJECT = 3"
  by (simp_all add: PDF_OBJECT_def ascb_def)

lemma stream_body_groups: "fixed_groups stream_body" "groups_of stream_body = 1"
  by (simp_all add: stream_body_def pdf_line_break_def ascb_def)

lemma update_values: "(k, v) \<in> set (AList.update n x acc) \<Longrightarrow> v = x \<or> (k, v) \<in> set acc"
  by (induction acc) (auto split: if_splits)

lemma pdf_bodies_parts:
  assumes "pdf_bodies (rx_all PDF_OBJECT [] data) = Inr bodies"
  shows "distinct (map fst bodies) \<and> (\<forall>(n, body) \<in> set bodies. sublist body data)"
  using assms unfolding pdf_bodies_def
proof (rule foldE_invariant)
  fix x :: "bytes \<times> bytes list" and s t
  assume x: "x \<in> set (rx_all PDF_OBJECT [] data)" and s: "distinct (map fst s) \<and> (\<forall>(n, body) \<in> set s. sublist body data)"
    and step: "(case x of (_, gs) \<Rightarrow> \<lambda>acc. bindE (int_of_digits (gs ! 0)) (\<lambda>n. Inr (AList.update n (gs ! 2) acc))) s = Inr t"
  obtain w gs where gs: "x = (w, gs)" by (cases x)
  with rx_all_group [OF x [unfolded gs] pdf_object_groups(1)] have "sublist (gs ! 2) data" by (simp add: pdf_object_groups)
  with s step show "distinct (map fst t) \<and> (\<forall>(n, body) \<in> set t. sublist body data)"
    by (auto simp: gs distinct_update dest!: update_values)
qed simp

text \<open>A child holds bytes of the file, or what they inflate to with nothing left over; never more than the limit.\<close>

definition pdf_child_ok :: "document_env \<Rightarrow> runtime_settings \<Rightarrow> bytes \<Rightarrow> document_child \<Rightarrow> bool" where
  "pdf_child_ok env limits data child \<longleftrightarrow>
     int (length (dc_data child)) \<le> rt_max_single_child_bytes limits
     \<and> (\<exists>payload. sublist payload data
          \<and> (dc_data child = payload \<or> de_inflate env payload (rt_max_single_child_bytes limits + 1) = Some (dc_data child, False)))"

lemma pdf_child_sound:
  assumes "pdf_child env limits (n, body) = Some child" and "sublist body data"
  shows "pdf_child_ok env limits data child"
proof -
  from assms(1) obtain b a gs where gs: "rx_search stream_body [] body = Some (b, a, gs)"
    by (auto simp: pdf_child_def split: if_splits option.splits)
  have "length gs = 1 \<and> (\<forall>g \<in> set gs. sublist g body)"
    using rx_search_group [OF gs stream_body_groups(1)] by (simp add: stream_body_groups)
  then have "sublist (hd gs) data" using assms(2) sublist_order.order.trans by (cases gs) auto
  moreover have "int (length (dc_data child)) \<le> rt_max_single_child_bytes limits
      \<and> (dc_data child = hd gs \<or> de_inflate env (hd gs) (rt_max_single_child_bytes limits + 1) = Some (dc_data child, False))"
    using assms(1) gs by (auto simp: pdf_child_def Let_def split: if_splits option.splits)
  ultimately show ?thesis
    by (auto simp: pdf_child_def pdf_child_ok_def Let_def split: if_splits option.splits)
qed

lemma parse_pdf_children:
  assumes "parse_pdf env limits data = Inr p" and "child \<in> set (pd_children p)"
  shows "pdf_child_ok env limits data child"
proof -
  from assms obtain bodies n body where "pdf_bodies (rx_all PDF_OBJECT [] data) = Inr bodies" "(n, body) \<in> set bodies"
      "pdf_child env limits (n, body) = Some child"
    by (auto simp: parse_pdf_def Let_def map_filter_def split: option.splits if_splits)
  with pdf_bodies_parts pdf_child_sound show ?thesis by blast
qed

lemma pdf_bodies_raises: "raises_only digits_error (pdf_bodies objects)"
  unfolding pdf_bodies_def
  by (rule raises_only_foldE [where I = "\<lambda>_. True"]) (auto intro!: raises_only_bindE int_of_digits_raises split: prod.split)

definition document_raised :: "py_exn \<Rightarrow> bool" where
  "document_raised e \<longleftrightarrow> (case e of DocumentError _ \<Rightarrow> True | _ \<Rightarrow> False)"

lemma parse_pdf_raises: "raises_only (\<lambda>e. document_raised e \<or> digits_error e) (parse_pdf env limits data)"
  unfolding parse_pdf_def Let_def
  by (auto simp: document_raised_def split: option.split intro!: raises_only_bindE raises_only_if
      raises_only_mono [OF pdf_bodies_raises])

lemma parse_rtf_raises: "raises_only (\<lambda>e. document_raised e \<or> digits_error e) (parse_rtf limits data)"
  unfolding parse_rtf_def Let_def
  by (auto simp: document_raised_def split: option.split prod.split intro!: raises_only_bindE
      raises_only_mono [OF int_of_digits_raises])

text \<open>
  C37: The RTF loop computes the nesting: with the depths after each unescaped brace, the anomaly is the
  first depth below zero (an unmatched brace) or above the limit, else groups left open at the end, else
  none; and the maximum is the largest depth up to there.
\<close>

theorem rtf_nesting_exact:
  assumes "0 \<le> limit"
  shows "rtf_structure limit data =
     (let ds = depths 0 (brace_steps False data) in
      case List.find (out_of_range limit) ds of
        None \<Rightarrow> (foldl max 0 ds, if last (0 # ds) = 0 then None else Some ''RTF unbalanced groups'')
      | Some d \<Rightarrow> (foldl max 0 (through_first (out_of_range limit) ds),
          Some (if d < 0 then ''RTF unmatched closing group'' else ''RTF nesting limit exceeded'')))"
  using assms by (auto simp: rtf_structure_def rtf_groups_exact Let_def split: option.split)

text \<open>A group in a group, an escaped brace, then a brace too many.\<close>

lemma rtf_nesting_exact_witness:
  "rtf_structure 5 [0x7B, 0x7B, 0x5C, 0x7B, 0x7D, 0x7D, 0x7D] = (2, Some ''RTF unmatched closing group'')"
  using rtf_nesting_exact [of 5 "[0x7B, 0x7B, 0x5C, 0x7B, 0x7D, 0x7D, 0x7D]"] by (simp add: out_of_range_def)


end
