(* ===== verification/Containers.thy ===== *)
theory Containers
  imports Protocol Documents Partitions Disk_Images
begin

unbundle bit_operations_syntax

section \<open>Containers: \<open>analyzers/containers.py\<close>\<close>

text \<open>
  Bounded extraction of archives, file systems, partitions and documents, and the application of
  the scan service to every extracted object. Archive libraries, the external unpackers and the
  clock are arguments (\<open>container_env\<close>); the budget checks, the member filters, the listings' parsers,
  the detection of the container kind and the recursion are the code's.
\<close>

subsection \<open>Member names\<close>

text \<open>\<open>len(name.encode("utf-8", errors="replace"))\<close>: a lone surrogate becomes a question mark.\<close>

definition encoded_length :: "pystr \<Rightarrow> nat" where
  "encoded_length name =
     sum_list (map (\<lambda>c. if 0xD800 \<le> c \<and> c \<le> 0xDFFF then 1 else length (utf8_char c)) name)"

text \<open>\<open>name.replace("\\", "/")\<close>.\<close>

definition forward_slashes :: "pystr \<Rightarrow> pystr" where
  "forward_slashes name = map (\<lambda>c. if c = 0x5C then 0x2F else c) name"

definition name_parts :: "pystr \<Rightarrow> pystr list" where
  "name_parts name = filter (\<lambda>p. p \<noteq> []) (split_on 0x2F (forward_slashes name))"

definition safe_name :: "extraction_budget \<Rightarrow> pystr \<Rightarrow> bool" where
  "safe_name b name \<longleftrightarrow>
     (if encoded_length name > b_max_member_name_bytes b then False
      else if 0 \<in> set name \<or> starts_with [0x2F] name \<or> starts_with [0x5C] name then False
      else if length name \<ge> 2 \<and> name ! 1 = 0x3A then False
      else length (name_parts name) \<le> b_max_path_depth b \<and> asc ''..'' \<notin> set (name_parts name))"

text \<open>\<open>PurePosixPath(name).as_posix()\<close>.\<close>

definition posix_path :: "pystr \<Rightarrow> pystr" where
  "posix_path s =
     (let root_part = (if starts_with [0x2F, 0x2F] s \<and> \<not> starts_with [0x2F, 0x2F, 0x2F] s then [0x2F, 0x2F]
            else if starts_with [0x2F] s then [0x2F] else []);
          parts = filter (\<lambda>p. p \<noteq> [] \<and> p \<noteq> asc ''.'') (split_on 0x2F s);
          shown = root_part @ join_with [0x2F] parts
      in if shown = [] then asc ''.'' else shown)"

definition safe_display :: "pystr \<Rightarrow> pystr" where
  "safe_display name = take 4096 (posix_path (forward_slashes name))"

text \<open>A path component of the host: the bytes of its UTF-8 encoding.\<close>

definition os_name :: "pystr \<Rightarrow> string" where
  "os_name s = map (\<lambda>b. char_of (unat b)) (utf8 s)"

text \<open>\<open>Path(directory) / name\<close> for a relative name.\<close>

definition below_directory :: "path \<Rightarrow> pystr \<Rightarrow> path" where
  "below_directory d name =
     d @ map os_name (filter (\<lambda>p. p \<noteq> [] \<and> p \<noteq> asc ''.'') (split_on 0x2F name))"

definition is_zip_link :: "nat \<Rightarrow> bool" where
  "is_zip_link external_attr \<longleftrightarrow>
     (let mode = drop_bit 16 external_attr AND 0xFFFF in mode AND 0xF000 = 0xA000)"

subsection \<open>The listings of the external unpackers\<close>

record listed_member =
  lm_name :: pystr
  lm_size :: pyval
  lm_directory :: bool
  lm_method :: "pystr option"

text \<open>\<open>int(s)\<close>; \<open>dec\<close> gives the value of a decimal digit of any script.\<close>

fun int_digits :: "(nat \<Rightarrow> nat option) \<Rightarrow> nat \<Rightarrow> bool \<Rightarrow> pystr \<Rightarrow> nat option" where
  "int_digits dec acc after_digit [] = (if after_digit then Some acc else None)"
| "int_digits dec acc after_digit (c # cs) =
     (if c = 0x5F then (if after_digit then int_digits dec acc False cs else None)
      else case dec c of None \<Rightarrow> None | Some d \<Rightarrow> int_digits dec (10 * acc + d) True cs)"

definition py_int :: "(nat \<Rightarrow> nat option) \<Rightarrow> pystr \<Rightarrow> int res" where
  "py_int dec s =
     (let t = strip_space s; signed_part = t \<noteq> [] \<and> hd t \<in> {0x2B, 0x2D}; ds = (if signed_part then tl t else t)
      in if length (filter (\<lambda>c. c \<noteq> 0x5F) ds) > 4300 then Inl (ValueError ''Exceeds the limit for integer string conversion'')
         else case int_digits dec 0 False ds of
           None \<Rightarrow> Inl (ValueError ''invalid literal for int()'')
         | Some n \<Rightarrow> Inr (if signed_part \<and> hd t = 0x2D then - int n else int n))"

text \<open>\<open>output.split("\n\n")\<close>; \<open>cur\<close> is the block read so far, in reverse.\<close>

fun split_blocks :: "pystr \<Rightarrow> pystr \<Rightarrow> pystr list" where
  "split_blocks cur [] = [rev cur]"
| "split_blocks cur (c # cs) =
     (if c = 10 \<and> cs \<noteq> [] \<and> hd cs = 10 then rev cur # split_blocks [] (tl cs) else split_blocks (c # cur) cs)"

text \<open>The last value of a key, as in the dictionary that the lines of a block fill.\<close>

definition listing_pair :: "pystr \<Rightarrow> (pystr \<times> pystr) option" where
  "listing_pair line =
     (if 0x3D \<in> set line
      then Some (strip_space (takeWhile (\<lambda>c. c \<noteq> 0x3D) line), strip_space (tl (dropWhile (\<lambda>c. c \<noteq> 0x3D) line)))
      else None)"

definition block_values :: "pystr \<Rightarrow> (pystr \<times> pystr) list" where
  "block_values block = rev (List.map_filter listing_pair (splitlines block))"

definition listed_7z :: "pystr \<Rightarrow> listed_member option" where
  "listed_7z block =
     (let get = map_of (block_values block) in
      case (get (asc ''Path''), get (asc ''Size'')) of
        (Some name, Some size_text) \<Rightarrow>
          if name = [] \<or> name = asc ''.'' \<or> name = asc ''..'' then None
          else Some \<lparr>lm_name = name, lm_size = PStr size_text,
                 lm_directory = (case get (asc ''Folder'') of Some v \<Rightarrow> v = asc ''+'' | None \<Rightarrow> False)
                   \<or> (case get (asc ''Attributes'') of Some v \<Rightarrow> starts_with (asc ''D'') v | None \<Rightarrow> False),
                 lm_method = None\<rparr>
      | _ \<Rightarrow> None)"

definition parse_7z_listing :: "pystr \<Rightarrow> listed_member list" where
  "parse_7z_listing output = List.map_filter listed_7z (split_blocks [] output)"

text \<open>\<open>line.split()\<close>.\<close>

fun split_space :: "pystr \<Rightarrow> pystr \<Rightarrow> pystr list" where
  "split_space cur [] = (if cur = [] then [] else [rev cur])"
| "split_space cur (c # cs) =
     (if is_space c then (if cur = [] then split_space [] cs else rev cur # split_space [] cs)
      else split_space (c # cur) cs)"

text \<open>
  A backtracking matcher for the pattern \<open>-lh\S*-\s+\S+\s+.{12}\s+(.+)$\<close>: each piece gives the rests
  it can leave, the preferred one first. A line holds no line feed, so the group is the whole rest.
\<close>

fun rx_star :: "(nat \<Rightarrow> bool) \<Rightarrow> pystr \<Rightarrow> pystr list" where
  "rx_star p [] = [[]]"
| "rx_star p (c # cs) = (if p c then rx_star p cs else []) @ [c # cs]"

definition rx_plus :: "(nat \<Rightarrow> bool) \<Rightarrow> pystr \<Rightarrow> pystr list" where
  "rx_plus p s = (case s of [] \<Rightarrow> [] | c # cs \<Rightarrow> if p c then rx_star p cs else [])"

definition rx_lit :: "pystr \<Rightarrow> pystr \<Rightarrow> pystr list" where
  "rx_lit lit s = (if starts_with lit s then [drop (length lit) s] else [])"

definition rx_exactly :: "nat \<Rightarrow> pystr \<Rightarrow> pystr list" where
  "rx_exactly n s = (if n \<le> length s \<and> 10 \<notin> set (take n s) then [drop n s] else [])"

definition rx_then :: "(pystr \<Rightarrow> pystr list) \<Rightarrow> (pystr \<Rightarrow> pystr list) \<Rightarrow> pystr \<Rightarrow> pystr list" where
  "rx_then f g s = concat (map g (f s))"

definition lha_row_rests :: "pystr \<Rightarrow> pystr list" where
  "lha_row_rests =
     rx_then (rx_lit (asc ''-lh'')) (rx_then (rx_star (\<lambda>c. \<not> is_space c)) (rx_then (rx_lit (asc ''-''))
       (rx_then (rx_plus is_space) (rx_then (rx_plus (\<lambda>c. \<not> is_space c)) (rx_then (rx_plus is_space)
       (rx_then (rx_exactly 12) (rx_plus is_space)))))))"

fun lha_row_name :: "pystr \<Rightarrow> pystr option" where
  "lha_row_name [] = None"
| "lha_row_name (c # cs) =
     (case filter (\<lambda>r. r \<noteq> []) (lha_row_rests (c # cs)) of
        r # _ \<Rightarrow> Some r
      | [] \<Rightarrow> lha_row_name cs)"

record digit_tables =
  dt_digit :: "nat \<Rightarrow> bool"
  dt_decimal :: "nat \<Rightarrow> nat option"

definition lha_line :: "digit_tables \<Rightarrow> pystr \<Rightarrow> listed_member option res" where
  "lha_line dt line =
     (let fields = split_space [] line; inner = butlast (tl fields) in
      if \<not> (length fields \<ge> 5 \<and> hd fields = asc ''[generic]'') then Inr None
      else bindE (mapE (py_int (dt_decimal dt)) (filter (\<lambda>v. v \<noteq> [] \<and> list_all (dt_digit dt) v) inner)) (\<lambda>numeric.
        case (if length numeric \<ge> 2 then Some (numeric ! 1) else if numeric \<noteq> [] then Some (numeric ! 0) else None) of
          None \<Rightarrow> Inr None
        | Some size_value \<Rightarrow>
            let name = (case lha_row_name line of Some n \<Rightarrow> n | None \<Rightarrow> strip_space (drop 68 line))
            in Inr (Some \<lparr>lm_name = name, lm_size = PInt size_value, lm_directory = ends_with (asc ''/'') name,
                   lm_method = List.find (starts_with (asc ''-lh'')) inner\<rparr>)))"

definition parse_lha_listing :: "digit_tables \<Rightarrow> pystr \<Rightarrow> listed_member list res" where
  "parse_lha_listing dt output =
     bindE (mapE (lha_line dt) (splitlines output)) (\<lambda>rows. Inr (List.map_filter (\<lambda>r. r) rows))"

text \<open>\<open>int(str(member.get("size", 0) or 0))\<close>.\<close>

definition declared_size :: "digit_tables \<Rightarrow> listed_member \<Rightarrow> int res" where
  "declared_size dt m =
     (case lm_size m of
        PInt n \<Rightarrow> Inr n
      | PStr s \<Rightarrow> if s = [] then Inr 0 else py_int (dt_decimal dt) s
      | _ \<Rightarrow> Inr 0)"

subsection \<open>Archive libraries, unpackers and the host\<close>

text \<open>A member of a TAR archive carries the attributes the code looks at, like one of a ZIP archive.\<close>

record tar_member =
  tm_name :: pystr
  tm_is_link :: bool
  tm_is_file :: bool
  tm_size :: nat
  tm_extract :: "byte_source option res"

record completed_process =
  cp_returncode :: int
  cp_stdout :: pystr
  cp_stderr :: pystr

text \<open>
  A process read through a pipe: what each \<open>select\<close> and \<open>read\<close> gives (nothing in time, or bytes;
  no bytes is the end) and what \<open>wait\<close> gives.
\<close>

record pipe_process =
  pp_reads :: "bytes option list"
  pp_wait :: "int res"

record 'x container_env =
  ce_budget :: extraction_budget
  ce_staging :: path
  ce_scratch :: path
  ce_use_bubblewrap :: bool
  ce_max_document_bytes :: nat
  ce_frames :: nat
  ce_monotonic :: "nat \<Rightarrow> int"
  ce_job_id :: "nat \<Rightarrow> string"
  ce_temp_name :: "nat \<Rightarrow> string"
  ce_digits :: digit_tables
  ce_document :: "bytes \<Rightarrow> parsed_document option res"
  ce_is_zipfile :: "bytes \<Rightarrow> bool"
  ce_zip_members :: "bytes \<Rightarrow> zip_member list res"
  ce_is_tarfile :: "bytes \<Rightarrow> bool res"
  ce_tar_members :: "bytes \<Rightarrow> tar_member list res"
  ce_decompress :: "string \<Rightarrow> bytes \<Rightarrow> byte_source res"
  ce_which :: "string \<Rightarrow> string option"
  ce_run :: "string list \<Rightarrow> path \<Rightarrow> nat \<Rightarrow> ('x machine, completed_process) py"
  ce_popen :: "string list \<Rightarrow> path \<Rightarrow> ('x machine, pipe_process) py"

definition is_tar_error :: "py_exn \<Rightarrow> bool" where
  "is_tar_error e \<longleftrightarrow> exn_class e \<in> {''TarError'', ''ReadError'', ''CompressionError'', ''StreamError'', ''HeaderError'',
     ''ExtractError'', ''EmptyHeaderError'', ''TruncatedHeaderError'', ''EOFHeaderError'', ''InvalidHeaderError'',
     ''SubsequentHeaderError''}"

definition is_bad_zip :: "py_exn \<Rightarrow> bool" where
  "is_bad_zip e \<longleftrightarrow> exn_class e = ''BadZipFile''"

definition is_timeout :: "py_exn \<Rightarrow> bool" where
  "is_timeout e \<longleftrightarrow> exn_class e = ''TimeoutExpired''"

text \<open>The exceptions that \<open>process\<close> turns into a partial result.\<close>

definition container_error :: "py_exn \<Rightarrow> bool" where
  "container_error e \<longleftrightarrow> e = OSError \<or> is_tar_error e \<or> is_bad_zip e \<or> exn_class e = ''EOFError''"

subsection \<open>The kind of a container\<close>

definition iso_at :: "bytes \<Rightarrow> nat \<Rightarrow> bool" where
  "iso_at data offset \<longleftrightarrow> pyslice data offset (offset + 5) = ascb ''CD001''"

definition magic_kind :: "bytes \<Rightarrow> string option" where
  "magic_kind header =
     (if starts_with [0x1F, 0x8B] header then Some ''gzip''
      else if starts_with (ascb ''BZh'') header then Some ''bzip2''
      else if starts_with ([0xFD] @ ascb ''7zXZ'' @ [0]) header then Some ''xz''
      else if starts_with (ascb ''7z'' @ [0xBC, 0xAF, 0x27, 0x1C]) header then Some ''7z''
      else if starts_with (ascb ''MSCF'') header then Some ''cab''
      else if starts_with [0x60, 0xEA] header then Some ''arj''
      else None)"

definition image_kind :: "'x container_env \<Rightarrow> bytes \<Rightarrow> string option res" where
  "image_kind ce data =
     (case parse_disk_image (ce_frames ce) data of
        Inl (DiskImageError _) \<Rightarrow> Inr (Some (if starts_with (ascb ''DOS'') (take 8 data) then ''amiga-adf'' else ''fat''))
      | Inl e \<Rightarrow> Inl e
      | Inr None \<Rightarrow> Inr None
      | Inr (Some img) \<Rightarrow> Inr (Some (if image_format img = ''amiga-adf'' then ''amiga-adf'' else ''fat'')))"

definition archive_kind :: "'x container_env \<Rightarrow> bytes \<Rightarrow> string option res" where
  "archive_kind ce data =
     (if ce_is_zipfile ce data then Inr (Some ''zip'')
      else if starts_with (ascb ''PK'') (take 8 data) then Inr (Some ''corrupt-zip'')
      else if iso_at data 0x8001 \<or> iso_at data 0x8801 then Inr (Some ''iso9660'')
      else
        case (case ce_is_tarfile ce data of
                Inr b \<Rightarrow> Inr b
              | Inl e \<Rightarrow> if e = OSError \<or> is_tar_error e then Inr False else Inl e) of
          Inl e \<Rightarrow> Inl e
        | Inr tar \<Rightarrow> Inr (if tar then Some ''tar'' else magic_kind (take 8 data)))"

definition kind_of :: "'x container_env \<Rightarrow> bytes \<Rightarrow> string option res" where
  "kind_of ce data =
     (case parse_partition_table data 32 of
        Inl (PartitionTableError _) \<Rightarrow> Inr (Some ''partitioned-disk'')
      | Inl e \<Rightarrow> Inl e
      | Inr (Some _) \<Rightarrow> Inr (Some ''partitioned-disk'')
      | Inr None \<Rightarrow>
          let header = take 8 data in
          if length header \<ge> 7 \<and> starts_with (ascb ''-lh'') (pyslice header 2 7) then Inr (Some ''lha'')
          else bindE (image_kind ce data) (\<lambda>k. case k of Some k \<Rightarrow> Inr (Some k) | None \<Rightarrow> archive_kind ce data))"

definition kind :: "'x container_env \<Rightarrow> path \<Rightarrow> ('x world, string option) py" where
  "kind ce source =
     bindP (getP (\<lambda>w. file_at source (fst (w_machine w)))) (\<lambda>content.
     case content of None \<Rightarrow> ret None | Some data \<Rightarrow> liftP (kind_of ce data))"

subsection \<open>Budget and usage\<close>

text \<open>The usage object is shared with the job: it is read and updated there.\<close>

definition usage_of :: "'x world \<Rightarrow> extraction_usage" where
  "usage_of w = (case j_extraction_usage (w_job w) of Some u \<Rightarrow> u | None \<Rightarrow> empty_usage)"

definition upd_usage :: "(extraction_usage \<Rightarrow> extraction_usage) \<Rightarrow> ('x world, unit) py" where
  "upd_usage f = upd_job (\<lambda>j. j\<lparr>j_extraction_usage := map_option f (j_extraction_usage j)\<rparr>)"

definition add_event :: "string \<Rightarrow> extraction_usage \<Rightarrow> extraction_usage" where
  "add_event event u =
     (if asc event \<in> set (u_limit_events u) then u else u\<lparr>u_limit_events := u_limit_events u @ [asc event]\<rparr>)"

text \<open>\<open>_limit\<close> and \<open>_skip\<close>, which do the same.\<close>

definition limit :: "string \<Rightarrow> ('x world, unit) py" where
  "limit event = upd_usage (add_event event)"

definition skip :: "string \<Rightarrow> ('x world, unit) py" where
  "skip event = upd_usage (add_event event)"

definition set_completeness :: "string \<Rightarrow> ('x world, unit) py" where
  "set_completeness c = upd_job (\<lambda>j. j\<lparr>j_completeness := c\<rparr>)"

definition can_start_child :: "'x container_env \<Rightarrow> ('x world, bool) py" where
  "can_start_child ce =
     bindP (getP usage_of) (\<lambda>u.
     if u_children_materialized u \<ge> b_max_total_children (ce_budget ce)
     then thenP (limit ''TOTAL_CHILD_COUNT_LIMIT'') (ret False)
     else ret True)"

definition monotonic :: "'x container_env \<Rightarrow> ('x world, int) py" where
  "monotonic ce = (\<lambda>w. (Inr (ce_monotonic ce (w_ticks w)), w\<lparr>w_ticks := Suc (w_ticks w)\<rparr>))"

definition too_late :: "'x container_env \<Rightarrow> int \<Rightarrow> ('x world, bool) py" where
  "too_late ce started =
     bindP (monotonic ce) (\<lambda>t. ret (t - started > 1000000 * int (b_max_extraction_time_seconds (ce_budget ce))))"

subsection \<open>Materialising a stream\<close>

function chunks_of :: "nat \<Rightarrow> 'a list \<Rightarrow> 'a list list" where
  "chunks_of n xs = (if n = 0 \<or> xs = [] then [] else take n xs # chunks_of n (drop n xs))"
  by pat_completeness auto
termination by (relation "measure (\<lambda>(n, xs). length xs)") auto

declare chunks_of.simps [simp del]

text \<open>\<open>io.BytesIO(data)\<close> and a bounded reader of a range, read by chunks.\<close>

definition bytes_source :: "bytes \<Rightarrow> byte_source" where
  "bytes_source data = (chunks_of mib data, None)"

fun reader_source :: "nat \<Rightarrow> range_reader \<Rightarrow> byte_source" where
  "reader_source 0 r = ([], Some OutOfFuel)"
| "reader_source (Suc fuel) r =
     (case rr_read (int mib) r of
        Inl e \<Rightarrow> ([], Some e)
      | Inr (chunk, r') \<Rightarrow>
          if chunk = [] then ([], None)
          else (case reader_source fuel r' of (cs, e) \<Rightarrow> (chunk # cs, e)))"

fun copy_chunks :: "'x container_env \<Rightarrow> int \<Rightarrow> nat \<Rightarrow> py_exn option \<Rightarrow> bytes list \<Rightarrow> bytes \<Rightarrow> ('x world, bytes option) py" where
  "copy_chunks ce started parent_size failure [] acc =
     (case failure of None \<Rightarrow> ret (Some acc) | Some e \<Rightarrow> raiseP e)"
| "copy_chunks ce started parent_size failure (chunk # chunks) acc =
     bindP (too_late ce started) (\<lambda>late.
     bindP (getP usage_of) (\<lambda>u.
     let b = ce_budget ce; reached = length acc + length chunk in
     if late then thenP (limit ''EXTRACTION_TIME_LIMIT'') (ret None)
     else if reached > b_max_single_child_bytes b then thenP (limit ''CHILD_SIZE_LIMIT'') (ret None)
     else if u_total_extracted_bytes u + reached > b_max_total_extracted_bytes b
     then thenP (limit ''EXTRACTION_BYTE_BUDGET_EXHAUSTED'') (ret None)
     else if parent_size \<noteq> 0 \<and> of_nat reached / of_nat parent_size > b_max_expansion_ratio b
     then thenP (limit ''EXPANSION_RATIO_LIMIT'') (ret None)
     else copy_chunks ce started parent_size failure chunks (acc @ chunk)))"

definition discard :: "path \<Rightarrow> ('x world, unit) py" where
  "discard target =
     bindP (getP (\<lambda>w. fs_exists target (fst (w_machine w)))) (\<lambda>there.
     whenP there (onmachine (onfs (unlink target))))"

definition materialize :: "'x container_env \<Rightarrow> byte_source \<Rightarrow> path \<Rightarrow> nat \<Rightarrow> int \<Rightarrow> ('x world, nat option) py" where
  "materialize ce stream target parent_size started =
     unlessP (\<lambda>m. m \<noteq> None) (discard target)
       (thenP (onmachine (onfs (write_new target [])))
       (bindP (copy_chunks ce started parent_size (snd stream) (fst stream) []) (\<lambda>copied.
        case copied of
          None \<Rightarrow> ret None
        | Some content \<Rightarrow>
            thenP (onmachine (onfs (updP (put_file target content))))
            (thenP (upd_usage (\<lambda>u. u\<lparr>u_total_extracted_bytes := u_total_extracted_bytes u + length content\<rparr>))
            (ret (Some (length content)))))))"

subsection \<open>One extracted object\<close>

definition child_artifact :: "'x scan_service \<Rightarrow> path \<Rightarrow> pystr \<Rightarrow> ('x world, input_artifact) py" where
  "child_artifact sv p name =
     bindP (now_time sv) (\<lambda>t1.
     bindP (onmachine (onfs (hash_file (ss_digests sv) t1 p ''local-cli'' (asc ''application/octet-stream'')))) (\<lambda>digest.
     bindP (now_time sv) (\<lambda>t2.
     liftP (validate_input_artifact
       \<lparr>a_hashes = a_hashes digest, a_byte_size = a_byte_size digest, a_filename = asc (last p),
        a_submitted_filename = Some name, a_media_type = asc ''application/octet-stream'',
        a_source = ''derived-container'', a_submitted_at = t2, a_rights = default_rights\<rparr>))))"

text \<open>
  \<open>create_queued\<close> and \<open>execute_queued\<close> on the child's own job object; the job in hand is the
  parent's again afterwards.
\<close>

definition scan_child :: "'x container_env \<Rightarrow> 'x scan_service \<Rightarrow> input_artifact \<Rightarrow> path \<Rightarrow> ('x world, scan_job) py" where
  "scan_child ce sv artifact p =
     bindP (getP w_job) (\<lambda>parent.
     bindP (getP w_ticks) (\<lambda>n.
     finallyP
       (thenP (create_queued sv (ce_job_id ce n) artifact (''derived:'' @ j_job_id parent)
                 (filter (\<lambda>name. name \<noteq> ''container'') (j_requested_scanners parent)))
       (thenP (execute_queued sv p) (getP w_job)))
       (upd_job (\<lambda>_. parent))))"

definition derived_of :: "input_artifact \<Rightarrow> input_artifact \<Rightarrow> nat \<Rightarrow> pystr \<Rightarrow> nat \<Rightarrow> (string \<times> pyval) list \<Rightarrow> scan_job \<Rightarrow> derived_object" where
  "derived_of parent child depth name index metadata done_job =
     \<lparr>d_object = Obj_Identity
        \<lparr>oi_sha256 = h_sha256 (a_hashes child), oi_blake3 = Some (h_blake3 (a_hashes child)),
         oi_sha1 = Some (h_sha1 (a_hashes child)), oi_md5 = Some (h_md5 (a_hashes child)),
         oi_size = a_byte_size child, oi_filename = Some (a_filename child), oi_media_type = Some (a_media_type child)\<rparr>,
      d_parent_sha256 = h_sha256 (a_hashes parent), d_depth = depth, d_member_name = Some name,
      d_normalized_member_name = Some (safe_display name), d_member_index = Some index,
      d_extraction_status = ''COMPLETE'', d_analyzer_results = j_analyzer_results done_job,
      d_scanner_results = j_scanner_results done_job, d_normalized_verdict = j_normalized_verdict done_job,
      d_errors = j_errors done_job, d_metadata = metadata, d_preservation_context = default_preservation\<rparr>"

definition relationship_of :: "relationship_kind \<Rightarrow> input_artifact \<Rightarrow> input_artifact \<Rightarrow> nat \<Rightarrow> pystr \<Rightarrow> nat \<Rightarrow> timestamp \<Rightarrow> object_relationship" where
  "relationship_of relation parent child depth name index now =
     \<lparr>rel_relationship = relation, rel_source_sha256 = h_sha256 (a_hashes parent),
      rel_target_sha256 = h_sha256 (a_hashes child), rel_evidence_refs = [], rel_member_name = Some name,
      rel_normalized_member_name = Some (safe_display name), rel_analyzer_id = Some ''container'',
      rel_extracted_at = Some now, rel_depth = depth, rel_member_index = Some index, rel_authority = AVBOX_ANALYSIS\<rparr>"

definition child_target :: "path \<Rightarrow> nat \<Rightarrow> path" where
  "child_target derived_root n = derived_root @ [''child-'' @ pad_left 8 (CHR ''0'') (show_nat n)]"

record extraction =
  ex_root :: path
  ex_started :: int

text \<open>\<open>recurse\<close> is \<open>_process_object\<close> on the extracted file.\<close>

definition descend ::
  "'x container_env \<Rightarrow> (path \<Rightarrow> input_artifact \<Rightarrow> nat \<Rightarrow> ('x world, unit) py) \<Rightarrow> path \<Rightarrow> input_artifact \<Rightarrow> nat
   \<Rightarrow> ('x world, unit) py" where
  "descend ce recurse target child depth =
     thenP (upd_usage (\<lambda>u. u\<lparr>u_max_depth_reached := max (u_max_depth_reached u) depth\<rparr>))
     (if depth \<ge> b_max_recursion_depth (ce_budget ce)
      then bindP (kind ce target) (\<lambda>k. whenP (k \<noteq> None) (limit ''RECURSION_LIMIT_REACHED''))
      else recurse target child depth)"

definition append_derived :: "derived_object \<Rightarrow> ('x world, unit) py" where
  "append_derived d = upd_job (\<lambda>j. j\<lparr>j_derived_objects := j_derived_objects j @ [d]\<rparr>)"

definition append_relationship :: "object_relationship \<Rightarrow> ('x world, unit) py" where
  "append_relationship r = upd_job (\<lambda>j. j\<lparr>j_relationships := j_relationships j @ [r]\<rparr>)"

definition count_materialized :: "('x world, unit) py" where
  "count_materialized = upd_usage (\<lambda>u. u\<lparr>u_children_materialized := u_children_materialized u + 1\<rparr>)"

text \<open>The part of \<open>_child\<close> after the object is on disk.\<close>

definition scan_and_record ::
  "'x container_env \<Rightarrow> 'x scan_service \<Rightarrow> (path \<Rightarrow> input_artifact \<Rightarrow> nat \<Rightarrow> ('x world, unit) py)
   \<Rightarrow> input_artifact \<Rightarrow> path \<Rightarrow> pystr \<Rightarrow> nat \<Rightarrow> relationship_kind \<Rightarrow> nat \<Rightarrow> (string \<times> pyval) list \<Rightarrow> ('x world, unit) py" where
  "scan_and_record ce sv recurse parent target name index relation depth metadata =
     thenP count_materialized
     (bindP (child_artifact sv target name) (\<lambda>child.
      bindP (scan_child ce sv child target) (\<lambda>done_job.
      thenP (append_derived (derived_of parent child depth name index metadata done_job))
      (bindP (now_time sv) (\<lambda>now.
       thenP (append_relationship (relationship_of relation parent child depth name index now))
       (descend ce recurse target child depth))))))"

definition extract_child ::
  "'x container_env \<Rightarrow> 'x scan_service \<Rightarrow> extraction \<Rightarrow> (path \<Rightarrow> input_artifact \<Rightarrow> nat \<Rightarrow> ('x world, unit) py)
   \<Rightarrow> input_artifact \<Rightarrow> byte_source \<Rightarrow> pystr \<Rightarrow> nat \<Rightarrow> relationship_kind \<Rightarrow> nat \<Rightarrow> nat \<Rightarrow> (string \<times> pyval) list
   \<Rightarrow> ('x world, unit) py" where
  "extract_child ce sv ex recurse parent stream name index relation parent_depth parent_size metadata =
     bindP (can_start_child ce) (\<lambda>may_start.
     if \<not> may_start then ret ()
     else
       bindP (getP usage_of) (\<lambda>u.
       let target = child_target (ex_root ex) (u_children_materialized u) in
       bindP (materialize ce stream target parent_size (ex_started ex)) (\<lambda>materialized.
       if materialized = None then ret ()
       else scan_and_record ce sv recurse parent target name index relation (parent_depth + 1) metadata)))"

subsection \<open>The kinds of containers\<close>

text \<open>
  \<open>add\<close> is \<open>_child\<close> with the arguments that are the same for all members of a container: it takes
  the stream, the name, the index, the relation and the metadata.
\<close>

type_synonym 'x add_child =
  "byte_source \<Rightarrow> pystr \<Rightarrow> nat \<Rightarrow> relationship_kind \<Rightarrow> (string \<times> pyval) list \<Rightarrow> ('x world, unit) py"

definition read_source :: "path \<Rightarrow> ('x world, bytes) py" where
  "read_source p = onmachine (onfs (read_file p))"

definition continue_after :: "('x world, unit) py \<Rightarrow> ('x world, bool) py" where
  "continue_after m = thenP m (ret True)"

definition start_entry :: "'x container_env \<Rightarrow> ('x world, bool) py \<Rightarrow> ('x world, bool) py" where
  "start_entry ce body =
     thenP (upd_usage (\<lambda>u. u\<lparr>u_children_discovered := u_children_discovered u + 1\<rparr>))
     (bindP (can_start_child ce) (\<lambda>may_start. if may_start then body else ret False))"

definition bounded_entries :: "'x container_env \<Rightarrow> 'a list \<Rightarrow> ('a \<Rightarrow> ('x world, bool) py) \<Rightarrow> ('x world, unit) py" where
  "bounded_entries ce xs body =
     (let most = b_max_children_per_object (ce_budget ce) in
      thenP (whenP (length xs > most) (limit ''CHILD_COUNT_LIMIT''))
        (loopP (\<lambda>x. start_entry ce (body x)) (take most xs)))"

definition partial_error :: "string \<Rightarrow> pystr \<Rightarrow> ('x world, unit) py" where
  "partial_error event message =
     thenP (skip event) (thenP (add_error message) (set_completeness ''PARTIAL_ERROR''))"

definition process_document :: "'x container_env \<Rightarrow> 'x add_child \<Rightarrow> parsed_document \<Rightarrow> ('x world, unit) py" where
  "process_document ce add doc =
     thenP (upd_job (\<lambda>j. case pd_partial doc of
              None \<Rightarrow> j
            | Some p \<Rightarrow> if p \<noteq> [] \<and> j_completeness j = ''COMPLETE'' then j\<lparr>j_completeness := upper p\<rparr> else j))
     (bounded_entries ce (enumerate 0 (pd_children doc))
        (\<lambda>(index, c). continue_after (add (bytes_source (dc_data c)) (dc_name c) index EMBEDDED_FILE_OF (dc_metadata c))))"

definition process_zip :: "'x container_env \<Rightarrow> 'x add_child \<Rightarrow> bytes \<Rightarrow> ('x world, unit) py" where
  "process_zip ce add data =
     bindP (liftP (ce_zip_members ce data)) (\<lambda>infos.
     bounded_entries ce (enumerate 0 infos)
       (\<lambda>(index, info).
          if zm_flag_bits info AND 1 \<noteq> 0 then continue_after (skip ''ENCRYPTED_CONTAINER'')
          else if \<not> safe_name (ce_budget ce) (zm_filename info) then continue_after (skip ''UNSAFE_MEMBER_PATH'')
          else if is_zip_link (zm_external_attr info) then continue_after (skip ''SYMLINK_ENTRY'')
          else if zm_file_size info > b_max_single_child_bytes (ce_budget ce) then continue_after (skip ''CHILD_SIZE_LIMIT'')
          else bindP (liftP (zm_open info)) (\<lambda>stream. continue_after (add stream (zm_filename info) index CONTAINS []))))"

definition process_tar :: "'x container_env \<Rightarrow> 'x add_child \<Rightarrow> bytes \<Rightarrow> ('x world, unit) py" where
  "process_tar ce add data =
     bindP (liftP (ce_tar_members ce data)) (\<lambda>members.
     bounded_entries ce (enumerate 0 members)
       (\<lambda>(index, m).
          if \<not> safe_name (ce_budget ce) (tm_name m) then continue_after (skip ''UNSAFE_MEMBER_PATH'')
          else if tm_is_link m then continue_after (skip ''SYMLINK_OR_HARDLINK_ENTRY'')
          else if \<not> tm_is_file m then continue_after (skip ''SPECIAL_FILE_ENTRY'')
          else if tm_size m > b_max_single_child_bytes (ce_budget ce) then continue_after (skip ''CHILD_SIZE_LIMIT'')
          else bindP (liftP (tm_extract m)) (\<lambda>stream.
                 continue_after (case stream of None \<Rightarrow> ret () | Some s \<Rightarrow> add s (tm_name m) index CONTAINS []))))"

definition process_compressed :: "'x container_env \<Rightarrow> 'x add_child \<Rightarrow> string \<Rightarrow> bytes \<Rightarrow> ('x world, unit) py" where
  "process_compressed ce add k data =
     bindP (liftP (ce_decompress ce k data)) (\<lambda>stream.
     thenP (upd_usage (\<lambda>u. u\<lparr>u_children_discovered := u_children_discovered u + 1\<rparr>))
       (add stream (asc (''decompressed.'' @ k)) 0 DECOMPRESSED_FROM []))"

text \<open>\<open>d = dict(a); d.update(b)\<close>.\<close>

definition dict_update :: "('k \<times> 'v) list \<Rightarrow> ('k \<times> 'v) list \<Rightarrow> ('k \<times> 'v) list" where
  "dict_update a b = fold (\<lambda>(k, v) d. AList.update k v d) b a"

definition partition_member_name :: "partition_entry \<Rightarrow> pystr" where
  "partition_member_name p =
     (case part_name p of
        Some n \<Rightarrow> if n = [] then asc (''partition-'' @ show_nat (part_index p)) else n
      | None \<Rightarrow> asc (''partition-'' @ show_nat (part_index p)))"

definition process_partition ::
  "'x container_env \<Rightarrow> 'x add_child \<Rightarrow> path \<Rightarrow> input_artifact \<Rightarrow> partition_table \<Rightarrow> partition_entry \<Rightarrow> ('x world, bool) py" where
  "process_partition ce add source parent table p =
     (let b = ce_budget ce in
      if part_length p > b_max_materialized_partition_bytes b
      then continue_after (limit ''PARTITION_MATERIALIZATION_LIMIT'')
      else
        bindP (getP usage_of) (\<lambda>u.
        if u_materialized_partition_bytes u + part_length p > b_max_total_materialized_partition_bytes b
        then thenP (limit ''TOTAL_PARTITION_MATERIALIZATION_LIMIT'') (ret False)
        else
          let metadata = dict_update (dict_update (table_metadata table) (part_metadata p))
                [(''root_sha256'', PAsc (h_sha256 (a_hashes parent)))]
          in bindP (read_source source) (\<lambda>data.
             bindP (liftP (range_reader_init data (int (part_start p)) (int (part_length p)) (int (length data)))) (\<lambda>view.
             thenP (add (reader_source (part_length p + 1) view) (partition_member_name p) (part_index p) PARTITION_OF metadata)
             (bindP (getP usage_of) (\<lambda>u'.
              continue_after (whenP (u_children_materialized u' > u_children_materialized u)
                (upd_usage (\<lambda>u. u\<lparr>u_materialized_partition_bytes := u_materialized_partition_bytes u + part_length p\<rparr>)))))))))"

definition process_partitioned_disk ::
  "'x container_env \<Rightarrow> 'x add_child \<Rightarrow> path \<Rightarrow> input_artifact \<Rightarrow> ('x world, unit) py" where
  "process_partitioned_disk ce add source parent =
     bindP (read_source source) (\<lambda>data.
     case parse_partition_table data (b_max_partitions_per_disk (ce_budget ce)) of
       Inl (PartitionTableError m) \<Rightarrow> partial_error ''CORRUPT_PARTITION_TABLE'' (asc (''partition-table: '' @ m))
     | Inl e \<Rightarrow> raiseP e
     | Inr None \<Rightarrow> ret ()
     | Inr (Some table) \<Rightarrow>
         thenP (whenP (table_errors table \<noteq> [])
            (thenP (upd_job (\<lambda>j. j\<lparr>j_errors := j_errors j @ map (\<lambda>e. asc (''partition-table: '' @ e)) (table_errors table)\<rparr>))
               (set_completeness ''PARTIAL_ERROR'')))
         (loopP (\<lambda>p. start_entry ce (process_partition ce add source parent table p)) (table_partitions table)))"

definition process_disk_image :: "'x container_env \<Rightarrow> 'x add_child \<Rightarrow> path \<Rightarrow> ('x world, unit) py" where
  "process_disk_image ce add source =
     bindP (read_source source) (\<lambda>data.
     case parse_disk_image (ce_frames ce) data of
       Inl (DiskImageError m) \<Rightarrow> partial_error ''CORRUPT_FILESYSTEM'' (asc (''disk-image: DiskImageError: '' @ m))
     | Inl e \<Rightarrow> raiseP e
     | Inr None \<Rightarrow> ret ()
     | Inr (Some img) \<Rightarrow>
         bounded_entries ce (image_entries img)
           (\<lambda>entry.
              if \<not> safe_name (ce_budget ce) (entry_path entry) then continue_after (skip ''UNSAFE_MEMBER_PATH'')
              else continue_after (add (bytes_source (entry_data entry)) (entry_path entry) (entry_index entry)
                     FILESYSTEM_ENTRY_OF
                     (dict_update (image_metadata img)
                        [(''logical_filesystem_path'', PStr (entry_path entry)), (''entry_type'', PAsc (entry_type entry)),
                         (''byte_size'', PNat (length (entry_data entry)))]))))"

subsection \<open>External unpackers\<close>

definition sandbox_argv :: "'x container_env \<Rightarrow> path option \<Rightarrow> string list \<Rightarrow> string list" where
  "sandbox_argv ce writable argv =
     (if \<not> ce_use_bubblewrap ce \<or> ce_which ce ''bwrap'' = None then argv
      else [''bwrap'', ''--die-with-parent'', ''--new-session'', ''--unshare-net'', ''--ro-bind'', ''/'', ''/'', ''--dev'',
            ''/dev'', ''--proc'', ''/proc'', ''--tmpfs'', ''/tmp'']
        @ (case writable of None \<Rightarrow> [] | Some p \<Rightarrow> [''--bind'', path_text p, path_text p]) @ [''--''] @ argv)"

definition unpacker :: "'x container_env \<Rightarrow> string \<Rightarrow> string option" where
  "unpacker ce k =
     (if k = ''lha'' then (case ce_which ce ''lhasa'' of Some t \<Rightarrow> Some t | None \<Rightarrow> ce_which ce ''lha'')
      else ce_which ce ''7z'')"

definition list_argv :: "string \<Rightarrow> string \<Rightarrow> path \<Rightarrow> string list" where
  "list_argv k tool source =
     (if k = ''lha'' then [tool, ''v'', path_text source] else [tool, ''l'', ''-slt'', ''--'', path_text source])"

text \<open>\<open>"encrypted" in combined.lower()\<close>: only the ASCII capitals become letters of this word.\<close>

definition lower_code :: "nat \<Rightarrow> nat" where
  "lower_code c = (if 65 \<le> c \<and> c \<le> 90 then c + 32 else c)"

definition mentions_encrypted :: "pystr \<Rightarrow> bool" where
  "mentions_encrypted s \<longleftrightarrow> substring (asc ''encrypted'') (map lower_code s)"

text \<open>\<open>remaining <= 0\<close>.\<close>

definition too_late_now :: "'x container_env \<Rightarrow> int \<Rightarrow> ('x world, bool) py" where
  "too_late_now ce started =
     bindP (monotonic ce) (\<lambda>t. ret (t - started \<ge> 1000000 * int (b_max_extraction_time_seconds (ce_budget ce))))"

text \<open>Reading the pipe of \<open>7z e -so\<close>: \<open>None\<close> is a run that was killed.\<close>

fun drain_pipe :: "'x container_env \<Rightarrow> int \<Rightarrow> bytes option list \<Rightarrow> bytes \<Rightarrow> ('x world, bytes option) py" where
  "drain_pipe ce started [] acc = bindP (too_late_now ce started) (\<lambda>late. ret (if late then None else Some acc))"
| "drain_pipe ce started (r # rs) acc =
     bindP (too_late_now ce started) (\<lambda>late.
     case r of
       None \<Rightarrow> ret None
     | Some chunk \<Rightarrow>
         if late then ret None
         else if chunk = [] then ret (Some acc)
         else if length acc + length chunk > b_max_single_child_bytes (ce_budget ce) then ret None
         else drain_pipe ce started rs (acc @ chunk))"

definition extract_stdout :: "'x container_env \<Rightarrow> string \<Rightarrow> path \<Rightarrow> pystr \<Rightarrow> int \<Rightarrow> ('x world, bytes option \<times> int) py" where
  "extract_stdout ce tool source name started =
     tryP
       (bindP (onmachine (ce_popen ce (sandbox_argv ce None [tool, ''e'', ''-so'', ''--'', path_text source, os_name name]) (butlast source))) (\<lambda>process.
        bindP (drain_pipe ce started (pp_reads process) []) (\<lambda>output.
        case output of
          None \<Rightarrow> ret (None, 1)
        | Some content \<Rightarrow> bindP (liftP (pp_wait process)) (\<lambda>code. ret (Some content, code)))))
       (\<lambda>e. if e = OSError \<or> is_timeout e then ret (None, 1) else raiseP e)"

text \<open>\<open>with tempfile.TemporaryDirectory(dir=scratch) as temp\<close>.\<close>

definition with_temporary_directory :: "'x container_env \<Rightarrow> (path \<Rightarrow> ('x world, 'a) py) \<Rightarrow> ('x world, 'a) py" where
  "with_temporary_directory ce body =
     bindP (getP w_ticks) (\<lambda>n.
     let temp = ce_scratch ce @ [ce_temp_name ce n] in
     thenP (onmachine (onfs (mkdir temp)))
     (finallyP (body temp) (onmachine (onfs (rmtree temp)))))"

definition opt_pystr_value :: "pystr option \<Rightarrow> pyval" where
  "opt_pystr_value s = (case s of None \<Rightarrow> PNone | Some t \<Rightarrow> PStr t)"

definition unpack_lha ::
  "'x container_env \<Rightarrow> 'x add_child \<Rightarrow> string \<Rightarrow> path \<Rightarrow> nat \<Rightarrow> listed_member \<Rightarrow> int \<Rightarrow> ('x world, unit) py" where
  "unpack_lha ce add tool source index m declared =
     with_temporary_directory ce (\<lambda>temp.
       bindP (onmachine (ce_run ce (sandbox_argv ce (Some temp) [tool, ''xfw='' @ path_text temp, path_text source, os_name (lm_name m)])
                 (butlast source) (b_max_extraction_time_seconds (ce_budget ce)))) (\<lambda>result.
       bindP (getP (\<lambda>w. file_at (below_directory temp (lm_name m)) (fst (w_machine w)))) (\<lambda>candidate.
       case candidate of
         None \<Rightarrow> skip ''MEMBER_EXTRACTION_FAILURE''
       | Some content \<Rightarrow>
           if cp_returncode result \<noteq> 0 then skip ''MEMBER_EXTRACTION_FAILURE''
           else add (bytes_source content) (lm_name m) index CONTAINS
                  [(''format'', PAsc ''lha''), (''method'', opt_pystr_value (lm_method m)), (''declared_size'', PInt declared)])))"

definition unpack_7z ::
  "'x container_env \<Rightarrow> 'x add_child \<Rightarrow> int \<Rightarrow> string \<Rightarrow> string \<Rightarrow> path \<Rightarrow> nat \<Rightarrow> listed_member \<Rightarrow> int \<Rightarrow> ('x world, unit) py" where
  "unpack_7z ce add started k tool source index m declared =
     bindP (extract_stdout ce tool source (lm_name m) started) (\<lambda>(output, returncode).
     case output of
       None \<Rightarrow> skip ''MEMBER_EXTRACTION_FAILURE''
     | Some content \<Rightarrow>
         if returncode \<noteq> 0 then skip ''MEMBER_EXTRACTION_FAILURE''
         else add (bytes_source content) (lm_name m) index (if k = ''iso9660'' then FILESYSTEM_ENTRY_OF else CONTAINS)
                [(''format'', PAsc k), (''declared_size'', PInt declared),
                 (''filesystem_view'', if k = ''iso9660'' then PAsc ''ISO9660'' else PNone)])"

definition process_listed ::
  "'x container_env \<Rightarrow> 'x add_child \<Rightarrow> int \<Rightarrow> string \<Rightarrow> string \<Rightarrow> path \<Rightarrow> nat \<times> listed_member \<Rightarrow> ('x world, bool) py" where
  "process_listed ce add started k tool source entry =
     (case entry of (index, m) \<Rightarrow>
        if \<not> safe_name (ce_budget ce) (lm_name m) then continue_after (skip ''UNSAFE_MEMBER_PATH'')
        else if lm_directory m then ret True
        else
          bindP (liftP (declared_size (ce_digits ce) m)) (\<lambda>declared.
          if declared > int (b_max_single_child_bytes (ce_budget ce)) then continue_after (skip ''CHILD_SIZE_LIMIT'')
          else if k = ''lha'' then continue_after (unpack_lha ce add tool source index m declared)
          else continue_after (unpack_7z ce add started k tool source index m declared)))"

definition run_listing :: "'x container_env \<Rightarrow> string \<Rightarrow> string \<Rightarrow> path \<Rightarrow> ('x world, completed_process option) py" where
  "run_listing ce k tool source =
     tryP (bindP (onmachine (ce_run ce (sandbox_argv ce None (list_argv k tool source)) (butlast source)
                     (b_max_extraction_time_seconds (ce_budget ce)))) (\<lambda>p. ret (Some p)))
       (\<lambda>e. if e = OSError \<or> is_timeout e then ret None else raiseP e)"

definition process_external_archive ::
  "'x container_env \<Rightarrow> 'x add_child \<Rightarrow> int \<Rightarrow> path \<Rightarrow> string \<Rightarrow> ('x world, unit) py" where
  "process_external_archive ce add started source k =
     (case unpacker ce k of
        None \<Rightarrow> thenP (skip ''EXTRACTION_UNAVAILABLE'') (set_completeness ''PARTIAL_UNSUPPORTED'')
      | Some tool \<Rightarrow>
          bindP (run_listing ce k tool source) (\<lambda>listed.
          case listed of
            None \<Rightarrow> thenP (skip ''ENUMERATION_FAILURE'') (set_completeness ''PARTIAL_ERROR'')
          | Some p \<Rightarrow>
              if cp_returncode p \<noteq> 0
              then
                let combined = cp_stdout p @ cp_stderr p in
                if substring (asc ''Enter password'') combined \<or> mentions_encrypted combined
                then thenP (skip ''ENCRYPTED_CONTAINER'') (set_completeness ''PARTIAL_UNSUPPORTED'')
                else thenP (skip ''CORRUPT_CONTAINER'') (set_completeness ''PARTIAL_ERROR'')
              else
                bindP (liftP (if k = ''lha'' then parse_lha_listing (ce_digits ce) (cp_stdout p)
                              else Inr (parse_7z_listing (cp_stdout p)))) (\<lambda>members.
                bounded_entries ce (enumerate 0 members) (process_listed ce add started k tool source))))"

subsection \<open>Objects\<close>

text \<open>The \<open>try\<close> around \<open>parse_document\<close>.\<close>

definition document_error :: "py_exn \<Rightarrow> bool" where
  "document_error e \<longleftrightarrow> (case e of DocumentError _ \<Rightarrow> True | _ \<Rightarrow> e = OSError \<or> is_bad_zip e)"

definition document_at :: "'x container_env \<Rightarrow> 'x scan_service \<Rightarrow> path \<Rightarrow> ('x world, parsed_document option) py" where
  "document_at ce sv source =
     tryP
       (bindP (read_source source) (\<lambda>data.
        if length data \<le> ce_max_document_bytes ce then liftP (ce_document ce data) else ret None))
       (\<lambda>e. if document_error e
            then thenP (add_error (asc (''document: '' @ exn_class e @ '': '') @ ss_exn_text sv e))
                 (thenP (set_completeness ''PARTIAL_ERROR'') (ret None))
            else raiseP e)"

definition process_kind ::
  "'x container_env \<Rightarrow> 'x add_child \<Rightarrow> int \<Rightarrow> path \<Rightarrow> input_artifact \<Rightarrow> string \<Rightarrow> ('x world, unit) py" where
  "process_kind ce add started source parent k =
     (if k = ''corrupt-zip'' then thenP (skip ''CORRUPT_CONTAINER'') (set_completeness ''PARTIAL_ERROR'')
      else if k = ''zip'' then bindP (read_source source) (process_zip ce add)
      else if k = ''partitioned-disk'' then process_partitioned_disk ce add source parent
      else if k \<in> {''fat'', ''amiga-adf''} then process_disk_image ce add source
      else if k \<in> {''lha'', ''iso9660'', ''7z'', ''cab'', ''arj''} then process_external_archive ce add started source k
      else if k = ''tar'' then bindP (read_source source) (process_tar ce add)
      else bindP (read_source source) (process_compressed ce add k))"

fun process_object ::
  "'x container_env \<Rightarrow> 'x scan_service \<Rightarrow> extraction \<Rightarrow> nat \<Rightarrow> path \<Rightarrow> input_artifact \<Rightarrow> nat \<Rightarrow> ('x world, unit) py" where
  "process_object ce sv ex 0 source parent depth = raiseP OutOfFuel"
| "process_object ce sv ex (Suc fuel) source parent depth =
     bindP (too_late ce (ex_started ex)) (\<lambda>late.
     if late then limit ''EXTRACTION_TIME_LIMIT''
     else if depth \<ge> b_max_recursion_depth (ce_budget ce) then ret ()
     else
       let add = (\<lambda>stream name index relation metadata.
             bindP (read_source source) (\<lambda>data.
             extract_child ce sv ex (process_object ce sv ex fuel) parent stream name index relation depth (length data) metadata))
       in bindP (document_at ce sv source) (\<lambda>doc.
          case doc of
            Some d \<Rightarrow> process_document ce add d
          | None \<Rightarrow>
              bindP (kind ce source) (\<lambda>k.
              case k of None \<Rightarrow> ret () | Some k \<Rightarrow> process_kind ce add (ex_started ex) source parent k)))"

definition derived_root :: "'x container_env \<Rightarrow> string \<Rightarrow> path" where
  "derived_root ce job_id = ce_staging ce @ [job_id, ''derived'']"

definition container_process :: "'x container_env \<Rightarrow> 'x scan_service \<Rightarrow> path \<Rightarrow> ('x world, unit) py" where
  "container_process ce sv source =
     bindP (getP w_job) (\<lambda>job.
     thenP (upd_job (\<lambda>j. j\<lparr>j_extraction_budget := Some (ce_budget ce), j_extraction_usage := Some empty_usage\<rparr>))
     (bindP (monotonic ce) (\<lambda>started.
     let top_directory = derived_root ce (j_job_id job) in
     thenP (onmachine (onfs (mkdir_parents True top_directory)))
     (thenP (onmachine (onfs (mkdir_parents True (ce_scratch ce))))
     (finallyP
        (tryP
           (thenP (process_object ce sv \<lparr>ex_root = top_directory, ex_started = started\<rparr>
                     (b_max_recursion_depth (ce_budget ce) + 1) source (j_input_artifact job) 0)
              (bindP (getP usage_of) (\<lambda>u.
               whenP (u_limit_events u \<noteq> [])
                 (upd_job (\<lambda>j. if j_completeness j = ''COMPLETE'' then j\<lparr>j_completeness := ''PARTIAL_LIMIT''\<rparr> else j)))))
           (\<lambda>e. if container_error e
                then thenP (add_error (asc (''container: '' @ exn_class e @ '': '') @ ss_exn_text sv e))
                     (set_completeness ''PARTIAL_ERROR'')
                else raiseP e))
        (tryP (onmachine (onfs (rmtree top_directory))) (\<lambda>_. ret ())))))))"

definition container_probe :: probe_result where
  "container_probe = \<lparr>pb_available = True, pb_detail = asc ''Python userspace plus Debian lhasa/7z userspace handlers'',
     pb_state = QUALIFIED, pb_version = Some (asc ''stdlib+lhasa+7zip''), pb_definition_state = []\<rparr>"

definition container_formats :: "string list" where
  "container_formats = [''zip'', ''tar'', ''gzip'', ''bzip2'', ''xz'', ''lha'', ''iso9660'', ''7z'', ''cab'', ''arj'', ''fat'', ''amiga-adf'', ''partitioned-disk'']"

end
