(* ===== verification/Rab_Api.thy ===== *)
theory Rab_Api
  imports Protocol Containers
begin

section \<open>The RAB routes: \<open>api/rab.py\<close> and \<open>RABService.capabilities\<close>\<close>

text \<open>
  The routes over the protocol service: authentication, submission, the two views of a job and the
  advertised capabilities; the proof that a job is shown to its own client only; and the comparison of
  the advertised container handlers with the container analyzer.
\<close>

subsection \<open>What the service advertises: \<open>RABService.capabilities\<close>\<close>

definition advertised_containers :: pyval where
  "advertised_containers = PList [PAsc ''zip'', PAsc ''tar'', PAsc ''gzip'', PAsc ''bzip2'', PAsc ''xz'', PAsc ''lha'', PAsc ''iso9660'', PAsc ''7z'', PAsc ''cab'', PAsc ''arj'']"

definition container_handlers :: pyval where
  "container_handlers = PDict [
    (''zip'', PDict [
     (''recognize'', PBool True),
     (''extract'', PBool True),
     (''qualified'', PBool True),
     (''handler'', PAsc ''python-stdlib'')]),
    (''tar'', PDict [
     (''recognize'', PBool True),
     (''extract'', PBool True),
     (''qualified'', PBool True),
     (''handler'', PAsc ''python-stdlib'')]),
    (''gzip'', PDict [
     (''recognize'', PBool True),
     (''extract'', PBool True),
     (''qualified'', PBool True),
     (''handler'', PAsc ''python-stdlib'')]),
    (''bzip2'', PDict [
     (''recognize'', PBool True),
     (''extract'', PBool True),
     (''qualified'', PBool True),
     (''handler'', PAsc ''python-stdlib'')]),
    (''xz'', PDict [
     (''recognize'', PBool True),
     (''extract'', PBool True),
     (''qualified'', PBool True),
     (''handler'', PAsc ''python-stdlib'')]),
    (''lha'', PDict [
     (''recognize'', PBool True),
     (''extract'', PBool True),
     (''qualified'', PBool True),
     (''qualified_methods'', PList [PAsc ''-lh0-'']),
     (''handler'', PAsc ''debian-lhasa'')]),
    (''iso9660'', PDict [
     (''recognize'', PBool True),
     (''extract'', PBool True),
     (''qualified'', PBool True),
     (''handler'', PAsc ''debian-7zip-userspace'')]),
    (''7z'', PDict [
     (''recognize'', PBool True),
     (''extract'', PBool True),
     (''qualified'', PBool True),
     (''handler'', PAsc ''debian-7zip'')]),
    (''cab'', PDict [
     (''recognize'', PBool True),
     (''extract'', PBool False),
     (''qualified'', PBool False),
     (''status'', PAsc ''DEFERRED''),
     (''handler'', PAsc ''debian-7zip'')]),
    (''arj'', PDict [
     (''recognize'', PBool True),
     (''extract'', PBool False),
     (''qualified'', PBool False),
     (''status'', PAsc ''DEFERRED''),
     (''handler'', PAsc ''debian-7zip'')]),
    (''lzx'', PDict [
     (''recognize'', PBool False),
     (''extract'', PBool False),
     (''qualified'', PBool False),
     (''status'', PAsc ''DEFERRED'')]),
    (''rar'', PDict [
     (''recognize'', PBool True),
     (''extract'', PBool False),
     (''qualified'', PBool False),
     (''status'', PAsc ''DEFERRED'')])]"

definition disk_image_capabilities :: pyval where
  "disk_image_capabilities = PDict [
    (''fat12'', PDict [(''status'', PAsc ''QUALIFIED''), (''handler'', PAsc ''avbox-read-only-fat'')]),
    (''fat16'', PDict [(''status'', PAsc ''QUALIFIED''), (''handler'', PAsc ''avbox-read-only-fat'')]),
    (''fat32'', PDict [(''status'', PAsc ''QUALIFIED''), (''handler'', PAsc ''avbox-read-only-fat'')]),
    (''amiga_adf'', PDict [
     (''ofs'', PDict [
      (''status'', PAsc ''QUALIFIED''),
      (''dos_types'', PList [PStr (asc ''DOS'' @ [0x5C] @ asc ''0'')])]),
     (''ffs'', PDict [
      (''status'', PAsc ''QUALIFIED''),
      (''dos_types'', PList [PStr (asc ''DOS'' @ [0x5C] @ asc ''1'')])]),
     (''handler'', PAsc ''avbox-read-only-adf'')]),
    (''atari_st'', PDict [(''status'', PAsc ''DEFERRED'')]),
    (''atari_msa'', PDict [(''status'', PAsc ''DEFERRED'')]),
    (''apple_dos'', PDict [(''status'', PAsc ''DEFERRED'')]),
    (''prodos'', PDict [(''status'', PAsc ''DEFERRED'')]),
    (''hfs'', PDict [(''status'', PAsc ''DEFERRED''), (''resource_forks_preserved'', PBool False)]),
    (''partitioned_images'', PDict [
     (''mbr'', PDict [
      (''status'', PAsc ''QUALIFIED''),
      (''primary'', PBool True),
      (''ebr'', PAsc ''DEFERRED''),
      (''sector_size'', PNat 512)]),
     (''amiga_rdb'', PDict [
      (''status'', PAsc ''QUALIFIED''),
      (''filesystems'', PList [PAsc ''OFS'', PAsc ''FFS'']),
      (''embedded_handler_execution'', PBool False)]),
     (''gpt'', PDict [(''status'', PAsc ''DEFERRED'')]),
     (''flat_hdf'', PDict [(''status'', PAsc ''DEFERRED'')])])]"

definition structural_formats :: pyval where
  "structural_formats = PDict [
    (''adf'', PDict [
     (''ofs'', PDict [
      (''status'', PAsc ''QUALIFIED''),
      (''dos_types'', PList [PStr (asc ''DOS'' @ [0x5C] @ asc ''0'')])]),
     (''ffs'', PDict [
      (''status'', PAsc ''QUALIFIED''),
      (''dos_types'', PList [PStr (asc ''DOS'' @ [0x5C] @ asc ''1'')])]),
     (''international'', PDict [(''status'', PAsc ''RECOGNIZED_NOT_QUALIFIED'')]),
     (''directory_cache'', PDict [(''status'', PAsc ''RECOGNIZED_NOT_QUALIFIED'')])]),
    (''fat12'', PDict [(''status'', PAsc ''QUALIFIED'')]),
    (''fat16'', PDict [(''status'', PAsc ''QUALIFIED'')]),
    (''fat32'', PDict [(''status'', PAsc ''QUALIFIED'')]),
    (''amiga_rdb'', PDict [(''status'', PAsc ''QUALIFIED''), (''fshd_lseg'', PAsc ''DATA_ONLY'')]),
    (''iso9660'', PDict [
     (''base'', PDict [(''status'', PAsc ''QUALIFIED'')]),
     (''rock_ridge'', PDict [(''status'', PAsc ''PARTIAL'')]),
     (''joliet'', PDict [(''status'', PAsc ''PARTIAL'')]),
     (''path_tables'', PDict [(''status'', PAsc ''DEFERRED'')])]),
    (''lha'', PDict [(''-lh0-'', PDict [(''status'', PAsc ''QUALIFIED'')])]),
    (''dms'', PDict [(''status'', PAsc ''DEFERRED'')]),
    (''atari_st'', PDict [(''status'', PAsc ''DEFERRED'')]),
    (''msa'', PDict [(''status'', PAsc ''DEFERRED'')]),
    (''apple_dos'', PDict [(''status'', PAsc ''DEFERRED'')]),
    (''prodos'', PDict [(''status'', PAsc ''DEFERRED'')]),
    (''hfs'', PDict [(''status'', PAsc ''DEFERRED''), (''resource_forks_validated'', PBool False)])]"

definition executable_formats :: pyval where
  "executable_formats = PDict [
    (''pe32'', PDict [
     (''status'', PAsc ''QUALIFIED''),
     (''architectures'', PList [PAsc ''I386'', PAsc ''other-coff''])]),
    (''pe32_plus'', PDict [
     (''status'', PAsc ''QUALIFIED''),
     (''architectures'', PList [PAsc ''AMD64'', PAsc ''other-coff''])]),
    (''elf32'', PDict [
     (''status'', PAsc ''QUALIFIED''),
     (''architectures'', PList [PAsc ''I386'', PAsc ''other-elf''])]),
    (''elf64'', PDict [
     (''status'', PAsc ''QUALIFIED''),
     (''architectures'', PList [PAsc ''X86_64'', PAsc ''other-elf''])]),
    (''dos_mz'', PDict [(''status'', PAsc ''QUALIFIED'')]),
    (''ne'', PDict [(''status'', PAsc ''IMPLEMENTED_NOT_QUALIFIED'')]),
    (''le'', PDict [(''status'', PAsc ''IMPLEMENTED_NOT_QUALIFIED'')]),
    (''lx'', PDict [(''status'', PAsc ''IMPLEMENTED_NOT_QUALIFIED'')]),
    (''macho_thin'', PDict [(''status'', PAsc ''IMPLEMENTED_NOT_QUALIFIED'')]),
    (''macho_fat'', PDict [(''status'', PAsc ''IMPLEMENTED_NOT_QUALIFIED'')]),
    (''amiga_hunk'', PDict [
     (''status'', PAsc ''QUALIFIED''),
     (''architecture'', PAsc ''M68K''),
     (''relocations'', PBool True),
     (''symbols'', PBool True)])]"

definition document_formats :: pyval where
  "document_formats = PDict [
    (''pdf'', PDict [(''status'', PAsc ''QUALIFIED'')]),
    (''ole_cfb'', PDict [(''status'', PAsc ''QUALIFIED'')]),
    (''ooxml_docx'', PDict [(''status'', PAsc ''QUALIFIED'')]),
    (''ooxml_xlsx'', PDict [(''status'', PAsc ''QUALIFIED'')]),
    (''ooxml_pptx'', PDict [(''status'', PAsc ''QUALIFIED'')]),
    (''ooxml_macro_enabled'', PDict [(''status'', PAsc ''QUALIFIED'')]),
    (''rtf'', PDict [(''status'', PAsc ''QUALIFIED'')]),
    (''odf'', PDict [(''status'', PAsc ''QUALIFIED''), (''qualified_variants'', PList [PAsc ''ODT''])]),
    (''odf_odt'', PDict [(''status'', PAsc ''QUALIFIED'')]),
    (''odf_ods'', PDict [(''status'', PAsc ''IMPLEMENTED_NOT_QUALIFIED'')]),
    (''odf_odp'', PDict [(''status'', PAsc ''IMPLEMENTED_NOT_QUALIFIED'')])]"

text \<open>A generic analyzer as it is asked here: whether its probe says available, and its limits when it has them.\<close>

record generic_view =
  gv_available :: bool
  gv_max_bytes :: "nat option"
  gv_max_nodes :: "nat option"

definition opt_nat_value :: "nat option \<Rightarrow> pyval" where
  "opt_nat_value n = (case n of None \<Rightarrow> PNone | Some k \<Rightarrow> PNat k)"

definition limit_of :: "(generic_view \<Rightarrow> nat option) \<Rightarrow> string \<Rightarrow> (string \<times> generic_view) list \<Rightarrow> pyval" where
  "limit_of attr name generics = opt_nat_value (case map_of generics name of None \<Rightarrow> None | Some g \<Rightarrow> attr g)"

definition sorted_names :: "string list \<Rightarrow> pyval" where
  "sorted_names names = PList (map PStr (sort (map asc names)))"

definition qualified_in :: "(string \<times> scanner_runtime_status) list \<Rightarrow> string \<Rightarrow> bool" where
  "qualified_in installed name \<longleftrightarrow> (case map_of installed name of None \<Rightarrow> False | Some st \<Rightarrow> rs_qualification_state st = QUALIFIED)"

definition budget_value :: "(rat \<Rightarrow> double) \<Rightarrow> extraction_budget \<Rightarrow> pyval" where
  "budget_value float b = PDict
     [(''max_recursion_depth'', PNat (b_max_recursion_depth b)), (''max_children_per_object'', PNat (b_max_children_per_object b)),
      (''max_total_children'', PNat (b_max_total_children b)), (''max_single_child_bytes'', PNat (b_max_single_child_bytes b)),
      (''max_total_extracted_bytes'', PNat (b_max_total_extracted_bytes b)),
      (''max_expansion_ratio'', PFloat (float (b_max_expansion_ratio b))),
      (''max_member_name_bytes'', PNat (b_max_member_name_bytes b)), (''max_path_depth'', PNat (b_max_path_depth b)),
      (''max_extraction_time_seconds'', PNat (b_max_extraction_time_seconds b)),
      (''max_partitions_per_disk'', PNat (b_max_partitions_per_disk b)),
      (''max_materialized_partition_bytes'', PNat (b_max_materialized_partition_bytes b)),
      (''max_total_materialized_partition_bytes'', PNat (b_max_total_materialized_partition_bytes b))]"

text \<open>The provider of the correlation service: its identifier and whether it is a production one.\<close>

definition correlation_capabilities :: "(string \<times> bool) option \<Rightarrow> pyval" where
  "correlation_capabilities provider = PDict
     [(''protocol'', PAsc ''RAB Correlation Protocol v1''), (''exact_sha256'', PAsc ''QUALIFIED''),
      (''occurrences'', PAsc ''QUALIFIED''), (''ssdeep'', PAsc ''QUALIFIED''), (''tlsh'', PAsc ''DEFERRED''),
      (''production_rab_correlation'',
        PAsc (case provider of Some (_, True) \<Rightarrow> ''CONFIGURED'' | _ \<Rightarrow> ''NOT_AVAILABLE'')),
      (''provider'', PAsc (case provider of None \<Rightarrow> ''production-rab'' | Some (name, _) \<Rightarrow> name))]"

definition capabilities ::
  "(rat \<Rightarrow> double) \<Rightarrow> 'x rab_service \<Rightarrow> extraction_budget option \<Rightarrow> (string \<times> generic_view) list \<Rightarrow> (string \<times> bool) option
   \<Rightarrow> (string \<times> scanner_runtime_status) list \<Rightarrow> (string \<times> pyval) list" where
  "capabilities float rs recursive generics provider installed =
     (let present = recursive \<noteq> None; names = map fst generics in
      [(''protocol_versions'', PList [PAsc ''1'']),
       (''profiles'', PList (map (\<lambda>(_, p). PAsc (qualified_id p)) (rs_profiles rs))),
       (''qualified_object_analyzers'',
          sorted_names (filter (\<lambda>n. qualified_in installed n \<and> n \<in> {''clamav'', ''yara''}) (map fst installed))),
       (''qualified_generic_analyzers'', sorted_names (filter (qualified_in installed) names)),
       (''available_generic_analyzers'', sorted_names (map fst (filter (\<lambda>(_, g). gv_available g) generics))),
       (''maximum_upload_bytes'', PNat (rab_maximum_upload_bytes (rs_settings rs))),
       (''submission_modes'', PList [PAsc ''byte-upload'', PAsc ''external-reference-metadata-only'']),
       (''reference_resolution'', PAsc ''NOT_IMPLEMENTED''),
       (''rab_correlation'', correlation_capabilities provider),
       (''recursive_analysis'', PAsc (if present then ''QUALIFIED'' else ''NOT_AVAILABLE'')),
       (''container_analysis'', PDict
          [(''state'', PAsc (if present then ''QUALIFIED'' else ''UNAVAILABLE'')), (''formats'', advertised_containers),
           (''handlers'', container_handlers),
           (''budgets'', case recursive of None \<Rightarrow> PNone | Some b \<Rightarrow> budget_value float b)]),
       (''disk_images'', disk_image_capabilities),
       (''structural_validation'', PDict
          [(''analyzer'', PAsc ''structural-validator''), (''profile'', PAsc ''preservation-validation@1''),
           (''security_verdict_emitted'', PBool False), (''read_only'', PBool True), (''repair'', PBool False),
           (''mount'', PBool False), (''execution'', PBool False), (''network'', PBool False), (''formats'', structural_formats),
           (''limits'', PDict [(''maximum_bytes'', limit_of gv_max_bytes ''structural-validator'' generics),
              (''maximum_nodes'', limit_of gv_max_nodes ''structural-validator'' generics)])]),
       (''executable_analysis'', PDict
          [(''analyzer'', PAsc ''executable''), (''execution'', PBool False), (''formats'', executable_formats),
           (''limits'', PDict [(''maximum_parser_bytes'', limit_of gv_max_bytes ''executable'' generics)])]),
       (''document_analysis'', PDict
          [(''analyzer'', PAsc ''document''), (''execution'', PBool False), (''rendering'', PBool False),
           (''network_retrieval'', PBool False), (''formats'', document_formats),
           (''meaningful_embedded_payloads'', PBool True), (''relationship'', PAsc ''EMBEDDED_FILE_OF''),
           (''limits'', PDict [(''maximum_parser_bytes'', limit_of gv_max_bytes ''document'' generics)])]),
       (''queue_capacity'', PNat (rab_queue_capacity (rs_settings rs))),
       (''child_object_graph'', PBool present)])"

subsection \<open>The routes of \<open>api/rab.py\<close>\<close>

text \<open>The service of a request, and the client of its credential. \<open>store\<close> is what the credential file decodes to.\<close>

definition api_service :: "'x rab_service option \<Rightarrow> ('x rab_state, 'x rab_service) py" where
  "api_service found_service =
     (case found_service of
        None \<Rightarrow> rab_error 503 STORAGE_UNAVAILABLE ''RAB Protocol is disabled''
      | Some rs \<Rightarrow> if \<not> rab_enabled (rs_settings rs) then rab_error 503 STORAGE_UNAVAILABLE ''RAB Protocol is disabled'' else ret rs)"

definition api_client :: "'x rab_service option \<Rightarrow> credential_entry list res \<Rightarrow> string \<Rightarrow> pystr option
    \<Rightarrow> ('x rab_state, 'x rab_service \<times> rab_client) py" where
  "api_client found_service store scope authorization =
     bindP (api_service found_service) (\<lambda>rs. bindP (liftP (authenticate store authorization scope)) (\<lambda>c. ret (rs, c)))"

definition api_profiles :: "'x rab_service option \<Rightarrow> credential_entry list res \<Rightarrow> pystr option
    \<Rightarrow> ('x rab_state, analysis_profile list) py" where
  "api_profiles found_service store authorization =
     bindP (api_client found_service store ''capabilities.read'' authorization) (\<lambda>(rs, _). ret (map snd (rs_profiles rs)))"

definition api_capabilities :: "(rat \<Rightarrow> double) \<Rightarrow> extraction_budget option \<Rightarrow> (string \<times> generic_view) list \<Rightarrow> (string \<times> bool) option
    \<Rightarrow> 'x rab_service option \<Rightarrow> credential_entry list res \<Rightarrow> pystr option \<Rightarrow> ('x rab_state, (string \<times> pyval) list) py" where
  "api_capabilities float recursive generics provider found_service store authorization =
     bindP (api_client found_service store ''capabilities.read'' authorization) (\<lambda>(rs, _).
     getP (\<lambda>s. capabilities float rs recursive generics provider (scanner_statuses (w_db (rb_world s)))))"

text \<open>The form of a submission; a field that is absent or empty falls back on the upload's own name and type.\<close>

record submit_form =
  sf_protocol_version :: string
  sf_client_request_id :: pystr
  sf_expected_sha256 :: string
  sf_profile :: string
  sf_filename :: "pystr option"
  sf_media_type :: "pystr option"
  sf_idempotency_key :: "pystr option"
  sf_upload_filename :: "pystr option"
  sf_upload_content_type :: "pystr option"

definition first_text :: "pystr option \<Rightarrow> pystr option \<Rightarrow> pystr option" where
  "first_text a b = (case a of Some x \<Rightarrow> if x \<noteq> [] then a else b | None \<Rightarrow> b)"

definition submission_of :: "rab_client \<Rightarrow> submit_form \<Rightarrow> submission" where
  "submission_of c form =
     \<lparr>sub_client = c, sub_request_id = sf_client_request_id form,
      sub_idempotency_key = (case sf_idempotency_key form of None \<Rightarrow> [] | Some k \<Rightarrow> k), sub_profile_id = sf_profile form,
      sub_expected_sha256 = sf_expected_sha256 form, sub_filename = first_text (sf_filename form) (sf_upload_filename form),
      sub_media_type = first_text (sf_media_type form) (sf_upload_content_type form)\<rparr>"

definition hex_digit_char :: "char \<Rightarrow> bool" where
  "hex_digit_char c \<longleftrightarrow> c \<in> set ''0123456789abcdefABCDEF''"

text \<open>The answer of a submission is its status, 200 for a duplicate and 202 for a new job, and the view of the job.\<close>

definition api_submit :: "'x rab_service option \<Rightarrow> credential_entry list res \<Rightarrow> pystr option \<Rightarrow> submit_form
    \<Rightarrow> string \<Rightarrow> string \<Rightarrow> nat \<Rightarrow> (nat \<Rightarrow> 'i \<Rightarrow> bytes \<times> 'i) \<Rightarrow> 'i \<Rightarrow> ('x rab_state, nat \<times> analysis_job_accepted) py" where
  "api_submit found_service store authorization form incoming_id job_id fuel rd input =
     (if \<not> (length (sf_expected_sha256 form) = 64 \<and> list_all hex_digit_char (sf_expected_sha256 form))
      then raiseP (ExternalError ''RequestValidationError'' ''string_pattern_mismatch'')
      else if sf_protocol_version form \<noteq> ''1''
      then rab_error 422 UNSUPPORTED_PROTOCOL_VERSION ''only RAB Protocol v1 is supported''
      else
        bindP (api_client found_service store ''analysis.submit'' authorization) (\<lambda>(rs, c).
        bindP (submit_stream rs (submission_of c form) incoming_id job_id fuel rd input) (\<lambda>accepted_job.
        ret (if acc_duplicate accepted_job then 200 else 202, accepted_job))))"

text \<open>A job of another client is refused before it is looked at.\<close>

definition own_job :: "rab_client \<Rightarrow> string \<Rightarrow> ('x rab_state, unit) py" where
  "own_job c job_id =
     bindP (getP (\<lambda>s. rab_job job_id (w_db (rb_world s)))) (\<lambda>row.
     case row of
       None \<Rightarrow> ret ()
     | Some r \<Rightarrow> if rr_client_id r \<noteq> cl_client_id c then rab_error 403 FORBIDDEN ''job belongs to another client'' else ret ())"

definition api_job_status :: "'x rab_service option \<Rightarrow> credential_entry list res \<Rightarrow> pystr option \<Rightarrow> string
    \<Rightarrow> ('x rab_state, analysis_job_status) py" where
  "api_job_status found_service store authorization job_id =
     bindP (api_client found_service store ''analysis.read'' authorization) (\<lambda>(rs, c).
     thenP (own_job c job_id) (job_status_view job_id))"

definition api_job_results :: "'x rab_service option \<Rightarrow> credential_entry list res \<Rightarrow> pystr option \<Rightarrow> string
    \<Rightarrow> ('x rab_state, analysis_result_envelope) py" where
  "api_job_results found_service store authorization job_id =
     bindP (api_client found_service store ''analysis.read'' authorization) (\<lambda>(rs, c).
     thenP (own_job c job_id) (results_view rs job_id))"

record error_response =
  er_status :: nat
  er_code :: error_code
  er_detail :: string
  er_bearer :: bool

definition protocol_error_handler :: "nat \<Rightarrow> error_code \<Rightarrow> string \<Rightarrow> error_response" where
  "protocol_error_handler status code detail = \<lparr>er_status = status, er_code = code, er_detail = detail, er_bearer = (status = 401)\<rparr>"

text \<open>What the application answers: the value of a route, or the document of a protocol error; anything else goes on.\<close>

definition answer :: "('s, 'a) py \<Rightarrow> ('s, error_response + 'a) py" where
  "answer route = tryP (bindP route (\<lambda>v. ret (Inr v)))
     (\<lambda>e. case e of RABProtocolError status code detail \<Rightarrow> ret (Inl (protocol_error_handler status code detail)) | _ \<Rightarrow> raiseP e)"

subsection \<open>Who sees a job\<close>

lemma api_client_sound:
  assumes "api_client found_service store scope authorization s = (Inr (rs, c), s')"
  shows "s' = s \<and> found_service = Some rs \<and> rab_enabled (rs_settings rs) \<and> authenticate store authorization scope = Inr c"
  using assms by (auto simp: api_client_def api_service_def rab_error_def bindP_def split: option.splits if_splits sum.splits prod.splits)

lemma own_job_sound:
  assumes "own_job c job_id s = (Inr (), s')"
  shows "s' = s \<and> (case rab_job job_id (w_db (rb_world s)) of None \<Rightarrow> True | Some r \<Rightarrow> rr_client_id r = cl_client_id c)"
  using assms by (auto simp: own_job_def rab_error_def bindP_def split: option.splits if_splits)

lemma find_job_sound:
  assumes "find_job job_id s = (Inr (job, row), s')"
  shows "s' = s \<and> db_get job_id (w_db (rb_world s)) = Some job \<and> rab_job job_id (w_db (rb_world s)) = Some row"
  using assms by (auto simp: find_job_def rab_error_def bindP_def split: option.splits prod.splits)

definition owner_read :: "credential_entry list res \<Rightarrow> pystr option \<Rightarrow> string \<Rightarrow> 'x rab_state \<Rightarrow> bool" where
  "owner_read store authorization job_id s \<longleftrightarrow>
     (\<exists>c row. authenticate store authorization ''analysis.read'' = Inr c
        \<and> rab_job job_id (w_db (rb_world s)) = Some row \<and> rr_client_id row = cl_client_id c)"

lemma guarded_route:
  assumes "bindP (api_client found_service store ''analysis.read'' authorization) (\<lambda>(rs, c). thenP (own_job c job_id) (m rs)) s = (Inr v, s')"
  obtains rs c where "authenticate store authorization ''analysis.read'' = Inr c" "m rs s = (Inr v, s')"
    "case rab_job job_id (w_db (rb_world s)) of None \<Rightarrow> True | Some r \<Rightarrow> rr_client_id r = cl_client_id c"
proof -
  from assms obtain rs c s1 where client: "api_client found_service store ''analysis.read'' authorization s = (Inr (rs, c), s1)"
    and rest: "thenP (own_job c job_id) (m rs) s1 = (Inr v, s')"
    by (auto simp: bindP_def split: prod.splits sum.splits)
  from rest obtain s2 where own: "own_job c job_id s1 = (Inr (), s2)" and last_step: "m rs s2 = (Inr v, s')"
    by (auto simp: thenP_def bindP_def split: prod.splits sum.splits)
  from api_client_sound [OF client] own_job_sound [OF own] last_step show thesis by (intro that [of c rs]) auto
qed

lemma found_owner:
  assumes "find_job job_id s = (Inr (job, row), s1)"
    and "authenticate store authorization ''analysis.read'' = Inr c"
    and "case rab_job job_id (w_db (rb_world s)) of None \<Rightarrow> True | Some r \<Rightarrow> rr_client_id r = cl_client_id c"
  shows "owner_read store authorization job_id s"
  using find_job_sound [OF assms(1)] assms(2,3) by (auto simp: owner_read_def)

lemma status_private:
  assumes "api_job_status found_service store authorization job_id s = (Inr view, s')"
  shows "owner_read store authorization job_id s"
proof -
  from guarded_route [OF assms [unfolded api_job_status_def]] obtain rs c where
    c: "authenticate store authorization ''analysis.read'' = Inr c"
      "case rab_job job_id (w_db (rb_world s)) of None \<Rightarrow> True | Some r \<Rightarrow> rr_client_id r = cl_client_id c"
    and view: "job_status_view job_id s = (Inr view, s')" .
  from view obtain job row s1 where "find_job job_id s = (Inr (job, row), s1)"
    by (auto simp: job_status_view_def bindP_def split: prod.splits sum.splits)
  with c show ?thesis by (intro found_owner)
qed

lemma results_private:
  assumes "api_job_results found_service store authorization job_id s = (Inr view, s')"
  shows "owner_read store authorization job_id s"
proof -
  from guarded_route [OF assms [unfolded api_job_results_def]] obtain rs c where
    c: "authenticate store authorization ''analysis.read'' = Inr c"
      "case rab_job job_id (w_db (rb_world s)) of None \<Rightarrow> True | Some r \<Rightarrow> rr_client_id r = cl_client_id c"
    and view: "results_view rs job_id s = (Inr view, s')" .
  from view obtain job row s1 where "find_job job_id s = (Inr (job, row), s1)"
    by (auto simp: results_view_def bindP_def split: prod.splits sum.splits)
  with c show ?thesis by (intro found_owner)
qed


subsection \<open>What is advertised and what is done\<close>

lemma magic_kind_known: "magic_kind header = Some k \<Longrightarrow> k \<in> {''gzip'', ''bzip2'', ''xz'', ''7z'', ''cab'', ''arj''}"
  by (auto simp: magic_kind_def split: if_splits)

text \<open>The kinds the container analyzer tells apart; \<open>rar\<close> and \<open>lzx\<close> are not among them.\<close>

lemma kind_of_known:
  "kind_of ce data = Inr (Some k) \<Longrightarrow> k \<in> {''partitioned-disk'', ''lha'', ''amiga-adf'', ''fat'', ''zip'', ''corrupt-zip'', ''iso9660'', ''tar'',
     ''gzip'', ''bzip2'', ''xz'', ''7z'', ''cab'', ''arj''}"
  by (auto simp: kind_of_def image_kind_def archive_kind_def Let_def split: sum.splits py_exn.splits option.splits if_splits
      dest!: magic_kind_known)

text \<open>A handler advertised as not extracting whose kind the analyzer extracts all the same.\<close>

definition handler_flag :: "string \<Rightarrow> string \<Rightarrow> pyval option" where
  "handler_flag name key =
     (case container_handlers of PDict hs \<Rightarrow> (case map_of hs name of Some (PDict entries) \<Rightarrow> map_of entries key | _ \<Rightarrow> None) | _ \<Rightarrow> None)"

lemma cab_extracted_though_deferred:
  "handler_flag ''cab'' ''extract'' = Some (PBool False)
     \<and> process_kind ce add started source parent ''cab'' = process_external_archive ce add started source ''cab''"
  by (simp add: handler_flag_def container_handlers_def process_kind_def)

lemma rar_advertised: "handler_flag ''rar'' ''recognize'' = Some (PBool True)"
  by (simp add: handler_flag_def container_handlers_def)


end
