(* ===== verification/Compound_Files.thy ===== *)
theory Compound_Files
  imports Documents
begin

unbundle bit_operations_syntax

section \<open>Compound files and VBA: \<open>analyzers/document.py\<close>\<close>

text \<open>
  The decompressor of VBA source, which never raises and inverts a reference compressor; and the
  reader of compound files: sectors, allocation chains, the directory tree, streams and macros.
\<close>

subsection \<open>MS-OVBA decompression: \<open>_decompress_vba\<close>\<close>

text \<open>
  A step gives a value, ends the function with \<open>return None\<close> (\<open>Inl None\<close>) or raises (\<open>Inl (Some e)\<close>).
\<close>

type_synonym 'a vba = "py_exn option + 'a"

definition raising :: "'a res \<Rightarrow> 'a vba" where
  "raising r = (case r of Inl e \<Rightarrow> Inl (Some e) | Inr v \<Rightarrow> Inr v)"

fun bit_length :: "nat \<Rightarrow> nat" where
  "bit_length n = (if n = 0 then 0 else Suc (bit_length (n div 2)))"

declare bit_length.simps [simp del]

text \<open>Length and offset of a copy token; the widths of its fields depend on the position in the chunk.\<close>

definition vba_token :: "nat \<Rightarrow> nat \<Rightarrow> (nat \<times> nat) vba" where
  "vba_token position token =
     (let bit_count = max 4 (bit_length (max 1 position)) in
      if bit_count > 16 then Inl (Some (ValueError ''negative shift count''))
      else let length_bits = 16 - bit_count in Inr (take_bit length_bits token + 3, drop_bit length_bits token + 1))"

fun copy_back :: "nat \<Rightarrow> nat \<Rightarrow> int \<Rightarrow> bytes \<Rightarrow> bytes vba" where
  "copy_back 0 offset maximum out = Inr out"
| "copy_back (Suc n) offset maximum out =
     (if offset > length out then Inl (Some IndexError)
      else if int (length out + 1) > maximum then Inl None
      else copy_back n offset maximum (out @ [out ! (length out - offset)]))"

fun vba_flags :: "bytes \<Rightarrow> int \<Rightarrow> nat \<Rightarrow> nat \<Rightarrow> nat \<Rightarrow> nat list \<Rightarrow> nat \<times> bytes \<Rightarrow> (nat \<times> bytes) vba" where
  "vba_flags data maximum chunk_start chunk_end flags [] st = Inr st"
| "vba_flags data maximum chunk_start chunk_end flags (k # ks) (cursor, out) =
     (if cursor \<ge> chunk_end then Inr (cursor, out)
      else if bit flags k then
        (if cursor + 2 > chunk_end then Inl None
         else
           bindE (raising (unpack_le 2 data cursor)) (\<lambda>token.
           let position = length out - chunk_start in
           bindE (vba_token position token) (\<lambda>(len, offset).
           if offset > position then Inl None
           else
             bindE (copy_back len offset maximum out) (\<lambda>out'.
             vba_flags data maximum chunk_start chunk_end flags ks (cursor + 2, out')))))
      else
        bindE (raising (byte_at data cursor)) (\<lambda>_.
        if int (length out + 1) > maximum then Inl None
        else vba_flags data maximum chunk_start chunk_end flags ks (cursor + 1, out @ [data ! cursor])))"

lemma vba_flags_cursor: "vba_flags data maximum cs ce flags ks st = Inr st' \<Longrightarrow> fst st \<le> fst st'"
proof (induction ks arbitrary: st)
  case (Cons k ks)
  obtain cursor out where st: "st = (cursor, out)" by (cases st)
  show ?case
    using Cons.prems unfolding st
    by (auto simp: Let_def split: if_splits dest!: Cons.IH)
qed auto

function vba_chunk :: "bytes \<Rightarrow> int \<Rightarrow> nat \<Rightarrow> nat \<Rightarrow> nat \<times> bytes \<Rightarrow> (nat \<times> bytes) vba" where
  "vba_chunk data maximum chunk_start chunk_end st =
     (if fst st < chunk_end then
        bindE (raising (byte_at data (fst st))) (\<lambda>flags.
        bindE (vba_flags data maximum chunk_start chunk_end flags [0..<8] (fst st + 1, snd st)) (\<lambda>st'.
        vba_chunk data maximum chunk_start chunk_end st'))
      else Inr st)"
  by pat_completeness auto
termination
  by (relation "measure (\<lambda>(data, maximum, cs, ce, st). ce - fst st)") (auto dest: vba_flags_cursor)

declare vba_chunk.simps [simp del]

lemma vba_chunk_cursor: "vba_chunk data maximum cs ce st = Inr st' \<Longrightarrow> fst st \<le> fst st' \<and> ce \<le> fst st'"
proof (induction data maximum cs ce st rule: vba_chunk.induct)
  case (1 data maximum cs ce st)
  show ?case
  proof (cases "fst st < ce")
    case True
    with 1(2) obtain flags st1 where "raising (byte_at data (fst st)) = Inr flags"
        "vba_flags data maximum cs ce flags [0..<8] (fst st + 1, snd st) = Inr st1" "vba_chunk data maximum cs ce st1 = Inr st'"
      by (subst (asm) vba_chunk.simps) (auto simp del: vba_flags.simps)
    with 1(1) [OF True, of flags st1] vba_flags_cursor [of data maximum cs ce flags "[0..<8]" "(fst st + 1, snd st)" st1] show ?thesis
      by (simp del: vba_flags.simps)
  next
    case False
    with 1(2) show ?thesis by (subst (asm) vba_chunk.simps) auto
  qed
qed

function vba_chunks :: "bytes \<Rightarrow> int \<Rightarrow> nat \<times> bytes \<Rightarrow> bytes vba" where
  "vba_chunks data maximum st =
     (if fst st < length data then
        (if fst st + 2 > length data then Inl None
         else
           let header = le_at 2 data (fst st); chunk_end = fst st + (header AND 0x0FFF) + 3 in
           if header AND 0x7000 \<noteq> 0x3000 \<or> chunk_end > length data then Inl None
           else
             bindE (if header AND 0x8000 = 0 then Inr (chunk_end, snd st @ pyslice data (fst st + 2) chunk_end)
                    else vba_chunk data maximum (length (snd st)) chunk_end (fst st + 2, snd st)) (\<lambda>st'.
             if int (length (snd st')) > maximum then Inl None else vba_chunks data maximum st'))
      else Inr (snd st))"
  by pat_completeness auto
termination
proof (relation "measure (\<lambda>(data, maximum, st). length data - fst st)", simp, goal_cases)
  case (1 data maximum st header chunk_end st')
  then have "fst st < fst st'" by (auto split: if_splits dest: vba_chunk_cursor)
  moreover have "fst st < length data" using 1 by simp
  ultimately show ?case by (simp add: diff_less_mono2)
qed

declare vba_chunks.simps [simp del]

definition decompress_vba :: "bytes \<Rightarrow> int \<Rightarrow> bytes option res" where
  "decompress_vba data maximum =
     (if data = [] \<or> hd data \<noteq> 1 then Inr None
      else case vba_chunks data maximum (1, []) of
        Inr out \<Rightarrow> Inr (Some out)
      | Inl None \<Rightarrow> Inr None
      | Inl (Some e) \<Rightarrow> if e = IndexError \<or> e = StructError then Inr None else Inl e)"

subsection \<open>Compound files: \<open>_parse_cfb\<close>\<close>

definition NO_SECTOR :: nat where
  "NO_SECTOR = 0xFFFFFFFA"

record cfb_entry =
  cf_id :: nat
  cf_name :: pystr
  cf_kind :: nat
  cf_clsid :: string
  cf_start :: nat
  cf_size :: nat
  cf_left :: nat
  cf_right :: nat
  cf_child :: nat
  cf_data :: bytes
  cf_path :: pystr

record cfb_header =
  ch_major :: nat
  ch_sector_size :: nat
  ch_mini_sector_size :: nat
  ch_total_sectors :: nat
  ch_first_dir :: nat
  ch_mini_cutoff :: nat
  ch_first_minifat :: nat
  ch_minifat_count :: nat
  ch_fat_sectors :: "nat list"

definition cfb_header_of :: "bytes \<Rightarrow> cfb_header res" where
  "cfb_header_of data =
     (if length data < 512 then Inl (DocumentError ''truncated CFB header'')
      else
        let major = le_at 2 data 26; sector_size = 2 ^ le_at 2 data 30; mini = 2 ^ le_at 2 data 32 in
        if major \<notin> {3, 4} \<or> sector_size \<notin> {512, 4096} \<or> mini \<noteq> 64
        then Inl (DocumentError ''invalid CFB version or sector geometry'')
        else
          let fat_count = le_at 4 data 44;
              difat = map (\<lambda>i. le_at 4 data (76 + 4 * i)) [0..<109];
              fat_sectors = take fat_count (filter (\<lambda>v. v < NO_SECTOR) difat)
          in if fat_count > 109 \<or> length fat_sectors \<noteq> fat_count
             then Inl (DocumentError ''CFB DIFAT extension unsupported or corrupt'')
             else Inr \<lparr>ch_major = major, ch_sector_size = sector_size, ch_mini_sector_size = mini,
                    ch_total_sectors = (length data - 512) div sector_size, ch_first_dir = le_at 4 data 48,
                    ch_mini_cutoff = le_at 4 data 56, ch_first_minifat = le_at 4 data 60,
                    ch_minifat_count = le_at 4 data 64, ch_fat_sectors = fat_sectors\<rparr>)"

definition cfb_sector :: "cfb_header \<Rightarrow> bytes \<Rightarrow> nat \<Rightarrow> bytes res" where
  "cfb_sector h data sid =
     (if sid \<ge> ch_total_sectors h then Inl (DocumentError ''CFB sector outside file'')
      else Inr (pyslice data (512 + sid * ch_sector_size h) (512 + sid * ch_sector_size h + ch_sector_size h)))"

definition le_words :: "bytes \<Rightarrow> nat list" where
  "le_words bs = map (\<lambda>i. le_at 4 bs (4 * i)) [0..<length bs div 4]"

text \<open>\<open>chain\<close>; \<open>seen\<close> is the set of the sectors in \<open>result\<close>.\<close>

function cfb_chain :: "nat list \<Rightarrow> int \<Rightarrow> nat list \<Rightarrow> nat \<Rightarrow> nat list res" where
  "cfb_chain table maximum result current =
     (if current < NO_SECTOR then
        (if current \<in> set result \<or> current \<ge> length table \<or> int (length result) \<ge> maximum
         then Inl (DocumentError ''CFB cyclic or excessive allocation chain'')
         else cfb_chain table maximum (result @ [current]) (table ! current))
      else Inr result)"
  by pat_completeness auto
termination by (relation "measure (\<lambda>(table, maximum, result, current). nat (maximum - int (length result)))") auto

declare cfb_chain.simps [simp del]

definition cfb_read :: "cfb_header \<Rightarrow> bytes \<Rightarrow> nat list \<Rightarrow> bytes res" where
  "cfb_read h data sids = bindE (mapE (cfb_sector h data) sids) (\<lambda>parts. Inr (concat parts))"

definition cfb_fat :: "cfb_header \<Rightarrow> bytes \<Rightarrow> nat list res" where
  "cfb_fat h data = bindE (mapE (cfb_sector h data) (ch_fat_sectors h)) (\<lambda>parts. Inr (concat (map le_words parts)))"

text \<open>\<open>decode("utf-16le", "replace")\<close>: an odd byte at the end is one more U+FFFD, unless it follows the
  first half of a pair, whose U+FFFD stands for both.\<close>

definition utf16le_replace :: "bytes \<Rightarrow> pystr" where
  "utf16le_replace bs =
     (let us = le_units bs in
      utf16le bs @ (if odd (length bs) \<and> \<not> (us \<noteq> [] \<and> 0xD800 \<le> last us \<and> last us \<le> 0xDBFF) then [0xFFFD] else []))"

definition cfb_entry_of :: "nat \<Rightarrow> bytes \<Rightarrow> cfb_entry" where
  "cfb_entry_of n raw =
     \<lparr>cf_id = n, cf_name = take MAX_STRING (utf16le_replace (take (le_at 2 raw 64 - 2) raw)), cf_kind = unat (raw ! 66),
      cf_clsid = (if list_ex (\<lambda>b. b \<noteq> 0) (pyslice raw 80 96) then bytes_hex (pyslice raw 80 96) else []),
      cf_start = le_at 4 raw 116, cf_size = le_at 8 raw 120, cf_left = le_at 4 raw 68, cf_right = le_at 4 raw 72,
      cf_child = le_at 4 raw 76, cf_data = [], cf_path = []\<rparr>"

function cfb_entries :: "int \<Rightarrow> nat \<Rightarrow> bytes \<Rightarrow> cfb_entry list \<Rightarrow> cfb_entry list res" where
  "cfb_entries maximum n directory entries =
     (if length directory < 128 then Inr entries
      else
        let raw = take 128 directory; name_len = le_at 2 raw 64 in
        if unat (raw ! 66) = 0 \<or> name_len < 2 \<or> name_len > 64 then cfb_entries maximum (Suc n) (drop 128 directory) entries
        else if int (length entries + 1) > maximum then Inl (DocumentError ''CFB directory entry limit exceeded'')
        else cfb_entries maximum (Suc n) (drop 128 directory) (entries @ [cfb_entry_of n raw]))"
  by pat_completeness auto
termination by (relation "measure (\<lambda>(maximum, n, directory, entries). length directory)") auto

declare cfb_entries.simps [simp del]

text \<open>\<open>assign_tree\<close>; \<open>frames\<close> are the stack frames left for the recursion.\<close>

definition set_path :: "nat \<Rightarrow> pystr \<Rightarrow> cfb_entry list \<Rightarrow> cfb_entry list" where
  "set_path n p es = map (\<lambda>e. if cf_id e = n then e\<lparr>cf_path := p\<rparr> else e) es"

fun assign_tree :: "nat \<Rightarrow> nat \<Rightarrow> pystr \<Rightarrow> nat list \<times> cfb_entry list \<Rightarrow> (nat list \<times> cfb_entry list) res" where
  "assign_tree 0 n parent st = Inl RecursionError"
| "assign_tree (Suc frames) n parent (seen, es) =
     (if n \<ge> NO_SECTOR \<or> n \<in> set seen then Inr (seen, es)
      else case List.find (\<lambda>e. cf_id e = n) es of
        None \<Rightarrow> Inr (seen, es)
      | Some e \<Rightarrow>
          bindE (assign_tree frames (cf_left e) parent (n # seen, es)) (\<lambda>(seen1, es1).
          let p = (if parent \<noteq> [] then parent @ asc ''/'' @ cf_name e else cf_name e) in
          bindE (if cf_kind e = 1 then assign_tree frames (cf_child e) p (seen1, set_path n p es1)
                 else Inr (seen1, set_path n p es1)) (\<lambda>st.
          assign_tree frames (cf_right e) parent st)))"

definition assign_paths :: "nat \<Rightarrow> cfb_entry list \<Rightarrow> cfb_entry list res" where
  "assign_paths frames entries =
     (case List.find (\<lambda>e. cf_kind e = 5) entries of
        None \<Rightarrow> Inr entries
      | Some storage \<Rightarrow>
          bindE (assign_tree frames (cf_child storage) [] ([], set_path (cf_id storage) (cf_name storage) entries)) (\<lambda>(_, es). Inr es))"

text \<open>The mini FAT, the mini stream and the bytes of the streams.\<close>

definition cfb_minifat :: "cfb_header \<Rightarrow> bytes \<Rightarrow> nat list \<Rightarrow> nat list res" where
  "cfb_minifat h data fat =
     (if ch_minifat_count h \<noteq> 0 \<and> ch_first_minifat h < NO_SECTOR then
        bindE (cfb_chain fat (int (ch_minifat_count h)) [] (ch_first_minifat h)) (\<lambda>sids.
        bindE (cfb_read h data sids) (\<lambda>raw. Inr (le_words raw)))
      else Inr [])"

definition cfb_ministream :: "cfb_header \<Rightarrow> bytes \<Rightarrow> nat list \<Rightarrow> int \<Rightarrow> cfb_entry option \<Rightarrow> bytes res" where
  "cfb_ministream h data fat maximum storage =
     (case storage of
        None \<Rightarrow> Inr []
      | Some r \<Rightarrow>
          if cf_size r \<noteq> 0 \<and> cf_start r < NO_SECTOR then
            bindE (cfb_chain fat maximum [] (cf_start r)) (\<lambda>sids.
            bindE (cfb_read h data sids) (\<lambda>raw. Inr (take (cf_size r) raw)))
          else Inr [])"

definition cfb_load ::
  "cfb_header \<Rightarrow> bytes \<Rightarrow> runtime_settings \<Rightarrow> nat list \<Rightarrow> nat list \<Rightarrow> bytes \<Rightarrow> cfb_entry \<Rightarrow> cfb_entry res" where
  "cfb_load h data limits fat minifat ministream e =
     (if cf_kind e \<noteq> 2 \<or> cf_size e = 0 then Inr e
      else if int (cf_size e) > rt_max_document_parser_bytes limits then Inr e
      else if cf_size e < ch_mini_cutoff h \<and> minifat \<noteq> [] \<and> ministream \<noteq> [] then
        bindE (cfb_chain minifat (rt_max_document_components limits) [] (cf_start e)) (\<lambda>sids.
        Inr (e\<lparr>cf_data := take (cf_size e) (concat (map (\<lambda>sid. pyslice ministream (sid * 64) ((sid + 1) * 64)) sids))\<rparr>))
      else if cf_start e < NO_SECTOR then
        bindE (cfb_chain fat (rt_max_document_components limits) [] (cf_start e)) (\<lambda>sids.
        bindE (cfb_read h data sids) (\<lambda>raw. Inr (e\<lparr>cf_data := take (cf_size e) raw\<rparr>)))
      else Inr e)"

definition cfb_load_all :: "document_env \<Rightarrow> runtime_settings \<Rightarrow> cfb_header \<Rightarrow> bytes \<Rightarrow> cfb_entry list res" where
  "cfb_load_all env limits h data =
     (let maximum = rt_max_document_components limits in
      bindE (cfb_fat h data) (\<lambda>fat.
      bindE (cfb_chain fat maximum [] (ch_first_dir h)) (\<lambda>sids.
      bindE (cfb_read h data sids) (\<lambda>directory.
      bindE (cfb_entries maximum 0 directory []) (\<lambda>entries.
      bindE (assign_paths (de_frames env) entries) (\<lambda>entries.
      bindE (cfb_minifat h data fat) (\<lambda>minifat.
      bindE (cfb_ministream h data fat maximum (List.find (\<lambda>e. cf_kind e = 5) entries)) (\<lambda>ministream.
      mapE (cfb_load h data limits fat minifat ministream) entries))))))))"

text \<open>What the streams hold.\<close>

definition AUTO_NAMES :: "string list" where
  "AUTO_NAMES = [''AutoOpen'', ''AutoExec'', ''Document_Open'', ''Workbook_Open'', ''Presentation_Open'']"

definition lower_ascii :: "pystr \<Rightarrow> pystr" where
  "lower_ascii s = map (\<lambda>c. if 65 \<le> c \<and> c \<le> 90 then c + 32 else c) s"

definition cfb_family :: "pystr list \<Rightarrow> string" where
  "cfb_family names =
     (if asc ''WordDocument'' \<in> set names then ''OLE_DOC''
      else if asc ''Workbook'' \<in> set names \<or> asc ''Book'' \<in> set names then ''OLE_XLS''
      else if asc ''PowerPoint Document'' \<in> set names then ''OLE_PPT'' else ''OLE_CFB'')"

definition is_macro_entry :: "cfb_entry \<Rightarrow> bool" where
  "is_macro_entry e \<longleftrightarrow>
     lower_ascii (cf_name e) \<in> {asc ''dir'', asc ''project'', asc ''_vba_project''}
     \<or> substring (asc ''vba'') (lower_ascii (cf_path e))"

definition vba_module :: "runtime_settings \<Rightarrow> cfb_entry \<Rightarrow> (cfb_entry \<times> bytes) option res" where
  "vba_module limits e =
     (if cf_kind e \<noteq> 2 \<or> cf_name e \<in> {asc ''dir'', asc ''PROJECT'', asc ''PROJECTwm'', asc ''_VBA_PROJECT''} then Inr None
      else
        bindE (decompress_vba (cf_data e) (rt_max_document_parser_bytes limits)) (\<lambda>d.
        let source = (case d of None \<Rightarrow> cf_data e | Some out \<Rightarrow> if out = [] then cf_data e else out) in
        Inr (if starts_with (asc ''VBA/'') (cf_path e) \<and> \<not> starts_with (asc ''__SRP_'') (cf_name e)
               \<or> list_ex (\<lambda>t. holds_text t source) [''Attribute VB_'', ''Sub '', ''Function '']
             then Some (e, source) else None)))"

definition auto_entry_points :: "(cfb_entry \<times> bytes) list \<Rightarrow> pystr list" where
  "auto_entry_points modules = sort (map asc (filter (\<lambda>n. list_ex (\<lambda>(_, source). holds_text n source) modules) AUTO_NAMES))"

definition cfb_child_of :: "runtime_settings \<Rightarrow> cfb_entry \<Rightarrow> document_child option" where
  "cfb_child_of limits e =
     (if cf_data e \<noteq> [] \<and> int (length (cf_data e)) \<le> rt_max_single_child_bytes limits
      then Some \<lparr>dc_name = asc ''ole-'' @ cf_name e @ asc ''.bin'', dc_data = cf_data e,
             dc_metadata = [(''cfb_stream'', PStr (cf_name e))]\<rparr>
      else None)"

definition opt_sector :: "nat \<Rightarrow> pyval" where
  "opt_sector n = (if n < NO_SECTOR then PNat n else PNone)"

definition cfb_hierarchy :: "cfb_entry \<Rightarrow> pyval" where
  "cfb_hierarchy e =
     PDict [(''id'', PNat (cf_id e)), (''name'', PStr (cf_name e)),
       (''kind'', PAsc (if cf_kind e = 1 then ''storage'' else if cf_kind e = 2 then ''stream''
          else if cf_kind e = 5 then ''root'' else ''unknown'')),
       (''left_sibling'', opt_sector (cf_left e)), (''right_sibling'', opt_sector (cf_right e)),
       (''child'', opt_sector (cf_child e))]"

definition size_named :: "pystr \<Rightarrow> cfb_entry list \<Rightarrow> nat" where
  "size_named name es = (case List.find (\<lambda>e. cf_name e = name) es of None \<Rightarrow> 0 | Some e \<Rightarrow> cf_size e)"

definition some_name :: "(pystr \<Rightarrow> bool) \<Rightarrow> cfb_entry list \<Rightarrow> bool" where
  "some_name p es \<longleftrightarrow> list_ex (\<lambda>e. p (cf_name e)) es"

definition parse_cfb :: "document_env \<Rightarrow> runtime_settings \<Rightarrow> bytes \<Rightarrow> parsed_document res" where
  "parse_cfb env limits data =
     bindE (cfb_header_of data) (\<lambda>h.
     bindE (cfb_load_all env limits h data) (\<lambda>entries.
     bindE (mapE (vba_module limits) entries) (\<lambda>found_modules.
     let names = map cf_name entries;
         macros = filter is_macro_entry entries;
         modules = List.map_filter (\<lambda>m. m) found_modules;
         package = filter (\<lambda>e. cf_kind e = 2 \<and> cf_name e \<in> {asc ''Package'', asc ''CONTENTS'', asc ''Ole10Native''}) entries;
         children = List.map_filter (cfb_child_of limits) package;
         pool = some_name (substring (asc ''ObjectPool'')) entries;
         summary = 5 # asc ''SummaryInformation''; document_summary = 5 # asc ''DocumentSummaryInformation''
     in Inr \<lparr>pd_format = cfb_family names,
       pd_observations =
         [(''cfb.major_version'', PNat (ch_major h)), (''cfb.sector_size'', PNat (ch_sector_size h)),
          (''cfb.mini_sector_size'', PNat (ch_mini_sector_size h)), (''cfb.directory_entry_count'', PNat (length entries)),
          (''cfb.stream_count'', PNat (length (filter (\<lambda>e. cf_kind e = 2) entries))),
          (''cfb.storage_count'', PNat (length (filter (\<lambda>e. cf_kind e \<in> {1, 5}) entries))),
          (''cfb.directory_hierarchy'', PList (map cfb_hierarchy entries)),
          (''cfb.streams'', PList (map (\<lambda>e. PDict [(''name'', PStr (cf_name e)), (''size'', PNat (cf_size e))])
             (filter (\<lambda>e. cf_kind e = 2) entries))),
          (''cfb.clsids'', PList (map PStr (sort (remdups (map asc (filter (\<lambda>c. c \<noteq> []) (map cf_clsid entries))))))),
          (''cfb.summary_information_present'', PBool (summary \<in> set names)),
          (''cfb.document_summary_information_present'', PBool (document_summary \<in> set names)),
          (''cfb.summary_information_stream_size'', PNat (size_named summary entries)),
          (''cfb.document_summary_information_stream_size'', PNat (size_named document_summary entries)),
          (''document.vba_project_present'', PBool (macros \<noteq> [] \<or> modules \<noteq> [])),
          (''document.vba_module_count'', PNat (length modules)),
          (''document.vba_modules'', PList (map (\<lambda>(e, source). PDict [(''name'', PStr (cf_name e)), (''path'', PStr (cf_path e)),
             (''type'', PAsc ''module''), (''source_present'', PBool (source \<noteq> []))]) modules)),
          (''document.vba_auto_entry_points'', PList (map PStr (auto_entry_points modules))),
          (''cfb.embedded_object_present'', PBool (package \<noteq> [] \<or> pool)),
          (''cfb.encryption_structure_present'', PBool (some_name (\<lambda>n. n \<in> {asc ''EncryptionInfo'', asc ''EncryptedPackage''}
             \<or> substring (asc ''Crypt'') n) entries)),
          (''cfb.signature_structure_present'', PBool (some_name (\<lambda>n. substring (asc ''DigitalSignature'') n
             \<or> n = asc ''_xmlsignatures'') entries))],
       pd_assessments =
         assess_if (macros \<noteq> [] \<or> modules \<noteq> []) ''ACTIVE_CONTENT_PRESENT''
           ''CFB contains VBA project/module structures'' [''document.vba_project_present'']
         @ assess_if (children \<noteq> [] \<or> pool) ''EMBEDDED_OBJECT_PRESENT''
             ''CFB contains embedded object/package structures'' [''cfb.embedded_object_present''],
       pd_children = children, pd_errors = [], pd_partial = None\<rparr>)))"

subsection \<open>MS-OVBA decompression never raises\<close>

lemma bit_length_upper: "n < 2 ^ k \<Longrightarrow> bit_length n \<le> k"
proof (induction n arbitrary: k rule: bit_length.induct)
  case (1 n)
  show ?case
  proof (cases "n = 0")
    case False
    with "1.prems" obtain j where "k = Suc j" by (cases k) auto
    with 1 False show ?thesis by (subst bit_length.simps) auto
  qed (simp add: bit_length.simps)
qed

lemma bit_length_lower: "2 ^ k \<le> n \<Longrightarrow> k < bit_length n"
proof (induction k arbitrary: n)
  case 0
  then show ?case by (subst bit_length.simps) auto
next
  case (Suc k)
  then have "2 ^ k \<le> n div 2" by simp
  moreover have "n \<noteq> 0" using Suc.prems by (cases n) auto
  moreover note Suc.IH [of "n div 2"]
  ultimately show ?case by (subst bit_length.simps) simp
qed

definition token_bits :: "nat \<Rightarrow> nat" where
  "token_bits position = 16 - max 4 (bit_length (max 1 position))"

lemma vba_token_ok:
  assumes "position < 65536"
  shows "vba_token position token = Inr (take_bit (token_bits position) token + 3, drop_bit (token_bits position) token + 1)"
    and "token_bits position \<le> 12" and "4096 \<le> position \<Longrightarrow> token_bits position \<le> 3"
proof -
  have "bit_length (max 1 position) \<le> 16" using assms by (intro bit_length_upper) simp
  then show "vba_token position token = Inr (take_bit (token_bits position) token + 3, drop_bit (token_bits position) token + 1)"
    by (simp add: vba_token_def token_bits_def Let_def)
  show "token_bits position \<le> 12" by (simp add: token_bits_def)
  assume "4096 \<le> position"
  then have "12 < bit_length (max 1 position)" by (intro bit_length_lower) simp
  then show "token_bits position \<le> 3" by (simp add: token_bits_def)
qed

lemma token_length:
  assumes "position < 65536" and "vba_token position token = Inr (len, offset)"
  shows "len \<le> 4098" and "4096 \<le> position \<Longrightarrow> len \<le> 10" and "1 \<le> offset"
proof -
  have len: "len = take_bit (token_bits position) token + 3" and off: "offset = drop_bit (token_bits position) token + 1"
    using assms vba_token_ok(1) [OF assms(1), of token] by auto
  have small: "take_bit (token_bits position) token < 2 ^ token_bits position" by simp
  have "(2::nat) ^ token_bits position \<le> 4096"
    using power_increasing [OF vba_token_ok(2) [OF assms(1)], of "2 :: nat"] by simp
  with small show "len \<le> 4098" unfolding len by linarith
  show "1 \<le> offset" unfolding off by simp
  assume "4096 \<le> position"
  then have "(2::nat) ^ token_bits position \<le> 8"
    using power_increasing [OF vba_token_ok(3) [OF assms(1)], of "2 :: nat"] by simp
  with small show "len \<le> 10" unfolding len by linarith
qed

text \<open>The bytes of a copy repeat the last \<open>offset\<close> bytes.\<close>

definition copied :: "nat \<Rightarrow> nat \<Rightarrow> bytes \<Rightarrow> bytes" where
  "copied n offset out = out @ map (\<lambda>i. out ! (length out - offset + i mod offset)) [0..<n]"

lemma length_copied [simp]: "length (copied n offset out) = length out + n"
  by (simp add: copied_def)

lemma copied_step:
  assumes "1 \<le> offset" "offset \<le> length out"
  shows "copied n offset (out @ [out ! (length out - offset)]) = copied (Suc n) offset out"
proof (rule nth_equalityI)
  fix i assume i: "i < length (copied n offset (out @ [out ! (length out - offset)]))"
  let ?o = "out @ [out ! (length out - offset)]"
  consider "i < length out" | "i = length out" | "length out < i" by linarith
  then show "copied n offset ?o ! i = copied (Suc n) offset out ! i"
  proof cases
    case 3
    define j where "j = i - length out - 1"
    with 3 i have j: "i = length out + 1 + j" "j < n" by auto
    have left: "copied n offset ?o ! i = ?o ! (length ?o - offset + j mod offset)"
      using j by (simp add: copied_def nth_append)
    have right: "copied (Suc n) offset out ! i = out ! (length out - offset + Suc j mod offset)"
      using j by (simp add: copied_def nth_append del: upt_Suc)
    show ?thesis
    proof (cases "Suc (j mod offset) = offset")
      case True
      then have "Suc j mod offset = 0" by (simp add: mod_Suc)
      moreover have "length ?o - offset + j mod offset = length out" using True assms by auto
      ultimately show ?thesis unfolding left right by simp
    next
      case False
      then have "Suc j mod offset = Suc (j mod offset)" by (simp add: mod_Suc)
      moreover have "Suc (j mod offset) < offset" using False assms mod_less_divisor [of offset j] by linarith
      moreover have "length ?o - offset + j mod offset = length out - offset + Suc (j mod offset)" using assms by auto
      moreover have "length out - offset + Suc (j mod offset) < length out" using calculation(2) assms by linarith
      ultimately show ?thesis unfolding left right by (simp only: nth_append if_True)
    qed
  qed (auto simp: copied_def nth_append simp del: upt_Suc)
qed (simp add: copied_def)

lemma copy_back_exact:
  assumes "1 \<le> offset" "offset \<le> length out"
  shows "copy_back n offset maximum out =
     (if n = 0 \<or> int (length out + n) \<le> maximum then Inr (copied n offset out) else Inl None)"
  using assms
proof (induction n arbitrary: out)
  case (Suc n)
  show ?case
  proof (cases "int (length out + 1) > maximum")
    case True
    with Suc.prems show ?thesis by simp
  next
    case False
    let ?o = "out @ [out ! (length out - offset)]"
    have "copy_back (Suc n) offset maximum out = copy_back n offset maximum ?o" using False Suc.prems by simp
    also have "\<dots> = (if n = 0 \<or> int (length ?o + n) \<le> maximum then Inr (copied n offset ?o) else Inl None)"
      using Suc.IH [of ?o] Suc.prems by simp
    finally show ?thesis unfolding copied_step [OF Suc.prems] using False by auto
  qed
qed (simp add: copied_def)

definition quiet :: "'a vba \<Rightarrow> bool" where
  "quiet r \<longleftrightarrow> (case r of Inl (Some _) \<Rightarrow> False | _ \<Rightarrow> True)"

lemma quiet_simps [simp]: "quiet (Inr v)" "quiet (Inl None)" "\<not> quiet (Inl (Some e))"
  by (simp_all add: quiet_def)

lemma quiet_bindE: "quiet m \<Longrightarrow> (\<And>v. m = Inr v \<Longrightarrow> quiet (f v)) \<Longrightarrow> quiet (bindE m f)"
  by (cases m) (auto simp: quiet_def split: option.splits)

text \<open>
  Inside a chunk of at most 4096 bytes the output stays below 28674 bytes: a token read at position
  4096 or later copies at most 10. So the widths of a token's fields never exceed 16 bits.
\<close>

definition chunk_room :: "nat \<Rightarrow> nat \<Rightarrow> nat \<Rightarrow> nat \<times> bytes \<Rightarrow> bool" where
  "chunk_room chunk_start chunk_end first st \<longleftrightarrow>
     first \<le> fst st \<and> fst st \<le> chunk_end \<and> chunk_start \<le> length (snd st)
     \<and> length (snd st) - chunk_start \<le> 8193 + 5 * (fst st - first)"

lemma vba_flags_quiet:
  assumes "chunk_room cs ce first st" and "ce \<le> length data" and "ce \<le> first + 4096"
  shows "quiet (vba_flags data maximum cs ce flags ks st)
     \<and> (case vba_flags data maximum cs ce flags ks st of Inr st' \<Rightarrow> chunk_room cs ce first st' | Inl _ \<Rightarrow> True)"
  using assms(1)
proof (induction ks arbitrary: st)
  case (Cons k ks)
  obtain cursor out where st: "st = (cursor, out)" by (cases st)
  let ?p = "length out - cs"
  have room: "first \<le> cursor" "cursor \<le> ce" "cs \<le> length out" "?p \<le> 8193 + 5 * (cursor - first)"
    using Cons.prems by (auto simp: chunk_room_def st)
  have small: "?p < 65536" using room assms(3) by linarith
  show ?case
  proof (cases "cursor < ce")
    case False
    with Cons.prems show ?thesis by (simp add: st)
  next
    case True
    show ?thesis
    proof (cases "bit flags k")
      case False
      have "chunk_room cs ce first (cursor + 1, out @ [data ! cursor])"
        using room True by (auto simp: chunk_room_def)
      from Cons.IH [OF this] True False assms(2) show ?thesis by (simp add: st raising_def)
    next
      case copy: True
      show ?thesis
      proof (cases "cursor + 2 \<le> ce")
        case False
        with True copy show ?thesis by (simp add: st)
      next
        case fits: True
        obtain len offset where tok: "vba_token ?p (le_at 2 data cursor) = Inr (len, offset)"
          using vba_token_ok(1) [OF small] by blast
        note bounds = token_length [OF small tok]
        have step: "vba_flags data maximum cs ce flags (k # ks) st =
            (if offset > ?p then Inl None
             else if len = 0 \<or> int (length out + len) \<le> maximum
             then vba_flags data maximum cs ce flags ks (cursor + 2, copied len offset out) else Inl None)"
          using True copy fits assms(2) tok copy_back_exact [of offset out len maximum] bounds(3) room(3)
          by (simp add: st raising_def Let_def)
        have "chunk_room cs ce first (cursor + 2, copied len offset out)"
        proof (cases "?p < 4096")
          case True
          with room fits bounds(1) show ?thesis by (auto simp: chunk_room_def)
        next
          case False
          with room fits bounds(2) show ?thesis by (auto simp: chunk_room_def)
        qed
        from Cons.IH [OF this] show ?thesis unfolding step by simp
      qed
    qed
  qed
qed simp

lemma vba_chunk_quiet:
  assumes "chunk_room cs ce first st" and "ce \<le> length data" and "ce \<le> first + 4096"
  shows "quiet (vba_chunk data maximum cs ce st)"
  using assms
proof (induction data maximum cs ce st rule: vba_chunk.induct)
  case (1 data maximum cs ce st)
  show ?case
  proof (cases "fst st < ce")
    case True
    have room: "chunk_room cs ce first (fst st + 1, snd st)"
      using "1.prems"(1) True by (auto simp: chunk_room_def)
    let ?f = "unat (data ! fst st)"
    note flags = vba_flags_quiet [OF room "1.prems"(2,3), of maximum ?f "[0..<8]"]
    have read: "raising (byte_at data (fst st)) = Inr ?f" using True "1.prems"(2) by (simp add: raising_def)
    show ?thesis
    proof (subst vba_chunk.simps, simp only: True if_True read bindE_simps, rule quiet_bindE)
      show "quiet (vba_flags data maximum cs ce ?f [0..<8] (fst st + 1, snd st))" using flags by blast
      fix st' assume r: "vba_flags data maximum cs ce ?f [0..<8] (fst st + 1, snd st) = Inr st'"
      with flags have "chunk_room cs ce first st'" by (simp del: vba_flags.simps)
      with "1.IH" [OF True read r] "1.prems"(2,3) show "quiet (vba_chunk data maximum cs ce st')" by blast
    qed
  next
    case False
    then show ?thesis by (subst vba_chunk.simps) simp
  qed
qed

lemma and_0FFF: "(h :: nat) AND 0x0FFF < 4096"
proof -
  have "h AND 0x0FFF = take_bit 12 h" by (simp add: take_bit_eq_mask mask_eq_exp_minus_1)
  then show ?thesis using take_bit_nat_less_exp [of 12 h] by simp
qed

lemma vba_chunks_quiet:
  "quiet (vba_chunks data maximum st)
     \<and> (case vba_chunks data maximum st of Inr out \<Rightarrow> out = snd st \<or> int (length out) \<le> maximum | Inl _ \<Rightarrow> True)"
proof (induction data maximum st rule: vba_chunks.induct)
  case (1 data maximum st)
  let ?h = "le_at 2 data (fst st)"
  let ?ce = "fst st + (?h AND 0x0FFF) + 3"
  let ?inner = "if ?h AND 0x8000 = 0 then Inr (?ce, snd st @ pyslice data (fst st + 2) ?ce)
     else vba_chunk data maximum (length (snd st)) ?ce (fst st + 2, snd st)"
  show ?case
  proof (cases "fst st < length data \<and> \<not> fst st + 2 > length data \<and> \<not> (?h AND 0x7000 \<noteq> 0x3000 \<or> ?ce > length data)")
    case False
    then consider "\<not> fst st < length data" | "fst st < length data" "fst st + 2 > length data"
      | "fst st < length data" "\<not> fst st + 2 > length data" "?h AND 0x7000 \<noteq> 0x3000 \<or> ?ce > length data" by blast
    then have "vba_chunks data maximum st = Inl None \<or> vba_chunks data maximum st = Inr (snd st)"
    proof cases
      case 1
      then show ?thesis by (subst (2) vba_chunks.simps) simp
    next
      case 2
      then have "vba_chunks data maximum st = Inl None" by (subst vba_chunks.simps) (simp only: if_True)
      then show ?thesis ..
    next
      case 3
      then have "vba_chunks data maximum st = Inl None" by (subst vba_chunks.simps) (simp only: Let_def if_True if_False)
      then show ?thesis ..
    qed
    then show ?thesis by auto
  next
    case True
    then have c: "fst st < length data" "\<not> fst st + 2 > length data" "\<not> (?h AND 0x7000 \<noteq> 0x3000 \<or> ?ce > length data)" by auto
    have eq: "vba_chunks data maximum st =
        bindE ?inner (\<lambda>st'. if int (length (snd st')) > maximum then Inl None else vba_chunks data maximum st')"
      by (subst vba_chunks.simps) (simp only: c Let_def if_True if_False)
    have "chunk_room (length (snd st)) ?ce (fst st + 2) (fst st + 2, snd st)" by (simp add: chunk_room_def)
    then have inner: "quiet ?inner"
      using vba_chunk_quiet [of "length (snd st)" ?ce "fst st + 2" "(fst st + 2, snd st)" data maximum] c and_0FFF [of ?h]
      by auto
    show ?thesis
    proof (cases ?inner)
      case (Inl e)
      with inner have "e = None" by (cases e) auto
      with Inl show ?thesis unfolding eq by simp
    next
      case (Inr st')
      show ?thesis
      proof (cases "int (length (snd st')) > maximum")
        case True
        then show ?thesis unfolding eq Inr by simp
      next
        case False
        from "1.IH" [OF c(1,2) refl refl c(3) Inr False] show ?thesis unfolding eq Inr using False
          by (auto split: sum.splits)
      qed
    qed
  qed
qed

lemma decompress_vba_total:
  "case decompress_vba data maximum of
     Inl _ \<Rightarrow> False
   | Inr None \<Rightarrow> True
   | Inr (Some out) \<Rightarrow> out = [] \<or> int (length out) \<le> maximum"
  using vba_chunks_quiet [of data maximum "(1, [])"]
  by (auto simp: decompress_vba_def split: sum.splits option.splits)

text \<open>
  MS-OVBA gives the offset of a copy token as many bits as the least power of two not below the position
  needs, and at least four. The code uses one bit more exactly at the powers of two from 16 on.
\<close>

definition ovba_offset_bits :: "nat \<Rightarrow> nat" where
  "ovba_offset_bits position = max 4 (bit_length (position - 1))"

lemma bit_length_exact: "bit_length n \<le> k \<longleftrightarrow> n < 2 ^ k"
  using bit_length_upper [of n k] bit_length_lower [of k n] by (meson leD not_le)

lemma vba_offset_bits_differ:
  assumes "1 \<le> position" and "position \<le> 4096"
  shows "16 - token_bits position \<noteq> ovba_offset_bits position \<longleftrightarrow> (\<exists>k \<ge> 4. position = 2 ^ k)"
proof -
  have one: "max 1 position = position" using assms(1) by simp
  have "bit_length position \<le> 13" using assms(2) by (simp add: bit_length_exact)
  then have code: "16 - token_bits position = max 4 (bit_length position)" by (simp only: token_bits_def one)
  have less: "bit_length (position - 1) \<le> bit_length position"
    using bit_length_exact [of position "bit_length position"] by (simp add: bit_length_exact)
  show ?thesis
  proof
    assume "16 - token_bits position \<noteq> ovba_offset_bits position"
    with code less have "max 4 (bit_length (position - 1)) < bit_length position" by (auto simp: ovba_offset_bits_def max_def split: if_splits)
    then have "\<not> position < 2 ^ max 4 (bit_length (position - 1))" by (simp only: bit_length_exact [symmetric] not_le)
    moreover have "position - 1 < 2 ^ max 4 (bit_length (position - 1))" by (simp only: bit_length_exact [symmetric] max.cobounded2)
    ultimately have "position = 2 ^ max 4 (bit_length (position - 1))" using assms(1) by linarith
    then show "\<exists>k \<ge> 4. position = 2 ^ k" by (intro exI [of _ "max 4 (bit_length (position - 1))"]) simp
  next
    assume "\<exists>k \<ge> 4. position = 2 ^ k"
    then obtain k where k: "4 \<le> k" "position = 2 ^ k" by blast
    then have "bit_length (position - 1) \<le> k" "\<not> bit_length position \<le> k" by (simp_all add: bit_length_exact)
    with k(1) code show "16 - token_bits position \<noteq> ovba_offset_bits position" by (simp add: ovba_offset_bits_def)
  qed
qed

definition ovba_length_bits :: "nat \<Rightarrow> nat" where
  "ovba_length_bits position = 16 - ovba_offset_bits position"

definition SPLIT_POSITIONS :: "nat list" where
  "SPLIT_POSITIONS = [16, 32, 64, 128, 256, 512, 1024, 2048, 4096]"

lemma split_positions:
  assumes "position \<le> 4096"
  shows "position \<in> set SPLIT_POSITIONS \<longleftrightarrow> (\<exists>k \<ge> 4. position = 2 ^ k)"
proof
  assume "position \<in> set SPLIT_POSITIONS"
  then have "position \<in> set (map ((^) 2) [4, 5, 6, 7, 8, 9, 10, 11, 12])" unfolding SPLIT_POSITIONS_def by simp
  then obtain k where "k \<in> set [4, 5, 6, 7, 8, 9, 10, 11, 12 :: nat]" "position = 2 ^ k" by (simp only: set_map) blast
  then show "\<exists>k \<ge> 4. position = 2 ^ k" by (intro exI [of _ k]) auto
next
  assume "\<exists>k \<ge> 4. position = 2 ^ k"
  then obtain k where k: "4 \<le> k" "position = 2 ^ k" by blast
  with assms have "(2 :: nat) ^ k \<le> 2 ^ 12" by simp
  then have "k \<le> 12" by (simp only: power_increasing_iff)
  with k(1) have "k \<in> {4, 5, 6, 7, 8, 9, 10, 11, 12}" by auto
  with k(2) show "position \<in> set SPLIT_POSITIONS" by (auto simp: SPLIT_POSITIONS_def)
qed

text \<open>The width of the length field in the format and in the code.\<close>

lemma ovba_bits_agree:
  assumes "1 \<le> position" and "position \<le> 4096"
  shows "position \<notin> set SPLIT_POSITIONS \<Longrightarrow> token_bits position = ovba_length_bits position"
    and "position \<in> set SPLIT_POSITIONS \<Longrightarrow> ovba_length_bits position = Suc (token_bits position)"
    and "4 \<le> ovba_length_bits position" and "ovba_length_bits position \<le> 12"
proof -
  have one: "max 1 position = position" using assms(1) by simp
  have thirteen: "bit_length position \<le> 13" using assms by (simp add: bit_length_exact)
  have twelve: "bit_length (position - 1) \<le> 12" using assms by (simp add: bit_length_exact)
  have small: "ovba_offset_bits position \<le> 12" using twelve by (simp add: ovba_offset_bits_def)
  show "4 \<le> ovba_length_bits position" "ovba_length_bits position \<le> 12"
    using small(1) by (simp_all add: ovba_length_bits_def ovba_offset_bits_def)
  { assume "position \<notin> set SPLIT_POSITIONS"
    with vba_offset_bits_differ [OF assms] split_positions [OF assms(2)]
    have "16 - token_bits position = ovba_offset_bits position" by blast
    then show "token_bits position = ovba_length_bits position"
      using thirteen by (simp add: ovba_length_bits_def token_bits_def one) }
  assume "position \<in> set SPLIT_POSITIONS"
  with split_positions [OF assms(2)] obtain k where k: "4 \<le> k" "position = 2 ^ k" by blast
  have up: "bit_length position = Suc k"
    using bit_length_exact [of position "Suc k"] bit_length_exact [of position k] k(2) by simp
  have low: "bit_length (position - 1) = k"
  proof -
    have "bit_length (position - 1) \<le> k" using k(2) by (simp add: bit_length_exact)
    moreover have "\<not> bit_length (position - 1) \<le> k - 1"
    proof -
      have "(2 :: nat) ^ k = 2 * 2 ^ (k - 1)" using k(1) by (cases k) simp_all
      moreover have "(1 :: nat) < 2 ^ (k - 1)" using k(1) by (intro one_less_power) simp_all
      ultimately have "\<not> position - 1 < 2 ^ (k - 1)" using k(2) by linarith
      then show ?thesis unfolding bit_length_exact .
    qed
    ultimately show ?thesis by simp
  qed
  show "ovba_length_bits position = Suc (token_bits position)"
    using k(1) up low thirteen one by (simp add: ovba_length_bits_def ovba_offset_bits_def token_bits_def)
qed

subsection \<open>An MS-OVBA compressor as the reference\<close>

text \<open>
  The encoder writes what the format document says, with the format's widths of the token fields, not
  the code's. A compressed chunk of at most 4096 bytes of text is groups of at most eight items, a byte
  or a copy of earlier bytes; only the last group may be shorter. A stored chunk holds its bytes.
\<close>

datatype vba_item = Plain byte | Repeat nat nat

datatype vba_piece = Stored bytes | Packed "vba_item list list"

definition le2 :: "nat \<Rightarrow> bytes" where
  "le2 v = [word_of_nat v, word_of_nat (v div 256)]"

fun item_ok :: "nat \<Rightarrow> vba_item \<Rightarrow> bool" where
  "item_ok position (Plain b) \<longleftrightarrow> True"
| "item_ok position (Repeat offset len) \<longleftrightarrow>
     1 \<le> offset \<and> offset \<le> position \<and> 3 \<le> len \<and> len - 3 < 2 ^ ovba_length_bits position"

definition ovba_token :: "nat \<Rightarrow> nat \<Rightarrow> nat \<Rightarrow> nat" where
  "ovba_token position offset len = (offset - 1) * 2 ^ ovba_length_bits position + (len - 3)"

fun item_bytes :: "nat \<Rightarrow> vba_item \<Rightarrow> bytes" where
  "item_bytes position (Plain b) = [b]"
| "item_bytes position (Repeat offset len) = le2 (ovba_token position offset len)"

fun expand_item :: "bytes \<Rightarrow> vba_item \<Rightarrow> bytes" where
  "expand_item out (Plain b) = out @ [b]"
| "expand_item out (Repeat offset len) = copied len offset out"

definition item_length :: "vba_item \<Rightarrow> nat" where
  "item_length x = (case x of Plain _ \<Rightarrow> 1 | Repeat _ len \<Rightarrow> len)"

fun items_ok :: "nat \<Rightarrow> vba_item list \<Rightarrow> bool" where
  "items_ok position [] \<longleftrightarrow> True"
| "items_ok position (x # xs) \<longleftrightarrow> item_ok position x \<and> items_ok (position + item_length x) xs"

fun items_bytes :: "nat \<Rightarrow> vba_item list \<Rightarrow> bytes" where
  "items_bytes position [] = []"
| "items_bytes position (x # xs) = item_bytes position x @ items_bytes (position + item_length x) xs"

definition items_length :: "vba_item list \<Rightarrow> nat" where
  "items_length xs = sum_list (map item_length xs)"

fun flags_of :: "vba_item list \<Rightarrow> nat" where
  "flags_of [] = 0"
| "flags_of (Plain _ # xs) = 2 * flags_of xs"
| "flags_of (Repeat _ _ # xs) = 1 + 2 * flags_of xs"

fun groups_bytes :: "nat \<Rightarrow> vba_item list list \<Rightarrow> bytes" where
  "groups_bytes position [] = []"
| "groups_bytes position (g # gs) =
     word_of_nat (flags_of g) # items_bytes position g @ groups_bytes (position + items_length g) gs"

fun groups_ok :: "nat \<Rightarrow> vba_item list list \<Rightarrow> bool" where
  "groups_ok position [] \<longleftrightarrow> True"
| "groups_ok position (g # gs) \<longleftrightarrow>
     items_ok position g \<and> length g \<le> 8 \<and> (gs \<noteq> [] \<longrightarrow> length g = 8) \<and> groups_ok (position + items_length g) gs"

definition piece_body :: "vba_piece \<Rightarrow> bytes" where
  "piece_body p = (case p of Stored bs \<Rightarrow> bs | Packed gs \<Rightarrow> groups_bytes 0 gs)"

definition piece_ok :: "vba_piece \<Rightarrow> bool" where
  "piece_ok p \<longleftrightarrow> 1 \<le> length (piece_body p) \<and> length (piece_body p) \<le> 4096
     \<and> (case p of Stored _ \<Rightarrow> True | Packed gs \<Rightarrow> groups_ok 0 gs \<and> items_length (concat gs) \<le> 4096)"

definition piece_bytes :: "vba_piece \<Rightarrow> bytes" where
  "piece_bytes p = le2 ((case p of Stored _ \<Rightarrow> 0x3000 | Packed _ \<Rightarrow> 0xB000) + (length (piece_body p) - 1)) @ piece_body p"

definition compress_vba :: "vba_piece list \<Rightarrow> bytes" where
  "compress_vba ps = 1 # concat (map piece_bytes ps)"

text \<open>What the pieces stand for; copies reach back within their own chunk.\<close>

definition piece_text :: "vba_piece \<Rightarrow> bytes" where
  "piece_text p = (case p of Stored bs \<Rightarrow> bs | Packed gs \<Rightarrow> foldl expand_item [] (concat gs))"

text \<open>
  The copies whose token the code reads as it was written: any, except at a split position, where
  the code's length field is one bit short; there only a copy of the last byte whose length fits.
\<close>

fun legible :: "nat \<Rightarrow> vba_item \<Rightarrow> bool" where
  "legible position (Plain b) \<longleftrightarrow> True"
| "legible position (Repeat offset len) \<longleftrightarrow>
     position \<notin> set SPLIT_POSITIONS \<or> offset = 1 \<and> len - 3 < 2 ^ token_bits position"

fun items_legible :: "nat \<Rightarrow> vba_item list \<Rightarrow> bool" where
  "items_legible position [] \<longleftrightarrow> True"
| "items_legible position (x # xs) \<longleftrightarrow> legible position x \<and> items_legible (position + item_length x) xs"

definition piece_legible :: "vba_piece \<Rightarrow> bool" where
  "piece_legible p \<longleftrightarrow> (case p of Stored _ \<Rightarrow> True | Packed gs \<Rightarrow> items_legible 0 (concat gs))"

subsection \<open>Decompression inverts it\<close>

lemma le2_at:
  assumes "drop i data = le2 v @ rest" and "v < 65536"
  shows "le_at 2 data i = v" and "i + 2 \<le> length data"
proof -
  have "length (le2 v @ rest) = length data - i" using arg_cong [OF assms(1), of length] by simp
  then show "i + 2 \<le> length data" by (simp add: le2_def)
  have "pyslice data i (i + 2) = le2 v" using assms(1) by (simp add: pyslice_def le2_def)
  moreover have "v mod 256 + 256 * (v div 256 mod 256) = v" using assms(2) by (simp add: mod_less)
  ultimately show "le_at 2 data i = v" by (simp add: le_at_def le2_def unat_of_nat take_bit_eq_mod unsigned_of_nat)
qed

lemma flags_bits: "bit (flags_of xs) k \<longleftrightarrow> k < length xs \<and> (case xs ! k of Plain _ \<Rightarrow> False | Repeat _ _ \<Rightarrow> True)"
proof (induction xs arbitrary: k rule: flags_of.induct)
  case (2 b xs)
  then show ?case by (cases k) (auto simp: bit_0 bit_Suc)
next
  case (3 offset len xs)
  then show ?case by (cases k) (auto simp: bit_0 bit_Suc)
qed simp

lemma flags_small: "flags_of xs < 2 ^ length xs"
  by (induction xs rule: flags_of.induct) auto

lemma expand_length: "length (expand_item out x) = length out + item_length x"
  by (cases x) (simp_all add: item_length_def)

lemma expand_all_length: "length (foldl expand_item out xs) = length out + items_length xs"
  by (induction xs arbitrary: out) (simp_all add: expand_length items_length_def)

lemma copied_append: "1 \<le> offset \<Longrightarrow> offset \<le> length out \<Longrightarrow> copied n offset (base @ out) = base @ copied n offset out"
  by (auto simp: copied_def nth_append)

lemma expand_append:
  "item_ok (length out) x \<Longrightarrow> expand_item (base @ out) x = base @ expand_item out x"
  by (cases x) (simp_all add: copied_append)

lemma expand_all_append:
  "items_ok (length out) xs \<Longrightarrow> foldl expand_item (base @ out) xs = base @ foldl expand_item out xs"
  by (induction xs arbitrary: out) (simp_all add: expand_append expand_length)

text \<open>One token.\<close>

lemma ovba_token_bound:
  assumes "item_ok position (Repeat offset len)" and "position \<le> 4096"
  shows "ovba_token position offset len < 65536"
proof -
  let ?b = "ovba_length_bits position"
  have ok: "1 \<le> offset" "offset \<le> position" "len - 3 < 2 ^ ?b" "1 \<le> position" using assms(1) by auto
  have "bit_length (position - 1) \<le> ovba_offset_bits position" by (simp add: ovba_offset_bits_def)
  then have off: "offset - 1 < 2 ^ ovba_offset_bits position" using ok by (simp add: bit_length_exact)
  have "ovba_offset_bits position + ?b = 16"
    using ovba_bits_agree(3) [OF ok(4) assms(2)] by (simp add: ovba_length_bits_def)
  then have total: "(2 :: nat) ^ ovba_offset_bits position * 2 ^ ?b = 65536" by (simp flip: power_add)
  have "ovba_token position offset len < (offset - 1) * 2 ^ ?b + 2 ^ ?b" using ok(3) by (simp add: ovba_token_def)
  also have "\<dots> = Suc (offset - 1) * 2 ^ ?b" by simp
  also have "\<dots> \<le> 2 ^ ovba_offset_bits position * 2 ^ ?b" using off by (intro mult_le_mono1) simp
  finally show ?thesis unfolding total .
qed

text \<open>The code reads a token of the format as it was written exactly when it is legible.\<close>

lemma token_decode_iff:
  assumes "item_ok position (Repeat offset len)" and "position \<le> 4096"
  shows "vba_token position (ovba_token position offset len) = Inr (len, offset) \<longleftrightarrow> legible position (Repeat offset len)"
proof -
  let ?b = "token_bits position" and ?t = "ovba_token position offset len"
  define d where "d = len - 3"
  have ok: "1 \<le> offset" "3 \<le> len" "d < 2 ^ ovba_length_bits position" "1 \<le> position" using assms(1) by (auto simp: d_def)
  have read: "vba_token position ?t = Inr (?t mod 2 ^ ?b + 3, ?t div 2 ^ ?b + 1)"
    using vba_token_ok(1) [of position ?t] assms(2) by (simp add: take_bit_eq_mod drop_bit_eq_div)
  show ?thesis
  proof (cases "position \<in> set SPLIT_POSITIONS")
    case False
    with ovba_bits_agree(1) [OF ok(4) assms(2)] have b: "?b = ovba_length_bits position" by simp
    have "?t mod 2 ^ ?b = d" "?t div 2 ^ ?b = offset - 1"
      using ok(3) by (simp_all add: ovba_token_def b d_def [symmetric])
    with read ok False show ?thesis by (auto simp: d_def)
  next
    case True
    with ovba_bits_agree(2) [OF ok(4) assms(2)] have b: "ovba_length_bits position = Suc ?b" by simp
    have t: "?t = (2 * (offset - 1)) * 2 ^ ?b + d" by (simp add: ovba_token_def b d_def)
    have "?t mod 2 ^ ?b = d mod 2 ^ ?b" "?t div 2 ^ ?b = 2 * (offset - 1) + d div 2 ^ ?b"
      unfolding t by simp_all
    with read have "vba_token position ?t = Inr (len, offset) \<longleftrightarrow> d mod 2 ^ ?b = d \<and> 2 * (offset - 1) + d div 2 ^ ?b + 1 = offset"
      using ok(2) by (auto simp: d_def)
    also have "\<dots> \<longleftrightarrow> offset = 1 \<and> d < 2 ^ ?b"
    proof
      assume r: "d mod 2 ^ ?b = d \<and> 2 * (offset - 1) + d div 2 ^ ?b + 1 = offset"
      have "d mod 2 ^ ?b < 2 ^ ?b" by (rule mod_less_divisor) simp
      with r have "d < 2 ^ ?b" by (simp only: conjunct1 [OF r])
      with r ok(1) show "offset = 1 \<and> d < 2 ^ ?b" by simp
    qed simp
    finally show ?thesis using True by (simp add: d_def)
  qed
qed

text \<open>A group of items.\<close>

lemma vba_flags_items:
  assumes "items_ok (length out - cs) xs" and "cs \<le> length out" and "items_legible (length out - cs) xs"
    and "drop cursor data = items_bytes (length out - cs) xs @ rest"
    and "cursor + length (items_bytes (length out - cs) xs) \<le> ce" and "ce \<le> length data"
    and "\<forall>i < length xs. bit flags (k0 + i) = (case xs ! i of Plain _ \<Rightarrow> False | Repeat _ _ \<Rightarrow> True)"
    and "length xs + k0 \<le> 8" and "length xs + k0 = 8 \<or> cursor + length (items_bytes (length out - cs) xs) = ce"
    and "int (length out + items_length xs) \<le> maximum" and "length out - cs + items_length xs \<le> 4096"
  shows "vba_flags data maximum cs ce flags [k0..<8] (cursor, out) =
     Inr (cursor + length (items_bytes (length out - cs) xs), foldl expand_item out xs)"
  using assms
proof (induction xs arbitrary: k0 cursor out)
  case Nil
  then show ?case by (cases "k0 = 8") (auto simp: upt_rec)
next
  case (Cons x xs)
  let ?p = "length out - cs"
  have k0: "[k0..<8] = k0 # [Suc k0..<8]" using Cons.prems(8) by (simp add: upt_rec)
  have flag: "bit flags k0 = (case x of Plain _ \<Rightarrow> False | Repeat _ _ \<Rightarrow> True)"
    using Cons.prems(7) by (auto dest: spec [of _ 0])
  have flags: "\<forall>i < length xs. bit flags (Suc k0 + i) = (case xs ! i of Plain _ \<Rightarrow> False | Repeat _ _ \<Rightarrow> True)"
  proof (intro allI impI)
    fix i assume "i < length xs"
    with Cons.prems(7) [rule_format, of "Suc i"]
    show "bit flags (Suc k0 + i) = (case xs ! i of Plain _ \<Rightarrow> False | Repeat _ _ \<Rightarrow> True)" by simp
  qed
  have p: "?p \<le> 4096" using Cons.prems(11) by simp
  have next_p: "length (expand_item out x) - cs = ?p + item_length x" using Cons.prems(2) by (simp add: expand_length)
  let ?c = "cursor + length (item_bytes ?p x)"
  have rest: "drop ?c data = items_bytes (length (expand_item out x) - cs) xs @ rest"
  proof -
    have "drop ?c data = drop (length (item_bytes ?p x)) (drop cursor data)" by (simp add: add.commute)
    then show ?thesis unfolding Cons.prems(4) next_p by simp
  qed
  have IH: "vba_flags data maximum cs ce flags [Suc k0..<8] (?c, expand_item out x) =
      Inr (?c + length (items_bytes (?p + item_length x) xs), foldl expand_item (expand_item out x) xs)"
    unfolding next_p [symmetric]
    by (rule Cons.IH [OF _ _ _ rest _ Cons.prems(6) flags])
      (use Cons.prems next_p in \<open>auto simp: expand_length items_length_def\<close>)
  show ?case
  proof (cases x)
    case (Plain b)
    have "data ! cursor = b" "cursor < length data" using Cons.prems(4) Plain
      by (auto simp: nth_via_drop) (metis drop_all leI list.distinct(1))
    with Plain flag IH Cons.prems k0 show ?thesis
      by (simp add: raising_def items_length_def item_length_def)
  next
    case (Repeat offset len)
    let ?v = "ovba_token ?p offset len"
    have ok: "item_ok ?p (Repeat offset len)" using Cons.prems(1) Repeat by simp
    have tok: "vba_token ?p ?v = Inr (len, offset)"
      using token_decode_iff [OF ok p] Cons.prems(3) Repeat by simp
    have "drop cursor data = le2 ?v @ items_bytes (?p + item_length x) xs @ rest"
      using Cons.prems(4) Repeat by simp
    note at = le2_at [OF this ovba_token_bound [OF ok p]]
    have copy: "copy_back len offset maximum out = Inr (copied len offset out)"
      using copy_back_exact [of offset out len maximum] ok Cons.prems(10) Repeat
      by (auto simp: items_length_def item_length_def)
    show ?thesis using Repeat flag IH Cons.prems(5) k0 at tok copy ok
      by (simp add: raising_def Let_def le2_def)
  qed
qed


text \<open>The groups of a chunk.\<close>

lemma items_length_append: "items_length (xs @ ys) = items_length xs + items_length ys"
  by (simp add: items_length_def)

lemma items_legible_append:
  "items_legible position (xs @ ys) \<longleftrightarrow> items_legible position xs \<and> items_legible (position + items_length xs) ys"
  by (induction xs arbitrary: position) (simp_all add: items_length_def add.assoc)

lemma vba_chunk_groups:
  assumes "groups_ok (length out - cs) gs" and "cs \<le> length out" and "items_legible (length out - cs) (concat gs)"
    and "drop cursor data = groups_bytes (length out - cs) gs @ rest"
    and "ce = cursor + length (groups_bytes (length out - cs) gs)" and "ce \<le> length data"
    and "int (length out + items_length (concat gs)) \<le> maximum" and "length out - cs + items_length (concat gs) \<le> 4096"
  shows "vba_chunk data maximum cs ce (cursor, out) = Inr (ce, foldl expand_item out (concat gs))"
  using assms
proof (induction gs arbitrary: cursor out)
  case Nil
  then show ?case by (subst vba_chunk.simps) simp
next
  case (Cons g gs)
  let ?p = "length out - cs"
  let ?n = "length (items_bytes ?p g)"
  let ?out = "foldl expand_item out g"
  have total: "items_length (concat (g # gs)) = items_length g + items_length (concat gs)" by (simp add: items_length_append)
  have next_p: "length ?out - cs = ?p + items_length g" using Cons.prems(2) by (simp add: expand_all_length)
  have bytes: "drop cursor data = word_of_nat (flags_of g) # items_bytes ?p g @ groups_bytes (?p + items_length g) gs @ rest"
    using Cons.prems(4) by simp
  have at: "cursor < length data" "data ! cursor = word_of_nat (flags_of g)"
    using bytes by (auto simp: nth_via_drop) (metis drop_all leI list.distinct(1))
  have "flags_of g < 256" using flags_small [of g] power_increasing [of "length g" 8 "2 :: nat"] Cons.prems(1) by simp
  then have flags: "unat (data ! cursor) = flags_of g" unfolding at(2) by (simp add: unsigned_of_nat take_bit_eq_mod)
  have after: "drop (Suc cursor) data = items_bytes ?p g @ groups_bytes (?p + items_length g) gs @ rest"
    using bytes by (metis drop_Suc list.sel(3) tl_drop)
  have ce: "ce = Suc cursor + ?n + length (groups_bytes (?p + items_length g) gs)" using Cons.prems(5) by simp
  have group: "vba_flags data maximum cs ce (flags_of g) [0..<8] (Suc cursor, out) = Inr (Suc cursor + ?n, ?out)"
  proof (rule vba_flags_items [OF _ Cons.prems(2) _ after _ Cons.prems(6)])
    show "\<forall>i < length g. bit (flags_of g) (0 + i) = (case g ! i of Plain _ \<Rightarrow> False | Repeat _ _ \<Rightarrow> True)"
      by (simp add: flags_bits)
    show "length g + 0 = 8 \<or> Suc cursor + length (items_bytes ?p g) = ce"
      using Cons.prems(1) ce by (cases "gs = []") auto
  qed (use Cons.prems ce total in \<open>auto simp: items_legible_append\<close>)
  have "drop (Suc cursor + ?n) data = drop ?n (drop (Suc cursor) data)" by (simp add: add.commute)
  then have rest: "drop (Suc cursor + ?n) data = groups_bytes (length ?out - cs) gs @ rest"
    unfolding after next_p by simp
  have IH: "vba_chunk data maximum cs ce (Suc cursor + ?n, ?out) = Inr (ce, foldl expand_item ?out (concat gs))"
    by (rule Cons.IH [OF _ _ _ rest _ Cons.prems(6)])
      (use Cons.prems ce next_p total in \<open>auto simp: expand_all_length items_legible_append\<close>)
  have "vba_chunk data maximum cs ce (cursor, out) =
      bindE (vba_flags data maximum cs ce (unat (data ! cursor)) [0..<8] (Suc cursor, out)) (vba_chunk data maximum cs ce)"
    using at(1) ce by (subst vba_chunk.simps) (simp add: raising_def del: vba_flags.simps)
  then show ?case unfolding flags group using IH by simp
qed

text \<open>The header of a chunk.\<close>

lemma and_split: "(a AND b :: nat) = (a div 4096 AND b div 4096) * 4096 + (a mod 4096 AND b mod 4096)"
proof -
  have p: "(2 :: nat) ^ 12 = 4096" by simp
  have "a AND b = push_bit 12 (drop_bit 12 (a AND b)) + take_bit 12 (a AND b)" by (rule bits_ident [symmetric])
  also have "\<dots> = (a div 4096 AND b div 4096) * 4096 + (a mod 4096 AND b mod 4096)"
    unfolding drop_bit_and take_bit_and by (simp only: push_bit_eq_mult drop_bit_eq_div take_bit_eq_mod p)
  finally show ?thesis .
qed

lemma header_fields:
  assumes "m < 4096"
  shows "(0x3000 + m) AND 0x0FFF = (m :: nat)" "(0x3000 + m) AND 0x7000 = 0x3000" "(0x3000 + m) AND 0x8000 = 0"
    and "(0xB000 + m) AND 0x0FFF = (m :: nat)" "(0xB000 + m) AND 0x7000 = 0x3000" "(0xB000 + m) AND 0x8000 \<noteq> 0"
proof -
  have parts: "(0x3000 + m) div 4096 = 3" "(0x3000 + m) mod 4096 = m" "(0xB000 + m) div 4096 = 11" "(0xB000 + m) mod 4096 = m"
    using assms by (simp_all add: mod_if)
  have low: "m AND 0x0FFF = m"
    using assms take_bit_eq_mask [of 12 m] by (simp add: take_bit_nat_eq_self mask_eq_exp_minus_1)
  show "(0x3000 + m) AND 0x0FFF = m" "(0x3000 + m) AND 0x7000 = 0x3000" "(0x3000 + m) AND 0x8000 = 0"
    "(0xB000 + m) AND 0x0FFF = m" "(0xB000 + m) AND 0x7000 = 0x3000" "(0xB000 + m) AND 0x8000 \<noteq> 0"
    by (subst and_split, simp add: parts low)+
qed

lemma piece_text_Packed: "groups_ok 0 gs \<Longrightarrow> piece_text (Packed gs) = foldl expand_item [] (concat gs)"
  by (simp add: piece_text_def)

lemma groups_items_ok: "groups_ok position gs \<Longrightarrow> items_ok position (concat gs)"
proof (induction gs arbitrary: position)
  case (Cons g gs)
  have "items_ok position xs \<Longrightarrow> items_ok (position + items_length xs) ys \<Longrightarrow> items_ok position (xs @ ys)" for xs ys position
    by (induction xs arbitrary: position) (simp_all add: items_length_def add.assoc)
  with Cons show ?case by simp
qed simp

lemma vba_chunks_pieces:
  assumes "list_all piece_ok ps" and "list_all piece_legible ps" and "drop cursor data = concat (map piece_bytes ps)"
    and "int (length (out @ concat (map piece_text ps))) \<le> maximum"
  shows "vba_chunks data maximum (cursor, out) = Inr (out @ concat (map piece_text ps))"
  using assms
proof (induction ps arbitrary: cursor out)
  case Nil
  then show ?case by (subst vba_chunks.simps) simp
next
  case (Cons p ps)
  let ?body = "piece_body p"
  let ?m = "length ?body - 1"
  let ?v = "(case p of Stored _ \<Rightarrow> 0x3000 | Packed _ \<Rightarrow> 0xB000) + ?m"
  let ?rest = "concat (map piece_bytes ps)"
  have body: "1 \<le> length ?body" "length ?body \<le> 4096" using Cons.prems(1) by (auto simp: piece_ok_def)
  then have m: "?m < 4096" by simp
  have head: "drop cursor data = le2 ?v @ ?body @ ?rest" using Cons.prems(3) by (simp add: piece_bytes_def [of p])
  have "?v < 65536" using m by (cases p) auto
  note at = le2_at [OF head this]
  let ?ce = "cursor + 2 + length ?body"
  have fields: "?v AND 0x7000 = 0x3000" "cursor + (?v AND 0x0FFF) + 3 = ?ce"
    "(?v AND 0x8000 = 0) = (case p of Stored _ \<Rightarrow> True | Packed _ \<Rightarrow> False)"
    using header_fields [OF m] body by (cases p; simp)+
  have after: "drop (cursor + 2) data = ?body @ ?rest"
  proof -
    have "drop (cursor + 2) data = drop 2 (drop cursor data)" by (simp add: add.commute)
    then show ?thesis unfolding head by (simp add: le2_def)
  qed
  have len: "?ce \<le> length data" using arg_cong [OF after, of length] body by simp
  have room: "int (length out + length (piece_text p)) \<le> maximum" using Cons.prems(4) by simp
  have chunk: "(if ?v AND 0x8000 = 0 then Inr (?ce, out @ pyslice data (cursor + 2) ?ce)
      else vba_chunk data maximum (length out) ?ce (cursor + 2, out)) = Inr (?ce, out @ piece_text p)"
  proof (cases p)
    case (Stored bs)
    have "pyslice data (cursor + 2) ?ce = ?body" unfolding pyslice_def after by simp
    with Stored fields(3) show ?thesis by (simp add: piece_body_def piece_text_def)
  next
    case (Packed gs)
    have ok: "groups_ok 0 gs" "items_length (concat gs) \<le> 4096" "items_legible 0 (concat gs)"
      using Cons.prems(1,2) Packed by (auto simp: piece_ok_def piece_legible_def)
    have plain: "length (piece_text p) = items_length (concat gs)" using Packed by (simp add: piece_text_def expand_all_length)
    have "vba_chunk data maximum (length out) ?ce (cursor + 2, out) = Inr (?ce, foldl expand_item out (concat gs))"
      by (rule vba_chunk_groups [OF _ _ _ _ _ len]) (use ok after Packed room plain in \<open>auto simp: piece_body_def\<close>)
    moreover have "foldl expand_item out (concat gs) = out @ piece_text p"
      using expand_all_append [of "[]" "concat gs" out] groups_items_ok [OF ok(1)] Packed by (simp add: piece_text_def)
    ultimately show ?thesis using Packed fields(3) by simp
  qed
  have "drop ?ce data = drop (length ?body) (drop (cursor + 2) data)" by (simp add: add.commute)
  then have rest: "drop ?ce data = ?rest" unfolding after by simp
  have IH: "vba_chunks data maximum (?ce, out @ piece_text p) = Inr ((out @ piece_text p) @ concat (map piece_text ps))"
    by (rule Cons.IH [OF _ _ rest]) (use Cons.prems in auto)
  have "vba_chunks data maximum (cursor, out) =
      bindE (if ?v AND 0x8000 = 0 then Inr (?ce, out @ pyslice data (cursor + 2) ?ce)
        else vba_chunk data maximum (length out) ?ce (cursor + 2, out))
       (\<lambda>st'. if int (length (snd st')) > maximum then Inl None else vba_chunks data maximum st')"
    using at len body by (subst vba_chunks.simps) (simp only: fst_conv snd_conv Let_def at fields, simp)
  then show ?case unfolding chunk using IH room by simp
qed

lemma decompress_compress:
  assumes "list_all piece_ok ps" and "list_all piece_legible ps" and "int (length (concat (map piece_text ps))) \<le> maximum"
  shows "decompress_vba (compress_vba ps) maximum = Inr (Some (concat (map piece_text ps)))"
  using vba_chunks_pieces [of ps 1 "compress_vba ps" "[]" maximum] assms
  by (simp add: decompress_vba_def compress_vba_def)

subsection \<open>Allocation chains\<close>

fun chain_links :: "nat list \<Rightarrow> nat \<Rightarrow> nat list \<Rightarrow> bool" where
  "chain_links table current [] \<longleftrightarrow> NO_SECTOR \<le> current"
| "chain_links table current (s # ss) \<longleftrightarrow> s = current \<and> current < NO_SECTOR \<and> current < length table \<and> chain_links table (table ! current) ss"

lemma cfb_chain_from:
  "cfb_chain table maximum acc current = Inr sids \<longleftrightarrow>
     (\<exists>ss. sids = acc @ ss \<and> chain_links table current ss \<and> (distinct acc \<longrightarrow> distinct sids)
        \<and> set acc \<inter> set ss = {} \<and> distinct ss \<and> (ss = [] \<or> int (length sids) \<le> maximum))"
proof (induction table maximum acc current rule: cfb_chain.induct)
  case (1 table maximum acc current)
  show ?case
  proof (cases "current < NO_SECTOR")
    case False
    then have "chain_links table current ss \<longleftrightarrow> ss = []" for ss by (cases ss) auto
    with False show ?thesis by (subst cfb_chain.simps) auto
  next
    case below: True
    show ?thesis
    proof (cases "current \<in> set acc \<or> current \<ge> length table \<or> int (length acc) \<ge> maximum")
      case True
      have "\<not> (\<exists>ss. sids = acc @ ss \<and> chain_links table current ss \<and> (distinct acc \<longrightarrow> distinct sids)
          \<and> set acc \<inter> set ss = {} \<and> distinct ss \<and> (ss = [] \<or> int (length sids) \<le> maximum))"
      proof
        assume "\<exists>ss. sids = acc @ ss \<and> chain_links table current ss \<and> (distinct acc \<longrightarrow> distinct sids)
          \<and> set acc \<inter> set ss = {} \<and> distinct ss \<and> (ss = [] \<or> int (length sids) \<le> maximum)"
        then obtain ss where "sids = acc @ ss" "chain_links table current ss" "set acc \<inter> set ss = {}" "ss = [] \<or> int (length sids) \<le> maximum"
          by blast
        with below True show False by (cases ss) auto
      qed
      with True below show ?thesis by (subst cfb_chain.simps) simp
    next
      case False
      have "cfb_chain table maximum acc current = Inr sids \<longleftrightarrow> cfb_chain table maximum (acc @ [current]) (table ! current) = Inr sids"
        using below False by (subst cfb_chain.simps) simp
      also have "\<dots> \<longleftrightarrow>
          (\<exists>ss. sids = (acc @ [current]) @ ss \<and> chain_links table (table ! current) ss \<and> (distinct (acc @ [current]) \<longrightarrow> distinct sids)
            \<and> set (acc @ [current]) \<inter> set ss = {} \<and> distinct ss \<and> (ss = [] \<or> int (length sids) \<le> maximum))"
        using "1.IH" [OF below False] .
      also have "\<dots> \<longleftrightarrow> (\<exists>ss. sids = acc @ current # ss \<and> chain_links table current (current # ss) \<and> (distinct acc \<longrightarrow> distinct sids)
            \<and> set acc \<inter> set (current # ss) = {} \<and> distinct (current # ss) \<and> int (length sids) \<le> maximum)"
        using below False by (intro ex_cong1) auto
      also have "\<dots> \<longleftrightarrow> (\<exists>ss. sids = acc @ ss \<and> chain_links table current ss \<and> (distinct acc \<longrightarrow> distinct sids)
            \<and> set acc \<inter> set ss = {} \<and> distinct ss \<and> (ss = [] \<or> int (length sids) \<le> maximum))" (is "?l \<longleftrightarrow> ?r")
      proof
        assume ?r
        then obtain ss where ss: "sids = acc @ ss" "chain_links table current ss" "distinct acc \<longrightarrow> distinct sids"
          "set acc \<inter> set ss = {}" "distinct ss" "ss = [] \<or> int (length sids) \<le> maximum" by blast
        with below obtain rest where "ss = current # rest" by (cases ss) auto
        with ss show ?l by auto
      qed blast
      finally show ?thesis .
    qed
  qed
qed

lemma cfb_chain_exact:
  "cfb_chain table maximum [] start = Inr sids \<longleftrightarrow>
     chain_links table start sids \<and> distinct sids \<and> (sids = [] \<or> int (length sids) \<le> maximum)"
  by (simp add: cfb_chain_from)

lemma document_raised_error [simp]: "document_raised (DocumentError m)"
  by (simp add: document_raised_def)

lemma cfb_chain_raises: "raises_only document_raised (cfb_chain table maximum acc current)"
proof (induction table maximum acc current rule: cfb_chain.induct)
  case (1 table maximum acc current)
  then show ?case by (subst cfb_chain.simps) auto
qed

subsection \<open>The directory tree\<close>

lemma set_path_ids [simp]: "map cf_id (set_path n p es) = map cf_id es"
  by (auto simp: set_path_def)

lemma find_id: "List.find (\<lambda>e. cf_id e = n) es = Some e \<Longrightarrow> cf_id e = n \<and> n \<in> set (map cf_id es)"
  by (auto simp: find_Some_iff)

definition unseen :: "nat list \<Rightarrow> cfb_entry list \<Rightarrow> nat" where
  "unseen seen es = card (set (map cf_id es) - set seen)"

text \<open>Every entry is entered once, so one frame more than there are entries not yet seen is enough.\<close>

lemma assign_tree_total:
  "unseen (fst st) (snd st) < frames \<Longrightarrow>
     \<exists>st'. assign_tree frames n parent st = Inr st' \<and> set (fst st) \<subseteq> set (fst st') \<and> map cf_id (snd st') = map cf_id (snd st)"
proof (induction frames arbitrary: n parent st)
  case (Suc frames)
  obtain seen es where st: "st = (seen, es)" by (cases st)
  show ?case
  proof (cases "n \<ge> NO_SECTOR \<or> n \<in> set seen")
    case True
    then show ?thesis by (simp add: st)
  next
    case enter: False
    show ?thesis
    proof (cases "List.find (\<lambda>e. cf_id e = n) es")
      case None
      with enter show ?thesis by (simp add: st)
    next
      case (Some e)
      have less: "unseen seen' es' < frames" if "set (n # seen) \<subseteq> set seen'" "map cf_id es' = map cf_id es" for seen' es'
      proof -
        have "set (map cf_id es') - set seen' \<subset> set (map cf_id es) - set seen"
          using that enter find_id [OF Some] unfolding that(2) by auto
        then have "unseen seen' es' < unseen seen es" unfolding unseen_def by (intro psubset_card_mono) auto
        with Suc.prems show ?thesis by (simp add: st)
      qed
      from Suc.IH [of "(n # seen, es)" "cf_left e" parent] less
      obtain s1 es1 where left: "assign_tree frames (cf_left e) parent (n # seen, es) = Inr (s1, es1)"
        "set (n # seen) \<subseteq> set s1" "map cf_id es1 = map cf_id es" by fastforce
      define p where "p = (if parent \<noteq> [] then parent @ asc ''/'' @ cf_name e else cf_name e)"
      have "\<exists>s2. (if cf_kind e = 1 then assign_tree frames (cf_child e) p (s1, set_path n p es1) else Inr (s1, set_path n p es1)) = Inr s2
          \<and> set s1 \<subseteq> set (fst s2) \<and> map cf_id (snd s2) = map cf_id es"
        using Suc.IH [of "(s1, set_path n p es1)" "cf_child e" p] less [of s1 "set_path n p es1"] left by auto
      then obtain s2 es2 where inner: "(if cf_kind e = 1 then assign_tree frames (cf_child e) p (s1, set_path n p es1)
            else Inr (s1, set_path n p es1)) = Inr (s2, es2)"
          "set s1 \<subseteq> set s2" "map cf_id es2 = map cf_id es" by auto
      from Suc.IH [of "(s2, es2)" "cf_right e" parent] less [of s2 es2] left inner
      obtain s3 es3 where right: "assign_tree frames (cf_right e) parent (s2, es2) = Inr (s3, es3)"
        "set s2 \<subseteq> set s3" "map cf_id es3 = map cf_id es2" by auto
      have "assign_tree (Suc frames) n parent st =
          bindE (assign_tree frames (cf_left e) parent (n # seen, es)) (\<lambda>(seen1, es1).
          bindE (if cf_kind e = 1 then assign_tree frames (cf_child e) p (seen1, set_path n p es1)
                 else Inr (seen1, set_path n p es1)) (assign_tree frames (cf_right e) parent))"
        using enter Some unfolding st p_def by (simp add: Let_def)
      then have "assign_tree (Suc frames) n parent st = Inr (s3, es3)"
        by (simp only: left(1) bindE_simps prod.case inner(1) right(1))
      moreover have "set seen \<subseteq> set s3" using left inner right by auto
      ultimately show ?thesis using inner(3) right(3) by (simp add: st)
    qed
  qed
qed simp

lemma assign_tree_raises: "raises_only (\<lambda>e. e = RecursionError) (assign_tree frames n parent st)"
proof (induction frames arbitrary: n parent st)
  case (Suc frames)
  obtain seen es where st: "st = (seen, es)" by (cases st)
  show ?case unfolding st assign_tree.simps Let_def
    by (auto split: option.split prod.split intro!: raises_only_bindE Suc.IH)
qed simp

lemma assign_paths_ok:
  "raises_only (\<lambda>e. e = RecursionError \<and> frames \<le> length entries) (assign_paths frames entries)"
proof (cases "List.find (\<lambda>e. cf_kind e = 5) entries")
  case (Some storage)
  let ?es = "set_path (cf_id storage) (cf_name storage) entries"
  show ?thesis
  proof (cases "frames \<le> length entries")
    case True
    with Some show ?thesis unfolding assign_paths_def
      by (auto intro!: raises_only_bindE raises_only_mono [OF assign_tree_raises] split: prod.split)
  next
    case False
    have "unseen [] ?es \<le> length entries"
      unfolding unseen_def by (metis Diff_empty card_length empty_set length_map set_path_ids)
    with False assign_tree_total [of "([], ?es)" frames "cf_child storage" "[]"] Some show ?thesis
      by (auto simp: assign_paths_def)
  qed
qed (simp add: assign_paths_def)

subsection \<open>What the compound-file parser raises and extracts\<close>

lemma cfb_entries_length:
  "cfb_entries maximum n directory entries = Inr es \<Longrightarrow> length entries = 0 \<or> int (length entries) \<le> maximum \<Longrightarrow>
     length es = 0 \<or> int (length es) \<le> maximum"
proof (induction maximum n directory entries rule: cfb_entries.induct)
  case (1 maximum n directory entries)
  show ?case
  proof (cases "length directory < 128")
    case True
    with 1 show ?thesis by (subst (asm) (3) cfb_entries.simps) simp
  next
    case False
    show ?thesis
      using 1 False by (subst (asm) (3) cfb_entries.simps) (auto simp: Let_def split: if_splits)
  qed
qed

lemma cfb_entries_raises: "raises_only document_raised (cfb_entries maximum n directory entries)"
proof (induction maximum n directory entries rule: cfb_entries.induct)
  case (1 maximum n directory entries)
  then show ?case by (subst cfb_entries.simps) (auto simp: Let_def)
qed

lemma raises_only_mapE: "(\<And>x. x \<in> set xs \<Longrightarrow> raises_only P (f x)) \<Longrightarrow> raises_only P (mapE f xs)"
  by (induction xs) (auto intro!: raises_only_bindE)

lemma cfb_sector_raises: "raises_only document_raised (cfb_sector h data sid)"
  by (simp add: cfb_sector_def)

lemma cfb_read_raises: "raises_only document_raised (cfb_read h data sids)"
  unfolding cfb_read_def by (intro raises_only_bindE raises_only_mapE cfb_sector_raises) simp

lemmas cfb_raises = cfb_chain_raises cfb_entries_raises cfb_sector_raises cfb_read_raises

lemma cfb_header_raises: "raises_only document_raised (cfb_header_of data)"
  by (auto simp: cfb_header_of_def Let_def)

text \<open>With more frames than the directory may have entries, the recursion never fails.\<close>

definition cfb_error :: "document_env \<Rightarrow> runtime_settings \<Rightarrow> py_exn \<Rightarrow> bool" where
  "cfb_error env limits e \<longleftrightarrow>
     document_raised e \<or> e = RecursionError \<and> int (de_frames env) \<le> max 0 (rt_max_document_components limits)"

lemma cfb_load_all_raises: "raises_only (cfb_error env limits) (cfb_load_all env limits h data)"
proof -
  have step: "raises_only (cfb_error env limits) m" if "raises_only document_raised m" for m :: "'a res"
    using that by (rule raises_only_mono) (simp add: cfb_error_def)
  have paths: "raises_only (cfb_error env limits) (assign_paths (de_frames env) entries)"
    if "cfb_entries (rt_max_document_components limits) 0 directory [] = Inr entries" for directory entries
    using assign_paths_ok [of "de_frames env" entries] cfb_entries_length [OF that]
    by (elim raises_only_mono) (auto simp: cfb_error_def)
  have load: "raises_only document_raised (cfb_load h data limits fat minifat ministream e)" for fat minifat ministream e
    unfolding cfb_load_def by (auto intro!: raises_only_bindE cfb_raises)
  have mini: "raises_only document_raised (cfb_minifat h data fat)"
    "raises_only document_raised (cfb_ministream h data fat maximum storage)" for fat maximum storage
    unfolding cfb_minifat_def cfb_ministream_def by (auto intro!: raises_only_bindE cfb_raises split: option.split)
  show ?thesis unfolding cfb_load_all_def Let_def cfb_fat_def
    apply (intro raises_only_bindE)
            apply (rule step, intro raises_only_mapE cfb_raises)
           apply simp
          apply (rule step, rule cfb_raises)+
       apply (erule paths)
      apply (rule step, rule mini)+
    apply (intro raises_only_mapE step load)
    done
qed

lemma vba_module_raises: "raises_only (\<lambda>_. False) (vba_module limits e)"
  using decompress_vba_total [where data = "cf_data e" and maximum = "rt_max_document_parser_bytes limits"]
  by (auto simp: vba_module_def Let_def split: sum.splits intro!: raises_only_bindE)

lemma parse_cfb_raises: "raises_only (cfb_error env limits) (parse_cfb env limits data)"
proof -
  have header: "raises_only (cfb_error env limits) (cfb_header_of data)"
    by (rule raises_only_mono [OF cfb_header_raises]) (simp add: cfb_error_def)
  have modules: "raises_only (cfb_error env limits) (mapE (vba_module limits) entries)" for entries
    by (rule raises_only_mapE, rule raises_only_mono [OF vba_module_raises]) simp
  show ?thesis unfolding parse_cfb_def Let_def
    by (intro raises_only_bindE header modules cfb_load_all_raises) simp
qed

lemma parse_cfb_children:
  assumes "parse_cfb env limits data = Inr p" and "child \<in> set (pd_children p)"
  shows "dc_data child \<noteq> [] \<and> int (length (dc_data child)) \<le> rt_max_single_child_bytes limits"
  using assms
  by (auto simp: parse_cfb_def Let_def map_filter_def cfb_child_of_def split: if_splits)


text \<open>Six letters as a literal and a copy that overlaps it, then a stored byte.\<close>

definition vba_sample :: "vba_piece list" where
  "vba_sample = [Packed [[Plain 65, Repeat 1 5]], Stored [66]]"

lemma vba_sample_token: "ovba_length_bits 1 = 12"
  by (simp add: ovba_length_bits_def ovba_offset_bits_def bit_length.simps)

lemma vba_sample_text: "concat (map piece_text vba_sample) = [65, 65, 65, 65, 65, 65, 66]"
  by (simp add: vba_sample_def piece_text_def copied_def upt_rec)

lemma vba_sample_ok: "list_all piece_ok vba_sample" "list_all piece_legible vba_sample"
  by (simp_all add: vba_sample_def piece_ok_def piece_body_def items_length_def item_length_def le2_def
      piece_legible_def SPLIT_POSITIONS_def vba_sample_token [simplified])


text \<open>
  C0: A copy token that MS-OVBA writes is read as it was written at every position of a chunk but the
  powers of two from 16: there the code takes one bit of the length for the offset, and only a copy of
  the last byte whose length fits the narrower field is read right.
\<close>

theorem vba_tokens_read:
  assumes "item_ok position (Repeat offset len)" and "position \<le> 4096"
  shows "vba_token position (ovba_token position offset len) = Inr (len, offset) \<longleftrightarrow>
    position \<notin> set SPLIT_POSITIONS \<or> offset = 1 \<and> len - 3 < 2 ^ token_bits position"
  using token_decode_iff [OF assms] by simp

lemma split_sample: "ovba_length_bits 16 = 12" "token_bits 16 = 11"
  by (simp_all add: ovba_length_bits_def ovba_offset_bits_def token_bits_def bit_length.simps)

lemma vba_tokens_read_witness:
  "item_ok 16 (Repeat 2 3) \<and> vba_token 16 (ovba_token 16 2 3) \<noteq> Inr (3, 2)"
  using vba_tokens_read [of 16 2 3] split_sample by (simp add: SPLIT_POSITIONS_def)

text \<open>A chunk that the format allows and the code decompresses to another text.\<close>

definition misread_sample :: "vba_piece list" where
  "misread_sample = [Packed [map Plain [65, 66, 67, 68, 69, 70, 71, 72], map Plain [73, 74, 75, 76, 77, 78, 79, 80], [Repeat 2 3]]]"

lemma misread_ok: "list_all piece_ok misread_sample"
  by (simp add: misread_sample_def piece_ok_def piece_body_def items_length_def item_length_def le2_def split_sample)

lemma misread_bytes:
  "compress_vba misread_sample = [1, 20, 0xB0, 0, 65, 66, 67, 68, 69, 70, 71, 72, 0, 73, 74, 75, 76, 77, 78, 79, 80, 1, 0, 16]"
  by (simp add: misread_sample_def compress_vba_def piece_bytes_def piece_body_def items_length_def item_length_def le2_def
      ovba_token_def ovba_length_bits_def ovba_offset_bits_def bit_length.simps)

lemma misread_text:
  "concat (map piece_text misread_sample) = [65, 66, 67, 68, 69, 70, 71, 72, 73, 74, 75, 76, 77, 78, 79, 80, 79, 80, 79]"
  by (simp add: misread_sample_def piece_text_def copied_def upt_rec)

lemma copy_three: "copy_back 3 offset maximum out = copy_back (Suc (Suc (Suc 0))) offset maximum out"
  by (simp only: numeral_3_eq_3)

lemma vba_misread:
   "decompress_vba (compress_vba misread_sample) 100 =
     Inr (Some [65, 66, 67, 68, 69, 70, 71, 72, 73, 74, 75, 76, 77, 78, 79, 80, 78, 79, 80])"
  unfolding misread_bytes
  by (simp add: decompress_vba_def vba_chunks.simps vba_chunk.simps upt_rec le_at_def pyslice_def unpack_le_def byte_at_def
    raising_def Let_def vba_token_def bit_length.simps bit_0 copy_three)

text \<open>
  C36: On any bytes the decompressor ends without an exception, and what it returns is within the limit:
  every malformed container is \<open>None\<close>.
\<close>

theorem vba_contained:
  "case decompress_vba data maximum of
     Inl _ \<Rightarrow> False
   | Inr None \<Rightarrow> True
   | Inr (Some out) \<Rightarrow> out = [] \<or> int (length out) \<le> maximum"
  by (rule decompress_vba_total)

text \<open>
  An allocation chain is followed exactly: the list of sectors is the chain of the table from the
  start to a special value, without a repetition, inside the table and within the limit.
\<close>

lemma cfb_chain_followed:
  "cfb_chain table maximum [] start = Inr sids \<longleftrightarrow>
     chain_links table start sids \<and> distinct sids \<and> (sids = [] \<or> int (length sids) \<le> maximum)"
  by (rule cfb_chain_exact)


end
