(* ===== verification/Packages.thy ===== *)
theory Packages
  imports Compound_Files
begin

section \<open>XML, packages and the document analyzer: \<open>analyzers/document.py\<close>\<close>

text \<open>
  The XML parts and the ZIP packages of documents (OOXML and ODF), the dispatch by signature, and the
  analyzer that runs the parsers; then what they admit, extract, report and raise.
\<close>

subsection \<open>XML parts: \<open>_safe_xml\<close>\<close>

function xml_nodes :: "xml_tree \<Rightarrow> nat" where
  "xml_nodes (Element attrib children) = Suc (sum_list (map xml_nodes children))"
  by pat_completeness auto
termination by lexicographic_order

text \<open>The walk over the tree; the list is the stack with its top first, so the last child comes next.\<close>

function xml_walk :: "runtime_settings \<Rightarrow> int \<Rightarrow> (xml_tree \<times> int) list \<Rightarrow> unit res" where
  "xml_walk limits n [] = Inr ()"
| "xml_walk limits n ((node, depth) # stack) =
     (if depth > rt_max_document_xml_depth limits then Inl (DocumentError ''XML nesting limit exceeded'')
      else if n + 1 > rt_max_document_components limits then Inl (DocumentError ''XML element count limit exceeded'')
      else if int (length (xml_attrib node)) > rt_metadata_max_fields limits
      then Inl (DocumentError ''XML attribute count limit exceeded'')
      else xml_walk limits (n + 1) (rev (map (\<lambda>c. (c, depth + 1)) (xml_children node)) @ stack))"
  by pat_completeness auto

lemma xml_nodes_children: "xml_nodes node = Suc (sum_list (map xml_nodes (xml_children node)))"
  by (cases node) simp

lemma sum_nodes_pairs: "sum_list (map (xml_nodes \<circ> fst \<circ> (\<lambda>c. (c, d))) cs) = sum_list (map xml_nodes cs)"
  by (induction cs) auto

lemma sum_list_map_rev: "sum_list (map f (rev xs)) = sum_list (map f xs)" for f :: "'a \<Rightarrow> nat"
  by (simp add: rev_map [symmetric])

termination xml_walk
  by (relation "measure (\<lambda>(limits, n, stack). sum_list (map (xml_nodes \<circ> fst) stack))")
    (simp_all add: sum_list_map_rev sum_nodes_pairs xml_nodes_children)

definition upper_holds :: "string \<Rightarrow> bytes \<Rightarrow> bool" where
  "upper_holds s data \<longleftrightarrow> substring (ascb s) (map upper_byte data)"

definition safe_xml :: "document_env \<Rightarrow> runtime_settings \<Rightarrow> bytes \<Rightarrow> xml_tree res" where
  "safe_xml env limits data =
     (if int (length data) > rt_max_document_parser_bytes limits then Inl (DocumentError ''XML part size limit exceeded'')
      else if upper_holds ''<!DOCTYPE'' data \<or> upper_holds ''<!ENTITY'' data
      then Inl (DocumentError ''XML DTD/entity declarations forbidden'')
      else case de_xml env data of
        Inl (ExternalError c message) \<Rightarrow>
          if c = ''ParseError'' then Inl (DocumentError (''malformed XML part: '' @ message)) else Inl (ExternalError c message)
      | Inl e \<Rightarrow> Inl e
      | Inr top_node \<Rightarrow> bindE (xml_walk limits 0 [(top_node, 1)]) (\<lambda>_. Inr top_node))"

text \<open>\<open>root.iter()\<close>: the nodes in document order.\<close>

function xml_iter :: "xml_tree \<Rightarrow> xml_tree list" where
  "xml_iter (Element attrib children) = Element attrib children # concat (map xml_iter children)"
  by pat_completeness auto
termination by lexicographic_order

subsection \<open>Package members: \<open>_read_part\<close>\<close>

text \<open>\<open>stream.read(n)\<close>: an exception of the stream comes only if it is reached before \<open>n\<close> bytes are.\<close>

definition read_at_most :: "nat \<Rightarrow> byte_source \<Rightarrow> bytes res" where
  "read_at_most n src =
     (case src of (chunks, failure) \<Rightarrow>
        if n \<le> length (concat chunks) then Inr (take n (concat chunks))
        else case failure of None \<Rightarrow> Inr (concat chunks) | Some e \<Rightarrow> Inl e)"

definition read_part :: "runtime_settings \<Rightarrow> zip_member \<Rightarrow> bytes res" where
  "read_part limits info =
     (if odd (zm_flag_bits info) then Inl (DocumentError ''encrypted ZIP package member'')
      else if int (zm_file_size info) > rt_max_document_parser_bytes limits
      then Inl (DocumentError ''document package member size limit exceeded'')
      else bindE (zm_open info) (\<lambda>src.
      bindE (read_at_most (nat (rt_max_document_parser_bytes limits + 1)) src) (\<lambda>data.
      if int (length data) > rt_max_document_parser_bytes limits
      then Inl (DocumentError ''document package member expanded size limit exceeded'') else Inr data)))"

text \<open>\<open>{info.filename: info for info in infos}\<close>: of members with one name the last one counts.\<close>

definition part_named :: "zip_member list \<Rightarrow> string \<Rightarrow> zip_member option" where
  "part_named infos name = map_of (rev (map (\<lambda>i. (zm_filename i, i)) infos)) (asc name)"

definition required_part :: "zip_member list \<Rightarrow> string \<Rightarrow> zip_member res" where
  "required_part infos name = (case part_named infos name of None \<Rightarrow> Inl (KeyError name) | Some i \<Rightarrow> Inr i)"

definition starts_with_any :: "string list \<Rightarrow> pystr \<Rightarrow> bool" where
  "starts_with_any ps name \<longleftrightarrow> list_ex (\<lambda>p. starts_with (asc p) name) ps"

definition part_child :: "runtime_settings \<Rightarrow> zip_member \<Rightarrow> document_child res" where
  "part_child limits info = bindE (read_part limits info) (\<lambda>data.
     Inr \<lparr>dc_name = zm_filename info, dc_data = data, dc_metadata = [(''package_part'', PStr (zm_filename info))]\<rparr>)"

definition part_children :: "runtime_settings \<Rightarrow> zip_member list \<Rightarrow> document_child list res" where
  "part_children limits infos =
     mapE (part_child limits) (filter (\<lambda>i. int (zm_file_size i) \<le> rt_max_single_child_bytes limits) infos)"

subsection \<open>OOXML: \<open>_parse_ooxml\<close>\<close>

definition is_vba_part :: "pystr \<Rightarrow> bool" where
  "is_vba_part name \<longleftrightarrow> ends_with (asc ''vbaProject.bin'') name"

definition ooxml_family :: "pystr \<Rightarrow> bool \<Rightarrow> string" where
  "ooxml_family content_types macro =
     (let has = (\<lambda>s. substring (asc s) content_types) in
      if has ''wordprocessingml'' then (if macro then ''OOXML_DOCM'' else ''OOXML_DOCX'')
      else if has ''spreadsheetml'' then (if macro then ''OOXML_XLSM'' else ''OOXML_XLSX'')
      else if has ''presentationml'' then (if macro then ''OOXML_PPTM'' else ''OOXML_PPTX'')
      else ''OOXML'')"

text \<open>A relationship: the attributes by local name, then the part they are in.\<close>

definition relationship_item :: "pystr \<Rightarrow> xml_tree \<Rightarrow> (pystr \<times> pystr) list" where
  "relationship_item part node =
     AList.update (asc ''part'') part
       (fold (\<lambda>(k, v). AList.update (rsplit_last [0x7D] k) (take MAX_STRING v)) (xml_attrib node) [])"

definition item_field :: "string \<Rightarrow> (pystr \<times> pystr) list \<Rightarrow> pystr" where
  "item_field k item = (case map_of item (asc k) of None \<Rightarrow> [] | Some v \<Rightarrow> v)"

definition is_external :: "(pystr \<times> pystr) list \<Rightarrow> bool" where
  "is_external item \<longleftrightarrow> lower_ascii (item_field ''TargetMode'' item) = asc ''external''"

type_synonym relationships = "(pystr \<times> pystr) list list"

definition add_relationship ::
  "runtime_settings \<Rightarrow> pystr \<Rightarrow> xml_tree \<Rightarrow> relationships \<times> relationships \<Rightarrow> (relationships \<times> relationships) res" where
  "add_relationship limits part node acc =
     (case acc of (known, external) \<Rightarrow>
        let item = relationship_item part node; known' = known @ [item] in
        if int (length known') > rt_metadata_max_fields limits then Inl (DocumentError ''OOXML relationship count limit exceeded'')
        else Inr (known', if is_external item then external @ [item] else external))"

definition part_relationships ::
  "document_env \<Rightarrow> runtime_settings \<Rightarrow> zip_member \<Rightarrow> relationships \<times> relationships \<Rightarrow> (relationships \<times> relationships) res" where
  "part_relationships env limits info acc =
     (if \<not> ends_with (asc ''.rels'') (zm_filename info) then Inr acc
      else bindE (read_part limits info) (\<lambda>data.
      bindE (safe_xml env limits data) (\<lambda>top_node.
      foldE (add_relationship limits (zm_filename info)) (xml_children top_node) acc)))"

definition item_value :: "(pystr \<times> pystr) list \<Rightarrow> pyval" where
  "item_value item = PMap (map (\<lambda>(k, v). (k, PStr v)) item)"

definition item_target :: "(pystr \<times> pystr) list \<Rightarrow> pyval" where
  "item_target item = (case map_of item (asc ''Target'') of None \<Rightarrow> PNone | Some v \<Rightarrow> PStr v)"

definition external_facts :: "(pystr \<times> pystr) list \<Rightarrow> (string \<times> pyval) list" where
  "external_facts item =
     (''document.external_relationship'', item_value item)
     # (if substring (asc ''attachedTemplate'') (item_field ''Type'' item) then [(''document.remote_template_reference'', item_target item)] else [])
     @ (if substring (asc ''hyperlink'') (item_field ''Type'' item) then [(''document.hyperlink_target'', item_target item)] else [])"

definition parse_ooxml :: "document_env \<Rightarrow> runtime_settings \<Rightarrow> zip_member list \<Rightarrow> parsed_document res" where
  "parse_ooxml env limits infos =
     bindE (required_part infos ''[Content_Types].xml'') (\<lambda>types_part.
     bindE (read_part limits types_part) (\<lambda>content.
     bindE (safe_xml env limits content) (\<lambda>top_node.
     bindE (foldE (part_relationships env limits) infos ([], [])) (\<lambda>(known, external).
     let content_types = join_with (asc '' '') (concat (map (\<lambda>node. map snd (xml_attrib node)) (xml_children top_node)));
         names = map zm_filename infos;
         some = (\<lambda>p. list_ex p names);
         macro = (substring (asc ''macroEnabled'') content_types \<or> some is_vba_part);
         activex = some (substring (asc ''activeX''));
         child_infos = filter (\<lambda>i. starts_with_any [''word/embeddings/'', ''xl/embeddings/'', ''ppt/embeddings/''] (zm_filename i)
             \<or> is_vba_part (zm_filename i)) infos
     in
     bindE (part_children limits child_infos) (\<lambda>children.
     Inr \<lparr>pd_format = ooxml_family content_types macro,
       pd_observations =
         [(''ooxml.family'', PAsc (ooxml_family content_types macro)), (''ooxml.content_types_present'', PBool True),
          (''ooxml.part_count'', PNat (length infos)), (''ooxml.relationship_count'', PNat (length known)),
          (''ooxml.external_relationships'', PList (map item_value external)),
          (''ooxml.core_properties_present'', PBool (part_named infos ''docProps/core.xml'' \<noteq> None)),
          (''ooxml.application_properties_present'', PBool (part_named infos ''docProps/app.xml'' \<noteq> None)),
          (''ooxml.custom_properties_present'', PBool (part_named infos ''docProps/custom.xml'' \<noteq> None)),
          (''document.macro_enabled'', PBool macro), (''document.vba_project_present'', PBool (some is_vba_part)),
          (''ooxml.embedded_object_count'', PNat (length child_infos)),
          (''ooxml.custom_xml_present'', PBool (some (starts_with (asc ''customXml/'')))),
          (''ooxml.signature_parts_present'', PBool (some (starts_with (asc ''_xmlsignatures/'')))),
          (''ooxml.activex_present'', PBool activex),
          (''ooxml.template_relationship_present'',
             PBool (list_ex (\<lambda>r. substring (asc ''attachedTemplate'') (item_field ''Type'' r)) external)),
          (''ooxml.dde_structure_present'', PBool (some (substring (asc ''externalLink''))))]
         @ concat (map external_facts external),
       pd_assessments =
         assess_if (macro \<or> activex) ''ACTIVE_CONTENT_PRESENT'' ''OOXML package contains macro or ActiveX structures''
           [''document.macro_enabled'', ''ooxml.activex_present'']
         @ assess_if macro ''MACRO_ENABLED_DOCUMENT''
             ''OOXML content types or VBA project identify a macro-enabled document'' [''document.macro_enabled'']
         @ assess_if (child_infos \<noteq> []) ''EMBEDDED_OBJECT_PRESENT''
             ''OOXML package contains meaningful embedded payload parts'' [''ooxml.embedded_object_count'']
         @ assess_if (external \<noteq> []) ''EXTERNAL_REFERENCE_PRESENT''
             ''OOXML relationships contain external targets; none were fetched'' [''ooxml.external_relationships''],
       pd_children = children, pd_errors = [], pd_partial = None\<rparr>)))))"

subsection \<open>ODF: \<open>_parse_odf\<close>\<close>

definition odf_format :: "pystr \<Rightarrow> string" where
  "odf_format mime =
     (if mime = asc ''application/vnd.oasis.opendocument.text'' then ''ODF_ODT''
      else if mime = asc ''application/vnd.oasis.opendocument.spreadsheet'' then ''ODF_ODS''
      else if mime = asc ''application/vnd.oasis.opendocument.presentation'' then ''ODF_ODP'' else ''ODF'')"

definition any_case_text :: "string \<Rightarrow> nat rx" where
  "any_case_text s = sequence (map (\<lambda>c. One (ci_match (of_char c))) s)"

definition link_scheme :: "nat rx" where
  "link_scheme = Seq (Alt (Seq (any_case_text ''http'') (Opt (any_case_text ''s''))) (any_case_text ''ftp'')) (literal (asc '':''))"

definition odf_links :: "xml_tree \<Rightarrow> pystr list" where
  "odf_links top_node =
     concat (map (\<lambda>node. map (\<lambda>(_, v). take MAX_STRING v)
        (filter (\<lambda>(k, v). ends_with (asc ''}href'') k \<and> rx_match link_scheme [] v \<noteq> None) (xml_attrib node))) (xml_iter top_node))"

definition part_links :: "document_env \<Rightarrow> runtime_settings \<Rightarrow> zip_member list \<Rightarrow> string \<Rightarrow> pystr list \<Rightarrow> pystr list res" where
  "part_links env limits infos name acc =
     (case part_named infos name of
        None \<Rightarrow> Inr acc
      | Some info \<Rightarrow> bindE (read_part limits info) (\<lambda>data. bindE (safe_xml env limits data) (\<lambda>top_node. Inr (acc @ odf_links top_node))))"

definition parse_odf :: "document_env \<Rightarrow> runtime_settings \<Rightarrow> zip_member list \<Rightarrow> parsed_document res" where
  "parse_odf env limits infos =
     bindE (required_part infos ''mimetype'') (\<lambda>mime_part.
     bindE (read_part limits mime_part) (\<lambda>mime_data.
     bindE (required_part infos ''META-INF/manifest.xml'') (\<lambda>manifest_part.
     bindE (read_part limits manifest_part) (\<lambda>manifest_data.
     bindE (safe_xml env limits manifest_data) (\<lambda>manifest.
     let mime = strip_space (ascii_replace mime_data);
         encrypted = list_ex (\<lambda>node. list_ex (\<lambda>(k, _). substring (asc ''encryption-data'') k \<or> substring (asc ''checksum'') k)
             (xml_attrib node)) (xml_iter manifest);
         names = map zm_filename infos;
         embedded = filter (\<lambda>i. starts_with_any [''Object '', ''ObjectReplacements/'', ''Embedded/''] (zm_filename i)
             \<and> \<not> ends_with (asc ''/'') (zm_filename i)) infos;
         scripts = list_ex (starts_with_any [''Scripts/'', ''Basic/'']) names
     in
     bindE (part_children limits embedded) (\<lambda>children.
     bindE (foldE (part_links env limits infos) [''content.xml'', ''styles.xml''] []) (\<lambda>external.
     Inr \<lparr>pd_format = odf_format mime,
       pd_observations =
         [(''odf.document_type'', PStr mime), (''odf.manifest_present'', PBool True),
          (''odf.metadata_present'', PBool (part_named infos ''meta.xml'' \<noteq> None)),
          (''odf.embedded_object_count'', PNat (length embedded)), (''odf.scripts_present'', PBool scripts),
          (''odf.external_links'', PList (map PStr external)),
          (''odf.signature_present'', PBool (list_ex (substring (asc ''documentsignatures.xml'')) names)),
          (''odf.encryption_metadata_present'', PBool encrypted)],
       pd_assessments =
         assess_if scripts ''ACTIVE_CONTENT_PRESENT'' ''ODF package contains script/macro structures'' [''odf.scripts_present'']
         @ assess_if (embedded \<noteq> []) ''EMBEDDED_OBJECT_PRESENT'' ''ODF package contains embedded object/file parts''
             [''odf.embedded_object_count'']
         @ assess_if (external \<noteq> []) ''EXTERNAL_REFERENCE_PRESENT''
             ''ODF XML contains external link values; none were fetched'' [''odf.external_links'']
         @ assess_if encrypted ''ENCRYPTED_DOCUMENT''
             ''ODF manifest contains encryption metadata; no password was attempted'' [''odf.encryption_metadata_present''],
       pd_children = children,
       pd_errors = (if encrypted then [asc ''ODF encryption metadata prevents complete content inspection''] else []),
       pd_partial = (if encrypted then Some ''partial_unsupported'' else None)\<rparr>)))))))"

subsection \<open>Dispatch: \<open>_parse_package\<close> and \<open>parse_document\<close>\<close>

definition parse_package :: "document_env \<Rightarrow> runtime_settings \<Rightarrow> bytes \<Rightarrow> parsed_document option res" where
  "parse_package env limits data =
     bindE (de_zip_members env data) (\<lambda>infos.
     if int (length infos) > rt_max_document_components limits
     then Inl (DocumentError ''document package component limit exceeded'')
     else if int (sum_list (map zm_file_size infos)) > rt_max_document_parser_bytes limits
     then Inl (DocumentError ''document package expanded-size limit exceeded'')
     else if asc ''[Content_Types].xml'' \<in> set (map zm_filename infos) then map_sum id Some (parse_ooxml env limits infos)
     else if asc ''mimetype'' \<in> set (map zm_filename infos) \<and> asc ''META-INF/manifest.xml'' \<in> set (map zm_filename infos)
     then map_sum id Some (parse_odf env limits infos)
     else Inr None)"

definition parse_document :: "document_env \<Rightarrow> runtime_settings \<Rightarrow> bytes \<Rightarrow> parsed_document option res" where
  "parse_document env limits data =
     (let start = take 16 data in
      if starts_with (ascb ''%PDF-'') start then map_sum id Some (parse_pdf env limits data)
      else if starts_with [0xD0, 0xCF, 0x11, 0xE0, 0xA1, 0xB1, 0x1A, 0xE1] start then map_sum id Some (parse_cfb env limits data)
      else if starts_with ([0x7B, 0x5C] @ ascb ''rtf'') (dropWhile byte_space start) then map_sum id Some (parse_rtf limits data)
      else if de_is_zipfile env data then parse_package env limits data
      else if starts_with (ascb ''PK'') start then Inl (DocumentError ''truncated or malformed ZIP-based document'')
      else Inr None)"

subsection \<open>\<open>DocumentAnalyzer\<close>\<close>

definition expected_extensions :: "string \<Rightarrow> string list" where
  "expected_extensions fmt =
     (case map_of
        [(''PDF'', [''pdf'']), (''OLE_DOC'', [''doc'', ''dot'']), (''OLE_XLS'', [''xls'', ''xlt'']),
         (''OLE_PPT'', [''ppt'', ''pot'', ''pps'']), (''OOXML_DOCX'', [''docx'']), (''OOXML_XLSX'', [''xlsx'']),
         (''OOXML_PPTX'', [''pptx'']), (''OOXML_DOCM'', [''docm'', ''dotm'']), (''OOXML_XLSM'', [''xlsm'', ''xltm'']),
         (''OOXML_PPTM'', [''pptm'', ''potm'', ''ppsm'']), (''RTF'', [''rtf'']), (''ODF_ODT'', [''odt'']),
         (''ODF_ODS'', [''ods'']), (''ODF_ODP'', [''odp''])] fmt of None \<Rightarrow> [] | Some es \<Rightarrow> es)"

text \<open>\<open>PurePosixPath(s).name\<close> and \<open>.suffix\<close>.\<close>

definition posix_name :: "pystr \<Rightarrow> pystr" where
  "posix_name s = (case filter (\<lambda>p. p \<noteq> [] \<and> p \<noteq> asc ''.'') (split_on 0x2F s) of [] \<Rightarrow> [] | ps \<Rightarrow> last ps)"

definition name_suffix :: "pystr \<Rightarrow> pystr" where
  "name_suffix name =
     (let ext = takeWhile (\<lambda>c. c \<noteq> 0x2E) (rev name); stem = drop (Suc (length ext)) (rev name) in
      if 0x2E \<in> set name \<and> stem \<noteq> [] \<and> ext \<noteq> [] then 0x2E # rev ext else [])"

definition analyzer_catches :: "py_exn \<Rightarrow> bool" where
  "analyzer_catches e \<longleftrightarrow> document_raised e \<or> e = OSError \<or> exn_class e = ''BadZipFile'' \<or> exn_class e = ''ParseError''"

definition exn_text :: "document_env \<Rightarrow> py_exn \<Rightarrow> pystr" where
  "exn_text env e = (case e of DocumentError message \<Rightarrow> asc message | _ \<Rightarrow> de_exn_text env e)"

definition examine_document :: "document_env \<Rightarrow> runtime_settings \<Rightarrow> bytes \<Rightarrow> (string \<times> pystr list \<times> parsed_document option) res" where
  "examine_document env limits data =
     (if int (length data) > rt_max_document_parser_bytes limits
      then Inr (''unsupported_limit'', [asc (''document parser byte limit exceeded: '' @ show_nat (length data) @ '' > ''
             @ show_nat (nat (rt_max_document_parser_bytes limits)))], None)
      else case parse_document env limits data of
        Inl e \<Rightarrow> if analyzer_catches e then Inr (''corrupt'', [exn_text env e], None) else Inl e
      | Inr None \<Rightarrow> Inr (''not_applicable'', [], None)
      | Inr (Some p) \<Rightarrow> Inr (case pd_partial p of None \<Rightarrow> ''complete'' | Some s \<Rightarrow> s, pd_errors p, Some p))"

definition document_observations :: "timestamp \<Rightarrow> parsed_document \<Rightarrow> observation list" where
  "document_observations started p =
     map (\<lambda>(kind, v). \<lparr>o_type = kind, o_value = v, o_analyzer_id = ''document'', o_evidence_refs = [],
            o_source = Some (asc ''avbox-bounded-document-parser''), o_observed_at = Some started, o_confidence = Some ''exact''\<rparr>)
       ((''document.format'', PAsc (pd_format p)) # pd_observations p)"

definition extension_mismatch :: "document_env \<Rightarrow> pystr \<Rightarrow> string \<Rightarrow> assessment list" where
  "extension_mismatch env filename fmt =
     (let extension = dropWhile (\<lambda>c. c = 0x2E) (de_lower env (name_suffix (posix_name filename)));
          expected = map asc (expected_extensions fmt) in
      if extension \<noteq> [] \<and> expected \<noteq> [] \<and> extension \<notin> set expected
      then [doc_assessment ''EXTENSION_DOCUMENT_TYPE_MISMATCH''
              (asc ''extension .'' @ extension @ asc '' does not match internally identified '' @ asc fmt) Conf_HIGH [''document.format'']]
      else [])"

definition document_analyze ::
  "document_env \<Rightarrow> runtime_settings \<Rightarrow> timestamp \<Rightarrow> timestamp \<Rightarrow> input_artifact \<Rightarrow> path \<Rightarrow> string \<Rightarrow> (fs, analyzer_result) py" where
  "document_analyze env limits started completed artifact source job_id =
     bindP (read_file source) (\<lambda>data.
     bindP (liftP (examine_document env limits data)) (\<lambda>(status, errors, parsed). ret
       \<lparr>ar_analyzer_id = ''document'', ar_analyzer_class = DOCUMENT_ANALYZER,
        ar_product = ''AVBox Bounded Document Structure'',
        ar_implementation = Some ''avbox.analyzers.document.DocumentAnalyzer'', ar_product_version = Some (asc ''1''),
        ar_engine_version = None, ar_definition_state = [], ar_qualification_state = Some QUALIFIED,
        ar_started_at = Some started, ar_completed_at = completed, ar_duration_seconds = Some (completed - started),
        ar_execution_profile = ''avbox-built-in-read-only-bounded-no-network-no-render-no-execution'',
        ar_native_status = status, ar_native_exit_code = None, ar_normalized_verdict = None,
        ar_observations = (case parsed of None \<Rightarrow> [] | Some p \<Rightarrow> document_observations started p),
        ar_findings = [],
        ar_assessments = (case parsed of None \<Rightarrow> []
          | Some p \<Rightarrow> pd_assessments p @ extension_mismatch env (a_filename artifact) (pd_format p)),
        ar_raw_output = None, ar_errors = errors, ar_structural_validation = None\<rparr>))"

definition document_probe :: probe_result where
  "document_probe = \<lparr>pb_available = True, pb_detail = asc ''built-in bounded non-rendering document parser'',
     pb_state = QUALIFIED, pb_version = Some (asc ''1''), pb_definition_state = []\<rparr>"

section \<open>Correctness\<close>

subsection \<open>What \<open>_safe_xml\<close> admits\<close>

function xml_height :: "xml_tree \<Rightarrow> nat" where
  "xml_height (Element attrib children) = Suc (fold max (map xml_height children) 0)"
  by pat_completeness auto
termination by lexicographic_order

lemma fold_max_le: "fold max xs a \<le> b \<longleftrightarrow> a \<le> b \<and> (\<forall>x \<in> set xs. x \<le> b)" for a b :: nat
  by (induction xs arbitrary: a) auto

text \<open>The tree fits below a node at depth \<open>d\<close>, node by node.\<close>

function tree_fits :: "runtime_settings \<Rightarrow> int \<Rightarrow> xml_tree \<Rightarrow> bool" where
  "tree_fits limits d (Element attrib children) \<longleftrightarrow>
     d \<le> rt_max_document_xml_depth limits \<and> int (length attrib) \<le> rt_metadata_max_fields limits
     \<and> list_all (tree_fits limits (d + 1)) children"
  by pat_completeness auto
termination by lexicographic_order

lemma tree_fits_node:
  "tree_fits limits d node \<longleftrightarrow> d \<le> rt_max_document_xml_depth limits \<and> int (length (xml_attrib node)) \<le> rt_metadata_max_fields limits
     \<and> (\<forall>c \<in> set (xml_children node). tree_fits limits (d + 1) c)"
  by (cases node) (simp add: list_all_iff)

lemma xml_walk_exact:
  "xml_walk limits n stack = Inr () \<longleftrightarrow>
     (\<forall>(node, d) \<in> set stack. tree_fits limits d node)
     \<and> (stack = [] \<or> n + int (sum_list (map (xml_nodes \<circ> fst) stack)) \<le> rt_max_document_components limits)"
proof (induction limits n stack rule: xml_walk.induct)
  case (2 limits n node depth stack)
  let ?rest = "rev (map (\<lambda>c. (c, depth + 1)) (xml_children node)) @ stack"
  have nodes: "xml_nodes node = Suc (sum_list (map xml_nodes (xml_children node)))" by (rule xml_nodes_children)
  have sums: "sum_list (map (xml_nodes \<circ> fst) ?rest) + 1 = sum_list (map (xml_nodes \<circ> fst) ((node, depth) # stack))"
    by (simp add: sum_list_map_rev sum_nodes_pairs nodes)
  show ?case
  proof (cases "depth > rt_max_document_xml_depth limits \<or> n + 1 > rt_max_document_components limits
      \<or> int (length (xml_attrib node)) > rt_metadata_max_fields limits")
    case True
    then show ?thesis using tree_fits_node [of limits depth node] nodes by auto
  next
    case False
    have "xml_walk limits n ((node, depth) # stack) = Inr () \<longleftrightarrow> xml_walk limits (n + 1) ?rest = Inr ()" using False by simp
    also have "\<dots> \<longleftrightarrow> (\<forall>(node, d) \<in> set ?rest. tree_fits limits d node)
        \<and> (?rest = [] \<or> n + 1 + int (sum_list (map (xml_nodes \<circ> fst) ?rest)) \<le> rt_max_document_components limits)"
      using 2 False by blast
    also have "(\<forall>(node, d) \<in> set ?rest. tree_fits limits d node) \<longleftrightarrow> (\<forall>(node, d) \<in> set ((node, depth) # stack). tree_fits limits d node)"
      using False tree_fits_node [of limits depth node] by auto
    also have "?rest = [] \<or> n + 1 + int (sum_list (map (xml_nodes \<circ> fst) ?rest)) \<le> rt_max_document_components limits
        \<longleftrightarrow> n + int (sum_list (map (xml_nodes \<circ> fst) ((node, depth) # stack))) \<le> rt_max_document_components limits"
      using False sums by auto
    finally show ?thesis by (simp only: list.distinct simp_thms)
  qed
qed simp

lemma xml_walk_cases: "xml_walk limits n stack = Inr () \<or> (\<exists>m. xml_walk limits n stack = Inl (DocumentError m))"
  by (induction limits n stack rule: xml_walk.induct) auto

declare xml_walk.simps [simp del]

lemma tree_fits_exact:
  "tree_fits limits d node \<longleftrightarrow>
     d + int (xml_height node) \<le> rt_max_document_xml_depth limits + 1
     \<and> (\<forall>n \<in> set (xml_iter node). int (length (xml_attrib n)) \<le> rt_metadata_max_fields limits)"
proof (induction limits d node rule: tree_fits.induct)
  case (1 limits d attrib children)
  have "d + int (xml_height (Element attrib children)) \<le> rt_max_document_xml_depth limits + 1
      \<longleftrightarrow> d \<le> rt_max_document_xml_depth limits \<and> (\<forall>c \<in> set children. d + 1 + int (xml_height c) \<le> rt_max_document_xml_depth limits + 1)"
  proof -
    have "d + int (xml_height (Element attrib children)) \<le> rt_max_document_xml_depth limits + 1
        \<longleftrightarrow> 0 \<le> rt_max_document_xml_depth limits - d \<and> fold max (map xml_height children) 0 \<le> nat (rt_max_document_xml_depth limits - d)"
      by auto
    also have "\<dots> \<longleftrightarrow> 0 \<le> rt_max_document_xml_depth limits - d \<and> (\<forall>c \<in> set children. xml_height c \<le> nat (rt_max_document_xml_depth limits - d))"
      by (simp add: fold_max_le)
    finally show ?thesis by fastforce
  qed
  with 1 show ?case by (auto simp: list_all_iff)
qed

lemma xml_iter_length: "length (xml_iter node) = xml_nodes node"
proof (induction node rule: xml_iter.induct)
  case (1 attrib children)
  then show ?case by (simp add: length_concat o_def cong: map_cong)
qed

text \<open>What the limits mean for a tree, said of the tree rather than of the walk.\<close>

definition xml_within :: "runtime_settings \<Rightarrow> xml_tree \<Rightarrow> bool" where
  "xml_within limits tree \<longleftrightarrow>
     int (xml_height tree) \<le> rt_max_document_xml_depth limits
     \<and> int (length (xml_iter tree)) \<le> rt_max_document_components limits
     \<and> list_all (\<lambda>n. int (length (xml_attrib n)) \<le> rt_metadata_max_fields limits) (xml_iter tree)"

lemma xml_walk_within: "xml_walk limits 0 [(tree, 1)] = Inr () \<longleftrightarrow> xml_within limits tree"
  by (auto simp: xml_walk_exact tree_fits_exact xml_within_def xml_iter_length list_all_iff)

lemma safe_xml_admits:
  "safe_xml env limits data = Inr tree \<longleftrightarrow>
     int (length data) \<le> rt_max_document_parser_bytes limits \<and> \<not> upper_holds ''<!DOCTYPE'' data \<and> \<not> upper_holds ''<!ENTITY'' data
     \<and> de_xml env data = Inr tree \<and> xml_within limits tree"
  using xml_walk_within [of limits tree] xml_walk_cases [of limits 0 "[(tree, 1)]"]
  by (auto simp: safe_xml_def split: sum.splits py_exn.splits if_splits)

subsection \<open>What is read of a package\<close>

lemma read_part_bounded: "read_part limits info = Inr data \<Longrightarrow> int (length data) \<le> rt_max_document_parser_bytes limits"
  by (auto simp: read_part_def split: if_splits)

definition part_failure :: "zip_member \<Rightarrow> py_exn \<Rightarrow> bool" where
  "part_failure info e \<longleftrightarrow> (case zm_open info of Inl e' \<Rightarrow> e = e' | Inr (_, failure) \<Rightarrow> failure = Some e)"

lemma read_part_raises: "raises_only (\<lambda>e. document_raised e \<or> part_failure info e) (read_part limits info)"
  unfolding read_part_def
  by (intro raises_only_if raises_only_bindE)
    (auto simp: raises_only_def part_failure_def read_at_most_def split: sum.split option.splits if_splits)

text \<open>The failures of the library the package parsers pass on.\<close>

definition library_error :: "document_env \<Rightarrow> zip_member list \<Rightarrow> py_exn \<Rightarrow> bool" where
  "library_error env infos e \<longleftrightarrow>
     (\<exists>info \<in> set infos. part_failure info e) \<or> (\<exists>part. de_xml env part = Inl e \<and> exn_class e \<noteq> ''ParseError'')"

definition package_error :: "document_env \<Rightarrow> zip_member list \<Rightarrow> py_exn \<Rightarrow> bool" where
  "package_error env infos e \<longleftrightarrow> document_raised e \<or> library_error env infos e"

lemma xml_walk_raises: "raises_only document_raised (xml_walk limits n stack)"
  using xml_walk_cases [of limits n stack] by auto

lemma safe_xml_raises: "raises_only (package_error env infos) (safe_xml env limits data)"
proof (cases "de_xml env data")
  case (Inl e)
  then have "exn_class e \<noteq> ''ParseError'' \<Longrightarrow> package_error env infos e"
    by (auto simp: package_error_def library_error_def)
  then show ?thesis by (cases e) (simp_all add: safe_xml_def package_error_def Inl exn_class_def)
next
  case (Inr tree)
  have "raises_only (package_error env infos) (xml_walk limits 0 [(tree, 1)])"
    by (rule raises_only_mono [OF xml_walk_raises]) (simp add: package_error_def)
  then show ?thesis by (auto simp: safe_xml_def Inr package_error_def intro!: raises_only_bindE)
qed

lemma read_part_package: "info \<in> set infos \<Longrightarrow> raises_only (package_error env infos) (read_part limits info)"
  by (rule raises_only_mono [OF read_part_raises]) (auto simp: package_error_def library_error_def)

lemma part_named_member: "part_named infos name = Some info \<Longrightarrow> info \<in> set infos \<and> zm_filename info = asc name"
  unfolding part_named_def by (drule map_of_SomeD) auto

lemma part_named_none: "part_named infos name = None \<longleftrightarrow> asc name \<notin> set (map zm_filename infos)"
  by (auto simp: part_named_def map_of_eq_None_iff image_image)

lemma part_children_raises: "set chosen \<subseteq> set infos \<Longrightarrow> raises_only (package_error env infos) (part_children limits chosen)"
  unfolding part_children_def part_child_def
  by (intro raises_only_mapE raises_only_bindE read_part_package) auto

lemma part_relationships_raises: "info \<in> set infos \<Longrightarrow> raises_only (package_error env infos) (part_relationships env limits info acc)"
  unfolding part_relationships_def
  by (intro raises_only_if raises_only_bindE safe_xml_raises read_part_package raises_only_foldE [where I = "\<lambda>_. True"])
    (auto simp: add_relationship_def package_error_def Let_def split: prod.split)

lemma part_links_raises: "raises_only (package_error env infos) (part_links env limits infos name acc)"
  unfolding part_links_def
  by (auto split: option.split dest!: part_named_member intro!: raises_only_bindE safe_xml_raises read_part_package)

lemma required_part_present:
  "asc name \<in> set (map zm_filename infos) \<Longrightarrow> \<exists>info. required_part infos name = Inr info \<and> info \<in> set infos"
  using part_named_none [of infos name] part_named_member [of infos name]
  by (cases "part_named infos name") (auto simp: required_part_def)

lemma parse_ooxml_raises:
  assumes "asc ''[Content_Types].xml'' \<in> set (map zm_filename infos)"
  shows "raises_only (package_error env infos) (parse_ooxml env limits infos)"
proof -
  from required_part_present [OF assms] obtain info where info: "required_part infos ''[Content_Types].xml'' = Inr info" "info \<in> set infos"
    by blast
  show ?thesis unfolding parse_ooxml_def Let_def
    by (auto simp: info split: prod.split intro!: raises_only_bindE read_part_package safe_xml_raises part_children_raises
        raises_only_foldE [where I = "\<lambda>_. True"] part_relationships_raises)
qed

lemma parse_odf_raises:
  assumes "asc ''mimetype'' \<in> set (map zm_filename infos)" "asc ''META-INF/manifest.xml'' \<in> set (map zm_filename infos)"
  shows "raises_only (package_error env infos) (parse_odf env limits infos)"
proof -
  from required_part_present [OF assms(1)] required_part_present [OF assms(2)] obtain info info'
    where info: "required_part infos ''mimetype'' = Inr info" "info \<in> set infos"
      "required_part infos ''META-INF/manifest.xml'' = Inr info'" "info' \<in> set infos" by blast
  show ?thesis unfolding parse_odf_def Let_def
    by (auto simp: info intro!: raises_only_bindE read_part_package safe_xml_raises part_children_raises
        raises_only_foldE [where I = "\<lambda>_. True"] part_links_raises)
qed

lemma parse_package_raises:
  "raises_only (\<lambda>e. de_zip_members env data = Inl e \<or> document_raised e
     \<or> (\<exists>infos. de_zip_members env data = Inr infos \<and> library_error env infos e)) (parse_package env limits data)"
proof (cases "de_zip_members env data")
  case (Inr infos)
  have "raises_only (package_error env infos) (parse_package env limits data)"
    unfolding parse_package_def Inr bindE_simps
    by (auto simp: package_error_def [of _ _ "DocumentError _"] intro!: parse_ooxml_raises parse_odf_raises)
  then show ?thesis by (rule raises_only_mono) (auto simp: package_error_def Inr)
qed (simp add: parse_package_def)

text \<open>Everything \<open>parse_document\<close> may raise.\<close>

definition parser_error :: "document_env \<Rightarrow> runtime_settings \<Rightarrow> bytes \<Rightarrow> py_exn \<Rightarrow> bool" where
  "parser_error env limits data e \<longleftrightarrow>
     document_raised e \<or> digits_error e \<or> cfb_error env limits e \<or> de_zip_members env data = Inl e
     \<or> (\<exists>infos. de_zip_members env data = Inr infos \<and> library_error env infos e)"

lemma parse_document_error: "raises_only (parser_error env limits data) (parse_document env limits data)"
proof -
  have "raises_only (parser_error env limits data) (parse_pdf env limits data)"
    by (rule raises_only_mono [OF parse_pdf_raises]) (auto simp: parser_error_def)
  moreover have "raises_only (parser_error env limits data) (parse_rtf limits data)"
    by (rule raises_only_mono [OF parse_rtf_raises]) (auto simp: parser_error_def)
  moreover have "raises_only (parser_error env limits data) (parse_cfb env limits data)"
    by (rule raises_only_mono [OF parse_cfb_raises]) (auto simp: parser_error_def)
  moreover have "raises_only (parser_error env limits data) (parse_package env limits data)"
    by (rule raises_only_mono [OF parse_package_raises]) (auto simp: parser_error_def)
  ultimately show ?thesis by (simp add: parse_document_def Let_def parser_error_def [of _ _ _ "DocumentError _"])
qed

subsection \<open>What is extracted of a package\<close>

lemma mapE_elems: "mapE f xs = Inr ys \<Longrightarrow> y \<in> set ys \<Longrightarrow> \<exists>x \<in> set xs. f x = Inr y"
  by (induction xs arbitrary: ys) (auto split: sum.splits)

text \<open>A child of a package is one member of it, read whole.\<close>

definition package_child_ok :: "runtime_settings \<Rightarrow> zip_member list \<Rightarrow> document_child \<Rightarrow> bool" where
  "package_child_ok limits infos child \<longleftrightarrow>
     list_ex (\<lambda>info. dc_name child = zm_filename info \<and> read_part limits info = Inr (dc_data child)
       \<and> int (zm_file_size info) \<le> rt_max_single_child_bytes limits) infos"

lemma part_children_ok:
  "part_children limits chosen = Inr children \<Longrightarrow> set chosen \<subseteq> set infos \<Longrightarrow> child \<in> set children \<Longrightarrow> package_child_ok limits infos child"
  unfolding part_children_def by (drule mapE_elems) (auto simp: part_child_def package_child_ok_def list_ex_iff)

lemma parse_ooxml_children:
  "parse_ooxml env limits infos = Inr p \<Longrightarrow> child \<in> set (pd_children p) \<Longrightarrow> package_child_ok limits infos child"
  by (auto simp: parse_ooxml_def Let_def split: prod.splits elim!: part_children_ok)

lemma parse_odf_children:
  "parse_odf env limits infos = Inr p \<Longrightarrow> child \<in> set (pd_children p) \<Longrightarrow> package_child_ok limits infos child"
  by (auto simp: parse_odf_def Let_def elim!: part_children_ok)

text \<open>A parser returns either a complete result without errors, or says which part is missing and why.\<close>

definition candid :: "parsed_document \<Rightarrow> bool" where
  "candid p \<longleftrightarrow>
     (case pd_partial p of
        None \<Rightarrow> pd_errors p = []
      | Some s \<Rightarrow> pd_errors p \<noteq> [] \<and> s \<in> {''partial_unsupported'', ''partial_error'', ''partial_limit''})"

lemma parse_pdf_candid: "parse_pdf env limits data = Inr p \<Longrightarrow> candid p"
  by (auto simp: parse_pdf_def Let_def candid_def split: option.splits if_splits)

lemma parse_rtf_candid: "parse_rtf limits data = Inr p \<Longrightarrow> candid p"
  by (auto simp: parse_rtf_def Let_def candid_def split: option.splits prod.splits if_splits)

lemma parse_cfb_candid: "parse_cfb env limits data = Inr p \<Longrightarrow> candid p"
  by (auto simp: parse_cfb_def Let_def candid_def)

lemma parse_ooxml_candid: "parse_ooxml env limits infos = Inr p \<Longrightarrow> candid p"
  by (auto simp: parse_ooxml_def Let_def candid_def split: prod.splits)

lemma parse_odf_candid: "parse_odf env limits infos = Inr p \<Longrightarrow> candid p"
  by (auto simp: parse_odf_def Let_def candid_def)

lemma map_sum_some: "map_sum id Some m = Inr (Some p) \<longleftrightarrow> m = Inr p"
  by (cases m) auto

lemma parse_package_candid: "parse_package env limits data = Inr (Some p) \<Longrightarrow> candid p"
  by (auto simp: parse_package_def map_sum_some split: if_splits dest: parse_ooxml_candid parse_odf_candid)

lemma parse_document_candid: "parse_document env limits data = Inr (Some p) \<Longrightarrow> candid p"
  by (auto simp: parse_document_def Let_def map_sum_some split: if_splits
      dest: parse_pdf_candid parse_rtf_candid parse_cfb_candid parse_package_candid)

text \<open>What a child may be, by the signature of the file; text formats have none.\<close>

definition document_child_ok :: "document_env \<Rightarrow> runtime_settings \<Rightarrow> bytes \<Rightarrow> document_child \<Rightarrow> bool" where
  "document_child_ok env limits data child \<longleftrightarrow>
     (if starts_with (ascb ''%PDF-'') (take 16 data) then pdf_child_ok env limits data child
      else if starts_with [0xD0, 0xCF, 0x11, 0xE0, 0xA1, 0xB1, 0x1A, 0xE1] (take 16 data)
      then dc_data child \<noteq> [] \<and> int (length (dc_data child)) \<le> rt_max_single_child_bytes limits
      else case de_zip_members env data of
        Inl _ \<Rightarrow> False
      | Inr infos \<Rightarrow> package_child_ok limits infos child \<and> int (length (dc_data child)) \<le> rt_max_document_parser_bytes limits)"

lemma package_child_bounded: "package_child_ok limits infos child \<Longrightarrow> int (length (dc_data child)) \<le> rt_max_document_parser_bytes limits"
  by (auto simp: package_child_ok_def list_ex_iff dest: read_part_bounded)

lemma parse_package_children:
  "parse_package env limits data = Inr (Some p) \<Longrightarrow> child \<in> set (pd_children p) \<Longrightarrow>
     \<exists>infos. de_zip_members env data = Inr infos \<and> package_child_ok limits infos child"
  by (auto simp: parse_package_def map_sum_some split: if_splits dest: parse_ooxml_children parse_odf_children)

lemma parse_rtf_children: "parse_rtf limits data = Inr p \<Longrightarrow> pd_children p = []"
  by (auto simp: parse_rtf_def Let_def split: option.splits prod.splits)

lemma parse_document_child:
  "parse_document env limits data = Inr (Some p) \<Longrightarrow> child \<in> set (pd_children p) \<Longrightarrow> document_child_ok env limits data child"
  by (auto simp: parse_document_def document_child_ok_def Let_def map_sum_some parse_rtf_children split: if_splits
      dest: parse_pdf_children parse_cfb_children dest!: parse_package_children intro: package_child_bounded)

text \<open>What escapes the analyzer: an exception of the parser it does not catch, never a DocumentError.\<close>

definition analyzer_escape :: "document_env \<Rightarrow> runtime_settings \<Rightarrow> bytes \<Rightarrow> py_exn \<Rightarrow> bool" where
  "analyzer_escape env limits data e \<longleftrightarrow> parser_error env limits data e \<and> \<not> analyzer_catches e"

lemma examine_document_raises: "raises_only (analyzer_escape env limits data) (examine_document env limits data)"
  using parse_document_error [of env limits data]
  by (auto simp: examine_document_def analyzer_escape_def raises_only_def split: sum.split option.split)

lemma examine_document_statuses:
  "examine_document env limits data = Inr (status, errors, parsed) \<Longrightarrow>
     status \<in> {''complete'', ''not_applicable'', ''partial_unsupported'', ''partial_error'', ''partial_limit'', ''corrupt'', ''unsupported_limit''}
     \<and> (errors = [] \<longleftrightarrow> status \<in> {''complete'', ''not_applicable''})
     \<and> (parsed = None \<longleftrightarrow> status \<in> {''not_applicable'', ''corrupt'', ''unsupported_limit''})"
  by (auto simp: examine_document_def candid_def dest!: parse_document_candid split: if_splits sum.splits option.splits)

text \<open>
  C19: The document analyzer reads and never writes. It returns a result or lets pass what the file
  read or an uncaught exception of the parser raises. A result has no finding and no verdict, an
  error exactly when its status is neither complete nor not applicable, and observations exactly when
  a document was parsed.
\<close>

theorem document_analyzer_contained:
  "case document_analyze env limits started completed artifact source job_id s of (r, s') \<Rightarrow>
     s' = s
     \<and> (case r of
          Inl e \<Rightarrow> (case file_at source s of None \<Rightarrow> e = OSError | Some data \<Rightarrow> analyzer_escape env limits data e)
        | Inr result \<Rightarrow>
            ar_findings result = [] \<and> ar_normalized_verdict result = None
            \<and> (ar_errors result = []) = (ar_native_status result \<in> {''complete'', ''not_applicable''})
            \<and> (ar_observations result = []) = (ar_native_status result \<in> {''not_applicable'', ''corrupt'', ''unsupported_limit''}))"
proof (cases "file_at source s")
  case (Some data)
  show ?thesis
  proof (cases "examine_document env limits data")
    case (Inl e)
    with examine_document_raises [of env limits data] show ?thesis
      by (simp add: document_analyze_def read_file_def bindP_def Some)
  next
    case (Inr v)
    obtain status errors parsed where v: "v = (status, errors, parsed)" by (cases v rule: prod_cases3)
    have observed: "(case parsed of None \<Rightarrow> [] | Some p \<Rightarrow> document_observations started p) = [] \<longleftrightarrow> parsed = None"
      by (simp add: document_observations_def split: option.split)
    from examine_document_statuses [OF Inr [unfolded v]]
    show ?thesis by (simp only: observed document_analyze_def read_file_def bindP_def Some Inr v ret_def liftP_def
          option.case sum.case prod.case analyzer_result.select_convs simp_thms)
  qed
qed (simp add: document_analyze_def read_file_def bindP_def)



subsection \<open>Which parts of an OOXML package are extracted\<close>

lemma part_children_names:
  "part_children limits chosen = Inr children \<Longrightarrow>
     map dc_name children = map zm_filename (filter (\<lambda>i. int (zm_file_size i) \<le> rt_max_single_child_bytes limits) chosen)"
proof -
  have "mapE (part_child limits) xs = Inr ys \<Longrightarrow> map dc_name ys = map zm_filename xs" for xs ys
    by (induction xs arbitrary: ys) (auto simp: part_child_def)
  then show "part_children limits chosen = Inr children \<Longrightarrow> ?thesis" by (simp add: part_children_def)
qed

definition payload_part :: "runtime_settings \<Rightarrow> zip_member \<Rightarrow> bool" where
  "payload_part limits i \<longleftrightarrow>
     (starts_with_any [''word/embeddings/'', ''xl/embeddings/'', ''ppt/embeddings/''] (zm_filename i) \<or> is_vba_part (zm_filename i))
     \<and> int (zm_file_size i) \<le> rt_max_single_child_bytes limits"

definition assessed :: "string \<Rightarrow> parsed_document \<Rightarrow> bool" where
  "assessed kind p \<longleftrightarrow> list_ex (\<lambda>a. as_type a = kind) (pd_assessments p)"

lemma assessed_simps [simp]:
  "list_ex (\<lambda>a. as_type a = kind) (assess_if b ty statement refs) \<longleftrightarrow> b \<and> ty = kind"
  by (simp add: assess_if_def doc_assessment_def)

lemma ooxml_family_macro: "ooxml_family content_types True \<notin> {''OOXML_DOCX'', ''OOXML_XLSX'', ''OOXML_PPTX''}"
  by (simp add: ooxml_family_def Let_def)

text \<open>
  C35: An accepted OOXML package gives a child for every embedding and every VBA project within the child
  limit, in the order of the members; and a package holding a VBA project is always assessed as
  macro-enabled and active, whatever its content types declare, and is never given a macro-free format.
\<close>

theorem ooxml_payloads_reported:
  "case parse_ooxml env limits infos of
     Inl _ \<Rightarrow> True
   | Inr p \<Rightarrow>
       map dc_name (pd_children p) = map zm_filename (filter (payload_part limits) infos)
       \<and> (if list_ex (is_vba_part \<circ> zm_filename) infos
          then assessed ''MACRO_ENABLED_DOCUMENT'' p \<and> assessed ''ACTIVE_CONTENT_PRESENT'' p
            \<and> pd_format p \<notin> {''OOXML_DOCX'', ''OOXML_XLSX'', ''OOXML_PPTX''}
          else True)"
proof (cases "parse_ooxml env limits infos")
  case (Inr p)
  have names: "map dc_name (pd_children p) = map zm_filename (filter (payload_part limits) infos)"
    using Inr by (auto simp: parse_ooxml_def Let_def payload_part_def [abs_def] conj_commute split: prod.splits dest!: part_children_names)
  have "assessed ''MACRO_ENABLED_DOCUMENT'' p \<and> assessed ''ACTIVE_CONTENT_PRESENT'' p
      \<and> pd_format p \<notin> {''OOXML_DOCX'', ''OOXML_XLSX'', ''OOXML_PPTX''}" if "list_ex (is_vba_part \<circ> zm_filename) infos"
  proof -
    from that have "list_ex is_vba_part (map zm_filename infos)" by (auto simp: list_ex_iff)
    with Inr ooxml_family_macro show ?thesis by (auto simp: parse_ooxml_def Let_def assessed_def split: prod.splits)
  qed
  with names Inr show ?thesis by simp
qed simp


end
