(* ===== verification/Analyzers.thy ===== *)
theory Analyzers
  imports Packages Structural
begin

section \<open>The generic analyzers: \<open>analyzers/generic.py\<close> and \<open>analyzers/static.py\<close>\<close>

text \<open>
  Identity, metadata, file type, strings, byte statistics, ExifTool and ssdeep, and the registry that
  holds them with the executable, document and structural analyzers. Tools run on the host of
  \<open>Scanners\<close>; case mapping, floating point, JSON and \<open>str\<close> are functions of \<open>analyzer_env\<close>. Then what the
  strings and the byte statistics are, and that the analyzers without a tool change nothing.
\<close>

subsection \<open>Names\<close>

text \<open>\<open>PurePath(s).suffixes\<close>, each without its dot and in lower case.\<close>

definition name_suffixes :: "pystr \<Rightarrow> pystr list" where
  "name_suffixes name =
     (if name \<noteq> [] \<and> last name = 0x2E then []
      else tl (split_on 0x2E (dropWhile (\<lambda>c. c = 0x2E) name)))"

record analyzer_env =
  ae_lower :: "pystr \<Rightarrow> pystr"
  ae_upper :: "pystr \<Rightarrow> pystr"
  ae_exn_text :: "py_exn \<Rightarrow> pystr"
  ae_json :: "pystr \<Rightarrow> pyval res"
  ae_str :: "pyval \<Rightarrow> pystr"
  ae_sha256 :: "bytes \<Rightarrow> string"
  ae_divide :: "nat \<Rightarrow> nat \<Rightarrow> double"
  ae_log2 :: "double \<Rightarrow> double"
  ae_times :: "double \<Rightarrow> double \<Rightarrow> double"
  ae_negated_sum :: "double list \<Rightarrow> double"
  ae_round8 :: "double \<Rightarrow> double"

text \<open>The clock readings of one call: the two dates and the monotonic time between.\<close>

record call_times =
  ct_started :: timestamp
  ct_completed :: timestamp
  ct_elapsed :: duration

definition suffixes_of :: "analyzer_env \<Rightarrow> pystr \<Rightarrow> pystr list" where
  "suffixes_of env s = map (ae_lower env) (name_suffixes (posix_name s))"

definition original_name :: "input_artifact \<Rightarrow> pystr" where
  "original_name artifact =
     (case a_submitted_filename artifact of
        Some n \<Rightarrow> if n \<noteq> [] then n else a_filename artifact
      | None \<Rightarrow> a_filename artifact)"

definition backslashes_forward :: "pystr \<Rightarrow> pystr" where
  "backslashes_forward s = map (\<lambda>c. if c = 0x5C then 0x2F else c) s"

definition plain_observation :: "string \<Rightarrow> string \<Rightarrow> pyval \<Rightarrow> timestamp \<Rightarrow> string option \<Rightarrow> observation" where
  "plain_observation analyzer kind v started evidence =
     \<lparr>o_type = kind, o_value = v, o_analyzer_id = analyzer,
      o_evidence_refs = (case evidence of None \<Rightarrow> [] | Some r \<Rightarrow> if r \<noteq> '''' then [asc r] else []),
      o_source = Some (asc ''analyzer''), o_observed_at = Some started, o_confidence = None\<rparr>"

definition optional_text :: "pystr option \<Rightarrow> pyval" where
  "optional_text s = (case s of None \<Rightarrow> PNone | Some t \<Rightarrow> PStr t)"

definition high_assessment :: "string \<Rightarrow> string \<Rightarrow> pystr \<Rightarrow> string list \<Rightarrow> assessment" where
  "high_assessment analyzer ty statement refs =
     \<lparr>as_type = ty, as_analyzer_id = analyzer, as_statement = statement, as_confidence = Conf_HIGH, as_evidence_refs = map asc refs\<rparr>"

subsection \<open>\<open>IdentityAnalyzer\<close> and \<open>MetadataAnalyzer\<close>\<close>

definition identity_probe :: probe_result where
  "identity_probe = \<lparr>pb_available = True, pb_detail = asc ''built-in exact ingestion identity'', pb_state = PROBED,
     pb_version = Some (asc ''1''), pb_definition_state = []\<rparr>"

definition identity_analyze :: "call_times \<Rightarrow> input_artifact \<Rightarrow> path \<Rightarrow> string \<Rightarrow> ('x machine, analyzer_result) py" where
  "identity_analyze t artifact source job_id = ret
     \<lparr>ar_analyzer_id = ''identity'', ar_analyzer_class = IDENTITY_ANALYZER, ar_product = ''AVBox Identity'',
      ar_implementation = Some ''avbox.analyzers.generic.IdentityAnalyzer'', ar_product_version = Some (asc ''1''),
      ar_engine_version = None, ar_definition_state = [], ar_qualification_state = Some QUALIFIED,
      ar_started_at = Some (ct_started t), ar_completed_at = ct_completed t,
      ar_duration_seconds = Some (ct_completed t - ct_started t), ar_execution_profile = ''avbox-built-in-read-only'',
      ar_native_status = ''exact'', ar_native_exit_code = None, ar_normalized_verdict = None,
      ar_observations = map (\<lambda>(kind, v). \<lparr>o_type = kind, o_value = v, o_analyzer_id = ''identity'', o_evidence_refs = [],
          o_source = Some (asc ''verified-ingestion''), o_observed_at = Some (ct_started t), o_confidence = Some ''exact''\<rparr>)
        [(''identity.sha256'', PAsc (h_sha256 (a_hashes artifact))), (''identity.blake3'', PAsc (h_blake3 (a_hashes artifact))),
         (''identity.sha1'', PAsc (h_sha1 (a_hashes artifact))), (''identity.md5'', PAsc (h_md5 (a_hashes artifact))),
         (''object.size'', PInt (a_byte_size artifact))],
      ar_findings = [], ar_assessments = [], ar_raw_output = None, ar_errors = [], ar_structural_validation = None\<rparr>"

definition COMPOUND_EXTENSIONS :: "pystr list" where
  "COMPOUND_EXTENSIONS = map asc [''tar.gz'', ''tar.bz2'', ''tar.xz'', ''tar.zst'']"

definition metadata_probe :: probe_result where
  "metadata_probe = \<lparr>pb_available = True, pb_detail = asc ''built-in bounded metadata'', pb_state = PROBED,
     pb_version = Some (asc ''1''), pb_definition_state = []\<rparr>"

definition recognized_compound :: "pystr list \<Rightarrow> pystr option" where
  "recognized_compound exts =
     (if length exts < 2 then None
      else let c = join_with (asc ''.'') (drop (length exts - 2) exts) in
        if c \<in> set COMPOUND_EXTENSIONS then Some c else None)"

definition metadata_analyze ::
  "analyzer_env \<Rightarrow> call_times \<Rightarrow> input_artifact \<Rightarrow> path \<Rightarrow> string \<Rightarrow> ('x machine, analyzer_result) py" where
  "metadata_analyze env t artifact source job_id =
     (let original = original_name artifact; basename = posix_name (backslashes_forward original);
          exts = suffixes_of env basename; compound = recognized_compound exts;
          obs = (\<lambda>kind v. plain_observation ''basic-metadata'' kind v (ct_started t) None)
      in ret
     \<lparr>ar_analyzer_id = ''basic-metadata'', ar_analyzer_class = METADATA_ANALYZER, ar_product = ''AVBox Basic Metadata'',
      ar_implementation = Some ''avbox.analyzers.generic.MetadataAnalyzer'', ar_product_version = Some (asc ''1''),
      ar_engine_version = None, ar_definition_state = [], ar_qualification_state = Some QUALIFIED,
      ar_started_at = Some (ct_started t), ar_completed_at = ct_completed t,
      ar_duration_seconds = Some (ct_completed t - ct_started t), ar_execution_profile = ''avbox-built-in-read-only'',
      ar_native_status = ''complete'', ar_native_exit_code = None, ar_normalized_verdict = None,
      ar_observations =
        [obs ''filename.original'' (PStr original), obs ''filename.basename'' (PStr basename),
         obs ''filename.length'' (PNat (length original)), obs ''filename.extensions'' (PList (map PStr exts)),
         obs ''filename.extension'' (if exts = [] then PNone else PStr (last exts)),
         obs ''filename.compound_extension'' (optional_text compound), obs ''object.declared_media_type'' (PStr (a_media_type artifact))],
      ar_findings = [],
      ar_assessments = (if length exts > 1 \<and> compound = None
        then [high_assessment ''basic-metadata'' ''MULTIPLE_EXTENSION'' (asc ''filename has multiple non-compound suffix components'')
                [''filename.extensions'']]
        else []),
      ar_raw_output = None, ar_errors = [], ar_structural_validation = None\<rparr>)"

subsection \<open>\<open>_type_from_magic\<close>\<close>

record magic_type =
  mt_family :: pystr
  mt_format :: "pystr option"
  mt_platform :: "string option"
  mt_architecture :: "string option"
  mt_confidence :: confidence

definition after_slash :: "pystr \<Rightarrow> pystr" where
  "after_slash s = drop 1 (dropWhile (\<lambda>c. c \<noteq> 0x2F) s)"

definition type_from_magic :: "analyzer_env \<Rightarrow> int \<Rightarrow> pystr \<Rightarrow> pystr \<Rightarrow> magic_type" where
  "type_from_magic env nbytes description mime_type =
     (let lower = ae_lower env description; has = (\<lambda>s. substring (asc s) lower);
          known = (\<lambda>family fmt. \<lparr>mt_family = asc family, mt_format = Some fmt, mt_platform = None, mt_architecture = None,
                     mt_confidence = Conf_HIGH\<rparr>);
          native = (if has ''pe32'' then Some (''windows'', ''PE'')
            else if has ''elf '' then Some (''linux/unix'', ''ELF'')
            else if has ''mach-o'' then Some (''macos'', ''MACH-O'')
            else if has ''dos executable'' \<or> has ''ms-dos executable'' then Some (''dos'', ''DOS-MZ'') else None);
          architecture = map_option snd (List.find (\<lambda>(token, _). has token)
            [(''x86-64'', ''x86-64''), (''80386'', ''x86''), (''arm'', ''ARM''), (''m68k'', ''m68k'')])
      in if nbytes = 0 \<or> has ''empty'' \<or> mime_type = asc ''inode/x-empty'' then known ''empty'' (asc ''EMPTY'')
         else if starts_with (asc ''text/'') mime_type then known ''text'' (asc ''TEXT'')
         else if starts_with (asc ''image/'') mime_type then known ''image'' (ae_upper env (after_slash mime_type))
         else if list_ex has [''zip archive'', ''gzip compressed'', ''tar archive'', ''iso 9660''] then known ''container'' mime_type
         else case native of
           Some (platform, fmt) \<Rightarrow> \<lparr>mt_family = asc ''executable'', mt_format = Some (asc fmt), mt_platform = Some platform,
             mt_architecture = architecture, mt_confidence = Conf_HIGH\<rparr>
         | None \<Rightarrow> \<lparr>mt_family = asc ''unknown'', mt_format = None, mt_platform = None, mt_architecture = architecture,
             mt_confidence = Conf_UNKNOWN\<rparr>)"

definition extension_family :: "pystr \<Rightarrow> pystr option" where
  "extension_family ext =
     map_option asc (map_of
       (map (\<lambda>e. (asc e, ''text'')) [''txt'', ''md'', ''csv'', ''json'', ''xml'']
        @ map (\<lambda>e. (asc e, ''image'')) [''png'', ''jpg'', ''jpeg'', ''gif'']
        @ map (\<lambda>e. (asc e, ''document'')) [''pdf'', ''doc'', ''docx'']
        @ map (\<lambda>e. (asc e, ''container'')) [''zip'', ''gz'', ''lha'', ''lzh'', ''iso'', ''adf'']
        @ map (\<lambda>e. (asc e, ''executable'')) [''exe'', ''com'', ''scr'', ''elf'']) ext)"

subsection \<open>\<open>FileMagicAnalyzer\<close>\<close>

definition unless_os_error :: "('s, 'a) py \<Rightarrow> (py_exn \<Rightarrow> ('s, 'a) py) \<Rightarrow> ('s, 'a) py" where
  "unless_os_error m h = tryP m (\<lambda>e. if e = OSError then h e else raiseP e)"

definition non_empty :: "pystr \<Rightarrow> pystr option" where
  "non_empty s = (if s = [] then None else Some s)"

definition magic_probe :: "'x host \<Rightarrow> runner \<Rightarrow> analyzer_env \<Rightarrow> ('x machine, probe_result) py" where
  "magic_probe h rn env =
     unless_os_error
       (bindP (run_command h rn [''file'', ''--version''] [''tmp'']) (\<lambda>r.
        let text = strip_space (if cm_stdout r \<noteq> [] then cm_stdout r else cm_stderr r); rows = splitlines text in
        ret \<lparr>pb_available = (cm_exit_code r = 0 \<and> \<not> cm_isolation_failed r),
          pb_detail = (if text \<noteq> [] then text else asc ''file probe failed''),
          pb_state = (if cm_exit_code r = 0 then PROBED else DEGRADED),
          pb_version = (if text \<noteq> [] then Some (hd rows) else None),
          pb_definition_state = [(''magic_database'', if length rows > 1 then PStr (rows ! 1) else PNone)]\<rparr>))
       (\<lambda>e. ret \<lparr>pb_available = False, pb_detail = ae_exn_text env e, pb_state = NOT_INSTALLED, pb_version = None,
          pb_definition_state = []\<rparr>)"

definition magic_argv :: "path \<Rightarrow> (string \<times> string list) list" where
  "magic_argv source =
     [(''description'', [''file'', ''--brief'', ''--no-pad'', ''--'', path_text source]),
      (''mime_type'', [''file'', ''--brief'', ''--mime-type'', ''--'', path_text source]),
      (''encoding'', [''file'', ''--brief'', ''--mime-encoding'', ''--'', path_text source])]"

text \<open>The three runs as one result: the greatest exit code, the outputs in order, and any failure of any of them.\<close>

definition combined_result :: "duration \<Rightarrow> (string \<times> command_result) list \<Rightarrow> command_result" where
  "combined_result elapsed results =
     \<lparr>cm_argv = [''file'', ''M1.2-modes''],
      cm_exit_code = (case map (cm_exit_code \<circ> snd) results of [] \<Rightarrow> 0 | c # cs \<Rightarrow> fold max cs c),
      cm_stdout = concat (map (\<lambda>(name, r). asc name @ asc '': '' @ strip_space (cm_stdout r) @ [10]) results),
      cm_stderr = concat (map (cm_stderr \<circ> snd) results), cm_duration_seconds = elapsed,
      cm_timed_out = list_ex (cm_timed_out \<circ> snd) results, cm_isolated = list_all (cm_isolated \<circ> snd) results,
      cm_isolation_failed = list_ex (cm_isolation_failed \<circ> snd) results\<rparr>"

fun run_modes :: "'x host \<Rightarrow> runner \<Rightarrow> path \<Rightarrow> (string \<times> string list) list \<Rightarrow> ('x machine, (string \<times> command_result) list) py" where
  "run_modes h rn cwd [] = ret []"
| "run_modes h rn cwd ((name, argv) # modes) =
     bindP (run_command h rn argv cwd) (\<lambda>r. bindP (run_modes h rn cwd modes) (\<lambda>rs. ret ((name, r) # rs)))"

definition mode_output :: "string \<Rightarrow> (string \<times> command_result) list \<Rightarrow> pystr option" where
  "mode_output name results = (case map_of results name of None \<Rightarrow> None | Some r \<Rightarrow> non_empty (strip_space (cm_stdout r)))"

definition magic_errors :: "command_result \<Rightarrow> pystr option list \<Rightarrow> pystr list" where
  "magic_errors combined outputs =
     (if cm_isolation_failed combined then [asc ''isolation-failed'']
      else if cm_timed_out combined then [asc ''analyzer-timeout'']
      else if cm_exit_code combined \<noteq> 0 then [asc ''file-command-failed'']
      else if list_ex (\<lambda>v. v = None) outputs then [asc ''malformed-output'']
      else [])"

definition text_or_empty :: "pystr option \<Rightarrow> pystr" where
  "text_or_empty s = (case s of None \<Rightarrow> [] | Some t \<Rightarrow> t)"

definition magic_assess ::
  "analyzer_env \<Rightarrow> input_artifact \<Rightarrow> pystr option \<Rightarrow> pystr option \<Rightarrow> pystr option \<Rightarrow> assessment list" where
  "magic_assess env artifact description mime_type encoding =
     (let m = type_from_magic env (a_byte_size artifact) (text_or_empty description) (text_or_empty mime_type);
          mime = text_or_empty mime_type;
          high = high_assessment ''file-type'';
          exts = suffixes_of env (original_name artifact);
          expected = (if exts = [] then None else extension_family (last exts));
          declared = ae_lower env (a_media_type artifact);
          class = (if mime_type = Some (asc ''text/plain'') \<or> encoding \<notin> {None, Some (asc ''binary'')} then ''text'' else ''binary'')
      in [(high ''FILE_TYPE'' (asc ''family='' @ mt_family m @ asc ''; format=''
              @ (case mt_format m of None \<Rightarrow> asc ''UNKNOWN'' | Some f \<Rightarrow> if f = [] then asc ''UNKNOWN'' else f))
              [''file.magic.description'', ''file.mime.type''])\<lparr>as_confidence := mt_confidence m\<rparr>]
       @ (case mt_platform m of None \<Rightarrow> [] | Some p \<Rightarrow> [high ''PLATFORM_HINT'' (asc p) [''file.magic.description'']])
       @ (case mt_architecture m of None \<Rightarrow> [] | Some a \<Rightarrow> [high ''ARCHITECTURE_HINT'' (asc a) [''file.magic.description'']])
       @ (case expected of
            None \<Rightarrow> []
          | Some e \<Rightarrow>
              if mt_family m \<in> {asc ''unknown'', e} then []
              else [high ''EXTENSION_TYPE_MISMATCH'' (asc ''extension suggests '' @ e @ asc '', libmagic indicates '' @ mt_family m)
                      [''filename.extension'', ''file.mime.type''],
                    high ''EXTENSION_MIME_MISMATCH'' (asc ''extension suggests '' @ e @ asc '', libmagic MIME is ''
                        @ (case mime_type of None \<Rightarrow> asc ''None'' | Some mt \<Rightarrow> mt))
                      [''filename.extension'', ''file.mime.type'']])
       @ (if declared \<notin> {[], asc ''application/octet-stream''} \<and> mime \<noteq> [] \<and> declared \<noteq> mime
          then [high ''DECLARED_MEDIA_TYPE_MISMATCH'' (asc ''declared '' @ declared @ asc '', libmagic reports '' @ mime)
                  [''object.declared_media_type'', ''file.mime.type'']]
          else [])
       @ [high ''BINARY_TEXT_CLASS'' (asc class) [''file.mime.type'', ''file.mime.encoding'']])"

definition descriptor_of :: "analyzer_env \<Rightarrow> string \<Rightarrow> command_result \<Rightarrow> raw_output_descriptor" where
  "descriptor_of env reference r =
     \<lparr>ro_raw_output_id = reference, ro_sha256 = Some (ae_sha256 env (raw_payload r)), ro_size = Some (length (raw_payload r))\<rparr>"

definition magic_result :: "call_times \<Rightarrow> analyzer_result" where
  "magic_result t =
     \<lparr>ar_analyzer_id = ''file-type'', ar_analyzer_class = FILE_TYPE_ANALYZER, ar_product = ''file/libmagic'',
      ar_implementation = Some ''Debian file CLI backed by libmagic'', ar_product_version = None, ar_engine_version = None,
      ar_definition_state = [], ar_qualification_state = Some QUALIFIED, ar_started_at = Some (ct_started t),
      ar_completed_at = ct_completed t, ar_duration_seconds = Some (ct_elapsed t),
      ar_execution_profile = ''linux-bwrap-read-only-no-network'', ar_native_status = ''complete'', ar_native_exit_code = None,
      ar_normalized_verdict = None, ar_observations = [], ar_findings = [], ar_assessments = [], ar_raw_output = None,
      ar_errors = [], ar_structural_validation = None\<rparr>"

definition magic_report :: "analyzer_env \<Rightarrow> call_times \<Rightarrow> input_artifact \<Rightarrow> (string \<times> command_result) list \<Rightarrow> string
    \<Rightarrow> probe_result \<Rightarrow> analyzer_result" where
  "magic_report env t artifact results reference probe =
     (let combined = combined_result (ct_elapsed t) results;
          description = mode_output ''description'' results; mime_type = mode_output ''mime_type'' results;
          encoding = mode_output ''encoding'' results;
          errors = magic_errors combined [description, mime_type, encoding];
          obs = (\<lambda>kind v. plain_observation ''file-type'' kind (optional_text v) (ct_started t) (Some reference))
      in (magic_result t)
       \<lparr>ar_product_version := pb_version probe, ar_engine_version := pb_version probe,
        ar_definition_state := pb_definition_state probe,
        ar_qualification_state := Some (if errors \<noteq> [] then DEGRADED else QUALIFIED),
        ar_duration_seconds := Some (cm_duration_seconds combined),
        ar_execution_profile := (if cm_isolated combined then ''linux-bwrap-read-only-no-network'' else ''linux-bounded-direct-degraded''),
        ar_native_status := (if errors \<noteq> [] then ''error'' else ''complete''),
        ar_native_exit_code := Some (cm_exit_code combined),
        ar_observations := (if errors \<noteq> [] then []
          else [obs ''file.magic.description'' description, obs ''file.mime.type'' mime_type, obs ''file.mime.encoding'' encoding]),
        ar_assessments := (if errors \<noteq> [] then [] else magic_assess env artifact description mime_type encoding),
        ar_raw_output := Some (descriptor_of env reference combined), ar_errors := errors\<rparr>)"

definition magic_analyze :: "'x host \<Rightarrow> runner \<Rightarrow> digests \<Rightarrow> path \<Rightarrow> analyzer_env \<Rightarrow> call_times
    \<Rightarrow> input_artifact \<Rightarrow> path \<Rightarrow> string \<Rightarrow> ('x machine, analyzer_result) py" where
  "magic_analyze h rn dg raw_root env t artifact source job_id =
     bindP (unless_os_error (bindP (run_modes h rn (butlast source) (magic_argv source)) (\<lambda>results. ret (Inr results)))
         (\<lambda>e. ret (Inl e))) (\<lambda>outcome.
     case outcome of
       Inl e \<Rightarrow> ret ((magic_result t)
         \<lparr>ar_implementation := Some ''Debian file CLI'', ar_qualification_state := Some NOT_INSTALLED,
          ar_execution_profile := ''linux-bounded-unavailable'', ar_native_status := ''error'',
          ar_errors := [asc ''analyzer-unavailable: '' @ ae_exn_text env e]\<rparr>)
     | Inr results \<Rightarrow>
         bindP (onfs (store_raw_output dg raw_root job_id ''file-type'' (combined_result (ct_elapsed t) results))) (\<lambda>reference.
         bindP (magic_probe h rn env) (\<lambda>probe.
         ret (magic_report env t artifact results reference probe))))"

subsection \<open>The common result of \<open>static.py\<close>\<close>

definition static_result :: "string \<Rightarrow> scanner_class \<Rightarrow> string \<Rightarrow> string \<Rightarrow> call_times \<Rightarrow> string \<Rightarrow> qualification_state \<Rightarrow> analyzer_result" where
  "static_result analyzer_id analyzer_class product implementation t status state =
     \<lparr>ar_analyzer_id = analyzer_id, ar_analyzer_class = analyzer_class, ar_product = product,
      ar_implementation = Some implementation, ar_product_version = Some (asc ''1''), ar_engine_version = None,
      ar_definition_state = [], ar_qualification_state = Some state, ar_started_at = Some (ct_started t),
      ar_completed_at = ct_completed t, ar_duration_seconds = Some (ct_elapsed t),
      ar_execution_profile = (if analyzer_id \<noteq> ''generic-metadata'' then ''avbox-built-in-read-only''
        else ''linux-bwrap-read-only-no-network''),
      ar_native_status = status, ar_native_exit_code = None, ar_normalized_verdict = None, ar_observations = [],
      ar_findings = [], ar_assessments = [], ar_raw_output = None, ar_errors = [], ar_structural_validation = None\<rparr>"

subsection \<open>\<open>StringsAnalyzer\<close>\<close>

record strings_limits =
  sl_minimum :: int
  sl_maximum :: int
  sl_maximum_count :: int
  sl_maximum_total :: int
  sl_maximum_source :: int

definition strings_limits_of :: "runtime_settings \<Rightarrow> strings_limits" where
  "strings_limits_of rt =
     \<lparr>sl_minimum = rt_strings_min_length rt, sl_maximum = rt_strings_max_length rt, sl_maximum_count = rt_strings_max_count rt,
      sl_maximum_total = rt_strings_max_total_chars rt, sl_maximum_source = rt_strings_max_source_bytes rt\<rparr>"

definition printable :: "nat \<Rightarrow> bool" where
  "printable c \<longleftrightarrow> 0x20 \<le> c \<and> c \<le> 0x7E"

text \<open>Decoding that drops what is ill-formed: \<open>errors="ignore"\<close>.\<close>

fun utf8_ignore :: "bytes \<Rightarrow> pystr" where
  "utf8_ignore [] = []"
| "utf8_ignore (b # bs) =
     (case utf8_step b bs of (c, used) \<Rightarrow>
        (if c = 0xFFFD \<and> \<not> (b = 0xEF \<and> used = 2) then [] else [c]) @ utf8_ignore (drop used bs))"

declare utf8_ignore.simps [simp del]

fun utf16_ignore :: "nat list \<Rightarrow> pystr" where
  "utf16_ignore [] = []"
| "utf16_ignore [u] = (if 0xD800 \<le> u \<and> u \<le> 0xDFFF then [] else [u])"
| "utf16_ignore (u # v # us) =
     (if u < 0xD800 \<or> 0xDFFF < u then u # utf16_ignore (v # us)
      else if u < 0xDC00 \<and> 0xDC00 \<le> v \<and> v \<le> 0xDFFF
      then (0x10000 + (u - 0xD800) * 0x400 + (v - 0xDC00)) # utf16_ignore us
      else utf16_ignore (v # us))"

fun be_units :: "bytes \<Rightarrow> nat list" where
  "be_units (a # b # bs) = (256 * unat a + unat b) # be_units bs"
| "be_units _ = []"

definition decoded_views :: "bytes \<Rightarrow> (string \<times> pystr) list" where
  "decoded_views data =
     [(''ASCII'', map (\<lambda>b. if printable (unat b) then unat b else 0) data), (''UTF-8'', utf8_ignore data),
      (''UTF-16LE'', utf16_ignore (le_units data)), (''UTF-16LE'', utf16_ignore (le_units (drop 1 data))),
      (''UTF-16BE'', utf16_ignore (be_units data)), (''UTF-16BE'', utf16_ignore (be_units (drop 1 data)))]"

definition STRING_RE :: "nat rx" where
  "STRING_RE = Many printable 2"

text \<open>The values kept so far, how many were observed, and whether something was cut.\<close>

record strings_state =
  sx_values :: "(string \<times> pystr) list"
  sx_observed :: nat
  sx_truncated :: bool

definition kept_chars :: "(string \<times> pystr) list \<Rightarrow> nat" where
  "kept_chars vs = sum_list (map (length \<circ> snd) vs)"

definition add_string :: "strings_limits \<Rightarrow> string \<Rightarrow> pystr \<Rightarrow> strings_state \<Rightarrow> strings_state" where
  "add_string bounds encoding s st =
     (let cut = int (length s) > sl_maximum bounds;
          v = (if cut then take (nat (sl_maximum bounds)) s else s);
          st1 = st\<lparr>sx_observed := sx_observed st + 1, sx_truncated := sx_truncated st \<or> cut\<rparr>
      in if int (length (sx_values st)) \<ge> sl_maximum_count bounds then st1\<lparr>sx_truncated := True\<rparr>
         else if int (kept_chars (sx_values st) + length v) > sl_maximum_total bounds then st1\<lparr>sx_truncated := True\<rparr>
         else st1\<lparr>sx_values := sx_values st @ [(encoding, v)]\<rparr>)"

definition all_strings :: "bytes \<Rightarrow> (string \<times> pystr) list" where
  "all_strings data = concat (map (\<lambda>(encoding, decoded). map (\<lambda>s. (encoding, s)) (rx_texts STRING_RE decoded)) (decoded_views data))"

definition collect_strings :: "strings_limits \<Rightarrow> bytes \<Rightarrow> strings_state" where
  "collect_strings bounds contents =
     (let data = take (nat (sl_maximum_source bounds + 1)) contents in
      fold (\<lambda>(encoding, s). add_string bounds encoding s) (all_strings (take (nat (sl_maximum_source bounds)) data))
        \<lparr>sx_values = [], sx_observed = 0, sx_truncated = int (length data) > sl_maximum_source bounds\<rparr>)"

definition read_error :: "analyzer_env \<Rightarrow> py_exn \<Rightarrow> analyzer_result \<Rightarrow> analyzer_result" where
  "read_error env e r = r\<lparr>ar_native_status := ''error'', ar_qualification_state := Some DEGRADED,
     ar_errors := [asc ''read-error: '' @ ae_exn_text env e]\<rparr>"

definition strings_report :: "call_times \<Rightarrow> strings_state \<Rightarrow> analyzer_result \<Rightarrow> analyzer_result" where
  "strings_report t st r =
     (let obs = (\<lambda>kind v. plain_observation ''strings'' kind v (ct_started t) None) in
      r\<lparr>ar_observations :=
          [obs ''strings.count_observed'' (PNat (sx_observed st)), obs ''strings.count_returned'' (PNat (length (sx_values st))),
           obs ''strings.truncated'' (PBool (sx_truncated st))]
          @ concat (map (\<lambda>(encoding, v). [obs ''strings.encoding'' (PAsc encoding),
              obs ''strings.value'' (PDict [(''encoding'', PAsc encoding), (''value'', PStr v)])]) (sx_values st)),
        ar_assessments := (if sx_truncated st
          then [high_assessment ''strings'' ''STRING_OUTPUT_TRUNCATED''
                  (asc ''bounded string output or source scan was truncated'') [''strings.truncated'']]
          else [])\<rparr>)"

definition strings_analyze :: "analyzer_env \<Rightarrow> strings_limits \<Rightarrow> call_times
    \<Rightarrow> input_artifact \<Rightarrow> path \<Rightarrow> string \<Rightarrow> ('x machine, analyzer_result) py" where
  "strings_analyze env bounds t artifact source job_id =
     (let r = static_result ''strings'' STRINGS_ANALYZER ''AVBox bounded strings'' ''avbox bounded internal extractor'' t
                ''complete'' QUALIFIED
      in unless_os_error
           (bindP (onfs (read_file source)) (\<lambda>contents. ret (strings_report t (collect_strings bounds contents) r)))
           (\<lambda>e. ret (read_error env e r)))"

subsection \<open>\<open>ByteStatisticsAnalyzer\<close>\<close>

definition count_byte :: "byte \<Rightarrow> nat list \<Rightarrow> nat list" where
  "count_byte b histogram = histogram[unat b := histogram ! unat b + 1]"

definition histogram_of :: "bytes \<Rightarrow> nat list" where
  "histogram_of data = fold count_byte data (replicate 256 0)"

definition shannon :: "analyzer_env \<Rightarrow> nat list \<Rightarrow> nat \<Rightarrow> double" where
  "shannon env histogram n =
     (if n = 0 then 0
      else ae_negated_sum env (map (\<lambda>c. ae_times env (ae_divide env c n) (ae_log2 env (ae_divide env c n)))
             (filter (\<lambda>c. c \<noteq> 0) histogram)))"

definition fraction_of :: "analyzer_env \<Rightarrow> nat \<Rightarrow> nat \<Rightarrow> double" where
  "fraction_of env part n = (if n = 0 then 0 else ae_divide env part n)"

definition printable_count :: "nat list \<Rightarrow> nat" where
  "printable_count histogram = sum_list (map ((!) histogram) [0x20..<0x7F])"

definition byte_statistics_analyze :: "analyzer_env \<Rightarrow> call_times
    \<Rightarrow> input_artifact \<Rightarrow> path \<Rightarrow> string \<Rightarrow> ('x machine, analyzer_result) py" where
  "byte_statistics_analyze env t artifact source job_id =
     (let r = static_result ''byte-statistics'' BYTE_STATISTICS_ANALYZER ''AVBox byte statistics''
                ''avbox streaming histogram and Shannon entropy'' t ''complete'' QUALIFIED;
          obs = (\<lambda>kind v. plain_observation ''byte-statistics'' kind v (ct_started t) None)
      in unless_os_error
           (bindP (onfs (read_file source)) (\<lambda>data.
            let histogram = histogram_of data; n = length data in
            ret (r\<lparr>ar_observations :=
              [obs ''byte.entropy.shannon'' (PFloat (ae_round8 env (shannon env histogram n))),
               obs ''byte.unique_count'' (PNat (length (filter (\<lambda>c. c \<noteq> 0) histogram))),
               obs ''byte.nul_fraction'' (PFloat (fraction_of env (histogram ! 0) n)),
               obs ''byte.printable_fraction'' (PFloat (fraction_of env (printable_count histogram) n))]\<rparr>)))
           (\<lambda>e. ret (read_error env e r)))"

subsection \<open>\<open>ExifToolAnalyzer\<close>\<close>

record exif_limits =
  xl_maximum_fields :: int
  xl_maximum_value :: int
  xl_maximum_total :: int

definition exif_limits_of :: "runtime_settings \<Rightarrow> exif_limits" where
  "exif_limits_of rt =
     \<lparr>xl_maximum_fields = rt_metadata_max_fields rt, xl_maximum_value = rt_metadata_max_value_length rt,
      xl_maximum_total = rt_metadata_max_total_chars rt\<rparr>"

text \<open>A tool found by \<open>which\<close> and asked for its version; the text is its output, the version what is taken of it.\<close>

definition tool_probe :: "'x host \<Rightarrow> runner \<Rightarrow> string \<Rightarrow> string \<Rightarrow> (command_result \<Rightarrow> pystr) \<Rightarrow> ('x machine, probe_result) py" where
  "tool_probe h rn tool option text_of =
     (if ho_which h tool = None \<or> ho_which h tool = Some ''''
      then ret \<lparr>pb_available = False, pb_detail = asc (tool @ '' not installed''), pb_state = NOT_INSTALLED, pb_version = None,
             pb_definition_state = []\<rparr>
      else bindP (run_command h rn [tool, option] [''tmp'']) (\<lambda>r.
        let output = text_of r in
        ret \<lparr>pb_available = (cm_exit_code r = 0 \<and> \<not> cm_isolation_failed r),
          pb_detail = (if output \<noteq> [] then output else asc (tool @ '' probe failed'')),
          pb_state = (if cm_exit_code r = 0 then PROBED else DEGRADED),
          pb_version = non_empty output, pb_definition_state = []\<rparr>))"

definition exiftool_probe :: "'x host \<Rightarrow> runner \<Rightarrow> ('x machine, probe_result) py" where
  "exiftool_probe h rn = tool_probe h rn ''exiftool'' ''-ver''
     (\<lambda>r. if strip_space (cm_stdout r) \<noteq> [] then strip_space (cm_stdout r) else strip_space (cm_stderr r))"

text \<open>The first document of the JSON output; a list that is empty and anything but a list count as \<open>{}\<close>.\<close>

definition exif_fields :: "analyzer_env \<Rightarrow> pystr \<Rightarrow> (pystr \<times> pyval) list res" where
  "exif_fields env output =
     bindE (ae_json env output) (\<lambda>documents.
       case documents of
         PList (document # _) \<Rightarrow>
           (case document of PMap items \<Rightarrow> Inr items | _ \<Rightarrow> Inl (ExternalError ''AttributeError'' ''no attribute items''))
       | _ \<Rightarrow> Inr [])"

definition safe_key :: "pystr \<Rightarrow> pystr" where
  "safe_key k = map (\<lambda>c. if 0x41 \<le> c \<and> c \<le> 0x5A \<or> 0x61 \<le> c \<and> c \<le> 0x7A \<or> 0x30 \<le> c \<and> c \<le> 0x39 \<or> c \<in> {0x5F, 0x2E, 0x2D}
     then c else 0x5F) k"

text \<open>The loop over the fields: the fields kept (the key and the text), and whether something was cut.\<close>

fun exif_loop :: "analyzer_env \<Rightarrow> exif_limits \<Rightarrow> nat \<Rightarrow> nat \<Rightarrow> bool \<Rightarrow> (pystr \<times> pystr) list \<Rightarrow> (pystr \<times> pyval) list
    \<Rightarrow> (pystr \<times> pystr) list \<times> bool" where
  "exif_loop env bounds index used truncated kept [] = (kept, truncated)"
| "exif_loop env bounds index used truncated kept ((key, v) # items) =
     (if int index \<ge> xl_maximum_fields bounds then (kept, True)
      else if key = asc ''System:Directory'' then exif_loop env bounds (Suc index) used truncated kept items
      else
        let full = (if key = asc ''SourceFile'' then posix_name (ae_str env v) else ae_str env v);
            cut = int (length full) > xl_maximum_value bounds;
            shown = (if cut then take (nat (xl_maximum_value bounds)) full else full)
        in if int (used + length shown) > xl_maximum_total bounds then (kept, True)
           else exif_loop env bounds (Suc index) (used + length shown) (truncated \<or> cut) (kept @ [(key, shown)]) items)"

definition exif_caught :: "py_exn \<Rightarrow> bool" where
  "exif_caught e \<longleftrightarrow> e = IndexError \<or> e = UnicodeDecodeError \<or> (case e of ValueError _ \<Rightarrow> True | TypeError _ \<Rightarrow> True | _ \<Rightarrow> False)"

text \<open>Status, state, errors, kept fields and the mark of truncation of a run.\<close>

definition exif_outcome :: "analyzer_env \<Rightarrow> exif_limits \<Rightarrow> command_result
    \<Rightarrow> (string \<times> qualification_state \<times> pystr list \<times> (pystr \<times> pystr) list \<times> bool) res" where
  "exif_outcome env bounds r =
     (if cm_timed_out r then Inr (''timeout'', DEGRADED, [asc ''analyzer-timeout''], [], False)
      else if cm_isolation_failed r then Inr (''error'', DEGRADED, [asc ''isolation-failed''], [], False)
      else case exif_fields env (cm_stdout r) of
        Inl e \<Rightarrow> if exif_caught e then Inr (''error'', DEGRADED, [asc ''malformed-output: '' @ ae_exn_text env e], [], False) else Inl e
      | Inr items \<Rightarrow>
          (case exif_loop env bounds 0 0 False [] items of (kept, truncated) \<Rightarrow>
             Inr (if cm_exit_code r \<noteq> 0 then ''not-applicable'' else ''complete'', QUALIFIED, [], kept, truncated)))"

definition exif_report :: "call_times \<Rightarrow> string \<Rightarrow> raw_output_descriptor \<Rightarrow> pystr option
    \<Rightarrow> string \<times> qualification_state \<times> pystr list \<times> (pystr \<times> pystr) list \<times> bool \<Rightarrow> analyzer_result \<Rightarrow> analyzer_result" where
  "exif_report t reference raw version outcome r =
     (case outcome of (status, state, errors, kept, truncated) \<Rightarrow>
        r\<lparr>ar_native_status := status, ar_qualification_state := Some state, ar_product_version := version,
          ar_observations :=
            map (\<lambda>(key, v). \<lparr>o_type = ''metadata.exiftool.'' @ map char_of (safe_key key),
                 o_value = PDict [(''tag'', PStr key), (''value'', PStr v)],
                 o_analyzer_id = ''generic-metadata'', o_evidence_refs = [asc reference], o_source = Some (asc ''analyzer''),
                 o_observed_at = Some (ct_started t), o_confidence = None\<rparr>) kept
            @ [plain_observation ''generic-metadata'' ''metadata.truncated'' (PBool truncated) (ct_started t) (Some reference)],
          ar_errors := errors, ar_raw_output := Some raw\<rparr>)"

definition exiftool_analyze :: "'x host \<Rightarrow> runner \<Rightarrow> digests \<Rightarrow> path \<Rightarrow> analyzer_env \<Rightarrow> exif_limits \<Rightarrow> call_times
    \<Rightarrow> input_artifact \<Rightarrow> path \<Rightarrow> string \<Rightarrow> ('x machine, analyzer_result) py" where
  "exiftool_analyze h rn dg raw_root env bounds t artifact source job_id =
     (let base = static_result ''generic-metadata'' METADATA_ANALYZER ''ExifTool'' ''Debian ExifTool JSON mode'' t
      in bindP (unless_os_error
           (bindP (run_command h rn [''exiftool'', ''-j'', ''-G1'', ''-s'', ''-q'', ''-q'', ''--'', path_text source] (butlast source))
              (\<lambda>r. ret (Inr r)))
           (\<lambda>e. ret (Inl e))) (\<lambda>outcome.
         case outcome of
           Inl e \<Rightarrow> ret ((base ''unavailable'' NOT_INSTALLED)\<lparr>ar_errors := [ae_exn_text env e]\<rparr>)
         | Inr r \<Rightarrow>
             bindP (onfs (store_raw_output dg raw_root job_id ''generic-metadata'' r)) (\<lambda>reference.
             bindP (liftP (exif_outcome env bounds r)) (\<lambda>found_fields.
             bindP (exiftool_probe h rn) (\<lambda>probe.
             ret (exif_report t reference (descriptor_of env reference r) (pb_version probe) found_fields
                    (base ''complete'' QUALIFIED)))))))"

subsection \<open>\<open>SSDeepAnalyzer\<close>\<close>

definition ssdeep_probe :: "'x host \<Rightarrow> runner \<Rightarrow> ('x machine, probe_result) py" where
  "ssdeep_probe h rn = tool_probe h rn ''ssdeep'' ''-V''
     (\<lambda>r. strip_space (if cm_stdout r \<noteq> [] then cm_stdout r else cm_stderr r))"

text \<open>\<open>line.rsplit(",", 1)[0]\<close> of a line that has a comma, else the empty text.\<close>

definition before_last_comma :: "pystr \<Rightarrow> pystr" where
  "before_last_comma line = (if 0x2C \<in> set line then rev (drop 1 (dropWhile (\<lambda>c. c \<noteq> 0x2C) (rev line))) else [])"

definition ssdeep_fingerprint :: "pystr \<Rightarrow> pystr" where
  "ssdeep_fingerprint output =
     (case List.find (\<lambda>l. l \<noteq> [] \<and> \<not> starts_with (asc ''ssdeep,'') l) (splitlines output) of
        None \<Rightarrow> [] | Some l \<Rightarrow> before_last_comma l)"

definition ssdeep_errors :: "command_result \<Rightarrow> pystr list" where
  "ssdeep_errors r =
     (if cm_timed_out r then [asc ''analyzer-timeout'']
      else if cm_isolation_failed r then [asc ''isolation-failed'']
      else if cm_exit_code r \<noteq> 0 then [asc ''ssdeep-failed''] else [])"

definition ssdeep_report :: "call_times \<Rightarrow> input_artifact \<Rightarrow> string \<Rightarrow> raw_output_descriptor \<Rightarrow> pystr option
    \<Rightarrow> command_result \<Rightarrow> analyzer_result \<Rightarrow> analyzer_result" where
  "ssdeep_report t artifact reference raw version r base =
     (let errors = ssdeep_errors r; fingerprint = ssdeep_fingerprint (cm_stdout r);
          result = base\<lparr>ar_product_version := version, ar_raw_output := Some raw\<rparr>
      in if fingerprint = [] \<and> errors = []
         then result\<lparr>ar_native_status := ''not-applicable'',
                ar_errors := [asc ''fingerprint-unavailable: object too small or low variation'']\<rparr>
         else result
           \<lparr>ar_native_status := (if errors \<noteq> [] then ''error'' else ''complete''),
            ar_qualification_state := Some (if errors \<noteq> [] then DEGRADED else QUALIFIED),
            ar_observations := (if fingerprint \<noteq> []
              then [plain_observation ''similarity'' ''similarity.ssdeep''
                      (PDict [(''algorithm'', PAsc ''ssdeep''), (''fingerprint'', PStr fingerprint),
                        (''source_sha256'', PAsc (h_sha256 (a_hashes artifact)))]) (ct_started t) (Some reference)]
              else []),
            ar_errors := errors\<rparr>)"

definition ssdeep_analyze :: "'x host \<Rightarrow> runner \<Rightarrow> digests \<Rightarrow> path \<Rightarrow> analyzer_env \<Rightarrow> call_times
    \<Rightarrow> input_artifact \<Rightarrow> path \<Rightarrow> string \<Rightarrow> ('x machine, analyzer_result) py" where
  "ssdeep_analyze h rn dg raw_root env t artifact source job_id =
     (let base = static_result ''similarity'' SIMILARITY_ANALYZER ''ssdeep'' ''Debian ssdeep CLI'' t
      in bindP (unless_os_error
           (bindP (run_command h rn [''ssdeep'', ''-b'', ''--'', path_text source] (butlast source)) (\<lambda>r. ret (Inr r)))
           (\<lambda>e. ret (Inl e))) (\<lambda>outcome.
         case outcome of
           Inl e \<Rightarrow> ret ((base ''unavailable'' NOT_INSTALLED)\<lparr>ar_errors := [ae_exn_text env e]\<rparr>)
         | Inr r \<Rightarrow>
             bindP (onfs (store_raw_output dg raw_root job_id ''similarity'' r)) (\<lambda>reference.
             bindP (ssdeep_probe h rn) (\<lambda>probe.
             ret (ssdeep_report t artifact reference (descriptor_of env reference r) (pb_version probe) r
                    (base ''complete'' QUALIFIED))))))"

subsection \<open>The registry: \<open>build_generic_analyzers\<close>\<close>

text \<open>What the analyzers share with their process: the host, the digests, the parsers' library, the clock readings of
  a call and the frames the stack has left.\<close>

record 'x analyzer_host =
  ah_host :: "'x host"
  ah_digests :: digests
  ah_raw_output :: path
  ah_env :: analyzer_env
  ah_document :: document_env
  ah_times :: call_times
  ah_frames :: nat

definition runner_of :: "runtime_settings \<Rightarrow> runner" where
  "runner_of rt = \<lparr>rn_timeout = nat (rt_default_timeout_seconds rt), rn_memory_mib = nat (rt_memory_limit_mib rt),
     rn_use_bwrap = rt_use_bubblewrap rt\<rparr>"

definition validator_of :: "nat \<Rightarrow> runtime_settings \<Rightarrow> validator" where
  "validator_of frames rt = \<lparr>va_max_bytes = nat (rt_max_structural_validation_bytes rt),
     va_max_nodes = nat (rt_max_structural_validation_nodes rt), va_depth = frames\<rparr>"

type_synonym 'x analyze = "input_artifact \<Rightarrow> path \<Rightarrow> string \<Rightarrow> ('x machine, analyzer_result) py"

definition build_static_analyzers :: "'x analyzer_host \<Rightarrow> runtime_settings \<Rightarrow> (string \<times> 'x analyze) list" where
  "build_static_analyzers ah rt =
     (let h = ah_host ah; rn = runner_of rt; dg = ah_digests ah; raw = ah_raw_output ah; env = ah_env ah; t = ah_times ah in
      [(''strings'', strings_analyze env (strings_limits_of rt) t),
       (''byte-statistics'', byte_statistics_analyze env t),
       (''generic-metadata'', exiftool_analyze h rn dg raw env (exif_limits_of rt) t),
       (''similarity'', ssdeep_analyze h rn dg raw env t)])"

definition build_generic_analyzers :: "'x analyzer_host \<Rightarrow> runtime_settings \<Rightarrow> (string \<times> 'x analyze) list" where
  "build_generic_analyzers ah rt =
     (let t = ah_times ah; started = ct_started t; completed = ct_completed t in
      [(''identity'', identity_analyze t),
       (''basic-metadata'', metadata_analyze (ah_env ah) t),
       (''file-type'', magic_analyze (ah_host ah) (runner_of rt) (ah_digests ah) (ah_raw_output ah) (ah_env ah) t)]
      @ build_static_analyzers ah rt
      @ [(''executable'', \<lambda>artifact source job.
            onfs (executable_analyze (nat (rt_max_executable_parser_bytes rt)) started completed artifact source job)),
         (''document'', \<lambda>artifact source job.
            onfs (document_analyze (ah_document ah) rt started completed artifact source job)),
         (''structural-validator'', \<lambda>artifact source job.
            onfs (structural_analyze (validator_of (ah_frames ah) rt) started started completed (ct_elapsed t) (ct_elapsed t)
                    artifact source job))])"

section \<open>Correctness\<close>

subsection \<open>The strings are bounded, and complete unless marked as truncated\<close>

definition strings_ok :: "strings_limits \<Rightarrow> strings_state \<Rightarrow> bool" where
  "strings_ok bounds st \<longleftrightarrow>
     int (length (sx_values st)) \<le> max 0 (sl_maximum_count bounds)
     \<and> int (kept_chars (sx_values st)) \<le> max 0 (sl_maximum_total bounds)
     \<and> list_all (\<lambda>(_, v). int (length v) \<le> max 0 (sl_maximum bounds)) (sx_values st)"

lemma kept_chars_append: "kept_chars (xs @ [(e, v)]) = kept_chars xs + length v"
  by (simp add: kept_chars_def)

lemma add_string_ok: "strings_ok bounds st \<Longrightarrow> strings_ok bounds (add_string bounds e s st)"
  by (auto simp: strings_ok_def add_string_def Let_def kept_chars_append)

lemma add_string_observed: "sx_observed (add_string bounds e s st) = sx_observed st + 1"
  by (simp add: add_string_def Let_def)

lemma add_string_complete:
  "\<not> sx_truncated (add_string bounds e s st) \<Longrightarrow> \<not> sx_truncated st \<and> sx_values (add_string bounds e s st) = sx_values st @ [(e, s)]"
  by (auto simp: add_string_def Let_def split: if_splits)

lemma collect_fold:
  fixes bounds defines "step \<equiv> \<lambda>(e, s). add_string bounds e s"
  shows "strings_ok bounds st \<Longrightarrow> strings_ok bounds (fold step found_strings st)"
    and "sx_observed (fold step found_strings st) = sx_observed st + length found_strings"
    and "\<not> sx_truncated (fold step found_strings st) \<Longrightarrow>
       \<not> sx_truncated st \<and> sx_values (fold step found_strings st) = sx_values st @ found_strings"
proof (induction found_strings arbitrary: st)
  case (Cons x xs)
  obtain e s where x: "x = (e, s)" by (cases x)
  { case 1 with Cons(1) show ?case by (simp add: x step_def add_string_ok)
  next case 2 show ?case using Cons(2) by (simp add: x step_def add_string_observed)
  next case 3 with Cons(3) [of "step x st"] add_string_complete [of bounds e s st] show ?case by (auto simp: x step_def)
  }
qed simp_all

lemma lang_many_printable:
  "rx_lang (Many printable 2) (b, xs, gs) c \<Longrightarrow> \<exists>u v. xs = u @ v \<and> list_all printable u \<and> 2 \<le> length u \<and> c = (rev u @ b, v, gs)"
  by (erule lang_manyE) auto

lemma string_text: "t \<in> set (rx_texts STRING_RE decoded) \<Longrightarrow> sublist t decoded \<and> list_all printable t \<and> 2 \<le> length t"
proof -
  assume "t \<in> set (rx_texts STRING_RE decoded)"
  then obtain gs where "(t, gs) \<in> set (rx_all STRING_RE [] decoded)" by (auto simp: rx_texts_def)
  from rx_all_sound [OF this] obtain p v where data: "decoded = p @ t @ v"
    and lang: "rx_lang STRING_RE (rev p @ [], t @ v, []) (rev t @ rev p @ [], v, gs)" by blast
  from lang_many_printable [OF lang [unfolded STRING_RE_def]] obtain u w where
    u: "t @ v = u @ w" "list_all printable u" "2 \<le> length u" "rev t @ rev p = rev u @ rev p" by auto
  with data show ?thesis by auto
qed

text \<open>What a string of the source is: printable, at least two characters, and a part of one of the views.\<close>

definition source_string :: "bytes \<Rightarrow> string \<times> pystr \<Rightarrow> bool" where
  "source_string data x \<longleftrightarrow>
     list_ex (\<lambda>(e, decoded). e = fst x \<and> sublist (snd x) decoded) (decoded_views data) \<and> list_all printable (snd x)"

lemma all_strings_source: "x \<in> set (all_strings data) \<Longrightarrow> source_string data x \<and> 2 \<le> length (snd x)"
  by (auto simp: all_strings_def source_string_def list_ex_iff dest!: string_text)

subsection \<open>The matcher finds exactly the printable runs\<close>

function printable_runs :: "pystr \<Rightarrow> pystr list" where
  "printable_runs [] = []"
| "printable_runs (c # cs) =
     (if printable c then takeWhile printable (c # cs) # printable_runs (dropWhile printable cs) else printable_runs cs)"
  by pat_completeness auto
termination by (relation "measure length") (auto simp: le_imp_less_Suc length_dropWhile_le)

lemma string_match:
  "rx_match STRING_RE b xs =
     (let r = takeWhile printable xs in if 2 \<le> length r then Some (rev r @ b, dropWhile printable xs, []) else None)"
proof -
  have "take (length (takeWhile printable xs)) xs = takeWhile printable xs" "drop (length (takeWhile printable xs)) xs = dropWhile printable xs"
    by (metis takeWhile_eq_take, metis dropWhile_eq_drop)
  then show ?thesis by (auto simp: rx_match_def STRING_RE_def run_length_def advance_def Let_def)
qed

lemma string_texts_runs: "map fst (rx_all STRING_RE b xs) = filter (\<lambda>r. 2 \<le> length r) (printable_runs xs)"
proof (induction xs arbitrary: b rule: printable_runs.induct)
  case (2 c cs)
  show ?case
  proof (cases "printable c \<and> cs \<noteq> [] \<and> printable (hd cs)")
    case True
    then obtain d ds where cs: "cs = d # ds" and p: "printable c" "printable d" by (cases cs) auto
    let ?r = "takeWhile printable (c # cs)"
    have match: "rx_match STRING_RE b (c # cs) = Some (rev ?r @ b, dropWhile printable cs, [])"
      using p by (simp add: string_match cs)
    have shorter: "length (dropWhile printable cs) < length (c # cs)" by (simp add: le_imp_less_Suc length_dropWhile_le)
    have parts: "c # cs = ?r @ dropWhile printable cs" using p(1) by (metis dropWhile.simps(2) takeWhile_dropWhile_id)
    have taken: "take (length (c # cs) - length (dropWhile printable cs)) (c # cs) = ?r"
      by (subst (1 2) parts) (simp del: takeWhile.simps)
    have "rx_all STRING_RE b (c # cs) = (?r, []) # rx_all STRING_RE (rev ?r @ b) (dropWhile printable cs)"
      by (simp only: rx_all.simps(2) match option.case prod.case shorter if_True taken)
    moreover have "2 \<le> length ?r" using p by (simp add: cs)
    moreover have "printable_runs (c # cs) = ?r # printable_runs (dropWhile printable cs)" using p(1) by simp
    ultimately show ?thesis using 2(1) [OF p(1)] by (simp del: printable_runs.simps takeWhile.simps rx_all.simps)
  next
    case False
    have none: "rx_match STRING_RE b (c # cs) = None" using False by (cases cs) (auto simp: string_match)
    have skip: "rx_all STRING_RE b (c # cs) = rx_all STRING_RE (c # b) cs" by (simp add: none)
    show ?thesis
    proof (cases "printable c")
      case True
      with False have "dropWhile printable cs = cs" "takeWhile printable cs = []" by (cases cs; simp)+
      with True 2(1) [OF True, of "c # b"] skip show ?thesis by simp
    next
      case False
      with 2(2) [OF False, of "c # b"] skip show ?thesis by simp
    qed
  qed
qed simp

lemma all_strings_runs:
  "all_strings data = concat (map (\<lambda>(e, decoded). map (\<lambda>s. (e, s)) (filter (\<lambda>r. 2 \<le> length r) (printable_runs decoded))) (decoded_views data))"
  by (simp add: all_strings_def rx_texts_def string_texts_runs)


text \<open>The configured minimum length is not looked at.\<close>

lemma strings_minimum_ignored: "collect_strings (bounds\<lparr>sl_minimum := n\<rparr>) contents = collect_strings bounds contents"
proof -
  have "add_string (bounds\<lparr>sl_minimum := n\<rparr>) = add_string bounds" by (intro ext) (simp add: add_string_def Let_def)
  then show ?thesis by (simp add: collect_strings_def Let_def)
qed

subsection \<open>The histogram\<close>

lemma count_byte_length: "length (count_byte b h) = length h"
  by (simp add: count_byte_def)

lemma histogram_fold:
  "length h = 256 \<Longrightarrow> fold count_byte data h = map (\<lambda>i. h ! i + count_list data (word_of_nat i)) [0..<256]"
proof (induction data arbitrary: h)
  case Nil
  then show ?case by (auto intro!: nth_equalityI)
next
  case (Cons b data)
  have "unat b < 256" using unsigned_less [of b, where ?'a = nat] by simp
  have code: "unat (word_of_nat i :: byte) = i" if "i < 256" for i using that by (simp add: unsigned_of_nat take_bit_eq_mod)
  have "fold count_byte (b # data) h = map (\<lambda>i. count_byte b h ! i + count_list data (word_of_nat i)) [0..<256]"
    using Cons.IH [of "count_byte b h"] Cons.prems by (simp add: count_byte_length)
  also have "\<dots> = map (\<lambda>i. h ! i + count_list (b # data) (word_of_nat i)) [0..<256]"
    using Cons.prems \<open>unat b < 256\<close> by (auto simp: count_byte_def nth_list_update code)
  finally show ?case .
qed

lemma histogram_exact: "histogram_of data = map (\<lambda>i. count_list data (word_of_nat i)) [0..<256]"
  by (simp add: histogram_of_def histogram_fold)

lemma histogram_total: "sum_list (histogram_of data) = length data"
proof -
  have "length h = 256 \<Longrightarrow> sum_list (fold count_byte data h) = sum_list h + length data" for h
  proof (induction data arbitrary: h)
    case (Cons b data)
    have "unat b < length h" using unsigned_less [of b, where ?'a = nat] Cons.prems by simp
    then have "sum_list (count_byte b h) = sum_list h + 1" by (simp add: count_byte_def sum_list_update)
    with Cons show ?case by (simp add: count_byte_length)
  qed simp
  then show ?thesis by (simp add: histogram_of_def sum_list_replicate)
qed

lemma byte_code: "i < 256 \<Longrightarrow> unat (word_of_nat i :: byte) = i"
  by (simp add: unsigned_of_nat take_bit_eq_mod)

lemma byte_small: "unat (b :: byte) < 256"
  using unsigned_less [of b, where ?'a = nat] by simp

lemma count_list_once: "distinct xs \<Longrightarrow> count_list xs b = (if b \<in> set xs then 1 else 0)"
  by (induction xs) auto

lemma count_list_filter: "distinct xs \<Longrightarrow> sum_list (map (count_list data) xs) = length (filter (\<lambda>b. b \<in> set xs) data)"
proof (induction data)
  case (Cons b data)
  have "sum_list (map (count_list (b # data)) xs) = sum_list (map (count_list data) xs) + count_list xs b"
    by (induction xs) auto
  with Cons show ?case by (simp add: count_list_once del: count_list.simps)
qed (simp add: sum_list_0)

lemma code_range:
  assumes "hi \<le> 256"
  shows "set (map word_of_nat [lo..<hi]) = {b :: byte. lo \<le> unat b \<and> unat b < hi}"
    and "distinct (map (word_of_nat :: nat \<Rightarrow> byte) [lo..<hi])"
proof -
  have code: "unat (word_of_nat i :: byte) = i" if "i < hi" for i using that assms by (simp add: byte_code)
  have "b \<in> word_of_nat ` {lo..<hi}" if "lo \<le> unat b" "unat b < hi" for b :: byte
    using that by (intro image_eqI [of _ _ "unat b"]) auto
  then show "set (map word_of_nat [lo..<hi]) = {b :: byte. lo \<le> unat b \<and> unat b < hi}" by (auto simp: code)
  show "distinct (map (word_of_nat :: nat \<Rightarrow> byte) [lo..<hi])"
    by (auto simp: distinct_map inj_on_def) (metis code)
qed

lemma histogram_range:
  assumes "hi \<le> 256"
  shows "sum_list (map ((!) (histogram_of data)) [lo..<hi]) = length (filter (\<lambda>b. lo \<le> unat b \<and> unat b < hi) data)"
proof -
  have "map ((!) (histogram_of data)) [lo..<hi] = map (\<lambda>i. count_list data (word_of_nat i)) [lo..<hi]"
    using assms by (auto simp: histogram_exact)
  also have "\<dots> = map (count_list data) (map word_of_nat [lo..<hi])" by simp
  finally show ?thesis using count_list_filter [OF code_range(2) [OF assms], of data lo] unfolding code_range(1) [OF assms]
    by (simp only: mem_Collect_eq)
qed

lemma printable_count_exact: "printable_count (histogram_of data) = length (filter (\<lambda>b. printable (unat b)) data)"
proof -
  have "printable n \<longleftrightarrow> 0x20 \<le> n \<and> n < 0x7F" for n by (auto simp: printable_def)
  then show ?thesis unfolding printable_count_def using histogram_range [where hi = "127" and lo = "32" and data = data] by simp
qed

lemma unique_count: "length (filter (\<lambda>c. c \<noteq> 0) (histogram_of data)) = card (set data)"
proof -
  have zero: "histogram_of data ! i = 0 \<longleftrightarrow> (word_of_nat i :: byte) \<notin> set data" if "i < 256" for i
    using that by (simp add: histogram_exact count_list_0_iff del: upt.simps)
  have "length (filter (\<lambda>c. c \<noteq> 0) (histogram_of data)) = card {i. i < 256 \<and> histogram_of data ! i \<noteq> 0}"
    by (simp add: length_filter_conv_card histogram_exact)
  also have "{i. i < 256 \<and> histogram_of data ! i \<noteq> 0} = {i. i < 256 \<and> (word_of_nat i :: byte) \<in> set data}"
  proof (rule Collect_cong)
    fix i show "(i < 256 \<and> histogram_of data ! i \<noteq> 0) = (i < 256 \<and> (word_of_nat i :: byte) \<in> set data)"
      by (cases "i < 256") (simp_all only: zero simp_thms)
  qed
  also have "\<dots> = unat ` set data"
  proof (intro set_eqI iffI)
    fix i assume "i \<in> {i. i < 256 \<and> (word_of_nat i :: byte) \<in> set data}"
    then show "i \<in> unat ` set data" using byte_code [of i] by (intro image_eqI [of _ _ "word_of_nat i"]) simp_all
  next
    fix i assume "i \<in> unat ` set data"
    then show "i \<in> {i. i < 256 \<and> (word_of_nat i :: byte) \<in> set data}" using byte_small by auto
  qed
  also have "card \<dots> = card (set data)" by (rule card_image) (auto intro: inj_onI unsigned_word_eqI)
  finally show ?thesis .
qed

text \<open>
  C39: The byte statistics are those of the file: the histogram counts every byte value, its sum is the
  size, the unique count is the number of different bytes and the printable count that of the printable ones.
\<close>

theorem byte_statistics_exact:
  "histogram_of data = map (\<lambda>i. count_list data (word_of_nat i)) [0..<256]
     \<and> sum_list (histogram_of data) = length data
     \<and> length (filter (\<lambda>c. c \<noteq> 0) (histogram_of data)) = card (set data)
     \<and> printable_count (histogram_of data) = length (filter (\<lambda>b. printable (unat b)) data)"
  using histogram_exact histogram_total unique_count printable_count_exact by blast

subsection \<open>The metadata of ExifTool\<close>

definition exif_ok :: "exif_limits \<Rightarrow> (pystr \<times> pystr) list \<Rightarrow> bool" where
  "exif_ok bounds kept \<longleftrightarrow>
     int (kept_chars (map (\<lambda>(k, v). ([], v)) kept)) \<le> max 0 (xl_maximum_total bounds)
     \<and> list_all (\<lambda>(_, v). int (length v) \<le> max 0 (xl_maximum_value bounds)) kept"

lemma exif_loop_ok:
  assumes "exif_ok bounds kept" and "used = kept_chars (map (\<lambda>(k, v). ([], v)) kept)" and "length kept \<le> index"
    and "int (length kept) \<le> max 0 (xl_maximum_fields bounds)"
  shows "exif_ok bounds (fst (exif_loop env bounds index used truncated kept items))
     \<and> int (length (fst (exif_loop env bounds index used truncated kept items))) \<le> max 0 (xl_maximum_fields bounds)"
  using assms
proof (induction items arbitrary: kept used truncated index)
  case (Cons item items)
  obtain k v where item: "item = (k, v)" by (cases item)
  define full where "full = (if k = asc ''SourceFile'' then posix_name (ae_str env v) else ae_str env v)"
  define shown where "shown = (if int (length full) > xl_maximum_value bounds then take (nat (xl_maximum_value bounds)) full else full)"
  show ?case
  proof (cases "int index \<ge> xl_maximum_fields bounds \<or> int (used + length shown) > xl_maximum_total bounds \<or> k = asc ''System:Directory''")
    case True
    then show ?thesis using Cons.prems Cons.IH [of kept used "Suc index"]
      by (auto simp: item full_def [symmetric] shown_def [symmetric] Let_def)
  next
    case False
    have "exif_ok bounds (kept @ [(k, shown)])" using Cons.prems False
      by (auto simp: exif_ok_def kept_chars_append shown_def)
    with Cons.prems False Cons.IH [of "kept @ [(k, shown)]" "used + length shown" "Suc index"
        "truncated \<or> int (length full) > xl_maximum_value bounds"]
    show ?thesis by (auto simp: item full_def [symmetric] shown_def [symmetric] Let_def kept_chars_append)
  qed
qed simp

text \<open>A run killed by a signal has a negative code, which the greatest of the codes hides.\<close>

lemma signal_masked:
  assumes "cm_exit_code r1 = 0" "cm_exit_code r2 = - 11" "cm_exit_code r3 = 0"
  shows "cm_exit_code (combined_result elapsed [(''description'', r1), (''mime_type'', r2), (''encoding'', r3)]) = 0"
  using assms by (simp add: combined_result_def)

subsection \<open>The built-in analyzers leave the machine alone\<close>

definition external_tools :: "string list" where
  "external_tools = [''file-type'', ''generic-metadata'', ''similarity'']"

lemma onfs_unchanged: "(\<And>s. snd (m s) = s) \<Longrightarrow> snd (onfs m x) = x" for m :: "(fs, 'a) py" and x :: "'x machine"
  by (cases x) (auto simp: onfs_def zoomP_def split: prod.splits; metis snd_conv)

lemma read_file_unchanged: "snd (read_file p s) = s"
  by (simp add: read_file_def split: option.split)

lemma bind_unchanged: "(\<And>s. snd (m s) = s) \<Longrightarrow> (\<And>v s. snd (f v s) = s) \<Longrightarrow> snd (bindP m f s) = s"
  by (auto simp: bindP_def split: prod.split sum.split; metis snd_conv)

lemma unless_unchanged: "(\<And>s. snd (m s) = s) \<Longrightarrow> (\<And>e s. snd (h e s) = s) \<Longrightarrow> snd (unless_os_error m h s) = s"
  by (auto simp: unless_os_error_def tryP_def split: prod.split sum.split; metis snd_conv)

lemmas unchanged = onfs_unchanged bind_unchanged unless_unchanged read_file_unchanged

lemma plain_unchanged: "snd (ret v s) = s" "snd (liftP m s) = s"
  by simp_all



end
