(* ===== verification/Recursion.thy ===== *)
theory Recursion
  imports Containers
begin

unbundle bit_operations_syntax

section \<open>Properties of the container layer\<close>

text \<open>
  First the views of the job that extraction leaves alone (\<open>job_frame\<close>) and the invariants it keeps
  (\<open>job_invariant\<close>), proved once for any invariant; then their two instances: the contract of a job
  processor, and the budget of the extraction tree. Then the recursion's fuel, the streams, the
  member names, and the scan service with its analyzer.
\<close>

subsection \<open>What extraction leaves alone\<close>

text \<open>A usage update that touches none of the counters that bound the extraction.\<close>

definition minor :: "(extraction_usage \<Rightarrow> extraction_usage) \<Rightarrow> bool" where
  "minor g \<longleftrightarrow> (\<forall>u. u_children_materialized (g u) = u_children_materialized u
     \<and> u_total_extracted_bytes (g u) = u_total_extracted_bytes u \<and> u_max_depth_reached (g u) = u_max_depth_reached u)"

lemma minor_basic [simp]:
  "minor (add_event ev)" "minor (\<lambda>u. u\<lparr>u_children_discovered := h u\<rparr>)" "minor (\<lambda>u. u\<lparr>u_materialized_partition_bytes := h u\<rparr>)"
  by (simp_all add: minor_def add_event_def)

text \<open>A view of the state that depends on the job only, but not on its notes and minor counters.\<close>

locale job_frame =
  fixes f :: "'x world \<Rightarrow> 't"
  assumes of_job: "w_job w = w_job w' \<Longrightarrow> f w = f w'"
    and of_errors: "f (w\<lparr>w_job := (w_job w)\<lparr>j_errors := es\<rparr>\<rparr>) = f w"
    and of_completeness: "f (w\<lparr>w_job := (w_job w)\<lparr>j_completeness := c\<rparr>\<rparr>) = f w"
    and of_usage: "minor g \<Longrightarrow> f (w\<lparr>w_job := (w_job w)\<lparr>j_extraction_usage := map_option g (j_extraction_usage (w_job w))\<rparr>\<rparr>) = f w"
begin

lemma keeps_of_job: "keeps w_job m \<Longrightarrow> keeps f m"
  unfolding keeps_def using of_job by blast

lemma frame_machine: "keeps f (onmachine m)"
  by (rule keeps_of_job) (simp add: onmachine_def keeps_zoom)

lemma frame_time: "keeps f (now_time sv)" "keeps f (monotonic ce)"
  by (rule keeps_of_job; simp add: keeps_def now_time_def monotonic_def)+

lemma frame_usage: "minor g \<Longrightarrow> keeps f (upd_usage g)"
  unfolding upd_usage_def upd_job_def by (intro keeps_upd) (simp add: of_usage)

lemma frame_notes: "keeps f (add_error msg)" "keeps f (set_completeness c)"
  "keeps f (upd_job (\<lambda>j. j\<lparr>j_errors := j_errors j @ es\<rparr>))"
  unfolding add_error_def set_completeness_def upd_job_def by (intro keeps_upd; simp add: of_errors of_completeness)+

lemma frame_completeness_if:
  "keeps f (upd_job (\<lambda>j. if P j then j\<lparr>j_completeness := c\<rparr> else j))"
  unfolding upd_job_def by (intro keeps_upd) (simp add: of_completeness)

lemmas frame_ops = frame_machine frame_time frame_usage [OF minor_basic(1)] frame_usage [OF minor_basic(2)]
  frame_usage [OF minor_basic(3)] frame_notes frame_completeness_if

lemmas frame_leaf = frame_ops keeps_basic keeps_bind keeps_then keeps_if keeps_when keeps_try keeps_finally

lemma frame_events: "keeps f (limit ev)" "keeps f (skip ev)" "keeps f (read_source p)" "keeps f (partial_error ev msg)"
  unfolding limit_def skip_def read_source_def partial_error_def by (intro frame_leaf)+

lemma keeps_option: "(x = None \<Longrightarrow> keeps f m) \<Longrightarrow> (\<And>v. x = Some v \<Longrightarrow> keeps f (k v)) \<Longrightarrow> keeps f (case x of None \<Rightarrow> m | Some v \<Rightarrow> k v)"
  by (cases x) auto

lemma frame_steps: "keeps f (can_start_child ce)" "keeps f (too_late ce t)" "keeps f (too_late_now ce t)" "keeps f (kind ce p)"
    "keeps f (discard p)" "keeps f (child_artifact sv p name)"
  unfolding can_start_child_def too_late_def too_late_now_def kind_def discard_def child_artifact_def
  by (intro frame_leaf frame_events keeps_option)+

text \<open>The child's scan works on the child's job object: the parent's is in hand again afterwards.\<close>

lemma frame_scan_child: "keeps f (scan_child ce sv artifact p)"
  by (rule keeps_of_job)
    (auto simp: keeps_def scan_child_def bindP_def finallyP_def upd_job_def split: prod.split sum.split)

lemma frame_drain: "keeps f (drain_pipe ce t rs acc)"
proof (induction rs arbitrary: acc)
  case (Cons r rs)
  show ?case unfolding drain_pipe.simps by (intro frame_leaf frame_steps keeps_option Cons.IH)
qed (auto intro!: frame_leaf frame_steps)

lemma frame_tools: "keeps f (extract_stdout ce tool source name t)" "keeps f (run_listing ce k tool source)"
    "keeps f (document_at ce sv source)"
  unfolding extract_stdout_def run_listing_def document_at_def
  by (intro frame_leaf frame_drain frame_events keeps_option)+

lemmas frame_all = frame_events frame_steps frame_scan_child frame_tools frame_ops

end

text \<open>
  An invariant \<open>I\<close> of the job during extraction, and the weaker \<open>J\<close> that an exception may leave.
\<close>

definition preserves :: "('s \<Rightarrow> bool) \<Rightarrow> ('s \<Rightarrow> bool) \<Rightarrow> ('s, 'a) py \<Rightarrow> bool" where
  "preserves I J m \<longleftrightarrow> hoare I m (\<lambda>_. I) (\<lambda>_. J)"

locale job_invariant = job_frame "\<lambda>w. (I w, J w)" for I J :: "'x world \<Rightarrow> bool" +
  assumes weaker: "I w \<Longrightarrow> J w"
begin

lemma of_keeps: "keeps (\<lambda>w. (I w, J w)) m \<Longrightarrow> preserves I J m"
  unfolding preserves_def by (rule hoareI) (auto dest: keepsD weaker)

lemma after_exception: "keeps (\<lambda>w. (I w, J w)) m \<Longrightarrow> preserves J J m"
  unfolding preserves_def by (rule hoareI) (auto dest: keepsD)

lemma pres_ret: "preserves I J (ret v)" and pres_raise: "preserves I J (raiseP e)"
  and pres_get: "preserves I J (getP g)" and pres_lift: "preserves I J (liftP m)"
  by (intro of_keeps keeps_basic)+

lemma pres_bind: "preserves I J m \<Longrightarrow> (\<And>v. preserves I J (k v)) \<Longrightarrow> preserves I J (bindP m k)"
  unfolding preserves_def by (rule hoare_bind)

lemma pres_then: "preserves I J m \<Longrightarrow> preserves I J k \<Longrightarrow> preserves I J (thenP m k)"
  unfolding preserves_def by (rule hoare_then)

lemma pres_if: "(b \<Longrightarrow> preserves I J m) \<Longrightarrow> (\<not> b \<Longrightarrow> preserves I J k) \<Longrightarrow> preserves I J (if b then m else k)"
  by simp

lemma pres_when: "(b \<Longrightarrow> preserves I J m) \<Longrightarrow> preserves I J (whenP b m)"
  by (simp add: whenP_def pres_ret)

lemma pres_option: "(x = None \<Longrightarrow> preserves I J m) \<Longrightarrow> (\<And>v. x = Some v \<Longrightarrow> preserves I J (k v)) \<Longrightarrow>
    preserves I J (case x of None \<Rightarrow> m | Some v \<Rightarrow> k v)"
  by (cases x) auto

lemma pres_pair: "(\<And>a b. preserves I J (k a b)) \<Longrightarrow> preserves I J (case x of (a, b) \<Rightarrow> k a b)"
  by (cases x) auto

lemma pres_loop: "(\<And>x. x \<in> set xs \<Longrightarrow> preserves I J (g x)) \<Longrightarrow> preserves I J (loopP g xs)"
  unfolding preserves_def by (rule hoare_loop)

lemma pres_finally:
  "preserves I J m \<Longrightarrow> keeps (\<lambda>w. (I w, J w)) k \<Longrightarrow> preserves I J (finallyP m k)"
  using of_keeps [of k] after_exception [of k] unfolding preserves_def by (auto intro: hoare_finally)

lemmas pres_rules = pres_ret pres_raise pres_get pres_lift pres_bind pres_then pres_if pres_when pres_option pres_pair pres_loop

lemmas pres_leaf = pres_rules frame_all [THEN of_keeps]

lemma pres_start_entry: "preserves I J m \<Longrightarrow> preserves I J (start_entry ce m)"
  unfolding start_entry_def by (intro pres_rules) (auto intro!: pres_leaf)

lemma pres_continue: "preserves I J m \<Longrightarrow> preserves I J (continue_after m)"
  unfolding continue_after_def by (intro pres_rules)

lemma pres_bounded_entries:
  "(\<And>x. x \<in> set xs \<Longrightarrow> preserves I J (body x)) \<Longrightarrow> preserves I J (bounded_entries ce xs body)"
  unfolding bounded_entries_def Let_def
  by (intro pres_rules pres_start_entry frame_all [THEN of_keeps]) (auto dest: in_set_takeD)

text \<open>The members of archives and file systems are filtered by \<open>_safe_name\<close> before they are added.\<close>

definition adds :: "'x container_env \<Rightarrow> 'x add_child \<Rightarrow> bool" where
  "adds ce add \<longleftrightarrow> (\<forall>stream name index relation metadata.
     (relation \<in> {CONTAINS, FILESYSTEM_ENTRY_OF} \<longrightarrow> safe_name (ce_budget ce) name)
     \<longrightarrow> preserves I J (add stream name index relation metadata))"

lemma addsD: "adds ce add \<Longrightarrow> (relation \<in> {CONTAINS, FILESYSTEM_ENTRY_OF} \<Longrightarrow> safe_name (ce_budget ce) name) \<Longrightarrow>
    preserves I J (add stream name index relation metadata)"
  unfolding adds_def by blast

lemma pres_document: "adds ce add \<Longrightarrow> preserves I J (process_document ce add doc)"
proof -
  assume add: "adds ce add"
  have "preserves I J (upd_job (\<lambda>j. case pd_partial doc of None \<Rightarrow> j
            | Some p \<Rightarrow> if p \<noteq> [] \<and> j_completeness j = ''COMPLETE'' then j\<lparr>j_completeness := upper p\<rparr> else j))"
  proof (cases "pd_partial doc")
    case None
    have "keeps (\<lambda>w. (I w, J w)) (upd_job (\<lambda>j. j))"
      unfolding upd_job_def by (intro keeps_upd) simp
    with None show ?thesis by (simp add: of_keeps)
  next
    case (Some p)
    with frame_completeness_if [of "\<lambda>j. p \<noteq> [] \<and> j_completeness j = ''COMPLETE''" "upper p"]
    show ?thesis by (simp add: of_keeps)
  qed
  then show ?thesis unfolding process_document_def
    by (intro pres_then pres_bounded_entries pres_pair pres_continue addsD [OF add]) simp_all
qed

lemma pres_zip: "adds ce add \<Longrightarrow> preserves I J (process_zip ce add data)"
  unfolding process_zip_def
  by (intro pres_bind pres_lift pres_bounded_entries pres_pair pres_if pres_continue frame_all [THEN of_keeps] addsD) simp_all

lemma pres_tar: "adds ce add \<Longrightarrow> preserves I J (process_tar ce add data)"
  unfolding process_tar_def
  by (intro pres_bind pres_lift pres_bounded_entries pres_pair pres_if pres_continue pres_option pres_ret
      frame_all [THEN of_keeps] addsD) simp_all

lemma pres_compressed: "adds ce add \<Longrightarrow> preserves I J (process_compressed ce add k data)"
  unfolding process_compressed_def
  by (intro pres_bind pres_lift pres_then frame_usage [THEN of_keeps] addsD) simp_all

lemma pres_partition: "adds ce add \<Longrightarrow> preserves I J (process_partition ce add source parent table p)"
  unfolding process_partition_def Let_def
  by (intro pres_if pres_bind pres_then pres_ret pres_get pres_lift pres_continue pres_when frame_all [THEN of_keeps] addsD) simp_all

lemma pres_partitioned_disk: "adds ce add \<Longrightarrow> preserves I J (process_partitioned_disk ce add source parent)"
  unfolding process_partitioned_disk_def
  by (intro pres_bind frame_events(3) [THEN of_keeps])
    (auto intro!: pres_raise pres_ret pres_then pres_when pres_loop pres_start_entry pres_partition frame_events [THEN of_keeps]
      frame_notes [THEN of_keeps] split: sum.split py_exn.split option.split)

lemma pres_disk_image: "adds ce add \<Longrightarrow> preserves I J (process_disk_image ce add source)"
  unfolding process_disk_image_def
  by (intro pres_bind frame_events(3) [THEN of_keeps])
    (auto intro!: pres_raise pres_ret pres_bounded_entries pres_continue frame_events [THEN of_keeps] addsD
      split: sum.split py_exn.split option.split)

lemma pres_temporary:
  "(\<And>t. preserves I J (body t)) \<Longrightarrow> preserves I J (with_temporary_directory ce body)"
  unfolding with_temporary_directory_def Let_def
  by (intro pres_bind pres_get pres_then pres_finally frame_machine [THEN of_keeps] frame_machine)

lemma pres_listed: "adds ce add \<Longrightarrow> preserves I J (process_listed ce add t k tool source entry)"
  unfolding process_listed_def unpack_lha_def unpack_7z_def
  by (intro pres_pair pres_if pres_bind pres_lift pres_get pres_continue pres_option pres_ret pres_temporary
      frame_all [THEN of_keeps] addsD) simp_all

lemma pres_external: "adds ce add \<Longrightarrow> preserves I J (process_external_archive ce add t source k)"
  unfolding process_external_archive_def Let_def
  by (intro pres_option pres_bind pres_then pres_if pres_lift pres_bounded_entries pres_listed frame_all [THEN of_keeps])

lemma pres_process_kind: "adds ce add \<Longrightarrow> preserves I J (process_kind ce add t source parent k)"
  unfolding process_kind_def
  by (intro pres_if pres_then pres_bind pres_zip pres_tar pres_compressed pres_partitioned_disk pres_disk_image
      pres_external frame_events [THEN of_keeps] frame_notes [THEN of_keeps])

end

subsection \<open>Materialising\<close>

definition with_event :: "string \<Rightarrow> 'x world \<Rightarrow> 'x world" where
  "with_event ev w = w\<lparr>w_job := (w_job w)\<lparr>j_extraction_usage := map_option (add_event ev) (j_extraction_usage (w_job w))\<rparr>\<rparr>"

lemma limit_eq: "limit ev w = (Inr (), with_event ev w)"
  by (simp add: limit_def upd_usage_def upd_job_def with_event_def)

text \<open>\<open>x\<close> is the state after a copy: clock readings apart, at most one limit event was added.\<close>

definition copied_from :: "'x world \<Rightarrow> 'x world \<Rightarrow> bool" where
  "copied_from w x \<longleftrightarrow> w_machine x = w_machine w
     \<and> (w_job x = w_job w \<or> (\<exists>ev. w_job x = w_job (with_event ev w)))"

lemma copy_chunks_result:
  assumes "copy_chunks ce t0 parent_size failure cs acc w = (r, x)"
  shows "copied_from w x
     \<and> (case r of
          Inl e \<Rightarrow> failure = Some e \<and> w_job x = w_job w
        | Inr None \<Rightarrow> True
        | Inr (Some content) \<Rightarrow> failure = None \<and> w_job x = w_job w \<and> content = acc @ concat cs
            \<and> length content \<le> max (length acc) (b_max_single_child_bytes (ce_budget ce))
            \<and> u_total_extracted_bytes (usage_of w) + length content
                \<le> max (u_total_extracted_bytes (usage_of w) + length acc) (b_max_total_extracted_bytes (ce_budget ce)))"
  using assms
proof (induction cs arbitrary: acc w)
  case Nil
  then show ?case by (auto simp: copied_from_def split: option.splits)
next
  case (Cons c cs)
  define w1 where "w1 = w\<lparr>w_ticks := Suc (w_ticks w)\<rparr>"
  have w1: "w_machine w1 = w_machine w" "w_job w1 = w_job w" "usage_of w1 = usage_of w"
    by (simp_all add: w1_def usage_of_def)
  define late where "late \<longleftrightarrow> ce_monotonic ce (w_ticks w) - t0 > 1000000 * int (b_max_extraction_time_seconds (ce_budget ce))"
  have "(\<exists>ev. r = Inr None \<and> x = with_event ev w1)
     \<or> (copy_chunks ce t0 parent_size failure cs (acc @ c) w1 = (r, x)
        \<and> length (acc @ c) \<le> b_max_single_child_bytes (ce_budget ce)
        \<and> u_total_extracted_bytes (usage_of w) + length (acc @ c) \<le> b_max_total_extracted_bytes (ce_budget ce))"
    using Cons.prems w1(3)
    by (auto simp: bindP_def thenP_def too_late_def monotonic_def Let_def limit_eq w1_def late_def not_less split: if_splits)
  then show ?case
  proof (elim disjE exE conjE)
    fix ev assume "r = Inr None" "x = with_event ev w1"
    then show ?thesis by (auto simp: copied_from_def with_event_def w1)
  next
    assume step: "copy_chunks ce t0 parent_size failure cs (acc @ c) w1 = (r, x)"
      and b: "length (acc @ c) \<le> b_max_single_child_bytes (ce_budget ce)"
        "u_total_extracted_bytes (usage_of w) + length (acc @ c) \<le> b_max_total_extracted_bytes (ce_budget ce)"
    have "copied_from w x" if "copied_from w1 x" using that by (simp add: copied_from_def with_event_def w1)
    with Cons.IH [OF step] b show ?thesis
      by (auto simp: w1 max_def split: sum.splits option.splits)
  qed
qed

lemma discard_result:
  assumes "discard target w = (r, x)"
  shows "w_job x = w_job w \<and> (file_at target (fst (w_machine x)) = None \<or> is_dir target (fst (w_machine x)))
     \<and> (p = target \<or> file_at p (fst (w_machine x)) = file_at p (fst (w_machine w)))
     \<and> (r = Inr () \<or> r = Inl OSError)"
  using assms
  by (auto simp: discard_def py_defs onmachine_def onfs_def unlink_def fs_exists_def split: prod.splits if_splits)

definition total_bytes :: "'x world \<Rightarrow> nat" where
  "total_bytes w = u_total_extracted_bytes (usage_of w)"

text \<open>What \<open>materialize\<close> leaves behind.\<close>

definition materialized :: "'x container_env \<Rightarrow> byte_source \<Rightarrow> path \<Rightarrow> 'x world \<Rightarrow> nat option res \<Rightarrow> 'x world \<Rightarrow> bool" where
  "materialized ce stream target w r x \<longleftrightarrow>
     (case r of
        Inr (Some n) \<Rightarrow>
          snd stream = None \<and> n = length (concat (fst stream))
          \<and> file_at target (fst (w_machine x)) = Some (concat (fst stream))
          \<and> n \<le> b_max_single_child_bytes (ce_budget ce)
          \<and> total_bytes w + n \<le> max (total_bytes w) (b_max_total_extracted_bytes (ce_budget ce))
          \<and> w_job x = (w_job w)\<lparr>j_extraction_usage := map_option (\<lambda>u. u\<lparr>u_total_extracted_bytes := u_total_extracted_bytes u + n\<rparr>)
                (j_extraction_usage (w_job w))\<rparr>
      | _ \<Rightarrow> (file_at target (fst (w_machine x)) = None \<or> is_dir target (fst (w_machine x)))
             \<and> (w_job x = w_job w \<or> (\<exists>ev. w_job x = w_job (with_event ev w))))"

lemma unlessP_cases:
  assumes "unlessP success k m w = (r, x)"
  obtains (success) v where "m w = (Inr v, x)" "success v" "r = Inr v"
    | (undone) r0 w0 rk where "m w = (r0, w0)" "\<And>v. r0 = Inr v \<Longrightarrow> \<not> success v" "k w0 = (rk, x)"
        "r = (case rk of Inl e \<Rightarrow> Inl e | Inr _ \<Rightarrow> r0)"
  using assms unfolding unlessP_def by (auto split: prod.splits sum.splits if_splits)

lemma write_empty:
  assumes "onmachine (onfs (write_new target [])) w = (r, w1)"
  shows "(r = Inr () \<and> w1 = w\<lparr>w_machine := (put_file target [] (fst (w_machine w)), snd (w_machine w))\<rparr>)
     \<or> (r = Inl OSError \<and> w1 = w)"
  using assms by (auto simp: onmachine_def onfs_def zoomP_def write_new_def split: prod.splits if_splits)

lemma materialize_result:
  assumes "materialize ce stream target parent_size t0 w = (r, x)"
  shows "(p = target \<or> file_at p (fst (w_machine x)) = file_at p (fst (w_machine w))) \<and> materialized ce stream target w r x"
proof -
  let ?body = "thenP (onmachine (onfs (write_new target [])))
       (bindP (copy_chunks ce t0 parent_size (snd stream) (fst stream) []) (\<lambda>copied.
        case copied of
          None \<Rightarrow> ret None
        | Some content \<Rightarrow>
            thenP (onmachine (onfs (updP (put_file target content))))
            (thenP (upd_usage (\<lambda>u. u\<lparr>u_total_extracted_bytes := u_total_extracted_bytes u + length content\<rparr>))
            (ret (Some (length content))))))"
  have body: "(p = target \<or> file_at p (fst (w_machine w0)) = file_at p (fst (w_machine w)))
     \<and> (case r0 of Inr (Some n) \<Rightarrow> materialized ce stream target w r0 w0
        | _ \<Rightarrow> w_job w0 = w_job w \<or> (\<exists>ev. w_job w0 = w_job (with_event ev w)))"
    if run: "?body w = (r0, w0)" for r0 w0
  using run
  proof (cases rule: thenP_cases)
    case (raised e)
    then show ?thesis using write_empty [OF raised(1)] by auto
  next
    case (went u w1)
    then have w1: "w1 = w\<lparr>w_machine := (put_file target [] (fst (w_machine w)), snd (w_machine w))\<rparr>"
      using write_empty [OF went(1)] by auto
    have same: "usage_of w1 = usage_of w" "w_job w1 = w_job w" "with_event ev w1 = (with_event ev w)\<lparr>w_machine := w_machine w1\<rparr>" for ev
      by (simp_all add: w1 usage_of_def with_event_def)
    from went(2) show ?thesis
    proof (cases rule: bindP_cases)
      case (raised e)
      then show ?thesis using copy_chunks_result [OF raised(1)] same by (auto simp: copied_from_def w1)
    next
      case (went c w2)
      note c = copy_chunks_result [OF went(1)]
      show ?thesis
      proof (cases c)
        case None
        then show ?thesis using went c same by (auto simp: copied_from_def w1)
      next
        case (Some content)
        with c same have "w_job w2 = w_job w" "content = concat (fst stream)" "snd stream = None" "w_machine w2 = w_machine w1"
          "length content \<le> b_max_single_child_bytes (ce_budget ce)"
          "total_bytes w + length content \<le> max (total_bytes w) (b_max_total_extracted_bytes (ce_budget ce))"
          by (auto simp: copied_from_def total_bytes_def)
        then show ?thesis using went(2) Some
          by (auto simp: thenP_def bindP_def onmachine_def onfs_def zoomP_def upd_usage_def upd_job_def materialized_def w1 split: if_splits)
      qed
    qed
  qed
  from assms show ?thesis unfolding materialize_def
  proof (cases rule: unlessP_cases)
    case (success v)
    with body [OF success(1)] show ?thesis by auto
  next
    case (undone r0 w0 rk)
    from body [OF undone(1)] discard_result [OF undone(3), of p] undone(2)
    show ?thesis
      by (auto simp: undone(4) materialized_def split: sum.splits option.splits)
  qed
qed

subsection \<open>The contract of a job processor\<close>

interpretation core_kept: job_invariant "\<lambda>w. core w = c" "\<lambda>w. core w = c" for c
  by unfold_locales (auto simp: core_def)

lemma keeps_iff: "keeps f m \<longleftrightarrow> (\<forall>c. preserves (\<lambda>w. f w = c) (\<lambda>w. f w = c) m)"
proof -
  have "preserves (\<lambda>w. f w = c) (\<lambda>w. f w = c) m \<longleftrightarrow> (\<forall>s. f s = c \<longrightarrow> f (snd (m s)) = c)" for c
    unfolding preserves_def hoare_def by (auto split: prod.splits sum.splits) (metis prod.collapse)
  then show ?thesis by (auto simp: keeps_def)
qed

lemma core_materialize: "keeps core (materialize ce stream target n t)"
  unfolding keeps_def
proof
  fix w
  obtain r x where run: "materialize ce stream target n t w = (r, x)" by fastforce
  from materialize_result [OF run, of target] show "core (snd (materialize ce stream target n t w)) = core w"
    by (auto simp: run materialized_def core_def with_event_def split: sum.splits option.splits)
qed

interpretation core_frame: job_frame core
  by unfold_locales (auto simp: core_def)

lemma core_upd_usage: "keeps core (upd_usage g)"
  unfolding upd_usage_def by (intro keeps_intros) simp

lemma core_extract_child:
  "(\<And>p a d. keeps core (recurse p a d)) \<Longrightarrow>
     keeps core (extract_child ce sv ex recurse parent stream name index relation depth n metadata)"
  unfolding extract_child_def scan_and_record_def descend_def append_derived_def append_relationship_def count_materialized_def Let_def
  by (intro core_frame.frame_leaf core_frame.frame_all core_materialize core_upd_usage keeps_upd_job) simp_all

lemma core_process_object: "keeps core (process_object ce sv ex fuel source parent depth)"
proof (induction fuel arbitrary: source parent depth)
  case (Suc fuel)
  define add where "add = (\<lambda>stream name index relation metadata.
      bindP (read_source source) (\<lambda>data. extract_child ce sv ex (process_object ce sv ex fuel) parent stream name index relation
        depth (length data) metadata))"
  have "keeps core (add stream name index relation metadata)" for stream name index relation metadata
    unfolding add_def by (intro core_frame.frame_leaf core_frame.frame_events core_extract_child Suc.IH)
  then have "core_kept.adds c ce add" for c
    unfolding core_kept.adds_def keeps_iff by blast
  then have "keeps core (process_document ce add doc)" "keeps core (process_kind ce add t source parent k)" for doc t k
    unfolding keeps_iff by (auto intro: core_kept.pres_document core_kept.pres_process_kind)
  then show ?case unfolding process_object.simps Let_def add_def [symmetric]
    by (intro core_frame.frame_leaf core_frame.frame_all core_frame.keeps_option)
qed (simp add: keeps_basic)

interpretation container: job_processor "container_process ce sv source" for ce sv source
proof
  show "keeps core (container_process ce sv source)"
    unfolding container_process_def Let_def
    by (intro core_frame.frame_leaf core_frame.frame_all core_process_object keeps_upd_job) simp_all
qed

subsection \<open>The extraction tree and its budget\<close>

definition d_ident :: "derived_object \<Rightarrow> string" where
  "d_ident d = (case d_object d of Obj_Identity oi \<Rightarrow> oi_sha256 oi | Obj_Artifact a \<Rightarrow> h_sha256 (a_hashes a) | Obj_Dict _ \<Rightarrow> [])"

definition d_bytes :: "derived_object \<Rightarrow> nat" where
  "d_bytes d = (case d_object d of Obj_Identity oi \<Rightarrow> nat (oi_size oi) | _ \<Rightarrow> 0)"

text \<open>An object with this digest at this depth is the root or one of the extracted objects.\<close>

definition known_parent :: "string \<Rightarrow> derived_object list \<Rightarrow> string \<Rightarrow> nat \<Rightarrow> bool" where
  "known_parent root_sha ds sha depth \<longleftrightarrow>
     (depth = 0 \<and> sha = root_sha) \<or> list_ex (\<lambda>d. d_depth d = depth \<and> d_ident d = sha) ds"

definition tree_ok :: "string \<Rightarrow> derived_object list \<Rightarrow> bool" where
  "tree_ok root_sha ds \<longleftrightarrow>
     list_all (\<lambda>i. known_parent root_sha (take i ds) (d_parent_sha256 (ds ! i)) (d_depth (ds ! i) - 1)) [0..<length ds]"

definition identity_ok :: "derived_object \<Rightarrow> bool" where
  "identity_ok d \<longleftrightarrow> (case d_object d of Obj_Identity oi \<Rightarrow> valid_identity oi | _ \<Rightarrow> False)"

definition object_within :: "extraction_budget \<Rightarrow> derived_object \<Rightarrow> bool" where
  "object_within b d \<longleftrightarrow> 1 \<le> d_depth d \<and> d_depth d \<le> b_max_recursion_depth b \<and> d_bytes d \<le> b_max_single_child_bytes b
     \<and> identity_ok d"

text \<open>A relationship record repeats its object's facts; archive and file system members have safe names.\<close>

definition relationship_ok :: "extraction_budget \<Rightarrow> derived_object \<Rightarrow> object_relationship \<Rightarrow> bool" where
  "relationship_ok b d r \<longleftrightarrow>
     rel_source_sha256 r = d_parent_sha256 d \<and> rel_target_sha256 r = d_ident d \<and> rel_depth r = d_depth d
     \<and> rel_member_name r = d_member_name d \<and> rel_member_index r = d_member_index d
     \<and> (if rel_relationship r \<in> {CONTAINS, FILESYSTEM_ENTRY_OF}
        then (case rel_member_name r of None \<Rightarrow> False | Some name \<Rightarrow> safe_name b name) else True)"

definition extraction_ok ::
  "extraction_budget \<Rightarrow> string \<Rightarrow> derived_object list \<Rightarrow> object_relationship list \<Rightarrow> extraction_usage \<Rightarrow> bool" where
  "extraction_ok b root_sha ds rs u \<longleftrightarrow>
     length ds \<le> u_children_materialized u \<and> u_children_materialized u \<le> b_max_total_children b
     \<and> sum_list (map d_bytes ds) \<le> u_total_extracted_bytes u \<and> u_total_extracted_bytes u \<le> b_max_total_extracted_bytes b
     \<and> u_max_depth_reached u \<le> b_max_recursion_depth b
     \<and> list_all (object_within b) ds \<and> tree_ok root_sha ds
     \<and> length rs \<le> length ds \<and> list_all2 (relationship_ok b) (take (length rs) ds) rs"

lemma tree_ok_snoc: "tree_ok root_sha (ds @ [d]) \<longleftrightarrow> tree_ok root_sha ds \<and> known_parent root_sha ds (d_parent_sha256 d) (d_depth d - 1)"
proof -
  have "list_all (\<lambda>i. known_parent root_sha (take i (ds @ [d])) (d_parent_sha256 ((ds @ [d]) ! i)) (d_depth ((ds @ [d]) ! i) - 1)) [0..<length ds]
      \<longleftrightarrow> tree_ok root_sha ds"
    unfolding tree_ok_def by (rule list_all_cong) (auto simp: nth_append)
  then show ?thesis by (simp add: tree_ok_def)
qed

lemma known_parent_mono: "known_parent root_sha ds s k \<Longrightarrow> known_parent root_sha (ds @ es) s k"
  by (auto simp: known_parent_def)

text \<open>
  The invariant: what was there before stays, the additions are within the budget, and the objects
  in \<open>S\<close> (digest and depth) are known. Between the two appends of a child there is one object more
  than there are relationships; an exception may leave it so.
\<close>

definition grown ::
  "extraction_budget \<Rightarrow> string \<Rightarrow> scan_job \<Rightarrow> (string \<times> nat) set \<Rightarrow> (derived_object list \<Rightarrow> object_relationship list \<Rightarrow> bool)
   \<Rightarrow> 'x world \<Rightarrow> bool" where
  "grown b root_sha job0 S P w \<longleftrightarrow>
     (\<exists>ds rs u. j_derived_objects (w_job w) = j_derived_objects job0 @ ds \<and> j_relationships (w_job w) = j_relationships job0 @ rs
       \<and> j_extraction_usage (w_job w) = Some u \<and> extraction_ok b root_sha ds rs u
       \<and> (\<forall>(s, k) \<in> S. known_parent root_sha ds s k) \<and> P ds rs)"

abbreviation grown_I where "grown_I b root_sha job0 S \<equiv> grown b root_sha job0 S (\<lambda>ds rs. length rs = length ds)"
abbreviation grown_J where "grown_J b root_sha job0 S \<equiv> grown b root_sha job0 S (\<lambda>ds rs. True)"

lemma extraction_ok_minor:
  assumes "minor g" shows "extraction_ok b root_sha ds rs (g u) = extraction_ok b root_sha ds rs u"
  using assms by (simp add: minor_def extraction_ok_def)

lemma grown_job: "w_job w = w_job w' \<Longrightarrow> grown b root_sha job0 S P w = grown b root_sha job0 S P w'"
  unfolding grown_def by simp

interpretation growing: job_invariant "grown_I b root_sha job0 S" "grown_J b root_sha job0 S" for b root_sha job0 S
proof
  fix w w' :: "'x world"
  assume "w_job w = w_job w'"
  then show "(grown_I b root_sha job0 S w, grown_J b root_sha job0 S w) = (grown_I b root_sha job0 S w', grown_J b root_sha job0 S w')"
    unfolding grown_def by simp
next
  fix w :: "'x world" and g
  assume g: "minor g"
  have "grown b root_sha job0 S P (w\<lparr>w_job := (w_job w)\<lparr>j_extraction_usage := map_option g (j_extraction_usage (w_job w))\<rparr>\<rparr>)
      = grown b root_sha job0 S P w" for P
    by (cases "j_extraction_usage (w_job w)") (simp_all add: grown_def extraction_ok_minor [OF g])
  then show "(grown_I b root_sha job0 S (w\<lparr>w_job := (w_job w)\<lparr>j_extraction_usage := map_option g (j_extraction_usage (w_job w))\<rparr>\<rparr>),
      grown_J b root_sha job0 S (w\<lparr>w_job := (w_job w)\<lparr>j_extraction_usage := map_option g (j_extraction_usage (w_job w))\<rparr>\<rparr>))
      = (grown_I b root_sha job0 S w, grown_J b root_sha job0 S w)" by simp
qed (auto simp: grown_def)

subsection \<open>One extracted object keeps the budget\<close>

lemma hoare_job:
  assumes "keeps w_job m"
  shows "hoare (\<lambda>w. Q (w_job w)) m (\<lambda>_ w. Q (w_job w)) (\<lambda>_ w. Q (w_job w))"
  using assms by (auto simp: hoare_def keeps_def split: prod.split sum.split) (metis snd_conv)+

lemma child_artifact_result:
  assumes "child_artifact sv p name w = (r, x)"
  shows "w_job x = w_job w
     \<and> (case r of Inl _ \<Rightarrow> True
        | Inr a \<Rightarrow> (case file_at p (fst (w_machine w)) of None \<Rightarrow> False | Some bs \<Rightarrow> a_byte_size a = int (length bs))
            \<and> (\<exists>v. validate_hashes (a_hashes a) = Inr v))"
  using assms
  by (auto simp: child_artifact_def now_time_def hash_file_def read_chunked_exact validate_input_artifact_def py_defs
      onmachine_def onfs_def split: prod.splits sum.splits option.splits if_splits)

definition hash_ok :: "input_artifact \<Rightarrow> bool" where
  "hash_ok a \<longleftrightarrow> (\<exists>v. validate_hashes (a_hashes a) = Inr v) \<and> 0 \<le> a_byte_size a"

lemma hoare_fact: "(c0 \<Longrightarrow> hoare P m Q E) \<Longrightarrow> hoare (\<lambda>w. c0 \<and> P w) m Q E"
  by (cases c0) (simp_all add: hoare_def)

text \<open>
  A child of \<open>n\<close> bytes is written but not yet recorded; \<open>k\<close> is 1 once it is counted.
\<close>

definition pending_child ::
  "extraction_budget \<Rightarrow> string \<Rightarrow> scan_job \<Rightarrow> (string \<times> nat) set \<Rightarrow> nat \<Rightarrow> nat \<Rightarrow> scan_job \<Rightarrow> bool" where
  "pending_child b root_sha job0 S n k job \<longleftrightarrow>
     (\<exists>ds rs u. j_derived_objects job = j_derived_objects job0 @ ds \<and> j_relationships job = j_relationships job0 @ rs
       \<and> j_extraction_usage job = Some u \<and> extraction_ok b root_sha ds rs u
       \<and> (\<forall>(s, d) \<in> S. known_parent root_sha ds s d) \<and> length rs = length ds
       \<and> sum_list (map d_bytes ds) + n \<le> u_total_extracted_bytes u \<and> n \<le> b_max_single_child_bytes b
       \<and> length ds + k \<le> u_children_materialized u \<and> u_children_materialized u + 1 \<le> b_max_total_children b + k)"

definition recorded_child ::
  "extraction_budget \<Rightarrow> string \<Rightarrow> scan_job \<Rightarrow> (string \<times> nat) set \<Rightarrow> derived_object \<Rightarrow> scan_job \<Rightarrow> bool" where
  "recorded_child b root_sha job0 S d job \<longleftrightarrow>
     (\<exists>ds rs u. j_derived_objects job = j_derived_objects job0 @ ds @ [d] \<and> j_relationships job = j_relationships job0 @ rs
       \<and> j_extraction_usage job = Some u \<and> extraction_ok b root_sha (ds @ [d]) rs u
       \<and> (\<forall>(s, k) \<in> S. known_parent root_sha (ds @ [d]) s k) \<and> length rs = length ds)"

lemma pending_grown: "pending_child b root_sha job0 S n k (w_job w) \<Longrightarrow> grown_J b root_sha job0 S w"
  unfolding pending_child_def grown_def by blast

lemma recorded_grown: "recorded_child b root_sha job0 S d (w_job w) \<Longrightarrow> grown_J b root_sha job0 S w"
  unfolding recorded_child_def grown_def by blast

lemma hoare_count_child:
  "hoare (\<lambda>w. pending_child b root_sha job0 S n 0 (w_job w)) count_materialized
     (\<lambda>_ w. pending_child b root_sha job0 S n 1 (w_job w)) E"
  unfolding count_materialized_def upd_usage_def upd_job_def pending_child_def extraction_ok_def by (rule hoare_upd) auto

lemma record_child:
  assumes "pending_child b root_sha job0 S n 1 job" and "d_bytes d = n \<and> identity_ok d" and "1 \<le> d_depth d" "d_depth d \<le> b_max_recursion_depth b"
    and "(d_parent_sha256 d, d_depth d - 1) \<in> S"
  shows "recorded_child b root_sha job0 (insert (d_ident d, d_depth d) S) d (job\<lparr>j_derived_objects := j_derived_objects job @ [d]\<rparr>)"
proof -
  from assms(1) obtain ds rs u where job: "j_derived_objects job = j_derived_objects job0 @ ds"
      "j_relationships job = j_relationships job0 @ rs" "j_extraction_usage job = Some u" "extraction_ok b root_sha ds rs u"
      "\<forall>(s, d) \<in> S. known_parent root_sha ds s d" "length rs = length ds"
    and room: "sum_list (map d_bytes ds) + n \<le> u_total_extracted_bytes u" "n \<le> b_max_single_child_bytes b"
      "length ds + 1 \<le> u_children_materialized u"
    unfolding pending_child_def by blast
  have "extraction_ok b root_sha (ds @ [d]) rs u"
    using job room assms(2-5) by (auto simp: extraction_ok_def tree_ok_snoc object_within_def)
  moreover have "\<forall>(s, k) \<in> insert (d_ident d, d_depth d) S. known_parent root_sha (ds @ [d]) s k"
    using job(5) by (auto intro: known_parent_mono) (simp add: known_parent_def)
  ultimately show ?thesis unfolding recorded_child_def using job by (auto intro!: exI [of _ ds] exI [of _ rs])
qed

lemma record_relationship:
  assumes "recorded_child b root_sha job0 S d (w_job w)" and "relationship_ok b d r"
  shows "grown_I b root_sha job0 S (w\<lparr>w_job := (w_job w)\<lparr>j_relationships := j_relationships (w_job w) @ [r]\<rparr>\<rparr>)"
proof -
  from assms(1) obtain ds rs u where job: "j_derived_objects (w_job w) = j_derived_objects job0 @ ds @ [d]"
      "j_relationships (w_job w) = j_relationships job0 @ rs" "j_extraction_usage (w_job w) = Some u"
      "extraction_ok b root_sha (ds @ [d]) rs u"
      "\<forall>(s, k) \<in> S. known_parent root_sha (ds @ [d]) s k" "length rs = length ds"
    unfolding recorded_child_def by blast
  then have "extraction_ok b root_sha (ds @ [d]) (rs @ [r]) u"
    using assms(2) by (auto simp: extraction_ok_def list_all2_appendI)
  with job show ?thesis unfolding grown_def by (auto intro!: exI [of _ "ds @ [d]"] exI [of _ "rs @ [r]"])
qed

lemma deepen_child:
  assumes "grown_I b root_sha job0 S w" and "depth \<le> b_max_recursion_depth b"
  shows "grown_I b root_sha job0 S (w\<lparr>w_job := (w_job w)\<lparr>j_extraction_usage :=
     map_option (\<lambda>u. u\<lparr>u_max_depth_reached := max (u_max_depth_reached u) depth\<rparr>) (j_extraction_usage (w_job w))\<rparr>\<rparr>)"
proof -
  from assms(1) obtain ds rs u where job: "j_derived_objects (w_job w) = j_derived_objects job0 @ ds"
      "j_relationships (w_job w) = j_relationships job0 @ rs" "j_extraction_usage (w_job w) = Some u"
      "extraction_ok b root_sha ds rs u" "\<forall>(s, k) \<in> S. known_parent root_sha ds s k" "length rs = length ds"
    unfolding grown_def by blast
  then have "extraction_ok b root_sha ds rs (u\<lparr>u_max_depth_reached := max (u_max_depth_reached u) depth\<rparr>)"
    using assms(2) by (simp add: extraction_ok_def)
  with job show ?thesis unfolding grown_def by auto
qed

lemma materialize_pending:
  assumes "materialize ce stream target parent_size t0 w = (r, x)" and "grown_I (ce_budget ce) root_sha job0 S w"
    and "u_children_materialized (usage_of w) < b_max_total_children (ce_budget ce)"
  shows "case r of
      Inr (Some n) \<Rightarrow> pending_child (ce_budget ce) root_sha job0 S n 0 (w_job x)
        \<and> (\<exists>bs. file_at target (fst (w_machine x)) = Some bs \<and> length bs = n)
    | _ \<Rightarrow> grown_I (ce_budget ce) root_sha job0 S x"
proof -
  note m = materialize_result [OF assms(1), of target]
  from assms(2) obtain ds rs u where job: "j_derived_objects (w_job w) = j_derived_objects job0 @ ds"
      "j_relationships (w_job w) = j_relationships job0 @ rs" "j_extraction_usage (w_job w) = Some u"
      "extraction_ok (ce_budget ce) root_sha ds rs u" "\<forall>(s, k) \<in> S. known_parent root_sha ds s k" "length rs = length ds"
    unfolding grown_def by blast
  have u: "usage_of w = u" using job(3) by (simp add: usage_of_def)
  have event: "grown_I (ce_budget ce) root_sha job0 S x" if "w_job x = w_job w \<or> (\<exists>ev. w_job x = w_job (with_event ev w))"
    using that
  proof (elim disjE exE)
    assume "w_job x = w_job w"
    then show ?thesis using grown_job assms(2) by metis
  next
    fix ev assume "w_job x = w_job (with_event ev w)"
    moreover have "grown_I (ce_budget ce) root_sha job0 S (with_event ev w)"
      using growing.of_usage [of "add_event ev" "ce_budget ce" root_sha job0 S w] assms(2) by (simp add: with_event_def)
    ultimately show ?thesis using grown_job by metis
  qed
  have "pending_child (ce_budget ce) root_sha job0 S n 0 (w_job x)"
    if n: "n \<le> b_max_single_child_bytes (ce_budget ce)"
      "total_bytes w + n \<le> max (total_bytes w) (b_max_total_extracted_bytes (ce_budget ce))"
      "w_job x = (w_job w)\<lparr>j_extraction_usage := map_option (\<lambda>u. u\<lparr>u_total_extracted_bytes := u_total_extracted_bytes u + n\<rparr>)
                (j_extraction_usage (w_job w))\<rparr>" for n
  proof -
    have "extraction_ok (ce_budget ce) root_sha ds rs (u\<lparr>u_total_extracted_bytes := u_total_extracted_bytes u + n\<rparr>)"
      "sum_list (map d_bytes ds) + n \<le> u_total_extracted_bytes u + n" "length ds \<le> u_children_materialized u"
      using job(4) n(2) by (auto simp: extraction_ok_def total_bytes_def u max_def split: if_splits)
    then show ?thesis using job n(1,3) assms(3) unfolding pending_child_def u by auto
  qed
  with m event show ?thesis by (auto simp: materialized_def split: sum.splits option.splits)
qed

lemma grown_subset: "grown b root_sha job0 T P w \<Longrightarrow> S \<subseteq> T \<Longrightarrow> grown b root_sha job0 S P w"
  unfolding grown_def by blast

lemma preserves_subset:
  assumes "preserves (grown_I b root_sha job0 T) (grown_J b root_sha job0 T) m" and "S \<subseteq> T"
  shows "hoare (grown_I b root_sha job0 T) m (\<lambda>_. grown_I b root_sha job0 S) (\<lambda>_. grown_J b root_sha job0 S)"
  using assms(1) unfolding preserves_def by (rule hoare_weaken) (auto intro: grown_subset [OF _ assms(2)])

lemma hoare_descend:
  assumes "depth \<le> b_max_recursion_depth b" and "S \<subseteq> T"
    and "depth < b_max_recursion_depth b \<Longrightarrow> preserves (grown_I b root_sha job0 T) (grown_J b root_sha job0 T) (recurse target child depth)"
    and "b = ce_budget ce"
  shows "hoare (grown_I b root_sha job0 T) (descend ce recurse target child depth)
     (\<lambda>_. grown_I b root_sha job0 S) (\<lambda>_. grown_J b root_sha job0 S)"
  unfolding descend_def
proof (rule hoare_then [where R = "grown_I b root_sha job0 T"])
  show "hoare (grown_I b root_sha job0 T) (upd_usage (\<lambda>u. u\<lparr>u_max_depth_reached := max (u_max_depth_reached u) depth\<rparr>))
     (\<lambda>_. grown_I b root_sha job0 T) (\<lambda>_. grown_J b root_sha job0 S)"
    unfolding upd_usage_def upd_job_def using assms(1) by (intro hoare_upd) (simp add: deepen_child)
  have "preserves (grown_I b root_sha job0 T) (grown_J b root_sha job0 T)
      (bindP (kind ce target) (\<lambda>k. whenP (k \<noteq> None) (limit ''RECURSION_LIMIT_REACHED'')))"
    by (intro growing.pres_bind growing.pres_when growing.frame_all [THEN growing.of_keeps])
  then show "hoare (grown_I b root_sha job0 T)
     (if depth \<ge> b_max_recursion_depth (ce_budget ce)
      then bindP (kind ce target) (\<lambda>k. whenP (k \<noteq> None) (limit ''RECURSION_LIMIT_REACHED''))
      else recurse target child depth) (\<lambda>_. grown_I b root_sha job0 S) (\<lambda>_. grown_J b root_sha job0 S)"
    using assms(2-4) by (auto intro!: hoare_if preserves_subset)
qed

lemma hoare_keeps_job:
  assumes "keeps w_job m" and "\<And>w. Q (w_job w) \<Longrightarrow> E w"
  shows "hoare (\<lambda>w. Q (w_job w)) m (\<lambda>_ w. Q (w_job w)) (\<lambda>_. E)"
  by (rule hoare_weaken [OF hoare_job [of m Q, OF assms(1)]]) (auto intro: assms(2))

lemma scan_child_keeps_job: "keeps w_job (scan_child ce sv artifact p)"
  by (auto simp: keeps_def scan_child_def bindP_def finallyP_def upd_job_def split: prod.split sum.split)

text \<open>The facts of the new object and of its relationship.\<close>

lemma derived_of_facts:
  "d_bytes (derived_of parent child depth name index md j) = nat (a_byte_size child)"
  "d_depth (derived_of parent child depth name index md j) = depth"
  "d_ident (derived_of parent child depth name index md j) = h_sha256 (a_hashes child)"
  "d_parent_sha256 (derived_of parent child depth name index md j) = h_sha256 (a_hashes parent)"
  by (simp_all add: derived_of_def d_bytes_def d_ident_def)

lemma relationship_of_ok:
  "(relation \<in> {CONTAINS, FILESYSTEM_ENTRY_OF} \<Longrightarrow> safe_name b name) \<Longrightarrow>
     relationship_ok b (derived_of parent child depth name index md j) (relationship_of relation parent child depth name index now)"
  by (simp add: relationship_ok_def relationship_of_def derived_of_def d_ident_def)

lemma identity_of_child:
  "hash_ok child \<Longrightarrow> identity_ok (derived_of parent child depth name index md j)"
  by (simp add: identity_ok_def derived_of_def valid_identity_def hash_ok_def validate_hashes_def split: if_splits)

lemma pres_scan_and_record:
  assumes parent: "(h_sha256 (a_hashes parent), depth) \<in> S" and depth: "depth < b_max_recursion_depth b"
    and safe: "relation \<in> {CONTAINS, FILESYSTEM_ENTRY_OF} \<Longrightarrow> safe_name b name" and b: "b = ce_budget ce"
    and recurse: "\<And>p a. depth + 1 < b_max_recursion_depth b \<Longrightarrow>
          preserves (grown_I b root_sha job0 (insert (h_sha256 (a_hashes a), depth + 1) S))
            (grown_J b root_sha job0 (insert (h_sha256 (a_hashes a), depth + 1) S)) (recurse p a (depth + 1))"
  shows "hoare (\<lambda>w. pending_child b root_sha job0 S n 0 (w_job w)
           \<and> (\<exists>bs. file_at target (fst (w_machine w)) = Some bs \<and> length bs = n))
     (scan_and_record ce sv recurse parent target name index relation (depth + 1) metadata)
     (\<lambda>_. grown_I b root_sha job0 S) (\<lambda>_. grown_J b root_sha job0 S)"
  unfolding scan_and_record_def
proof (rule hoare_then [where R = "\<lambda>w. pending_child b root_sha job0 S n 1 (w_job w)
           \<and> (\<exists>bs. file_at target (fst (w_machine w)) = Some bs \<and> length bs = n)"], goal_cases)
  case 1
  show ?case unfolding count_materialized_def upd_usage_def upd_job_def
    using hoare_count_child [of b root_sha job0 S n] unfolding count_materialized_def upd_usage_def upd_job_def
    by (auto simp: hoare_def)
next
  case 2
  let ?J = "grown_J b root_sha job0 S"
  show ?case
  proof (rule hoare_bind [where R = "\<lambda>a w. hash_ok a \<and> pending_child b root_sha job0 S (nat (a_byte_size a)) 1 (w_job w)"], goal_cases)
    case 1
    show ?case
      by (rule hoareI) (auto dest!: child_artifact_result split: option.splits intro: pending_grown simp: hash_ok_def)
  next
    case (2 child)
    show ?case
    proof (rule hoare_fact, rule hoare_bind [where R = "\<lambda>_ w. pending_child b root_sha job0 S (nat (a_byte_size child)) 1 (w_job w)"], goal_cases)
      case 1
      show ?case by (rule hoare_keeps_job [OF scan_child_keeps_job]) (rule pending_grown)
    next
      case (2 done_job)
      let ?T = "insert (h_sha256 (a_hashes child), depth + 1) S"
      let ?d = "derived_of parent child (depth + 1) name index metadata done_job"
      have derived: "hoare (\<lambda>w. pending_child b root_sha job0 S (nat (a_byte_size child)) 1 (w_job w)) (append_derived ?d)
          (\<lambda>_ w. recorded_child b root_sha job0 ?T ?d (w_job w)) (\<lambda>_. ?J)"
        unfolding append_derived_def upd_job_def
        using record_child [of b root_sha job0 S _ _ ?d] depth parent identity_of_child [OF 2(1)]
        by (intro hoare_upd) (simp add: derived_of_facts)
      have time: "hoare (\<lambda>w. recorded_child b root_sha job0 ?T ?d (w_job w)) (now_time sv)
          (\<lambda>_ w. recorded_child b root_sha job0 ?T ?d (w_job w)) (\<lambda>_. ?J)"
        by (simp add: hoare_def now_time_def)
      have related: "hoare (\<lambda>w. recorded_child b root_sha job0 ?T ?d (w_job w))
          (append_relationship (relationship_of relation parent child (depth + 1) name index now)) (\<lambda>_. grown_I b root_sha job0 ?T) (\<lambda>_. ?J)" for now
        unfolding append_relationship_def upd_job_def
        by (intro hoare_upd record_relationship) (assumption, rule relationship_of_ok, rule safe)
      have below: "hoare (grown_I b root_sha job0 ?T) (descend ce recurse target child (depth + 1)) (\<lambda>_. grown_I b root_sha job0 S) (\<lambda>_. ?J)"
        using depth recurse b by (intro hoare_descend) auto
      show ?case by (rule hoare_then [OF derived hoare_bind [OF time hoare_then [OF related below]]])
    qed
  qed
qed

lemma pres_extract_child:
  assumes parent: "(h_sha256 (a_hashes parent), depth) \<in> S" and depth: "depth < b_max_recursion_depth b"
    and safe: "relation \<in> {CONTAINS, FILESYSTEM_ENTRY_OF} \<Longrightarrow> safe_name b name" and b: "b = ce_budget ce"
    and recurse: "\<And>p a. depth + 1 < b_max_recursion_depth b \<Longrightarrow>
          preserves (grown_I b root_sha job0 (insert (h_sha256 (a_hashes a), depth + 1) S))
            (grown_J b root_sha job0 (insert (h_sha256 (a_hashes a), depth + 1) S)) (recurse p a (depth + 1))"
  shows "preserves (grown_I b root_sha job0 S) (grown_J b root_sha job0 S)
     (extract_child ce sv ex recurse parent stream name index relation depth parent_size metadata)"
proof -
  let ?I = "grown_I b root_sha job0 S" and ?J = "grown_J b root_sha job0 S"
  let ?room = "\<lambda>w. u_children_materialized (usage_of w) < b_max_total_children b"
  let ?rest = "\<lambda>target (m :: nat option). if m = None then ret ()
      else scan_and_record ce sv recurse parent target name index relation (depth + 1) metadata"
  have start: "hoare ?I (can_start_child ce) (\<lambda>ok w. ?I w \<and> (ok \<longrightarrow> ?room w)) (\<lambda>_. ?J)"
  proof (rule hoareI)
    fix s v s'
    assume s: "?I s" "can_start_child ce s = (Inr v, s')"
    have "preserves ?I ?J (can_start_child ce)" by (rule growing.frame_steps(1) [THEN growing.of_keeps])
    with s have "?I s'" unfolding preserves_def by (auto dest: hoareD_Inr)
    with s show "?I s' \<and> (v \<longrightarrow> ?room s')"
      by (auto simp: can_start_child_def py_defs b limit_eq split: if_splits)
  qed (auto simp: can_start_child_def py_defs limit_eq split: if_splits)
  have copy: "hoare (\<lambda>w. ?I w \<and> ?room w) (materialize ce stream target parent_size (ex_started ex))
      (\<lambda>m w. case m of None \<Rightarrow> ?I w | Some n \<Rightarrow> pending_child b root_sha job0 S n 0 (w_job w)
           \<and> (\<exists>bs. file_at target (fst (w_machine w)) = Some bs \<and> length bs = n)) (\<lambda>_. ?J)" for target
  proof (rule hoareI)
    fix s e s'
    assume "?I s \<and> ?room s" "materialize ce stream target parent_size (ex_started ex) s = (Inl e, s')"
    then have "?I s'" by (auto simp: b dest!: materialize_pending)
    then show "?J s'" by (rule growing.weaker)
  qed (auto simp: b dest!: materialize_pending split: option.splits)
  have rest: "hoare (\<lambda>w. case m of None \<Rightarrow> ?I w | Some n \<Rightarrow> pending_child b root_sha job0 S n 0 (w_job w)
           \<and> (\<exists>bs. file_at target (fst (w_machine w)) = Some bs \<and> length bs = n)) (?rest target m) (\<lambda>_. ?I) (\<lambda>_. ?J)" for target m
  proof (cases m)
    case None
    then show ?thesis by (simp add: hoare_ret)
  next
    case (Some n)
    have "hoare (\<lambda>w. pending_child b root_sha job0 S n 0 (w_job w)
           \<and> (\<exists>bs. file_at target (fst (w_machine w)) = Some bs \<and> length bs = n))
        (scan_and_record ce sv recurse parent target name index relation (depth + 1) metadata) (\<lambda>_. ?I) (\<lambda>_. ?J)"
      by (rule pres_scan_and_record [OF parent depth _ b]) (rule safe, assumption, rule recurse, assumption)
    with Some show ?thesis by simp
  qed
  show ?thesis unfolding preserves_def extract_child_def Let_def
  proof (rule hoare_bind [OF start])
    fix may_start
    have "hoare (\<lambda>w. ?I w \<and> ?room w)
        (bindP (getP usage_of) (\<lambda>u. bindP (materialize ce stream (child_target (ex_root ex) (u_children_materialized u)) parent_size (ex_started ex))
                (?rest (child_target (ex_root ex) (u_children_materialized u))))) (\<lambda>_. ?I) (\<lambda>_. ?J)"
      by (rule hoare_bind [OF hoare_get [where Q = "\<lambda>_ w. ?I w \<and> ?room w"] hoare_bind [OF copy rest]])
    then show "hoare (\<lambda>w. ?I w \<and> (may_start \<longrightarrow> ?room w))
        (if \<not> may_start then ret ()
         else bindP (getP usage_of) (\<lambda>u. bindP (materialize ce stream (child_target (ex_root ex) (u_children_materialized u)) parent_size (ex_started ex))
                (?rest (child_target (ex_root ex) (u_children_materialized u))))) (\<lambda>_. ?I) (\<lambda>_. ?J)"
      by (cases may_start) (simp_all add: hoare_ret)
  qed
qed

subsection \<open>The whole extraction\<close>

lemma process_object_deep:
  "b_max_recursion_depth (ce_budget ce) \<le> depth \<Longrightarrow> process_object ce sv ex (Suc fuel) source parent depth =
     bindP (too_late ce (ex_started ex)) (\<lambda>late. if late then limit ''EXTRACTION_TIME_LIMIT'' else ret ())"
  by simp

lemma pres_process_object:
  assumes "(h_sha256 (a_hashes parent), depth) \<in> S" and "b = ce_budget ce"
  shows "preserves (grown_I b root_sha job0 S) (grown_J b root_sha job0 S) (process_object ce sv ex fuel source parent depth)"
  using assms(1)
proof (induction fuel arbitrary: source parent depth S)
  case 0
  show ?case unfolding process_object.simps by (rule growing.pres_raise)
next
  case (Suc fuel)
  show ?case
  proof (cases "depth < b_max_recursion_depth b")
    case False
    have "preserves (grown_I b root_sha job0 S) (grown_J b root_sha job0 S)
        (bindP (too_late ce (ex_started ex)) (\<lambda>late. if late then limit ''EXTRACTION_TIME_LIMIT'' else ret ()))"
      by (intro growing.pres_rules growing.frame_all [THEN growing.of_keeps])
    with False assms(2) show ?thesis by (simp add: process_object_deep)
  next
    case True
    have "growing.adds b root_sha job0 S ce (\<lambda>stream name index relation metadata.
       bindP (read_source source) (\<lambda>data.
       extract_child ce sv ex (process_object ce sv ex fuel) parent stream name index relation depth (length data) metadata))"
      unfolding growing.adds_def
    proof (intro allI impI)
      fix stream name index relation metadata
      assume safe: "relation \<in> {CONTAINS, FILESYSTEM_ENTRY_OF} \<longrightarrow> safe_name (ce_budget ce) name"
      show "preserves (grown_I b root_sha job0 S) (grown_J b root_sha job0 S) (bindP (read_source source) (\<lambda>data.
         extract_child ce sv ex (process_object ce sv ex fuel) parent stream name index relation depth (length data) metadata))"
        using safe assms(2) Suc.prems True
        by (intro growing.pres_bind growing.frame_events(3) [THEN growing.of_keeps] pres_extract_child Suc.IH) auto
    qed
    then show ?thesis unfolding process_object.simps Let_def
      by (intro growing.pres_bind growing.pres_if growing.pres_ret growing.pres_option growing.pres_document
          growing.pres_process_kind growing.frame_all [THEN growing.of_keeps])
  qed
qed

text \<open>What an extraction may have added to the job when it ends, normally or not.\<close>

definition extracted_within :: "extraction_budget \<Rightarrow> scan_job \<Rightarrow> scan_job \<Rightarrow> bool" where
  "extracted_within b job0 job \<longleftrightarrow>
     (let ds = drop (length (j_derived_objects job0)) (j_derived_objects job);
          rs = drop (length (j_relationships job0)) (j_relationships job)
      in take (length (j_derived_objects job0)) (j_derived_objects job) = j_derived_objects job0
       \<and> take (length (j_relationships job0)) (j_relationships job) = j_relationships job0
       \<and> (case j_extraction_usage job of None \<Rightarrow> False
          | Some u \<Rightarrow> extraction_ok b (h_sha256 (a_hashes (j_input_artifact job0))) ds rs u))"

lemma grown_within: "grown b (h_sha256 (a_hashes (j_input_artifact job0))) job0 S P w \<Longrightarrow> extracted_within b job0 (w_job w)"
  unfolding grown_def extracted_within_def by (auto simp: Let_def)

lemma extraction_ok_empty: "extraction_ok b root_sha [] [] empty_usage"
  by (simp add: extraction_ok_def empty_usage_def tree_ok_def)

lemma container_process_within:
  fixes ce :: "'x container_env"
  shows "hoare (\<lambda>w. w_job w = job0) (container_process ce sv source)
     (\<lambda>_ w. extracted_within (ce_budget ce) job0 (w_job w)) (\<lambda>_ w. extracted_within (ce_budget ce) job0 (w_job w))"
proof -
  let ?b = "ce_budget ce" and ?root = "h_sha256 (a_hashes (j_input_artifact job0))"
  let ?S = "{(?root, 0 :: nat)}"
  let ?I = "grown_I ?b ?root job0 ?S" and ?J = "grown_J ?b ?root job0 ?S"
  have clock: "hoare ?I (monotonic ce) (\<lambda>_. ?I) (\<lambda>_. ?J)" and disk: "hoare ?I (onmachine (m :: ('x machine, unit) py)) (\<lambda>_. ?I) (\<lambda>_. ?J)" for m
    unfolding preserves_def [symmetric] by (intro growing.of_keeps growing.frame_ops)+
  have weaken: "hoare ?I m (\<lambda>_. ?J) (\<lambda>_. ?J)" if "preserves ?I ?J m" for m :: "('x world, unit) py"
    using that unfolding preserves_def by (rule hoare_weaken) (auto intro: growing.weaker)
  have body: "preserves ?I ?J (thenP (process_object ce sv ex fuel source (j_input_artifact job0) 0)
       (bindP (getP usage_of) (\<lambda>u. whenP (u_limit_events u \<noteq> [])
          (upd_job (\<lambda>j. if j_completeness j = ''COMPLETE'' then j\<lparr>j_completeness := ''PARTIAL_LIMIT''\<rparr> else j)))))" for ex fuel
    by (intro growing.pres_then growing.pres_bind growing.pres_when growing.pres_get pres_process_object
        growing.frame_all [THEN growing.of_keeps]) simp_all
  have handler: "hoare ?J (if container_error e
        then thenP (add_error (asc (''container: '' @ exn_class e @ '': '') @ ss_exn_text sv e)) (set_completeness ''PARTIAL_ERROR'')
        else raiseP e) (\<lambda>_. ?J) (\<lambda>_. ?J)" for e
    by (intro growing.after_exception [unfolded preserves_def] growing.frame_leaf)
  have cleanup: "hoare ?J (tryP (onmachine (onfs (rmtree p))) (\<lambda>_. ret ())) (\<lambda>_. ?J) (\<lambda>_. ?J)" for p
    by (intro growing.after_exception [unfolded preserves_def] growing.frame_leaf)
  have start: "hoare (\<lambda>w. w_job w = job0)
     (upd_job (\<lambda>j. j\<lparr>j_extraction_budget := Some ?b, j_extraction_usage := Some empty_usage\<rparr>)) (\<lambda>_. ?I) (\<lambda>_. ?J)"
    unfolding upd_job_def by (rule hoare_upd) (auto simp: grown_def extraction_ok_empty known_parent_def)
  have "hoare (\<lambda>w. w_job w = job0) (container_process ce sv source) (\<lambda>_. ?J) (\<lambda>_. ?J)"
    unfolding container_process_def Let_def
  proof (rule hoare_bind [OF hoare_get [where Q = "\<lambda>j w. w_job w = job0 \<and> j = job0"]], simp)
    fix job :: scan_job
    let ?k = "bindP (monotonic ce) (\<lambda>started.
        thenP (onmachine (onfs (mkdir_parents True (derived_root ce (j_job_id job)))))
        (thenP (onmachine (onfs (mkdir_parents True (ce_scratch ce))))
        (finallyP
          (tryP
            (thenP (process_object ce sv \<lparr>ex_root = derived_root ce (j_job_id job), ex_started = started\<rparr>
                     (b_max_recursion_depth ?b + 1) source (j_input_artifact job) 0)
              (bindP (getP usage_of) (\<lambda>u. whenP (u_limit_events u \<noteq> [])
                 (upd_job (\<lambda>j. if j_completeness j = ''COMPLETE'' then j\<lparr>j_completeness := ''PARTIAL_LIMIT''\<rparr> else j)))))
            (\<lambda>e. if container_error e
                then thenP (add_error (asc (''container: '' @ exn_class e @ '': '') @ ss_exn_text sv e)) (set_completeness ''PARTIAL_ERROR'')
                else raiseP e))
          (tryP (onmachine (onfs (rmtree (derived_root ce (j_job_id job))))) (\<lambda>_. ret ())))))"
    have absurd: "hoare (\<lambda>w. w_job w = job0 \<and> job = job0) m Q E" if "job \<noteq> job0" for m :: "('x world, unit) py" and Q E
      using that by (simp add: hoare_def)
    show "hoare (\<lambda>w. w_job w = job0 \<and> job = job0)
        (thenP (upd_job (\<lambda>j. j\<lparr>j_extraction_budget := Some ?b, j_extraction_usage := Some empty_usage\<rparr>)) ?k) (\<lambda>_. ?J) (\<lambda>_. ?J)"
    proof (cases "job = job0")
      case True
      have "hoare ?I ?k (\<lambda>_. ?J) (\<lambda>_. ?J)" unfolding True
        by (rule hoare_bind [OF clock hoare_then [OF disk hoare_then [OF disk hoare_finally [OF hoare_try [OF weaken [OF body] handler] cleanup cleanup]]]])
      from hoare_then [OF start this] show ?thesis by (rule hoare_weaken) simp_all
    qed (rule absurd)
  qed
  then show ?thesis by (rule hoare_weaken) (auto intro: grown_within)
qed

subsection \<open>The recursion ends\<close>

lemma descend_cong:
  assumes "\<And>p a. depth < b_max_recursion_depth (ce_budget ce) \<Longrightarrow> r p a depth = r' p a depth"
  shows "descend ce r target child depth = descend ce r' target child depth"
  using assms by (simp add: descend_def)

lemma extract_child_cong:
  assumes "\<And>p a. depth + 1 < b_max_recursion_depth (ce_budget ce) \<Longrightarrow> r p a (depth + 1) = r' p a (depth + 1)"
  shows "extract_child ce sv ex r parent stream name index relation depth n metadata
       = extract_child ce sv ex r' parent stream name index relation depth n metadata"
  unfolding extract_child_def scan_and_record_def by (simp only: descend_cong [of "depth + 1" ce r r', OF assms])

lemma process_object_fuel:
  "depth \<le> b_max_recursion_depth (ce_budget ce) \<Longrightarrow> b_max_recursion_depth (ce_budget ce) < depth + fuel \<Longrightarrow>
     process_object ce sv ex (fuel + k) source parent depth = process_object ce sv ex fuel source parent depth"
proof (induction fuel arbitrary: source parent depth)
  case (Suc fuel)
  show ?case
  proof (cases "depth < b_max_recursion_depth (ce_budget ce)")
    case True
    have "process_object ce sv ex (fuel + k) p a (depth + 1) = process_object ce sv ex fuel p a (depth + 1)" for p a
      using Suc.prems True by (intro Suc.IH) simp_all
    then have "extract_child ce sv ex (process_object ce sv ex (fuel + k)) parent stream name index relation depth n metadata
       = extract_child ce sv ex (process_object ce sv ex fuel) parent stream name index relation depth n metadata"
      for stream name index relation n metadata
      by (intro extract_child_cong) simp
    then show ?thesis by (simp only: process_object.simps add_Suc)
  qed (simp add: process_object_deep)
qed simp

subsection \<open>Streams\<close>

lemma concat_chunks: "0 < n \<Longrightarrow> concat (chunks_of n xs) = xs"
proof (induction n xs rule: chunks_of.induct)
  case (1 n xs)
  then show ?case by (simp add: chunks_of.simps [of n xs])
qed

lemma mib_pos: "0 < mib" by (simp add: mib_def)

lemma reader_source_chunks:
  "reader_ok r \<Longrightarrow> length (rr_remaining r) < fuel \<Longrightarrow> reader_source fuel r = (chunks_of mib (rr_remaining r), None)"
proof (induction fuel arbitrary: r)
  case (Suc fuel)
  let ?rest = "rr_remaining r" and ?r = "r\<lparr>rr_position := rr_position r + int (min mib (length (rr_remaining r)))\<rparr>"
  have read: "rr_read (int mib) r = Inr (take mib ?rest, ?r)"
    using rr_read_remaining [OF Suc.prems(1), of "int mib"] by simp
  show ?case
  proof (cases "?rest = []")
    case False
    have adv: "rr_remaining ?r = drop (min mib (length ?rest)) ?rest" "reader_ok ?r"
      using Suc.prems(1) by (intro rr_remaining_advance; simp)+
    then have "reader_source fuel ?r = (chunks_of mib (rr_remaining ?r), None)"
      using Suc.prems(2) False mib_pos by (intro Suc.IH) (auto simp: min_def, (cases fuel; simp)+)
    moreover have "rr_remaining ?r = drop mib ?rest" using adv by (simp add: min_def)
    ultimately show ?thesis using False mib_pos by (simp add: read chunks_of.simps [of mib ?rest])
  qed (simp add: read chunks_of.simps)
qed simp

lemma partition_stream:
  assumes "range_reader_init data start len (int (length data)) = Inr r"
  shows "reader_source (nat len + 1) r = bytes_source (pyslice data (nat start) (nat (start + len)))"
proof -
  have r: "rr_remaining r = pyslice data (nat start) (nat (start + len))" "0 \<le> start" "0 \<le> len"
    using assms by (auto simp: range_reader_init_def rr_remaining_def split: if_splits)
  have "length (pyslice data (nat start) (nat (start + len))) < nat len + 1"
    using r by (simp add: nat_add_distrib)
  then show ?thesis
    using reader_source_chunks [OF range_reader_init_ok [OF assms], of "nat len + 1"] by (simp add: r bytes_source_def)
qed

subsection \<open>Safe names\<close>

lemma split_map_segments:
  assumes "f c = c"
  shows "(\<forall>seg \<in> set (tl (split_on c xs)). list_all (\<lambda>x. f x = x) seg \<longrightarrow> seg \<in> set (tl (split_on c (map f xs))))
     \<and> (list_all (\<lambda>x. f x = x) (hd (split_on c xs)) \<longrightarrow> hd (split_on c (map f xs)) = hd (split_on c xs))"
proof (induction xs)
  case (Cons x xs)
  obtain s ss where o: "split_on c xs = s # ss" by (metis split_on_ne list.exhaust)
  obtain t ts where m: "split_on c (map f xs) = t # ts" by (metis split_on_ne list.exhaust)
  from Cons.IH show ?case using assms by (auto simp: o m)
qed simp

lemma split_map_segment:
  assumes "seg \<in> set (split_on c xs)" and "list_all (\<lambda>x. f x = x) seg" and "f c = c"
  shows "seg \<in> set (split_on c (map f xs))"
proof -
  obtain s ss where o: "split_on c xs = s # ss" by (metis split_on_ne list.exhaust)
  obtain t ts where m: "split_on c (map f xs) = t # ts" by (metis split_on_ne list.exhaust)
  from split_map_segments [where f = f, OF assms(3), of xs] assms(1,2) show ?thesis by (auto simp: o m)
qed

text \<open>An ASCII component of the host comes from the same ASCII component of the name only.\<close>

lemma utf8_char_ascii:
  assumes "list_all (\<lambda>b. unat b < 128) (utf8_char c)"
  shows "c < 128 \<and> utf8_char c = [of_nat c]"
proof (rule ccontr)
  assume "\<not> (c < 128 \<and> utf8_char c = [of_nat c])"
  then have c: "\<not> c < 0x80" by (auto simp: utf8_char_def)
  have tail: "\<not> unat (of_nat (0x80 + k mod 0x40) :: byte) < 128" for k
    by (simp only: unat_of_nat) (simp add: take_bit_eq_mod)
  have "of_nat (0x80 + c mod 0x40) \<in> set (utf8_char c)" using c by (simp add: utf8_char_def)
  with assms tail [of c] show False by (auto simp: list_all_iff)
qed

lemma os_name_ascii: "list_all (\<lambda>x. of_char x < (128 :: nat)) t \<Longrightarrow> os_name s = t \<Longrightarrow> s = asc t"
proof (induction s arbitrary: t)
  case (Cons c cs)
  let ?show = "map (\<lambda>b. char_of (unat b)) :: bytes \<Rightarrow> string"
  have t: "t = ?show (utf8_char c) @ os_name cs" using Cons.prems(2) by (simp add: os_name_def utf8_def)
  have "list_all (\<lambda>b. unat b < 128) (utf8_char c)"
  proof (unfold list_all_iff, intro ballI)
    fix b assume "b \<in> set (utf8_char c)"
    then have "char_of (unat b) \<in> set t" by (auto simp: t)
    with Cons.prems(1) have "of_char (char_of (unat b) :: char) < (128 :: nat)" by (auto simp: list_all_iff)
    moreover have "unat b < 256" using unsigned_less [of b, where 'a = nat] by simp
    ultimately show "unat b < 128" by simp
  qed
  from utf8_char_ascii [OF this] have c: "c < 128" "utf8_char c = [of_nat c]" by auto
  have "os_name cs = drop 1 t" by (simp add: t c)
  moreover have "list_all (\<lambda>x. of_char x < (128 :: nat)) (drop 1 t)"
    using Cons.prems(1) by (auto simp: list_all_iff dest: in_set_dropD)
  ultimately have "cs = asc (drop 1 t)" using Cons.IH by blast
  moreover have "hd t = char_of c" using c by (simp add: t unat_of_nat)
  moreover have "t \<noteq> []" by (simp add: t c)
  ultimately show ?case using c(1) by (cases t) (simp_all add: asc_def)
qed (simp add: os_name_def utf8_def asc_def)

definition plain_component :: "string \<Rightarrow> bool" where
  "plain_component c \<longleftrightarrow> c \<noteq> [] \<and> c \<noteq> ''.'' \<and> c \<noteq> ''..''"

lemma resolve_from_append: "resolve_from acc (a @ b) = resolve_from (rev (resolve_from acc a)) b"
  by (induction a arbitrary: acc) auto

lemma resolve_from_plain: "list_all plain_component p \<Longrightarrow> resolve_from acc p = rev acc @ p"
  by (induction p arbitrary: acc) (auto simp: plain_component_def)

lemma safe_name_below:
  assumes "safe_name b name"
  shows "below (resolve_path d) (resolve_path (below_directory d name))"
proof -
  let ?parts = "filter (\<lambda>p. p \<noteq> [] \<and> p \<noteq> asc ''.'') (split_on 0x2F name)"
  have "plain_component (os_name p)" if "p \<in> set ?parts" for p
  proof -
    have "p \<noteq> asc ''..''"
    proof
      assume "p = asc ''..''"
      with that have "asc ''..'' \<in> set (split_on 0x2F name)" by simp
      then have "asc ''..'' \<in> set (split_on 0x2F (forward_slashes name))"
        unfolding forward_slashes_def by (rule split_map_segment) (simp_all add: asc_def)
      then have "asc ''..'' \<in> set (name_parts name)" by (simp add: name_parts_def asc_def)
      with assms show False by (simp add: safe_name_def split: if_splits)
    qed
    with that show ?thesis
      using os_name_ascii [of "[]" p] os_name_ascii [of "''.''" p] os_name_ascii [of "''..''" p]
      by (auto simp: plain_component_def asc_def)
  qed
  then have "list_all plain_component (map os_name ?parts)" by (auto simp: list_all_iff)
  then have "resolve_path (below_directory d name) = resolve_path d @ map os_name ?parts"
    unfolding resolve_path_def below_directory_def resolve_from_append by (subst resolve_from_plain) simp_all
  then show ?thesis by (simp add: below_def)
qed

subsection \<open>The scan service with its container analyzer\<close>

text \<open>
  The analyzer scans the children with the service that owns it. Children never request
  \<open>container\<close>, and a job that does not request it never calls the analyzer, so the model passes the
  service without it.
\<close>

definition with_containers :: "'x container_env \<Rightarrow> 'x scan_service \<Rightarrow> 'x scan_service" where
  "with_containers ce sv = sv\<lparr>ss_recursive := Some (container_process ce sv)\<rparr>"

lemma service_time: "now_time (sv\<lparr>ss_recursive := r\<rparr>) = now_time sv"
  by (simp add: now_time_def)

lemma service_transition: "job_transition (sv\<lparr>ss_recursive := r\<rparr>) target = job_transition sv target"
  unfolding job_transition_def service_time ..

lemma service_requested: "run_requested (sv\<lparr>ss_recursive := r\<rparr>) source = run_requested sv source"
  by (intro ext) (simp add: run_requested_def run_generic_def run_adapter_def save_status_def service_time cong: if_cong option.case_cong)

lemma service_fields:
  "process_correlation (sv\<lparr>ss_recursive := r\<rparr>) = process_correlation sv"
  "source_changed (sv\<lparr>ss_recursive := r\<rparr>) source job = source_changed sv source job"
  "finish_job (sv\<lparr>ss_recursive := r\<rparr>) source = finish_job sv source"
  "cleanup_job (sv\<lparr>ss_recursive := r\<rparr>) = cleanup_job sv"
  by (simp_all add: process_correlation_def source_changed_def finish_job_def cleanup_job_def service_time service_transition
      cong: if_cong option.case_cong)

lemma thenP_cong: "m w = m' w \<Longrightarrow> thenP m k w = thenP m' k w"
  by (simp add: thenP_def bindP_def)

lemma thenP_cong_keeps:
  assumes "keeps g m" and "\<And>w'. g w' = g w \<Longrightarrow> k w' = k' w'"
  shows "thenP m k w = thenP m k' w"
  using keepsD [OF assms(1)] assms(2) by (auto simp: thenP_def bindP_def split: prod.split sum.split)

lemma execute_queued_without:
  fixes w :: "'x world"
  assumes "''container'' \<notin> set (j_requested_scanners (w_job w))"
  shows "execute_queued (sv\<lparr>ss_recursive := r\<rparr>) source w = execute_queued sv source w"
proof -
  have children: "process_children (sv\<lparr>ss_recursive := r\<rparr>) source v = process_children sv source v"
    if "''container'' \<notin> set (j_requested_scanners (w_job v))" for v
    using that by (simp add: process_children_def bindP_def whenP_def split: option.split)
  let ?rest = "\<lambda>job0. thenP (process_correlation sv) (bindP (source_changed sv source job0) (\<lambda>changed.
      if changed then raiseP (RuntimeError ''READ_ONLY invariant violated: source changed during scan'')
      else finish_job sv source))"
  let ?verdicts = "upd_job (\<lambda>j. j\<lparr>j_root_verdict := Some (aggregate_verdict (j_scanner_results j)),
                           j_normalized_verdict := aggregate_verdict (j_scanner_results j)\<rparr>)"
  have body: "execute_body (sv\<lparr>ss_recursive := r\<rparr>) source v = execute_body sv source v"
    if v: "''container'' \<notin> set (j_requested_scanners (w_job v))" for v
  proof -
    have inner: "thenP ?verdicts (thenP (process_children (sv\<lparr>ss_recursive := r\<rparr>) source) (?rest (w_job v))) u
        = thenP ?verdicts (thenP (process_children sv source) (?rest (w_job v))) u" if "core u = core v" for u
    proof (rule thenP_cong_keeps [where g = core])
      show "keeps core ?verdicts" by (intro keeps_intros) simp
      fix t :: "'x world" assume "core t = core u"
      with that v have "''container'' \<notin> set (j_requested_scanners (w_job t))" by (simp add: core_def)
      then show "thenP (process_children (sv\<lparr>ss_recursive := r\<rparr>) source) (?rest (w_job v)) t
          = thenP (process_children sv source) (?rest (w_job v)) t"
        by (intro thenP_cong children)
    qed
    have "thenP (forP (run_requested sv source) (j_requested_scanners (w_job v)))
          (thenP ?verdicts (thenP (process_children (sv\<lparr>ss_recursive := r\<rparr>) source) (?rest (w_job v)))) v
        = thenP (forP (run_requested sv source) (j_requested_scanners (w_job v)))
          (thenP ?verdicts (thenP (process_children sv source) (?rest (w_job v)))) v"
      by (rule thenP_cong_keeps [where g = core, OF keeps_for [OF keeps_run_requested] inner])
    then show ?thesis unfolding execute_body_def service_fields service_requested by (simp add: bindP_def [of "getP w_job"])
  qed
  have handled: "finallyP (tryP (execute_body (sv\<lparr>ss_recursive := r\<rparr>) source) h) k v = finallyP (tryP (execute_body sv source) h) k v"
    if "''container'' \<notin> set (j_requested_scanners (w_job v))" for v h k
    by (simp add: finallyP_def tryP_def body [OF that])
  have "keeps (\<lambda>w. j_requested_scanners (w_job w)) (job_transition sv RUNNING)"
    unfolding keeps_def job_transition_def
    by (auto simp: py_defs now_time_def transition_def upd_job_def upd_db_def split: prod.splits sum.splits if_splits)
  then have "thenP (job_transition sv RUNNING) (finallyP (tryP (execute_body (sv\<lparr>ss_recursive := r\<rparr>) source) h) k) w
      = thenP (job_transition sv RUNNING) (finallyP (tryP (execute_body sv source) h) k) w" for h k
    by (rule thenP_cong_keeps) (use assms in \<open>simp add: handled\<close>)
  then show ?thesis
    unfolding execute_queued_def service_fields service_transition by (simp add: bindP_def [of "getP w_job"])
qed

text \<open>The job of a child does not request the container analyzer.\<close>

lemma with_containers_ok:
  assumes "case ss_correlation sv of None \<Rightarrow> True | Some p \<Rightarrow> job_processor p"
  shows "processors_ok (with_containers ce sv)"
  using assms by (simp add: processors_ok_def with_containers_def container.job_processor_axioms)

lemma create_queued_requested:
  "create_queued sv i a l requested w = (Inr v, x) \<Longrightarrow> j_requested_scanners (w_job x) = requested"
  by (auto simp: create_queued_def job_transition_def py_defs now_time_def transition_def upd_job_def upd_db_def new_job_def Let_def
      split: if_splits sum.splits prod.splits)

lemma scan_child_owner: "scan_child ce (with_containers ce sv) artifact p = scan_child ce sv artifact p"
proof -
  have create: "create_queued (with_containers ce sv) = create_queued sv"
    by (intro ext) (simp add: create_queued_def with_containers_def service_time service_transition cong: if_cong)
  have run: "thenP (create_queued sv i artifact l (filter (\<lambda>name. name \<noteq> ''container'') xs)) (thenP (execute_queued (with_containers ce sv) p) k) w
      = thenP (create_queued sv i artifact l (filter (\<lambda>name. name \<noteq> ''container'') xs)) (thenP (execute_queued sv p) k) w" for i l xs k w
    unfolding with_containers_def
    by (auto simp: thenP_def bindP_def execute_queued_without create_queued_requested split: prod.split sum.split)
  show ?thesis unfolding scan_child_def create
    by (intro ext) (simp add: bindP_def finallyP_def run)
qed

subsection \<open>A sample environment\<close>

definition sample_budget :: extraction_budget where
  "sample_budget = \<lparr>b_max_recursion_depth = 3, b_max_children_per_object = 100, b_max_total_children = 1000,
     b_max_single_child_bytes = 1024, b_max_total_extracted_bytes = 4096, b_max_expansion_ratio = 100,
     b_max_member_name_bytes = 4096, b_max_path_depth = 32, b_max_extraction_time_seconds = 300,
     b_max_partitions_per_disk = 32, b_max_materialized_partition_bytes = 1024, b_max_total_materialized_partition_bytes = 2048\<rparr>"

definition sample_container_env :: "unit container_env" where
  "sample_container_env = \<lparr>ce_budget = sample_budget, ce_staging = [''staging''], ce_scratch = [''scratch''],
     ce_use_bubblewrap = False, ce_max_document_bytes = 0, ce_frames = 100, ce_monotonic = (\<lambda>_. 0),
     ce_job_id = (\<lambda>n. ''child'' @ show_nat n), ce_temp_name = (\<lambda>n. ''tmp'' @ show_nat n),
     ce_digits = \<lparr>dt_digit = (\<lambda>c. 48 \<le> c \<and> c \<le> 57), dt_decimal = (\<lambda>c. if 48 \<le> c \<and> c \<le> 57 then Some (c - 48) else None)\<rparr>,
     ce_document = (\<lambda>_. Inr None), ce_is_zipfile = (\<lambda>_. False), ce_zip_members = (\<lambda>_. Inr []),
     ce_is_tarfile = (\<lambda>_. Inr False), ce_tar_members = (\<lambda>_. Inr []), ce_decompress = (\<lambda>_ _. Inr ([], None)),
     ce_which = (\<lambda>_. None), ce_run = (\<lambda>_ _ _. raiseP OSError), ce_popen = (\<lambda>_ _. raiseP OSError)\<rparr>"

lemma container_process_ends_within:
  "extracted_within (ce_budget ce) (w_job w) (w_job (snd (container_process ce sv source w)))"
  using container_process_within [of "w_job w" ce sv source]
  by (auto simp: hoare_def split: prod.splits sum.splits) (metis prod.collapse)

subsection \<open>Properties of extraction\<close>



text \<open>
  The scan service with its recursive container analyzer ends every queued job as it does
  without it (\<open>job_finished\<close>): the analyzer keeps the contract of a job processor although it runs
  the whole service on every extracted object.
\<close>

lemma containers_end_job:
  assumes "status_of w = QUEUED" and "case ss_correlation sv of None \<Rightarrow> True | Some p \<Rightarrow> job_processor p"
  shows "job_finished (with_containers ce sv) source (w_job w) (execute_queued (with_containers ce sv) source w)"
  by (rule execute_queued_result [OF assms(1) with_containers_ok [OF assms(2)]])

lemma containers_end_job_witness:
  "job_finished (with_containers sample_container_env sample_service) [''in''] sample_job
     (execute_queued (with_containers sample_container_env sample_service) [''in''] sample_world)"
proof -
  have "status_of sample_world = QUEUED" by (simp add: status_of_def sample_world_def sample_job_def)
  moreover have "case ss_correlation sample_service of None \<Rightarrow> True | Some p \<Rightarrow> job_processor p"
    by (simp add: sample_service_def correlation.job_processor_axioms)
  ultimately have "job_finished (with_containers sample_container_env sample_service) [''in''] (w_job sample_world)
     (execute_queued (with_containers sample_container_env sample_service) [''in''] sample_world)"
    by (rule containers_end_job)
  then show ?thesis by (simp add: sample_world_def)
qed

text \<open>
  C3: materialising a stream is all or nothing. If it yields a size, the stream ended without an
  exception, the file holds exactly its bytes, the size is within the limit for one child and
  within the budget (or the budget was spent before and nothing was added), and the bytes are
  accounted; otherwise no file is left and at most one limit event was recorded. No other file is
  touched.
\<close>

theorem materialize_exact:
  "case materialize ce stream target parent_size started w of (r, w') \<Rightarrow>
     materialized ce stream target w r w' \<and> (p = target \<or> file_at p (fst (w_machine w')) = file_at p (fst (w_machine w)))"
  using materialize_result [of ce stream target parent_size started w] by (auto split: prod.split)

text \<open>
  A member name that passes \<open>_safe_name\<close> stays below the directory it is joined to when the path
  is resolved, whatever separators it uses.
\<close>

lemma safe_name_confined:
  assumes "safe_name b name"
  shows "below (resolve_path d) (resolve_path (below_directory d name))"
  using assms by (rule safe_name_below)

lemma safe_name_confined_witness:
  "below [''scratch''] (resolve_path (below_directory [''scratch''] (asc ''a/./b.txt'')))"
proof -
  have "safe_name sample_budget (asc ''a/./b.txt'')"
    by (simp add: safe_name_def sample_budget_def encoded_length_def utf8_char_def asc_def starts_with_def name_parts_def
        forward_slashes_def)
  from safe_name_confined [OF this, of "[''scratch'']"] show ?thesis by (simp add: resolve_path_def)
qed

text \<open>
  C32: the recursion of the extraction ends: the fuel that \<open>process\<close> gives, one more than the recursion
  limit, is enough, since any more of it changes nothing.
\<close>

theorem extraction_terminates:
  "process_object ce sv ex (b_max_recursion_depth (ce_budget ce) + 1 + k) source parent 0
     = process_object ce sv ex (b_max_recursion_depth (ce_budget ce) + 1) source parent 0"
  by (rule process_object_fuel) simp_all

text \<open>
  A range inside the image is read as a stream of exactly its bytes, in chunks of one MiB; any
  other range is refused.
\<close>

lemma partition_stream_exact:
  "case range_reader_init data start len (int (length data)) of
     Inl e \<Rightarrow> (start < 0 \<or> len < 0 \<or> start + len > int (length data)) \<and> e = PartitionTableError ''byte range lies outside root object''
   | Inr r \<Rightarrow> reader_source (nat len + 1) r = bytes_source (pyslice data (nat start) (nat (start + len)))"
proof (cases "range_reader_init data start len (int (length data))")
  case (Inl e)
  then show ?thesis by (auto simp: range_reader_init_def split: if_splits)
next
  case (Inr r)
  then show ?thesis using partition_stream [OF Inr] by simp
qed

text \<open>
  The children of a container are scanned by the same service that scans the container; since
  they do not request it, the container analyzer itself plays no part in their scans.
\<close>

theorem child_scans_with_owner:
  "scan_child ce (with_containers ce sv) artifact p = scan_child ce sv artifact p"
  by (rule scan_child_owner)

end
