(* ===== verification/Program.thy ===== *)
theory Program
  imports Analyzers Protocol Registry Recursion
begin

section \<open>The assembled program: \<open>runtime/context.py\<close> and \<open>scanners/factory.py\<close>\<close>

text \<open>
  \<open>build_context\<close> connects the components: the adapters, the generic analyzers, the scan service with its
  recursive container analyzer and its correlation service, and the RAB service. The theorem is that the
  service so assembled ends every queued job, with no assumption left about its parts.
\<close>

text \<open>
  What the process takes from outside: the machine and its clocks, the library functions of the adapters,
  of the built-in analyzers and of the containers, and the HTTP correlation provider over the settings.
\<close>

record 'x host_library =
  pl_host :: "'x host"
  pl_digests :: digests
  pl_unicode :: unicode
  pl_mtime :: "path \<Rightarrow> int"
  pl_decode :: "bytes \<Rightarrow> pystr"
  pl_now :: timestamp
  pl_clock :: "nat \<Rightarrow> timestamp"
  pl_exn_text :: "py_exn \<Rightarrow> pystr"
  pl_path :: "pystr \<Rightarrow> path"
  pl_analyzers :: analyzer_env
  pl_documents :: document_env
  pl_times :: call_times
  pl_frames :: nat
  pl_containers :: "'x container_env"
  pl_http :: "'x provider"
  pl_correlation_clock :: "nat \<Rightarrow> int"
  pl_seconds :: "rat \<Rightarrow> int"
  pl_probe :: "string \<Rightarrow> bool \<times> qualification_state"
  pl_printable :: "nat \<Rightarrow> bool"

subsection \<open>\<open>build_adapters\<close>\<close>

definition adapter_of :: "'x host_library \<Rightarrow> app_settings \<Rightarrow> adapter_kind \<Rightarrow> 'x adapter" where
  "adapter_of pl st k =
     \<lparr>ad_kind = k, ad_rules = adapter_rules (pl_path pl (ps_rules (app_paths st))) k, ad_runner = runner_of (app_runtime st),
      ad_raw_output = pl_path pl (ps_raw_output (app_paths st)), ad_host = pl_host pl, ad_digests = pl_digests pl,
      ad_unicode = pl_unicode pl, ad_mtime = pl_mtime pl, ad_decode = pl_decode pl, ad_now = pl_now pl\<rparr>"

definition build_adapters :: "'x host_library \<Rightarrow> app_settings \<Rightarrow> (string \<times> 'x scanner_iface) list" where
  "build_adapters pl st = map (\<lambda>k. (adapter_id k, adapter_iface (adapter_of pl st k))) file_adapter_kinds"

subsection \<open>\<open>build_context\<close>\<close>

definition analyzer_host_of :: "'x host_library \<Rightarrow> app_settings \<Rightarrow> 'x analyzer_host" where
  "analyzer_host_of pl st =
     \<lparr>ah_host = pl_host pl, ah_digests = pl_digests pl, ah_raw_output = pl_path pl (ps_raw_output (app_paths st)),
      ah_env = pl_analyzers pl, ah_document = pl_documents pl, ah_times = pl_times pl, ah_frames = pl_frames pl\<rparr>"

definition container_env_of :: "'x host_library \<Rightarrow> app_settings \<Rightarrow> 'x container_env" where
  "container_env_of pl st =
     (pl_containers pl)
       \<lparr>ce_budget := budget_of (app_runtime st), ce_staging := pl_path pl (ps_staging (app_paths st)),
        ce_scratch := pl_path pl (ps_scratch (app_paths st)), ce_use_bubblewrap := rt_use_bubblewrap (app_runtime st),
        ce_max_document_bytes := nat (rt_max_document_parser_bytes (app_runtime st)), ce_frames := pl_frames pl,
        ce_document := parse_document (pl_documents pl) (app_runtime st)\<rparr>"

definition correlation_provider_of :: "'x host_library \<Rightarrow> app_settings \<Rightarrow> 'x provider" where
  "correlation_provider_of pl st = (if rc_enabled (app_rab_correlation st) then pl_http pl else unavailable_provider)"

definition service_limits_of :: "'x host_library \<Rightarrow> app_settings \<Rightarrow> service_limits" where
  "service_limits_of pl st =
     \<lparr>lim_max_objects = nat (rc_max_correlated_objects_per_job (app_rab_correlation st)),
      lim_max_similarity_queries = nat (rc_max_similarity_queries_per_job (app_rab_correlation st)),
      lim_total_deadline = pl_seconds pl (rc_total_deadline_seconds (app_rab_correlation st))\<rparr>"

definition build_scans :: "'x host_library \<Rightarrow> app_settings \<Rightarrow> 'x scan_service" where
  "build_scans pl st =
     with_containers (container_env_of pl st)
       \<lparr>ss_adapters = map_of (build_adapters pl st),
        ss_generic = map_of (build_generic_analyzers (analyzer_host_of pl st) (app_runtime st)),
        ss_recursive = None,
        ss_correlation = Some (correlation_step id (\<lambda>p _. p) (correlation_provider_of pl st) (service_limits_of pl st)
          (pl_correlation_clock pl) (pl_now pl)),
        ss_staging = pl_path pl (ps_staging (app_paths st)), ss_quarantine = pl_path pl (ps_quarantine (app_paths st)),
        ss_maximum_file_bytes = nat (rt_maximum_file_bytes (app_runtime st)), ss_digests = pl_digests pl,
        ss_clock = pl_clock pl, ss_exn_text = pl_exn_text pl\<rparr>"

definition rab_settings_of :: "'x host_library \<Rightarrow> app_settings \<Rightarrow> rab_settings" where
  "rab_settings_of pl st =
     \<lparr>rab_enabled = rp_enabled (app_rab_protocol st), rab_upload_root = pl_path pl (rp_upload_root (app_rab_protocol st)),
      rab_maximum_upload_bytes = nat (rp_maximum_upload_bytes (app_rab_protocol st)),
      rab_queue_capacity = nat (rp_queue_capacity (app_rab_protocol st)),
      rab_worker_concurrency = nat (rp_worker_concurrency (app_rab_protocol st))\<rparr>"

record 'x avbox_context =
  cx_settings :: app_settings
  cx_registry :: registry
  cx_adapters :: "(string \<times> 'x scanner_iface) list"
  cx_generic_analyzers :: "(string \<times> 'x analyze) list"
  cx_scans :: "'x scan_service"
  cx_rab_protocol :: "'x rab_service"

definition build_context :: "'x host_library \<Rightarrow> app_settings \<Rightarrow> registry res \<Rightarrow> analysis_profile list \<Rightarrow> 'x avbox_context res" where
  "build_context pl st registry profiles =
     bindE registry (\<lambda>reg.
     bindE (load_profiles profiles) (\<lambda>known. Inr
       \<lparr>cx_settings = st, cx_registry = reg, cx_adapters = build_adapters pl st,
        cx_generic_analyzers = build_generic_analyzers (analyzer_host_of pl st) (app_runtime st),
        cx_scans = build_scans pl st,
        cx_rab_protocol =
          \<lparr>rs_settings = rab_settings_of pl st, rs_scans = build_scans pl st, rs_profiles = known,
           rs_raw_output_root = pl_path pl (ps_raw_output (app_paths st)), rs_generic_probe = pl_probe pl,
           rs_printable = pl_printable pl\<rparr>\<rparr>))"

text \<open>
  C4: The service that \<open>build_context\<close> assembles -- its detectors, its ten built-in analyzers, the recursive
  container analyzer with the document parser, and the correlation service -- ends every queued job.
\<close>

theorem assembled_service_ends_jobs:
  "case build_context pl st registry profiles of
     Inl _ \<Rightarrow> True
   | Inr cx \<Rightarrow>
       if status_of w = QUEUED then job_finished (cx_scans cx) source (w_job w) (execute_queued (cx_scans cx) source w) else True"
proof -
  have "job_finished (build_scans pl st) source (w_job w) (execute_queued (build_scans pl st) source w)" if "status_of w = QUEUED"
    unfolding build_scans_def
    by (rule execute_queued_result [OF that with_containers_ok]) (simp add: correlation.job_processor_axioms)
  then show ?thesis by (auto simp: build_context_def split: sum.split)
qed


end
