(* ===== verification/Spec2Isabelle.thy ===== *)
theory Spec2Isabelle
  imports Partitions Disk_Images Preservation Registry Jobs Correlation Scanners Scanning Protocol Executables
    Structural Settings Rab_Api Program
begin

text \<open>
  AVBox: a model of the analysis service and its correctness

  AVBox (package \<open>avbox\<close> under \<open>src/src/avbox\<close>) analyses files for a retro-computing archive. A job
  takes one object through detectors and analyzers, extracts what is inside it, asks a correlation
  service about it, and ends by keeping or quarantining it; a network protocol (RAB) submits jobs and
  reads results. The theories below translate the Python code function by function. A definition has
  the name of its function or method (a leading underscore dropped); the pieces of a long method are
  definitions of their own, composed as the method composes them. Every record has the fields of its
  class in their order.

  How Python is rendered

  An exception is a value of \<open>py_exn\<close>, and a pure function that may raise has the type \<open>'a res\<close>, which is
  \<open>py_exn + 'a\<close> (\<open>Prelude\<close>). Code that changes shared state has the type \<open>('s, 'a) py\<close>: from the state
  before to an outcome and the state after, and what was changed before an exception stays changed
  (\<open>Effects\<close>, with the file system and the triples \<open>hoare\<close> and the frames \<open>keeps\<close>). Python integers are
  \<open>int\<close> or \<open>nat\<close>, bytes are \<open>8 word\<close>, a \<open>str\<close> is the list of its code points (\<open>pystr\<close>) or a HOL string where
  it is a constant of the program, a float that is only passed on is its 64-bit encoding. A \<open>dict\<close> is an
  association list in insertion order. Loops that end by their own measure are \<open>function\<close>s with a
  termination proof; recursion that Python bounds by its stack takes the number of free frames and
  raises \<open>RecursionError\<close> at zero.

  The theories

  \<open>Prelude\<close>, \<open>Effects\<close>, \<open>Models\<close>: exceptions, bytes, values, state; the file system; the enums and
  models of \<open>models/\<close>.
  \<open>Settings\<close>: \<open>config/settings.py\<close>, its fields, bounds and validators, and the extraction budget.
  \<open>Preservation\<close>: \<open>application/artifacts.py\<close> and \<open>preservation/service.py\<close>, hashing and the
  content-addressed quarantine.
  \<open>Registry\<close>: \<open>registry/\<close>, the registry models and their cross references.
  \<open>Jobs\<close>: \<open>models/jobs.py\<close> and \<open>application/jobs.py\<close>, the life cycle of a job and the SQLite store.
  \<open>Scanners\<close>: \<open>scanners/\<close>, the command runner, the five file adapters and the rootkit adapters.
  \<open>Scanning\<close>: \<open>application/scanning.py\<close>, the execution of a job.
  \<open>Correlation\<close>: \<open>correlation/\<close>, the three providers and the service over the object graph.
  \<open>Protocol\<close>, \<open>Rab_Api\<close>: \<open>protocol/service.py\<close> and \<open>api/rab.py\<close>, authentication, idempotent submission,
  queue and workers, restart and shutdown; the routes and the advertised capabilities.
  \<open>Partitions\<close>, \<open>Disk_Images\<close>, \<open>Executables\<close>, \<open>Structural\<close>: the parsers and validators of
  \<open>analyzers/partitions.py\<close>, \<open>disk_images.py\<close>, \<open>executable.py\<close> and \<open>structural.py\<close>.
  \<open>Patterns\<close>, \<open>Documents\<close>, \<open>Compound_Files\<close>, \<open>Packages\<close>: \<open>analyzers/document.py\<close>; a matcher for the regular
  expressions it uses, RTF and PDF, compound files with VBA, OOXML and ODF packages and the analyzer.
  \<open>Analyzers\<close>: \<open>analyzers/generic.py\<close> and \<open>static.py\<close>, and the registry of all generic analyzers.
  \<open>Containers\<close>, \<open>Recursion\<close>: \<open>analyzers/containers.py\<close>, the recursive extraction, and its invariants.
  \<open>Program\<close>: \<open>runtime/context.py\<close> and \<open>scanners/factory.py\<close>, the assembled program.

  How the parts meet

  \<open>execute_queued\<close> (\<open>Scanning\<close>) runs the selected detectors through \<open>scanner_iface\<close> and the generic analyzers
  as functions of the artifact, its path and the job's name. It then calls two job processors, the container
  analyzer and the correlation service, whose contract is the locale \<open>job_processor\<close>: they leave the
  status, the name, the input and the requested scanners of the job alone. Both are interpretations
  (\<open>container\<close> in \<open>Recursion\<close>, \<open>correlation\<close> in \<open>Scanning\<close>), and \<open>Program\<close> puts them together, so that
  \<open>assembled_service_ends_jobs\<close> assumes nothing about them. The other interfaces are \<open>detector_contract\<close>
  (what a classification must keep, for the four kinds of adapters), \<open>correlation_provider\<close> (for the three
  providers), \<open>job_store\<close> (for the database), \<open>byte_stream\<close> (for files read in chunks), and \<open>job_frame\<close> with
  \<open>job_invariant\<close>, in which the invariants of the extraction are proved once for every one of its steps.

  What is proved

  The end of a job: every queued job ends FAILED, COMPLETE with an intact source and no detection, or
  QUARANTINED, whatever the tools do; a worker round takes one item and leaves a terminal job; the job at
  place k of the queue has ended after k + 1 rounds; a shutdown fails what is pending.
  The store and the quarantine: unique keys and columns that agree with the documents in every reachable
  database; admission of detected objects only, never overwriting, under the digest of the bytes stored.
  The extraction: all or nothing for one object; every object within the budget and the whole a tree below
  the artifact with matching relationships, safe names and well-formed identities; termination.
  The parsers: what each may raise on any bytes, bounds of what they return, exactness where the format has a
  reference (FAT chains, checksums, stored LHA archives, the VBA compression, RTF nesting, the partition overlaps), and
  that nothing a validator or a document analyzer says is a verdict.
  The protocol: a submission stores and enqueues exactly one job or changes nothing; authentication needs
  a stored credential with the scope; a job is shown to its owner only.
  The analyzers: strings complete unless marked truncated, byte statistics equal to those of the file, and no
  change of the machine by the analyzers that run no tool.

  Fuel and bounds

  \<open>container_process\<close> runs \<open>process_object\<close> with one level more than the budget's recursion depth, which
  \<open>extraction_terminates\<close> proves enough: a level ends at the depth limit, so \<open>OutOfFuel\<close> is never
  raised. The stream of an upload is read with the fuel its caller gives; \<open>file_read\<close> of a file needs its
  length plus one reads. The recursions of the disk-image walks, the structural validators and the compound-file tree
  take the free stack frames, and the theorems say that one frame more than there are directories, nodes or
  entries is enough. All other loops are total functions.

  Arguments of the model

  Python's libraries outside the language: \<open>hashlib\<close> and \<open>blake3\<close> (\<open>digests\<close>), \<open>zlib\<close>, \<open>zipfile\<close>, \<open>tarfile\<close>,
  \<open>gzip\<close>, \<open>bz2\<close>, \<open>lzma\<close> and \<open>ElementTree\<close> (\<open>container_env\<close>, \<open>document_env\<close>), \<open>yaml\<close>, \<open>httpx\<close> and pydantic's coercions,
  \<open>json\<close>, the Unicode tables, IEEE arithmetic and the text of an exception (\<open>analyzer_env\<close>, \<open>unicode\<close>), the clocks,
  \<open>uuid4\<close>, and the external programs, which may change the file system in any way (\<open>host\<close>, \<open>container_env\<close>). No theorem
  assumes anything about them beyond the hypotheses it shows. \<open>PurePath.suffix\<close> is that of Python 3.12 and 3.13.

  Not modelled

  The HTML page and the open JSON routes of \<open>api/app.py\<close> and the command line (\<open>cli.py\<close>), which print what
  the modelled operations return; logging; file modes, \<open>fsync\<close> and permissions; the threads of the workers,
  whose operations run one after another under the service's lock; reading and decoding the YAML and JSON files;
  the installer, the playbooks and the scripts under \<open>bin\<close> and \<open>scripts\<close>, which only run the system's tools.
\<close>

end
